(* ===== verification/Prelude.thy ===== *)
theory Prelude imports Complex_Main "HOL-Library.Word" "HOL-Library.Char_ord" "HOL-Library.List_Lexorder" "HOL-Library.Multiset" begin

text \<open>
  Shared vocabulary of the development.

  A Go \<open>string\<close> is a sequence of bytes: a \<open>char list\<close>, ordered byte by byte
  (\<open>Char_ord\<close> and \<open>List_Lexorder\<close>), so \<open>length\<close> is Go's \<open>len\<close> and
  \<open><\<close> is Go's string order.  A Go error return \<open>(T, error)\<close> is a value of
  \<open>'e + 'a\<close>: \<open>Inl\<close> carries the error, \<open>Inr\<close> the result.  A pointer that
  is only read is an \<open>option\<close>.
\<close>

section \<open>Collections of facts\<close>

named_theorems go_defs \<open>definitions unfolded to follow the code of an operation\<close>

section \<open>Errors as sums\<close>

definition guardE :: "bool \<Rightarrow> 'e \<Rightarrow> 'e + unit" where
  "guardE bad e = (if bad then Inl e else Inr ())"

fun bindE :: "'e + 'a \<Rightarrow> ('a \<Rightarrow> 'e + 'b) \<Rightarrow> 'e + 'b" where
  "bindE (Inl e) f = Inl e"
| "bindE (Inr x) f = f x"

lemma bindE_Inr_iff [simp]: "bindE r f = Inr y \<longleftrightarrow> (\<exists>x. r = Inr x \<and> f x = Inr y)"
  by (cases r) auto

lemma guardE_Inr_iff [simp]: "guardE b e = Inr u \<longleftrightarrow> \<not> b"
  by (simp add: guardE_def)

lemma guardE_simps [simp]: "guardE True e = Inl e" "guardE False e = Inr ()"
  by (simp_all add: guardE_def)

text \<open>A loop \<open>for _, x := range xs\<close> that returns at the first error.\<close>

fun check_all :: "('a \<Rightarrow> 'e + unit) \<Rightarrow> 'a list \<Rightarrow> 'e + unit" where
  "check_all f [] = Inr ()"
| "check_all f (x # xs) = bindE (f x) (\<lambda>_. check_all f xs)"

lemma check_all_Inr_iff [simp]: "check_all f xs = Inr u \<longleftrightarrow> (\<forall>x\<in>set xs. f x = Inr ())"
  by (induction xs) (auto split: sum.splits)

lemma bindE_assoc: "bindE (bindE r f) g = bindE r (\<lambda>x. bindE (f x) g)"
  by (cases r) auto

text \<open>A loop that folds a fallible step over a list, stopping at the first error.\<close>

fun foldE :: "('s \<Rightarrow> 'a \<Rightarrow> 'e + 's) \<Rightarrow> 's \<Rightarrow> 'a list \<Rightarrow> 'e + 's" where
  "foldE f s [] = Inr s"
| "foldE f s (x # xs) = bindE (f s x) (\<lambda>t. foldE f t xs)"

lemma foldE_append: "foldE f s (xs @ ys) = bindE (foldE f s xs) (\<lambda>t. foldE f t ys)"
  by (induction xs arbitrary: s) (auto simp: bindE_assoc)

lemma foldE_invariant:
  assumes "foldE f s xs = Inr t" "P s"
    and "\<And>s x t. x \<in> set xs \<Longrightarrow> P s \<Longrightarrow> f s x = Inr t \<Longrightarrow> P t"
  shows "P t"
  using assms
proof (induction xs arbitrary: s)
  case (Cons x xs)
  from Cons.prems(1) obtain u where u: "f s x = Inr u" "foldE f u xs = Inr t" by auto
  have "P u" by (rule Cons.prems(3) [OF _ Cons.prems(2) u(1)]) simp
  then show ?case by (rule Cons.IH [OF u(2)]) (rule Cons.prems(3), auto)
qed simp

section \<open>Machine integers\<close>

definition max_int64 :: int where "max_int64 = 2 ^ 63 - 1"

definition min_int64 :: int where "min_int64 = - (2 ^ 63)"

text \<open>Go's signed 64-bit arithmetic wraps: the value of a sum or product is reduced to
  the range of \<open>int64\<close>.\<close>

definition wrap_int64 :: "int \<Rightarrow> int" where
  "wrap_int64 x = (x + 2 ^ 63) mod 2 ^ 64 - 2 ^ 63"

definition is_int64 :: "int \<Rightarrow> bool" where
  "is_int64 x \<longleftrightarrow> min_int64 \<le> x \<and> x \<le> max_int64"

lemma wrap_int64_id: "is_int64 x \<Longrightarrow> wrap_int64 x = x"
  by (simp add: is_int64_def wrap_int64_def min_int64_def max_int64_def)

lemma is_int64_wrap [simp]: "is_int64 (wrap_int64 x)"
  by (simp add: is_int64_def wrap_int64_def min_int64_def max_int64_def)

text \<open>Unsigned 64-bit numbers and their exact values.\<close>

lemma unat64_less [simp]: "unat (w :: 64 word) < 18446744073709551616"
  by (rule order_less_le_trans [OF unsigned_less]) simp

lemma unat64_add: "unat t + unat c < 18446744073709551616 \<Longrightarrow> unat (t + c) = unat t + unat (c :: 64 word)"
  by (simp add: unat_word_ariths)

section \<open>Identifiers and instants\<close>

text \<open>A \<open>uuid.UUID\<close> is sixteen bytes, compared as a value; \<open>uuid.Nil\<close> is the zero
  value.\<close>

type_synonym uuid = "128 word"

definition uuid_nil :: uuid where [simp]: "uuid_nil = 0"

text \<open>
  A \<open>time.Time\<close>: nanoseconds since the zero time (year 1, UTC) and whether its location
  is UTC.  \<open>IsZero\<close>, \<open>Before\<close> and \<open>After\<close> look at the instant only.
  \<open>Sub\<close> saturates at the range of \<open>time.Duration\<close> (an \<open>int64\<close> of
  nanoseconds).
\<close>

record instant =
  t_ns :: int
  t_utc :: bool

definition time_zero :: instant where
  "time_zero = \<lparr>t_ns = 0, t_utc = True\<rparr>"

definition is_zero_time :: "instant \<Rightarrow> bool" where
  "is_zero_time t \<longleftrightarrow> t_ns t = 0"

definition time_before :: "instant \<Rightarrow> instant \<Rightarrow> bool" where
  "time_before a b \<longleftrightarrow> t_ns a < t_ns b"

definition time_after :: "instant \<Rightarrow> instant \<Rightarrow> bool" where
  "time_after a b \<longleftrightarrow> t_ns b < t_ns a"

definition to_utc :: "instant \<Rightarrow> instant" where
  "to_utc t = t\<lparr>t_utc := True\<rparr>"

definition time_sub :: "instant \<Rightarrow> instant \<Rightarrow> int" where
  "time_sub a b = max min_int64 (min max_int64 (t_ns a - t_ns b))"

definition time_add :: "instant \<Rightarrow> int \<Rightarrow> instant" where
  "time_add t d = t\<lparr>t_ns := t_ns t + d\<rparr>"

definition nanos_per_second :: int where "nanos_per_second = 1000000000"

definition nanos_per_minute :: int where "nanos_per_minute = 60 * nanos_per_second"

lemmas time_defs = time_zero_def is_zero_time_def time_before_def time_after_def to_utc_def

lemma to_utc_simps [simp]:
  "t_ns (to_utc t) = t_ns t" "t_utc (to_utc t)" "to_utc (to_utc t) = to_utc t"
  "is_zero_time (to_utc t) = is_zero_time t"
  by (simp_all add: time_defs)

section \<open>Strings\<close>

definition nl :: char where "nl = CHR 0x0A"
definition cr :: char where "cr = CHR 0x0D"
definition nul :: char where "nul = CHR 0x00"

definition contains_any :: "string \<Rightarrow> string \<Rightarrow> bool" where
  "contains_any s cs \<longleftrightarrow> list_ex (\<lambda>c. c \<in> set cs) s"

text \<open>\<open>strings.ContainsAny(s, ",\r\n")\<close> and \<open>strings.ContainsAny(s, "\x00\r\n")\<close>.\<close>

definition has_separator :: "string \<Rightarrow> bool" where
  "has_separator s \<longleftrightarrow> contains_any s [CHR '','', cr, nl]"

definition has_control :: "string \<Rightarrow> bool" where
  "has_control s \<longleftrightarrow> contains_any s [nul, cr, nl]"

lemma has_separator_append [simp]:
  "has_separator (s @ t) \<longleftrightarrow> has_separator s \<or> has_separator t"
  by (auto simp: has_separator_def contains_any_def)

definition byte :: "string \<Rightarrow> nat \<Rightarrow> nat" where
  "byte s i = (if i < length s then of_char (s ! i) else 256)"

text \<open>
  The length in bytes of the white-space rune (\<open>unicode.IsSpace\<close>) a string starts with, 0
  when it starts with none: the six ASCII ones, and U+0085, U+00A0, U+1680, U+2000 to U+200A,
  U+2028, U+2029, U+202F, U+205F and U+3000 in their UTF-8 encodings.
\<close>

definition space_triple :: "nat \<Rightarrow> nat \<Rightarrow> nat \<Rightarrow> bool" where
  "space_triple a b c \<longleftrightarrow>
     a = 0xE1 \<and> b = 0x9A \<and> c = 0x80 \<or>
     a = 0xE2 \<and> b = 0x80 \<and> (0x80 \<le> c \<and> c \<le> 0x8A \<or> c = 0xA8 \<or> c = 0xA9 \<or> c = 0xAF) \<or>
     a = 0xE2 \<and> b = 0x81 \<and> c = 0x9F \<or>
     a = 0xE3 \<and> b = 0x80 \<and> c = 0x80"

definition space_head :: "string \<Rightarrow> nat" where
  "space_head s =
     (let a = byte s 0; b = byte s 1; c = byte s 2 in
      if 9 \<le> a \<and> a \<le> 13 \<or> a = 32 then 1
      else if a = 0xC2 \<and> (b = 0x85 \<or> b = 0xA0) then 2
      else if space_triple a b c then 3
      else 0)"

text \<open>The same at the end of a string, given reversed.\<close>

definition space_last :: "string \<Rightarrow> nat" where
  "space_last r =
     (let c = byte r 0; b = byte r 1; a = byte r 2 in
      if 9 \<le> c \<and> c \<le> 13 \<or> c = 32 then 1
      else if b = 0xC2 \<and> (c = 0x85 \<or> c = 0xA0) then 2
      else if space_triple a b c then 3
      else 0)"

function strip_by :: "(string \<Rightarrow> nat) \<Rightarrow> string \<Rightarrow> string" where
  "strip_by f s = (if f s = 0 \<or> s = [] then s else strip_by f (drop (f s) s))"
  by pat_completeness auto
termination
  by (relation "measure (\<lambda>(f, s). length s)") auto

declare strip_by.simps [simp del]

definition trim_space :: "string \<Rightarrow> string" where
  "trim_space s = rev (strip_by space_last (rev (strip_by space_head s)))"

lemma space_Nil [simp]: "space_head [] = 0" "space_last [] = 0"
  by (simp_all add: space_head_def space_last_def byte_def space_triple_def)

lemma strip_by_suffix: "\<exists>p. s = p @ strip_by f s"
proof (induction f s rule: strip_by.induct)
  case (1 f s)
  show ?case
  proof (cases "f s = 0 \<or> s = []")
    case True
    then show ?thesis by (simp add: strip_by.simps)
  next
    case False
    with "1.IH" obtain p where "drop (f s) s = p @ strip_by f (drop (f s) s)" by auto
    with False have "s = (take (f s) s @ p) @ strip_by f s"
      by (simp add: strip_by.simps [of f s])
    then show ?thesis by blast
  qed
qed

lemma strip_by_stops: "f [] = 0 \<Longrightarrow> f (strip_by f s) = 0"
proof (induction f s rule: strip_by.induct)
  case (1 f s)
  then show ?case by (cases "f s = 0 \<or> s = []") (auto simp: strip_by.simps [of f s])
qed

lemma strip_by_id: "f s = 0 \<Longrightarrow> strip_by f s = s"
  by (simp add: strip_by.simps)

lemma byte_prefix: "byte (take n s) i \<noteq> 256 \<Longrightarrow> byte (take n s) i = byte s i"
  by (auto simp: byte_def split: if_splits)

lemma space_head_take: "space_head s = 0 \<Longrightarrow> space_head (take n s) = 0"
  using byte_prefix [of n s 0] byte_prefix [of n s 1] byte_prefix [of n s 2]
  by (cases "byte (take n s) 0 = 256"; cases "byte (take n s) 1 = 256"; cases "byte (take n s) 2 = 256")
    (auto simp: space_head_def Let_def space_triple_def split: if_splits)

lemma trim_space_clean:
  "space_head (trim_space s) = 0" "space_last (rev (trim_space s)) = 0"
proof -
  let ?l = "strip_by space_head s"
  obtain p where p: "rev ?l = p @ strip_by space_last (rev ?l)"
    using strip_by_suffix by blast
  then have "?l = trim_space s @ rev p"
    unfolding trim_space_def by (metis rev_append rev_rev_ident)
  then have "trim_space s = take (length (trim_space s)) ?l"
    by (metis append_eq_conv_conj)
  moreover have "space_head ?l = 0" by (rule strip_by_stops) simp
  ultimately show "space_head (trim_space s) = 0"
    by (metis space_head_take)
  show "space_last (rev (trim_space s)) = 0"
    unfolding trim_space_def by (simp add: strip_by_stops)
qed

lemma trim_space_idem [simp]: "trim_space (trim_space s) = trim_space s"
  using trim_space_clean [of s] by (simp add: trim_space_def [of "trim_space s"] strip_by_id)

lemma length_strip_by: "length (strip_by f s) \<le> length s"
  using strip_by_suffix [of s f] by (metis length_append le_add2)

lemma length_trim_space: "length (trim_space s) \<le> length s"
  using length_strip_by [of space_last "rev (strip_by space_head s)"] length_strip_by [of space_head s]
  by (simp add: trim_space_def)

lemma trim_space_Nil [simp]: "trim_space [] = []"
  by (simp add: trim_space_def strip_by_id)

text \<open>
  The number of runes of a string, \<open>len([]rune(s))\<close>: a byte that starts no well-formed
  UTF-8 sequence counts as one rune.
\<close>

definition cont :: "nat \<Rightarrow> bool" where
  "cont b \<longleftrightarrow> 0x80 \<le> b \<and> b \<le> 0xBF"

definition rune_size :: "string \<Rightarrow> nat" where
  "rune_size s =
     (let a = byte s 0; b = byte s 1; c = byte s 2; d = byte s 3 in
      if 0xC2 \<le> a \<and> a \<le> 0xDF \<and> cont b then 2
      else if a = 0xE0 \<and> 0xA0 \<le> b \<and> b \<le> 0xBF \<and> cont c then 3
      else if a = 0xED \<and> 0x80 \<le> b \<and> b \<le> 0x9F \<and> cont c then 3
      else if 0xE1 \<le> a \<and> a \<le> 0xEF \<and> a \<noteq> 0xED \<and> cont b \<and> cont c then 3
      else if a = 0xF0 \<and> 0x90 \<le> b \<and> b \<le> 0xBF \<and> cont c \<and> cont d then 4
      else if 0xF1 \<le> a \<and> a \<le> 0xF3 \<and> cont b \<and> cont c \<and> cont d then 4
      else if a = 0xF4 \<and> 0x80 \<le> b \<and> b \<le> 0x8F \<and> cont c \<and> cont d then 4
      else 1)"

lemma rune_size_pos [simp]: "0 < rune_size s"
  by (simp add: rune_size_def Let_def)

function rune_count :: "string \<Rightarrow> nat" where
  "rune_count s = (if s = [] then 0 else Suc (rune_count (drop (rune_size s) s)))"
  by pat_completeness auto
termination
  by (relation "measure length") (auto simp: Let_def)

declare rune_count.simps [simp del]

lemma rune_count_le_length: "rune_count s \<le> length s"
proof (induction s rule: rune_count.induct)
  case (1 s)
  show ?case
  proof (cases "s = []")
    case False
    then have "rune_count (drop (rune_size s) s) \<le> length s - rune_size s" "0 < length s"
      using "1.IH" by simp_all
    then have "Suc (rune_count (drop (rune_size s) s)) \<le> length s"
      using rune_size_pos [of s] by linarith
    with False show ?thesis by (subst rune_count.simps) simp
  qed (simp add: rune_count.simps)
qed

lemma rune_count_Nil [simp]: "rune_count [] = 0"
  by (simp add: rune_count.simps)

definition has_prefix :: "string \<Rightarrow> string \<Rightarrow> bool" where
  "has_prefix s p \<longleftrightarrow> take (length p) s = p"

definition has_suffix :: "string \<Rightarrow> string \<Rightarrow> bool" where
  "has_suffix s p \<longleftrightarrow> length p \<le> length s \<and> drop (length s - length p) s = p"

definition trim_suffix :: "string \<Rightarrow> string \<Rightarrow> string" where
  "trim_suffix s p = (if has_suffix s p then take (length s - length p) s else s)"

definition trim_right_char :: "string \<Rightarrow> char \<Rightarrow> string" where
  "trim_right_char s c = rev (dropWhile (\<lambda>x. x = c) (rev s))"

lemma trim_right_char_idem [simp]: "trim_right_char (trim_right_char s c) c = trim_right_char s c"
  by (simp add: trim_right_char_def dropWhile_idem)

section \<open>Sorting\<close>

text \<open>
  \<open>sort.Slice\<close> by a key.  Go's order of entries with equal keys is unspecified; the model
  takes the stable one.  Where the keys are distinct the sorted list is unique, so the model is
  the code's result whatever its algorithm does.
\<close>

definition strictly_sorted_by :: "('a \<Rightarrow> 'k :: linorder) \<Rightarrow> 'a list \<Rightarrow> bool" where
  "strictly_sorted_by key xs \<longleftrightarrow> sorted_wrt (<) (map key xs)"

lemma strictly_sorted_by_Nil [simp]: "strictly_sorted_by key []"
  by (simp add: strictly_sorted_by_def)

lemma strictly_sorted_by_Cons [simp]:
  "strictly_sorted_by key (x # xs) \<longleftrightarrow> (\<forall>y\<in>set xs. key x < key y) \<and> strictly_sorted_by key xs"
  by (auto simp: strictly_sorted_by_def)

lemma sort_key_strict:
  "distinct (map key xs) \<Longrightarrow> strictly_sorted_by key (sort_key key xs)"
  unfolding strictly_sorted_by_def
  by (simp add: strict_sorted_iff distinct_map) 

lemma map_key_sort_key: "map key (sort_key key xs) = sort (map key xs)"
  by (rule properties_for_sort [symmetric]) simp_all

lemma sort_key_inj:
  assumes "mset xs = mset ys" and "inj_on key (set xs)"
  shows "sort_key key xs = sort_key key ys"
proof -
  have set: "set ys = set xs" using assms(1) by (metis set_mset_mset)
  have "mset (map key xs) = mset (map key ys)" using assms(1) by simp
  then have "sort (map key xs) = sort (map key ys)"
    by (intro properties_for_sort) simp_all
  then show ?thesis
    using assms(2) set by (intro map_inj_on [of key]) (simp_all add: map_key_sort_key)
qed

lemma sort_key_canonical:
  assumes "mset xs = mset ys" and "distinct (map key xs)"
  shows "sort_key key xs = sort_key key ys"
  using assms by (intro sort_key_inj) (simp_all add: distinct_map)

lemma distinct_remdups_adj_sorted: "sorted xs \<Longrightarrow> distinct (remdups_adj xs)"
  by (induction xs rule: remdups_adj.induct) (auto simp: order.strict_iff_order)

end
