(* ===== verification/F64.thy ===== *)
theory F64 imports Prelude "HOL-Library.Log_Nat" begin

text \<open>
  Go's \<open>float64\<close>: IEEE 754 binary64 with round to nearest, ties to even.  A value is a
  rational, an infinity or NaN; the two zeros are one value (no operation of the modelled code
  tells them apart).  Every arithmetic operation is the exact rational result rounded once; the
  model fuses no multiplication with an addition, as the amd64 compiler does not by default.

  The scoring code is monotone and bounded because rounding is: the locale
  \<open>nearest_rounding\<close> states what the client proofs need of a rounding function, and
  \<open>rnd\<close> is its instance.
\<close>

section \<open>Rounding\<close>

definition pow2 :: "int \<Rightarrow> rat" where
  "pow2 k = (if 0 \<le> k then 2 ^ nat k else 1 / 2 ^ nat (- k))"

definition ilog2 :: "rat \<Rightarrow> int" where
  "ilog2 q = (let (n, d) = quotient_of q; k = bitlen n - bitlen d
              in if pow2 k \<le> q then k else k - 1)"

definition round_even :: "rat \<Rightarrow> int" where
  "round_even x =
     (let f = \<lfloor>x\<rfloor>; r = x - of_int f in
      if r < 1 / 2 then f else if 1 / 2 < r then f + 1 else if even f then f else f + 1)"

definition ulp_exp :: "rat \<Rightarrow> int" where
  "ulp_exp q = max (ilog2 \<bar>q\<bar> - 52) (- 1074)"

definition rnd :: "rat \<Rightarrow> rat" where
  "rnd q = (if q = 0 then 0
            else of_int (round_even (q / pow2 (ulp_exp q))) * pow2 (ulp_exp q))"

subsection \<open>Powers of two\<close>

lemma pow2_powi: "pow2 k = 2 powi k"
  by (simp add: pow2_def power_int_def field_simps)

lemma pow2_pos [simp]: "0 < pow2 k" "0 \<le> pow2 k" "pow2 k \<noteq> 0" "\<not> pow2 k < 0"
  by (simp_all add: pow2_powi not_less)

lemma div_pow2_mono: "a \<le> b \<Longrightarrow> a / pow2 k \<le> b / pow2 k"
  by (simp add: divide_right_mono)

lemma pow2_add: "pow2 (a + b) = pow2 a * pow2 b"
  by (simp add: pow2_powi power_int_add)

lemma pow2_diff: "pow2 (a - b) = pow2 a / pow2 b"
  by (simp add: pow2_powi power_int_diff)

lemma pow2_mono: "a \<le> b \<Longrightarrow> pow2 a \<le> pow2 b"
  by (simp add: pow2_powi power_int_increasing)

lemma pow2_strict: "a < b \<Longrightarrow> pow2 a < pow2 b"
  by (simp add: pow2_powi power_int_strict_increasing)

lemma pow2_less_iff: "pow2 a < pow2 b \<longleftrightarrow> a < b"
  using pow2_mono [of b a] pow2_strict [of a b] by (meson linorder_not_le)

lemma pow2_nat: "0 \<le> k \<Longrightarrow> pow2 k = of_int (2 ^ nat k)"
  by (simp add: pow2_def)

lemma pow2_0 [simp]: "pow2 0 = 1"
  by (simp add: pow2_def)

subsection \<open>The exponent of a number\<close>

lemma bitlen_pow2:
  assumes "0 < n"
  shows "pow2 (bitlen n - 1) \<le> of_int n" "(of_int n :: rat) < pow2 (bitlen n)"
proof -
  have b: "2 ^ nat (bitlen n - 1) \<le> n \<and> n < 2 ^ nat (bitlen n)"
    using bitlen_bounds [OF assms] .
  have p: "0 < bitlen n" using assms by (simp add: bitlen_alt_def)
  have "of_int (2 ^ nat (bitlen n - 1)) \<le> (of_int n :: rat)"
    using b by (simp only: of_int_le_iff)
  then show "pow2 (bitlen n - 1) \<le> of_int n"
    using p by (simp add: pow2_nat)
  have "(of_int n :: rat) < of_int (2 ^ nat (bitlen n))"
    using b by (simp only: of_int_less_iff)
  then show "(of_int n :: rat) < pow2 (bitlen n)"
    using p by (simp add: pow2_nat)
qed

lemma ilog2_bounds:
  assumes "0 < q"
  shows "pow2 (ilog2 q) \<le> q \<and> q < pow2 (ilog2 q + 1)"
proof -
  obtain n d where nd: "quotient_of q = (n, d)" by fastforce
  have q: "q = of_int n / of_int d" by (rule quotient_of_div [OF nd])
  have d: "0 < d" by (rule quotient_of_denom_pos [OF nd])
  have n: "0 < n" using assms d unfolding q by (simp add: zero_less_divide_iff)
  let ?k = "bitlen n - bitlen d"
  have "q < pow2 (bitlen n) / pow2 (bitlen d - 1)"
    unfolding q by (rule frac_less) (use bitlen_pow2 [OF n] bitlen_pow2 [OF d] n in auto)
  then have up: "q < pow2 (?k + 1)"
    by (simp add: pow2_diff [symmetric] algebra_simps)
  have "pow2 (bitlen n - 1) / pow2 (bitlen d) \<le> q"
    unfolding q by (rule frac_le) (use bitlen_pow2 [OF n] bitlen_pow2 [OF d] n d in auto)
  then have lo: "pow2 (?k - 1) \<le> q"
    by (simp add: pow2_diff [symmetric] algebra_simps)
  show ?thesis
    using up lo by (auto simp: ilog2_def nd Let_def)
qed

lemma ilog2_unique: "pow2 k \<le> q \<Longrightarrow> q < pow2 (k + 1) \<Longrightarrow> ilog2 q = k"
proof -
  assume a: "pow2 k \<le> q" "q < pow2 (k + 1)"
  then have "0 < q" using pow2_pos(1) [of k] by linarith
  from ilog2_bounds [OF this] a have "pow2 (ilog2 q) < pow2 (k + 1)" "pow2 k < pow2 (ilog2 q + 1)"
    by linarith+
  then show ?thesis by (simp add: pow2_less_iff)
qed

lemma ilog2_mono: "0 < q \<Longrightarrow> q \<le> r \<Longrightarrow> ilog2 q \<le> ilog2 r"
proof -
  assume a: "0 < q" "q \<le> r"
  then have "pow2 (ilog2 q) < pow2 (ilog2 r + 1)"
    using ilog2_bounds [of q] ilog2_bounds [of r] by linarith
  then show ?thesis by (simp add: pow2_less_iff)
qed

subsection \<open>Rounding to an integer\<close>

lemma round_even_near: "\<bar>of_int (round_even x) - x\<bar> \<le> 1 / 2"
proof -
  define r where "r = x - of_int \<lfloor>x\<rfloor>"
  have r: "0 \<le> r" "r < 1" unfolding r_def by linarith+
  have x: "x = of_int \<lfloor>x\<rfloor> + r" by (simp add: r_def)
  have "of_int (round_even x) - x = - r \<and> r \<le> 1 / 2 \<or> of_int (round_even x) - x = 1 - r \<and> 1 / 2 \<le> r"
    unfolding round_even_def Let_def r_def [symmetric] by (auto simp: r_def)
  then show ?thesis using r by (auto simp: abs_if)
qed

lemma round_even_of_int [simp]: "round_even (of_int k) = k"
  by (simp add: round_even_def)

lemma round_even_floor: "\<lfloor>x\<rfloor> \<le> round_even x" "round_even x \<le> \<lfloor>x\<rfloor> + 1"
  by (simp_all add: round_even_def Let_def)

lemma round_even_mono:
  assumes "x \<le> y"
  shows "round_even x \<le> round_even y"
proof (cases "\<lfloor>x\<rfloor> = \<lfloor>y\<rfloor>")
  case True
  with assms show ?thesis by (auto simp: round_even_def Let_def)
next
  case False
  then have "\<lfloor>x\<rfloor> + 1 \<le> \<lfloor>y\<rfloor>" using floor_mono [OF assms] by linarith
  then show ?thesis using round_even_floor [of x] round_even_floor [of y] by linarith
qed

lemma round_even_uminus: "round_even (- x) = - round_even x"
proof (cases "x = of_int \<lfloor>x\<rfloor>")
  case True
  then obtain k where "x = of_int k" by blast
  then show ?thesis by (metis of_int_minus round_even_of_int)
next
  case False
  then have "\<lfloor>- x\<rfloor> = - \<lfloor>x\<rfloor> - 1"
    by (metis floor_minus ceiling_altdef diff_minus_eq_add minus_diff_eq uminus_add_conv_diff
        add.commute minus_add_distrib)
  then show ?thesis by (auto simp: round_even_def Let_def)
qed

subsection \<open>Rounding to binary64\<close>

lemma rnd_0 [simp]: "rnd 0 = 0"
  by (simp add: rnd_def)

lemma rnd_uminus: "rnd (- q) = - rnd q"
  by (simp add: rnd_def ulp_exp_def round_even_uminus)

text \<open>Numbers with at most 53 significant bits above the smallest subnormal are kept.\<close>

lemma rnd_exact:
  assumes m: "\<bar>m\<bar> < 2 ^ 53" and e: "- 1074 \<le> e"
  shows "rnd (of_int m * pow2 e) = of_int m * pow2 e"
proof (cases "m = 0")
  case False
  let ?q = "of_int m * pow2 e"
  have pos: "0 < \<bar>?q\<bar>" using False by simp
  have "\<bar>of_int m\<bar> < (2 :: rat) ^ 53"
    using m by (metis of_int_abs of_int_less_iff of_int_numeral of_int_power)
  then have "\<bar>?q\<bar> < 2 ^ 53 * pow2 e"
    by (simp add: abs_mult)
  also have "\<dots> = pow2 (53 + e)"
    by (simp only: pow2_add) (simp add: pow2_def)
  finally have "pow2 (ilog2 \<bar>?q\<bar>) < pow2 (53 + e)"
    using ilog2_bounds [OF pos] by linarith
  then have le: "ulp_exp ?q \<le> e"
    using e by (simp add: ulp_exp_def pow2_less_iff)
  have "?q / pow2 (ulp_exp ?q) = of_int m * pow2 (e - ulp_exp ?q)"
    by (simp add: pow2_diff)
  also have "\<dots> = of_int (m * 2 ^ nat (e - ulp_exp ?q))"
    using le by (simp add: pow2_nat)
  finally have "round_even (?q / pow2 (ulp_exp ?q)) = m * 2 ^ nat (e - ulp_exp ?q)"
    by (metis round_even_of_int)
  then have "rnd ?q = of_int (m * 2 ^ nat (e - ulp_exp ?q)) * pow2 (ulp_exp ?q)"
    using False by (simp add: rnd_def)
  also have "\<dots> = of_int m * (pow2 (e - ulp_exp ?q) * pow2 (ulp_exp ?q))"
    using le by (simp add: pow2_nat)
  also have "\<dots> = ?q"
    by (simp add: pow2_diff)
  finally show ?thesis .
qed simp

lemma rnd_of_int: "\<bar>m\<bar> < 2 ^ 53 \<Longrightarrow> rnd (of_int m) = of_int m"
  using rnd_exact [of m 0] by simp

lemma rnd_pow2: "- 1074 \<le> e \<Longrightarrow> rnd (pow2 e) = pow2 e"
  using rnd_exact [of 1 e] by simp

lemma rnd_le_pow2:
  assumes "0 < q" "q \<le> pow2 k" "- 1074 \<le> k"
  shows "rnd q \<le> pow2 k"
proof (cases "q = pow2 k")
  case True
  then show ?thesis using rnd_pow2 [OF assms(3)] by simp
next
  case False
  with assms have "pow2 (ilog2 q) < pow2 k" using ilog2_bounds [of q] by linarith
  then have le: "ulp_exp q \<le> k" using assms by (simp add: ulp_exp_def pow2_less_iff)
  have "q / pow2 (ulp_exp q) \<le> pow2 k / pow2 (ulp_exp q)"
    using assms by (simp add: div_pow2_mono)
  also have "\<dots> = of_int (2 ^ nat (k - ulp_exp q))"
    using le by (simp add: pow2_diff [symmetric] pow2_nat)
  finally have "round_even (q / pow2 (ulp_exp q)) \<le> 2 ^ nat (k - ulp_exp q)"
    by (metis round_even_mono round_even_of_int)
  then have "(of_int (round_even (q / pow2 (ulp_exp q))) :: rat) \<le> of_int (2 ^ nat (k - ulp_exp q))"
    by (simp only: of_int_le_iff)
  also have "\<dots> = pow2 (k - ulp_exp q)"
    using le by (simp add: pow2_nat)
  finally show ?thesis
    using assms(1) by (simp add: rnd_def pow2_diff field_simps)
qed

lemma rnd_ge_pow2:
  assumes "pow2 k \<le> q" "- 1074 \<le> k"
  shows "pow2 k \<le> rnd q"
proof -
  have pos: "0 < q" using assms(1) pow2_pos(1) [of k] by linarith
  then have k: "k \<le> ilog2 q"
    using assms(1) ilog2_bounds [of q] pow2_less_iff [of k "ilog2 q + 1"] by linarith
  show ?thesis
  proof (cases "ulp_exp q \<le> k")
    case True
    have "of_int (2 ^ nat (k - ulp_exp q)) = pow2 k / pow2 (ulp_exp q)"
      using True by (simp add: pow2_diff [symmetric] pow2_nat)
    also have "\<dots> \<le> q / pow2 (ulp_exp q)"
      using assms(1) by (rule div_pow2_mono)
    finally have "2 ^ nat (k - ulp_exp q) \<le> round_even (q / pow2 (ulp_exp q))"
      by (metis round_even_mono round_even_of_int)
    then have "(of_int (2 ^ nat (k - ulp_exp q)) :: rat) \<le> of_int (round_even (q / pow2 (ulp_exp q)))"
      by (simp only: of_int_le_iff)
    then have "pow2 (k - ulp_exp q) \<le> of_int (round_even (q / pow2 (ulp_exp q)))"
      using True by (simp add: pow2_nat)
    then show ?thesis
      using pos by (simp add: rnd_def pow2_diff field_simps)
  next
    case False
    then have u: "ulp_exp q = ilog2 q - 52" "k < ilog2 q - 52"
      using assms(2) pos by (auto simp: ulp_exp_def)
    have "pow2 (ilog2 q) / pow2 (ulp_exp q) = pow2 52"
      unfolding pow2_diff [symmetric] by (simp add: u)
    then have "of_int (2 ^ 52) = pow2 (ilog2 q) / pow2 (ulp_exp q)"
      by (simp add: pow2_nat)
    also have "\<dots> \<le> q / pow2 (ulp_exp q)"
      using ilog2_bounds [OF pos] by (simp add: div_pow2_mono)
    finally have "2 ^ 52 \<le> round_even (q / pow2 (ulp_exp q))"
      by (metis round_even_mono round_even_of_int)
    then have "(1 :: rat) \<le> of_int (round_even (q / pow2 (ulp_exp q)))" by simp
    then have "pow2 (ulp_exp q) \<le> rnd q"
      using pos by (simp add: rnd_def)
    moreover have "pow2 k \<le> pow2 (ulp_exp q)" using False by (simp add: pow2_mono)
    ultimately show ?thesis by linarith
  qed
qed

lemma rnd_nonneg: "0 \<le> q \<Longrightarrow> 0 \<le> rnd q"
proof (cases "q = 0")
  case False
  assume "0 \<le> q"
  then have "0 \<le> q / pow2 (ulp_exp q)" by (simp add: zero_le_divide_iff less_imp_le)
  then have "0 \<le> round_even (q / pow2 (ulp_exp q))"
    by (metis of_int_0 round_even_mono round_even_of_int)
  with False show ?thesis by (simp add: rnd_def)
qed simp

lemma rnd_mono_pos:
  assumes "0 < x" "x \<le> y"
  shows "rnd x \<le> rnd y"
proof (cases "ulp_exp x = ulp_exp y")
  case True
  have "x / pow2 (ulp_exp y) \<le> y / pow2 (ulp_exp y)"
    using assms(2) by (rule div_pow2_mono)
  then have "round_even (x / pow2 (ulp_exp y)) \<le> round_even (y / pow2 (ulp_exp y))"
    by (rule round_even_mono)
  with True assms show ?thesis by (simp add: rnd_def)
next
  case False
  have le: "ilog2 x \<le> ilog2 y" using assms by (rule ilog2_mono)
  with False assms have lt: "ilog2 x < ilog2 y" "- 1022 < ilog2 y"
    by (auto simp: ulp_exp_def)
  have xk: "x \<le> pow2 (ilog2 y)"
    using ilog2_bounds [OF assms(1)] pow2_mono [of "ilog2 x + 1" "ilog2 y"] lt by force
  have "rnd x \<le> pow2 (ilog2 y)"
    using assms(1) xk lt by (intro rnd_le_pow2) auto
  also have "\<dots> \<le> rnd y"
    using assms lt ilog2_bounds [of y] by (intro rnd_ge_pow2) auto
  finally show ?thesis .
qed

lemma rnd_mono:
  assumes "x \<le> y"
  shows "rnd x \<le> rnd y"
proof -
  consider "0 < x" | "x \<le> 0" "0 \<le> y" | "y < 0" by linarith
  then show ?thesis
  proof cases
    case 1
    then show ?thesis using assms by (rule rnd_mono_pos)
  next
    case 2
    have "0 \<le> rnd (- x)" "0 \<le> rnd y" using 2 by (simp_all add: rnd_nonneg)
    then show ?thesis by (simp add: rnd_uminus)
  next
    case 3
    then have "rnd (- y) \<le> rnd (- x)" using assms by (intro rnd_mono_pos) auto
    then show ?thesis by (simp add: rnd_uminus)
  qed
qed

lemma rnd_bound: "\<bar>q\<bar> \<le> pow2 k \<Longrightarrow> - 1074 \<le> k \<Longrightarrow> \<bar>rnd q\<bar> \<le> pow2 k"
  using rnd_mono [of q "pow2 k"] rnd_mono [of "- pow2 k" q] rnd_pow2 [of k] rnd_uminus [of "pow2 k"]
  by (auto simp: abs_le_iff)

text \<open>Every result is a multiple of the smallest subnormal, so the difference of two
  different machine numbers never rounds to zero and keeps its sign.\<close>

lemma rnd_multiple: "\<exists>k. rnd q = of_int k * pow2 (- 1074)"
proof -
  have "- 1074 \<le> ulp_exp q" by (simp add: ulp_exp_def)
  then have "pow2 (ulp_exp q) = of_int (2 ^ nat (ulp_exp q + 1074)) * pow2 (- 1074)"
    using pow2_nat [of "ulp_exp q + 1074"] pow2_add [of "ulp_exp q + 1074" "- 1074"] by simp
  then have "rnd q = of_int ((if q = 0 then 0 else round_even (q / pow2 (ulp_exp q))) * 2 ^ nat (ulp_exp q + 1074))
      * pow2 (- 1074)"
    by (simp add: rnd_def)
  then show ?thesis by blast
qed

lemma rnd_diff_pos:
  assumes "rnd a = a" "rnd b = b" "b < a"
  shows "0 < rnd (a - b)"
proof -
  obtain k l where kl: "a = of_int k * pow2 (- 1074)" "b = of_int l * pow2 (- 1074)"
    using rnd_multiple [of a] rnd_multiple [of b] assms by auto
  then have "l < k" using assms(3) by simp
  then have "(1 :: rat) \<le> of_int (k - l)" by simp
  then have "1 * pow2 (- 1074) \<le> of_int (k - l) * pow2 (- 1074)"
    by (rule mult_right_mono) simp
  then have "pow2 (- 1074) \<le> a - b" by (simp add: kl algebra_simps)
  then have "pow2 (- 1074) \<le> rnd (a - b)" by (rule rnd_ge_pow2) simp
  then show ?thesis using pow2_pos(1) [of "- 1074"] by linarith
qed

lemma rnd_diff_neg: "rnd a = a \<Longrightarrow> rnd b = b \<Longrightarrow> a < b \<Longrightarrow> rnd (a - b) < 0"
  using rnd_diff_pos [of b a] rnd_uminus [of "b - a"] by simp

text \<open>A rounded number is a machine number.\<close>

lemma rnd_idem_pos:
  assumes "0 < q"
  shows "rnd (rnd q) = rnd q"
proof -
  define u where "u = ulp_exp q"
  define m where "m = round_even (q / pow2 u)"
  have u: "- 1074 \<le> u" "ilog2 q - 52 \<le> u" using assms by (simp_all add: u_def ulp_exp_def)
  have q: "rnd q = of_int m * pow2 u" using assms by (simp add: rnd_def u_def m_def)
  have "q \<le> pow2 (u + 53)"
    using ilog2_bounds [OF assms] pow2_mono [of "ilog2 q + 1" "u + 53"] u(2) by linarith
  then have "q / pow2 u \<le> of_int (2 ^ 53)"
    using pow2_add [of u 53] by (simp add: pow2_nat field_simps)
  then have m1: "m \<le> 2 ^ 53" unfolding m_def by (metis round_even_mono round_even_of_int)
  have m0: "0 \<le> m"
  proof -
    have "of_int 0 \<le> q / pow2 u" using assms by (simp add: zero_le_divide_iff less_imp_le)
    then show ?thesis unfolding m_def by (metis round_even_mono round_even_of_int)
  qed
  show ?thesis
  proof (cases "m = 2 ^ 53")
    case True
    then have "rnd q = pow2 (53 + u)" using q pow2_add [of 53 u] by (simp add: pow2_nat)
    then show ?thesis using rnd_pow2 [of "53 + u"] u by simp
  next
    case False
    then show ?thesis unfolding q using m0 m1 u by (intro rnd_exact) auto
  qed
qed

lemma rnd_idem [simp]: "rnd (rnd q) = rnd q"
proof -
  consider "q = 0" | "0 < q" | "0 < - q" by linarith
  then show ?thesis
  proof cases
    case 3
    from rnd_idem_pos [OF this] show ?thesis by (simp add: rnd_uminus)
  qed (simp_all add: rnd_idem_pos)
qed

text \<open>The error of one rounding below 2.\<close>

lemma rnd_error:
  assumes "\<bar>q\<bar> < 2"
  shows "\<bar>rnd q - q\<bar> \<le> 1 / 2 ^ 53"
proof (cases "q = 0")
  case False
  then have pos: "0 < \<bar>q\<bar>" by simp
  have "pow2 (ilog2 \<bar>q\<bar>) < pow2 1"
    using ilog2_bounds [OF pos] assms by (simp add: pow2_def)
  then have "ulp_exp q \<le> - 52" by (simp add: ulp_exp_def pow2_less_iff)
  then have le: "pow2 (ulp_exp q) \<le> pow2 (- 52)" by (rule pow2_mono)
  have "rnd q - q = (of_int (round_even (q / pow2 (ulp_exp q))) - q / pow2 (ulp_exp q)) * pow2 (ulp_exp q)"
    using False by (simp add: rnd_def left_diff_distrib)
  then have "\<bar>rnd q - q\<bar> \<le> 1 / 2 * pow2 (ulp_exp q)"
    using round_even_near [of "q / pow2 (ulp_exp q)"] by (simp add: abs_mult)
  also have "\<dots> \<le> 1 / 2 * pow2 (- 52)" using le by simp
  finally show ?thesis by (simp add: pow2_def)
qed simp

section \<open>The interface of a rounding function\<close>

locale nearest_rounding =
  fixes r :: "rat \<Rightarrow> rat"
  assumes mono: "x \<le> y \<Longrightarrow> r x \<le> r y"
    and of_int_exact: "\<bar>m\<bar> < 2 ^ 53 \<Longrightarrow> r (of_int m) = of_int m"
begin

lemma int_bounds:
  assumes "of_int a \<le> x" "x \<le> of_int b" "\<bar>a\<bar> < 2 ^ 53" "\<bar>b\<bar> < 2 ^ 53"
  shows "of_int a \<le> r x \<and> r x \<le> of_int b"
  using mono [OF assms(1)] mono [OF assms(2)] of_int_exact [OF assms(3)] of_int_exact [OF assms(4)]
  by simp

lemma small_exact [simp]: "r 0 = 0" "r 1 = 1" "r 100 = 100"
  using of_int_exact [of 0] of_int_exact [of 1] of_int_exact [of 100] by simp_all

lemma nonneg: "0 \<le> x \<Longrightarrow> 0 \<le> r x"
  using mono [of 0 x] by simp

lemma percent_product:
  assumes "0 \<le> x" "x \<le> 100" "0 \<le> w" "w \<le> 1"
  shows "0 \<le> r (x * w) \<and> r (x * w) \<le> 100"
proof -
  have "x * w \<le> 100 * 1" using assms by (intro mult_mono) auto
  with assms int_bounds [of 0 "x * w" 100] show ?thesis by simp
qed

text \<open>A rounded running sum of \<open>n\<close> terms between 0 and \<open>b\<close> stays between 0 and
  \<open>n * b\<close>, however the roundings fall.\<close>

lemma running_sum_bounds:
  assumes "\<forall>x\<in>set xs. 0 \<le> x \<and> x \<le> of_int b" "0 \<le> acc" "acc \<le> of_int (int n * b)" "0 \<le> b"
    and "int (n + length xs) * b < 2 ^ 53"
  shows "0 \<le> foldl (\<lambda>s x. r (s + x)) acc xs \<and>
    foldl (\<lambda>s x. r (s + x)) acc xs \<le> of_int (int (n + length xs) * b)"
  using assms
proof (induction xs arbitrary: acc n)
  case (Cons x xs)
  have le: "acc + x \<le> of_int (int (Suc n) * b)"
    using Cons.prems(1,3) by (simp add: algebra_simps)
  have "int (Suc n) * b \<le> int (n + length (x # xs)) * b"
    using Cons.prems(4) by (intro mult_right_mono) auto
  then have "\<bar>int (Suc n) * b\<bar> < 2 ^ 53"
    using Cons.prems(4,5) by (simp add: abs_of_nonneg)
  then have "0 \<le> r (acc + x) \<and> r (acc + x) \<le> of_int (int (Suc n) * b)"
    using int_bounds [of 0 "acc + x" "int (Suc n) * b"] le Cons.prems(1,2) by simp
  then show ?case
    using Cons.IH [of "r (acc + x)" "Suc n"] Cons.prems(1,4,5) by simp
qed simp

lemma running_sum_mono:
  assumes "list_all2 (\<le>) xs ys" "a \<le> b"
  shows "foldl (\<lambda>s x. r (s + x)) a xs \<le> foldl (\<lambda>s x. r (s + x)) b ys"
  using assms
proof (induction xs ys arbitrary: a b rule: list_all2_induct)
  case (Cons x xs y ys)
  then show ?case by (auto intro!: Cons.IH mono)
qed simp

end

interpretation binary64: nearest_rounding rnd
  by unfold_locales (auto intro: rnd_mono rnd_of_int)

section \<open>The values and their operations\<close>

datatype f64 = Fin rat | PInf | NInf | NaN

definition nearest :: "rat \<Rightarrow> f64" where
  "nearest q = (let r = rnd q in
     if pow2 1024 \<le> r then PInf else if r \<le> - pow2 1024 then NInf else Fin r)"

fun f_neg :: "f64 \<Rightarrow> f64" where
  "f_neg (Fin q) = Fin (- q)"
| "f_neg PInf = NInf"
| "f_neg NInf = PInf"
| "f_neg NaN = NaN"

fun f_add :: "f64 \<Rightarrow> f64 \<Rightarrow> f64" where
  "f_add (Fin a) (Fin b) = nearest (a + b)"
| "f_add (Fin a) y = y"
| "f_add x (Fin b) = x"
| "f_add PInf PInf = PInf"
| "f_add NInf NInf = NInf"
| "f_add x y = NaN"

definition f_sub :: "f64 \<Rightarrow> f64 \<Rightarrow> f64" where
  "f_sub x y = f_add x (f_neg y)"

fun f_sign :: "f64 \<Rightarrow> rat" where
  "f_sign (Fin q) = sgn q"
| "f_sign PInf = 1"
| "f_sign NInf = - 1"
| "f_sign NaN = 0"

definition f_inf :: "rat \<Rightarrow> f64" where
  "f_inf s = (if 0 < s then PInf else if s < 0 then NInf else NaN)"

fun f_mul :: "f64 \<Rightarrow> f64 \<Rightarrow> f64" where
  "f_mul (Fin a) (Fin b) = nearest (a * b)"
| "f_mul x y = f_inf (f_sign x * f_sign y)"

fun f_div :: "f64 \<Rightarrow> f64 \<Rightarrow> f64" where
  "f_div (Fin a) (Fin b) = (if b = 0 then f_inf (sgn a) else nearest (a / b))"
| "f_div NaN y = NaN"
| "f_div x NaN = NaN"
| "f_div (Fin a) y = Fin 0"
| "f_div x (Fin b) = f_inf (f_sign x * (if b < 0 then - 1 else 1))"
| "f_div x y = NaN"

fun f_le :: "f64 \<Rightarrow> f64 \<Rightarrow> bool" where
  "f_le NaN y = False"
| "f_le x NaN = False"
| "f_le NInf y = True"
| "f_le x PInf = True"
| "f_le (Fin a) (Fin b) = (a \<le> b)"
| "f_le x y = False"

definition f_eq :: "f64 \<Rightarrow> f64 \<Rightarrow> bool" where
  "f_eq x y \<longleftrightarrow> x = y \<and> x \<noteq> NaN"

definition f_lt :: "f64 \<Rightarrow> f64 \<Rightarrow> bool" where
  "f_lt x y \<longleftrightarrow> f_le x y \<and> x \<noteq> y"

definition f_finite :: "f64 \<Rightarrow> bool" where
  "f_finite x \<longleftrightarrow> (case x of Fin _ \<Rightarrow> True | _ \<Rightarrow> False)"

text \<open>\<open>math.Abs\<close>, and the conversion of an unsigned integer.\<close>

fun f_abs :: "f64 \<Rightarrow> f64" where
  "f_abs (Fin q) = Fin \<bar>q\<bar>"
| "f_abs NInf = PInf"
| "f_abs x = x"

definition f_of_nat :: "nat \<Rightarrow> f64" where
  "f_of_nat n = nearest (of_nat n)"

text \<open>Values the machine can hold.\<close>

fun f_wf :: "f64 \<Rightarrow> bool" where
  "f_wf (Fin q) \<longleftrightarrow> rnd q = q \<and> \<bar>q\<bar> < pow2 1024"
| "f_wf x \<longleftrightarrow> True"

text \<open>Machine numbers small enough that a difference of two of them does not overflow.\<close>

definition tame :: "f64 \<Rightarrow> bool" where
  "tame x \<longleftrightarrow> (case x of Fin q \<Rightarrow> rnd q = q \<and> \<bar>q\<bar> \<le> pow2 999 | _ \<Rightarrow> False)"

subsection \<open>Laws\<close>

lemma tameE: "tame x \<Longrightarrow> (\<And>q. x = Fin q \<Longrightarrow> rnd q = q \<Longrightarrow> \<bar>q\<bar> \<le> pow2 999 \<Longrightarrow> P) \<Longrightarrow> P"
  by (cases x) (auto simp: tame_def)

lemma nearest_Fin: "\<bar>q\<bar> \<le> pow2 1000 \<Longrightarrow> nearest q = Fin (rnd q)"
  using rnd_bound [of q 1000] pow2_strict [of 1000 1024] by (auto simp: nearest_def Let_def abs_le_iff)

lemma small_pow2: "\<bar>q\<bar> \<le> 10000 \<Longrightarrow> \<bar>q\<bar> \<le> pow2 1000"
proof -
  assume "\<bar>q\<bar> \<le> 10000"
  also have "(10000 :: rat) \<le> 2 ^ 14" by simp
  also have "\<dots> \<le> 2 ^ 1000" by (rule power_increasing) simp_all
  finally show ?thesis by (simp add: pow2_def)
qed

lemma nearest_small: "\<bar>q\<bar> \<le> 10000 \<Longrightarrow> nearest q = Fin (rnd q)"
  by (intro nearest_Fin small_pow2)

lemma rnd_numeral [simp]: "(numeral n :: int) < 2 ^ 53 \<Longrightarrow> rnd (numeral n) = numeral n"
  using rnd_of_int [of "numeral n"] by simp

lemma rnd_1 [simp]: "rnd 1 = 1"
  using rnd_of_int [of 1] by simp

lemma nearest_int [simp]:
  "nearest 0 = Fin 0" "nearest 1 = Fin 1" "(numeral n :: rat) \<le> 10000 \<Longrightarrow> nearest (numeral n) = Fin (numeral n)"
proof -
  show "nearest 0 = Fin 0" "nearest 1 = Fin 1" by (simp_all add: nearest_small)
  assume n: "(numeral n :: rat) \<le> 10000"
  then have "(numeral n :: int) \<le> 10000" by (metis of_int_le_iff of_int_numeral)
  then have "(numeral n :: int) < 2 ^ 53" by (rule order_le_less_trans) simp
  then have "rnd (numeral n) = numeral n" by (rule rnd_numeral)
  with n show "nearest (numeral n) = Fin (numeral n)" by (simp add: nearest_small)
qed

lemma tame_numeral [simp]: "tame (Fin 0)" "tame (Fin 1)"
  "(numeral n :: rat) \<le> 10000 \<Longrightarrow> tame (Fin (numeral n))"
proof -
  have le: "(10000 :: rat) \<le> pow2 999"
  proof -
    have "(10000 :: rat) \<le> 2 ^ 14" by simp
    also have "\<dots> \<le> 2 ^ 999" by (rule power_increasing) simp_all
    finally show ?thesis by (simp add: pow2_def)
  qed
  then show "tame (Fin 0)" "tame (Fin 1)" by (simp_all add: tame_def)
  assume n: "(numeral n :: rat) \<le> 10000"
  then have "(numeral n :: int) \<le> 10000" by (metis of_int_le_iff of_int_numeral)
  then have "(numeral n :: int) < 2 ^ 53" by (rule order_le_less_trans) simp
  then have "rnd (numeral n) = numeral n" by (rule rnd_numeral)
  moreover have "(numeral n :: rat) \<le> pow2 999" using n le by linarith
  ultimately show "tame (Fin (numeral n))" by (simp add: tame_def)
qed

lemma nearest_overflow: "nearest (pow2 1024) = PInf"
  by (simp add: nearest_def Let_def rnd_pow2)

lemma nearest_mono: "x \<le> y \<Longrightarrow> f_le (nearest x) (nearest y)"
  using rnd_mono [of x y] pow2_pos(1) [of 1024] by (auto simp: nearest_def Let_def)

lemma nearest_not_NaN [simp]: "nearest q \<noteq> NaN" "NaN \<noteq> nearest q"
  by (simp_all add: nearest_def Let_def)

lemma f_le_refl: "x \<noteq> NaN \<Longrightarrow> f_le x x"
  by (cases x) auto

lemma f_le_trans: "f_le x y \<Longrightarrow> f_le y z \<Longrightarrow> f_le x z"
  by (cases x; cases y; cases z) auto

lemma f_le_total: "x \<noteq> NaN \<Longrightarrow> y \<noteq> NaN \<Longrightarrow> f_le x y \<or> f_le y x"
  by (cases x; cases y) auto

lemma f_lt_simps [simp]:
  "f_lt (Fin a) (Fin b) \<longleftrightarrow> a < b" "\<not> f_lt NaN y" "\<not> f_lt x NaN"
  "f_lt PInf x = False" "f_lt NInf (Fin a)" "f_lt (Fin a) PInf" "\<not> f_lt (Fin a) NInf" "f_lt NInf PInf"
  by (cases x, auto simp: f_lt_def)+

lemma f_finite_iff: "f_finite x \<longleftrightarrow> (\<exists>q. x = Fin q)"
  by (cases x) (auto simp: f_finite_def)

lemma f_finite_simps [simp]: "f_finite (Fin q)" "\<not> f_finite PInf" "\<not> f_finite NInf" "\<not> f_finite NaN"
  by (simp_all add: f_finite_def)

lemma f_eq_Fin [simp]: "f_eq (Fin a) (Fin b) \<longleftrightarrow> a = b"
  by (auto simp: f_eq_def)

lemma f_sub_tame:
  assumes "rnd a = a" "rnd b = b" "\<bar>a\<bar> \<le> pow2 999" "\<bar>b\<bar> \<le> pow2 999"
  shows "f_sub (Fin a) (Fin b) = Fin (rnd (a - b))"
proof -
  have "\<bar>a - b\<bar> \<le> pow2 999 + pow2 999" using assms by linarith
  also have "\<dots> = pow2 1000" using pow2_add [of 1 999] by (simp add: pow2_def)
  finally show ?thesis by (simp add: f_sub_def nearest_Fin)
qed

lemma f_sub_not_NaN: "x \<noteq> NaN \<Longrightarrow> f_sub (Fin c) x \<noteq> NaN"
  by (cases x) (auto simp: f_sub_def)

lemma f_mul_not_NaN: "x \<noteq> NaN \<Longrightarrow> 0 < c \<Longrightarrow> f_mul (Fin c) x \<noteq> NaN"
  by (cases x) (auto simp: f_inf_def)

lemma f_sub_antimono: "f_le x y \<Longrightarrow> f_le (f_sub (Fin c) y) (f_sub (Fin c) x)"
  by (cases x; cases y) (auto simp: f_sub_def intro: nearest_mono f_le_refl, (metis f_le.simps f64.exhaust nearest_not_NaN)+)

lemma f_mul_mono_pos: "0 < c \<Longrightarrow> f_le x y \<Longrightarrow> f_le (f_mul (Fin c) x) (f_mul (Fin c) y)"
  by (cases x; cases y) (auto simp: f_inf_def intro: nearest_mono f_le_refl, (metis f_le.simps f64.exhaust nearest_not_NaN)+)

end
