(* ===== verification/Externals.thy ===== *)
theory Externals imports F64 begin

text \<open>
  The functions the repository takes from packages outside it.  They are fields of the record
  \<open>libs\<close>, an argument of every definition that uses one of them; what a theorem relies
  on about a field is a hypothesis of that theorem.
\<close>

section \<open>What the program takes from other packages\<close>

text \<open>
  The fields of \<open>net/url.URL\<close>, and the record of the functions of \<open>net/url\<close>,
  \<open>google/uuid\<close>, \<open>shopspring/decimal\<close>, \<open>golang.org/x/text\<close>,
  \<open>strings\<close>, \<open>unicode\<close>, \<open>time\<close> and \<open>crypto/sha256\<close> whose tables
  and layouts are not part of this repository.  \<open>sha256_hex\<close> is the hexadecimal text of
  the digest of a byte string, \<open>time_format\<close> the RFC 3339 text of an instant,
  \<open>is_punct\<close> applies to the UTF-8 encoding of one rune.  A decimal (type \<open>'d\<close>) is observed
  through its numerical value, its exponent and its text; \<open>IsPositive\<close>,
  \<open>IsNegative\<close>, \<open>IsZero\<close>, \<open>GreaterThan\<close>, \<open>LessThan\<close> and
  \<open>Equal\<close> compare numerical values.
\<close>

record url =
  u_scheme :: string
  u_opaque :: string
  u_user :: "string option"
  u_host :: string
  u_path :: string
  u_raw_path :: string
  u_omit_host :: bool
  u_force_query :: bool
  u_raw_query :: string
  u_fragment :: string
  u_raw_fragment :: string

record 'd libs =
  url_parse :: "string \<Rightarrow> url option"
  url_string :: "url \<Rightarrow> string"
  uuid_string :: "uuid \<Rightarrow> string"
  dec_parse :: "string \<Rightarrow> 'd option"
  dec_value :: "'d \<Rightarrow> rat"
  dec_exponent :: "'d \<Rightarrow> int"
  dec_string :: "'d \<Rightarrow> string"
  dec_add :: "'d \<Rightarrow> 'd \<Rightarrow> 'd"
  dec_div :: "'d \<Rightarrow> 'd \<Rightarrow> 'd"
  dec_of_int :: "int \<Rightarrow> 'd"
  dec_float :: "'d \<Rightarrow> f64"
  to_upper :: "string \<Rightarrow> string"
  to_lower :: "string \<Rightarrow> string"
  sha256_hex :: "string \<Rightarrow> string"
  time_format :: "instant \<Rightarrow> string"
  nfkc :: "string \<Rightarrow> string"
  is_punct :: "string \<Rightarrow> bool"
  uuid_parse :: "string \<Rightarrow> uuid option"

section \<open>A concrete instance\<close>

text \<open>
  An instance of these functions for evaluating theorems on concrete inputs: identifiers are
  written in binary, decimals are fractions, a URL is its host between a scheme and a path.  It
  satisfies the laws the theorems assume.
\<close>

definition uuid_bits :: "uuid \<Rightarrow> string" where
  "uuid_bits u = map (\<lambda>i. if bit u i then CHR ''1'' else CHR ''0'') [0..<128]"

lemma inj_uuid_bits: "inj uuid_bits"
proof (rule injI)
  fix u v :: uuid
  assume "uuid_bits u = uuid_bits v"
  then have "\<forall>i<128. (if bit u i then CHR ''1'' else CHR ''0'') = (if bit v i then CHR ''1'' else CHR ''0'')"
    by (simp only: uuid_bits_def map_eq_conv set_upt Ball_def atLeastLessThan_iff) simp
  then have "\<forall>i<128. bit u i = bit v i" by (auto split: if_splits)
  then show "u = v" by (intro bit_word_eqI) simp
qed

definition empty_url :: url where
  "empty_url = \<lparr>u_scheme = [], u_opaque = [], u_user = None, u_host = [], u_path = [], u_raw_path = [],
     u_omit_host = False, u_force_query = False, u_raw_query = [], u_fragment = [], u_raw_fragment = []\<rparr>"

text \<open>\<open>https://host/path\<close>, the host up to the first slash.\<close>

definition parse_https :: "string \<Rightarrow> url option" where
  "parse_https s =
     (if take 8 s = ''https://''
      then Some (empty_url\<lparr>u_scheme := ''https'', u_host := takeWhile (\<lambda>c. c \<noteq> CHR ''/'') (drop 8 s),
                           u_path := dropWhile (\<lambda>c. c \<noteq> CHR ''/'') (drop 8 s)\<rparr>)
      else None)"

definition print_https :: "url \<Rightarrow> string" where
  "print_https u = u_scheme u @ ''://'' @ u_host u @ u_path u"

definition sample_libs :: "rat libs" where
  "sample_libs =
     \<lparr>url_parse = parse_https, url_string = print_https, uuid_string = uuid_bits,
      dec_parse = (\<lambda>s. if s = ''1'' then Some 1 else None), dec_value = id, dec_exponent = (\<lambda>_. 0),
      dec_string = (\<lambda>_. ''1''), dec_add = (+), dec_div = (/), dec_of_int = of_int, dec_float = nearest, to_upper = id, to_lower = id,
      sha256_hex = id, time_format = (\<lambda>t. if t_ns t = 0 then ''0'' else ''1''), nfkc = id,
      is_punct = (\<lambda>g. g \<in> set [''.'', '','', ''!'', ''-'']), uuid_parse = (\<lambda>_. None)\<rparr>"

end
