(* ===== verification/Scoring.thy ===== *)
theory Scoring imports Externals begin

text \<open>
  \<open>internal/domain/scoring/types.go\<close> and \<open>dimensions.go\<close>: scores between 0 and
  100, confidence levels, the fixed weights of the automatic strategies, the weighted composite,
  and the four dimension scores (price, latency, SLA, quality).  A \<open>Score\<close> is a
  \<open>float64\<close>.

  The lemmas show that a dimension score and a composite are numbers between 0 and 100, that
  they move in the right direction when a raw metric or a dimension improves, and that the fixed
  weights pass the code's own check.
\<close>

section \<open>Types\<close>

datatype scoring_error = ErrInvalidHistogram | ErrNoSamples | ErrInvalidMetric | ErrInvalidRules
  | ErrInvalidEvidence | ErrInvalidWindow | ErrUnknownAutoKind | ErrInvalidRecommendation

definition policy_version_m2 :: string where "policy_version_m2 = ''m2-shadow-v1''"

definition default_minimum_samples :: "64 word" where "default_minimum_samples = 50"

definition default_consecutive_failure_limit :: "64 word" where
  "default_consecutive_failure_limit = 3"

type_synonym score = f64

definition valid_score :: "score \<Rightarrow> bool" where
  "valid_score s \<longleftrightarrow> f_finite s \<and> f_le (Fin 0) s \<and> f_le s (Fin 100)"

datatype dimension = DimPrice | DimLatency | DimSLA | DimQuality

record dimension_scores =
  ds_price :: score
  ds_latency :: score
  ds_sla :: score
  ds_quality :: score

definition validate_dimension_scores :: "dimension_scores \<Rightarrow> scoring_error + unit" where
  "validate_dimension_scores s =
     (if \<not> valid_score (ds_price s) \<or> \<not> valid_score (ds_latency s) \<or> \<not> valid_score (ds_sla s)
        \<or> \<not> valid_score (ds_quality s)
      then Inl ErrInvalidMetric else Inr ())"

datatype confidence = ConfInsufficient | ConfLow | ConfMedium | ConfHigh | ConfOther string

text \<open>\<open>confidenceRank\<close>: the rank, \<open>None\<close> for a level it does not know (the code
  returns \<open>0, false\<close>).\<close>

fun confidence_rank :: "confidence \<Rightarrow> int option" where
  "confidence_rank ConfInsufficient = Some 0"
| "confidence_rank ConfLow = Some 1"
| "confidence_rank ConfMedium = Some 2"
| "confidence_rank ConfHigh = Some 3"
| "confidence_rank (ConfOther s) = None"

definition confidence_from_rank :: "int \<Rightarrow> confidence" where
  "confidence_from_rank r =
     (if 3 \<le> r then ConfHigh else if r = 2 then ConfMedium else if r = 1 then ConfLow
      else ConfInsufficient)"

definition lower_confidence :: "confidence \<Rightarrow> int \<Rightarrow> confidence" where
  "lower_confidence c steps =
     (case confidence_rank c of None \<Rightarrow> ConfInsufficient
      | Some r \<Rightarrow> confidence_from_rank (r - steps))"

datatype window = Window15Minutes | Window1Hour | Window24Hours | WindowOther string

record window_weight =
  ww_window :: window
  ww_weight :: f64

definition default_window_weights :: "window_weight list" where
  "default_window_weights =
     [\<lparr>ww_window = Window15Minutes, ww_weight = nearest (50 / 100)\<rparr>,
      \<lparr>ww_window = Window1Hour, ww_weight = nearest (30 / 100)\<rparr>,
      \<lparr>ww_window = Window24Hours, ww_weight = nearest (20 / 100)\<rparr>]"

datatype auto_kind = AutoLowestPrice | AutoLowLatency | AutoHighSLA | AutoHighQuality
  | AutoBalanced | AutoOther string

record auto_weights =
  aw_price :: f64
  aw_latency :: f64
  aw_sla :: f64
  aw_quality :: f64

definition percent_weights :: "rat \<Rightarrow> rat \<Rightarrow> rat \<Rightarrow> rat \<Rightarrow> auto_weights" where
  "percent_weights p l s q =
     \<lparr>aw_price = nearest (p / 100), aw_latency = nearest (l / 100),
      aw_sla = nearest (s / 100), aw_quality = nearest (q / 100)\<rparr>"

definition fixed_auto_weights :: "string \<Rightarrow> auto_kind \<Rightarrow> scoring_error + auto_weights" where
  "fixed_auto_weights version kind =
     (if version \<noteq> policy_version_m2 then Inl ErrInvalidRules
      else case kind of
        AutoLowestPrice \<Rightarrow> Inr (percent_weights 55 15 15 15)
      | AutoLowLatency \<Rightarrow> Inr (percent_weights 15 55 20 10)
      | AutoHighSLA \<Rightarrow> Inr (percent_weights 10 20 60 10)
      | AutoHighQuality \<Rightarrow> Inr (percent_weights 10 15 15 60)
      | AutoBalanced \<Rightarrow> Inr (percent_weights 25 25 30 20)
      | AutoOther s \<Rightarrow> Inl ErrUnknownAutoKind)"

datatype advice_action = AdviceJoin | AdviceKeep | AdviceExit | AdviceWatch | AdviceExclude
  | AdviceOther string

section \<open>Weights and clamping\<close>

definition add_weight :: "f64 \<Rightarrow> f64 \<Rightarrow> scoring_error + f64" where
  "add_weight t w =
     (if \<not> f_finite w \<or> f_le w (Fin 0) \<or> f_lt (Fin 1) w then Inl ErrInvalidRules
      else Inr (f_add t w))"

definition validate_weights :: "f64 list \<Rightarrow> scoring_error + unit" where
  "validate_weights ws =
     bindE (foldE add_weight (Fin 0) ws) (\<lambda>t.
       guardE (f_lt (nearest (1 / 1000000000)) (f_abs (f_sub t (Fin 1)))) ErrInvalidRules)"

definition clamp_score :: "f64 \<Rightarrow> score" where
  "clamp_score v = (if f_lt v (Fin 0) then Fin 0 else if f_lt (Fin 100) v then Fin 100 else v)"

definition composite_score :: "dimension_scores \<Rightarrow> auto_weights \<Rightarrow> scoring_error + score" where
  "composite_score s w =
     bindE (validate_dimension_scores s) (\<lambda>_.
     bindE (validate_weights [aw_price w, aw_latency w, aw_sla w, aw_quality w]) (\<lambda>_.
     Inr (clamp_score
       (f_add (f_add (f_add (f_mul (ds_price s) (aw_price w)) (f_mul (ds_latency s) (aw_latency w)))
          (f_mul (ds_sla s) (aw_sla w)))
          (f_mul (ds_quality s) (aw_quality w))))))"

section \<open>Dimension scores\<close>

record metric_rule =
  mr_best :: f64
  mr_worst :: f64
  mr_weight :: f64

record component_score =
  cs_metric :: string
  cs_raw_value :: f64
  cs_normalized :: score
  cs_weight :: f64

record dimension_score =
  dsc_dimension :: dimension
  dsc_score :: score
  dsc_components :: "component_score list"

record metric_input =
  mi_name :: string
  mi_value :: f64
  mi_rule :: metric_rule

definition normalize_metric :: "f64 \<Rightarrow> metric_rule \<Rightarrow> scoring_error + score" where
  "normalize_metric v rule =
     (if \<not> f_finite v then Inl ErrInvalidMetric
      else if \<not> f_finite (mr_best rule) \<or> \<not> f_finite (mr_worst rule) \<or> f_eq (mr_best rule) (mr_worst rule)
      then Inl ErrInvalidRules
      else let progress = f_div (f_sub v (mr_best rule)) (f_sub (mr_worst rule) (mr_best rule))
           in Inr (clamp_score (f_mul (Fin 100) (f_sub (Fin 1) progress))))"

definition score_step ::
  "score \<times> component_score list \<Rightarrow> metric_input \<Rightarrow> scoring_error + score \<times> component_score list" where
  "score_step acc m =
     bindE (normalize_metric (mi_value m) (mi_rule m)) (\<lambda>n.
       Inr (f_add (fst acc) (f_mul n (mr_weight (mi_rule m))),
            snd acc @ [\<lparr>cs_metric = mi_name m, cs_raw_value = mi_value m, cs_normalized = n,
                        cs_weight = mr_weight (mi_rule m)\<rparr>]))"

definition score_dimension :: "dimension \<Rightarrow> metric_input list \<Rightarrow> scoring_error + dimension_score" where
  "score_dimension d ms =
     bindE (validate_weights (map (mr_weight \<circ> mi_rule) ms)) (\<lambda>_.
     bindE (foldE score_step (Fin 0, []) ms) (\<lambda>acc.
     Inr \<lparr>dsc_dimension = d, dsc_score = clamp_score (fst acc), dsc_components = snd acc\<rparr>))"

definition valid_ratio :: "f64 \<Rightarrow> bool" where
  "valid_ratio v \<longleftrightarrow> f_finite v \<and> f_le (Fin 0) v \<and> f_le v (Fin 1)"

definition metric :: "string \<Rightarrow> f64 \<Rightarrow> metric_rule \<Rightarrow> metric_input" where
  "metric n v r = \<lparr>mi_name = n, mi_value = v, mi_rule = r\<rparr>"

record 'd price_metrics =
  pm_current_cost :: 'd
  pm_lowest_candidate_cost :: 'd
  pm_changes_per_day :: "64 word"
  pm_change_magnitude_ratio :: f64

record price_rules =
  pr_relative_cost :: metric_rule
  pr_changes_per_day :: metric_rule
  pr_change_magnitude :: metric_rule

definition score_price :: "'d libs \<Rightarrow> 'd price_metrics \<Rightarrow> price_rules \<Rightarrow> scoring_error + dimension_score" where
  "score_price L m rules =
     (let cur = dec_value L (pm_current_cost m); low = dec_value L (pm_lowest_candidate_cost m) in
      if cur < 0 \<or> low < 0 \<or> (cur \<noteq> 0 \<and> cur < low) then Inl ErrInvalidMetric
      else let relative =
             (if low \<noteq> 0 then dec_float L (dec_div L (pm_current_cost m) (pm_lowest_candidate_cost m))
              else if cur = 0 then mr_best (pr_relative_cost rules)
              else mr_worst (pr_relative_cost rules)) in
      if \<not> f_finite (pm_change_magnitude_ratio m) \<or> f_lt (pm_change_magnitude_ratio m) (Fin 0)
      then Inl ErrInvalidMetric
      else score_dimension DimPrice
        [metric ''relative_cost'' relative (pr_relative_cost rules),
         metric ''changes_per_day'' (f_of_nat (unat (pm_changes_per_day m))) (pr_changes_per_day rules),
         metric ''change_magnitude_ratio'' (pm_change_magnitude_ratio m) (pr_change_magnitude rules)])"

record latency_metrics =
  lm_ttft_p50 :: f64
  lm_ttft_p95 :: f64
  lm_duration_p50 :: f64
  lm_duration_p95 :: f64
  lm_variability :: f64

record latency_rules =
  lr_ttft_p50 :: metric_rule
  lr_ttft_p95 :: metric_rule
  lr_duration_p50 :: metric_rule
  lr_duration_p95 :: metric_rule
  lr_variability :: metric_rule

definition score_latency :: "latency_metrics \<Rightarrow> latency_rules \<Rightarrow> scoring_error + dimension_score" where
  "score_latency m rules =
     bindE (check_all (\<lambda>v. guardE (\<not> f_finite v \<or> f_lt v (Fin 0)) ErrInvalidMetric)
        [lm_ttft_p50 m, lm_ttft_p95 m, lm_duration_p50 m, lm_duration_p95 m, lm_variability m])
     (\<lambda>_. score_dimension DimLatency
        [metric ''ttft_p50_ms'' (lm_ttft_p50 m) (lr_ttft_p50 rules),
         metric ''ttft_p95_ms'' (lm_ttft_p95 m) (lr_ttft_p95 rules),
         metric ''duration_p50_ms'' (lm_duration_p50 m) (lr_duration_p50 rules),
         metric ''duration_p95_ms'' (lm_duration_p95 m) (lr_duration_p95 rules),
         metric ''variability_ratio'' (lm_variability m) (lr_variability rules)])"

record sla_metrics =
  sm_attempt_success_rate :: f64
  sm_rate_limit_rate :: f64
  sm_consecutive_failures :: "64 word"
  sm_stream_completion_rate :: f64
  sm_recovery_millis :: f64
  sm_capacity_stability :: f64

record sla_rules =
  sr_attempt_success :: metric_rule
  sr_rate_limit :: metric_rule
  sr_consecutive_fails :: metric_rule
  sr_stream_completion :: metric_rule
  sr_recovery :: metric_rule
  sr_capacity :: metric_rule

definition score_sla :: "sla_metrics \<Rightarrow> sla_rules \<Rightarrow> scoring_error + dimension_score" where
  "score_sla m rules =
     bindE (check_all (\<lambda>v. guardE (\<not> valid_ratio v) ErrInvalidMetric)
        [sm_attempt_success_rate m, sm_rate_limit_rate m, sm_stream_completion_rate m,
         sm_capacity_stability m])
     (\<lambda>_. if \<not> f_finite (sm_recovery_millis m) \<or> f_lt (sm_recovery_millis m) (Fin 0)
        then Inl ErrInvalidMetric
        else score_dimension DimSLA
          [metric ''attempt_success_rate'' (sm_attempt_success_rate m) (sr_attempt_success rules),
           metric ''rate_limit_rate'' (sm_rate_limit_rate m) (sr_rate_limit rules),
           metric ''consecutive_failures'' (f_of_nat (unat (sm_consecutive_failures m))) (sr_consecutive_fails rules),
           metric ''stream_completion_rate'' (sm_stream_completion_rate m) (sr_stream_completion rules),
           metric ''recovery_ms'' (sm_recovery_millis m) (sr_recovery rules),
           metric ''capacity_stability'' (sm_capacity_stability m) (sr_capacity rules)])"

datatype authenticity = AuthPending | AuthConsistent | AuthSuspicious | AuthInconsistent
  | AuthOther string

record authenticity_values =
  av_consistent :: f64
  av_suspicious :: f64
  av_inconsistent :: f64

record quality_metrics =
  qm_authenticity :: authenticity
  qm_capability_rate :: f64
  qm_stability_rate :: f64
  qm_evidence_confidence :: f64

record quality_rules =
  qr_authenticity :: metric_rule
  qr_authenticity_values :: authenticity_values
  qr_capability :: metric_rule
  qr_stability :: metric_rule
  qr_evidence :: metric_rule

definition normalized_authenticity :: "authenticity \<Rightarrow> authenticity_values \<Rightarrow> scoring_error + f64" where
  "normalized_authenticity a vs =
     bindE (check_all (\<lambda>v. guardE (\<not> valid_ratio v) ErrInvalidRules)
        [av_consistent vs, av_suspicious vs, av_inconsistent vs])
     (\<lambda>_. case a of AuthConsistent \<Rightarrow> Inr (av_consistent vs)
        | AuthSuspicious \<Rightarrow> Inr (av_suspicious vs)
        | AuthInconsistent \<Rightarrow> Inr (av_inconsistent vs)
        | _ \<Rightarrow> Inl ErrInvalidMetric)"

definition score_quality :: "quality_metrics \<Rightarrow> quality_rules \<Rightarrow> scoring_error + dimension_score" where
  "score_quality m rules =
     bindE (normalized_authenticity (qm_authenticity m) (qr_authenticity_values rules)) (\<lambda>auth.
     bindE (check_all (\<lambda>v. guardE (\<not> valid_ratio v) ErrInvalidMetric)
        [qm_capability_rate m, qm_stability_rate m, qm_evidence_confidence m]) (\<lambda>_.
     score_dimension DimQuality
        [metric ''authenticity'' auth (qr_authenticity rules),
         metric ''capability_rate'' (qm_capability_rate m) (qr_capability rules),
         metric ''stability_rate'' (qm_stability_rate m) (qr_stability rules),
         metric ''evidence_confidence'' (qm_evidence_confidence m) (qr_evidence rules)]))"

section \<open>Clamping and valid scores\<close>

lemma valid_score_iff: "valid_score s \<longleftrightarrow> (\<exists>q. s = Fin q \<and> 0 \<le> q \<and> q \<le> 100)"
  by (cases s) (auto simp: valid_score_def)

lemma clamp_Fin: "clamp_score (Fin q) = Fin (max 0 (min 100 q))"
  by (simp add: clamp_score_def)

lemma clamp_inf [simp]: "clamp_score PInf = Fin 100" "clamp_score NInf = Fin 0"
  by (simp_all add: clamp_score_def f_lt_def)

lemma clamp_NaN [simp]: "clamp_score NaN = NaN"
  by (simp add: clamp_score_def)

lemma valid_clamp [simp]: "valid_score (clamp_score v) \<longleftrightarrow> v \<noteq> NaN"
  by (cases v) (auto simp: valid_score_iff clamp_Fin)

lemma clamp_mono: "f_le x y \<Longrightarrow> f_le (clamp_score x) (clamp_score y)"
  by (cases x; cases y) (auto simp: clamp_Fin)

lemma clamp_valid_id: "valid_score s \<Longrightarrow> clamp_score s = s"
  by (auto simp: valid_score_iff clamp_Fin)

lemma add_weight_Inr: "add_weight t w = Inr u \<longleftrightarrow> (\<exists>q. w = Fin q \<and> 0 < q \<and> q \<le> 1) \<and> u = f_add t w"
  by (cases w) (auto simp: add_weight_def)

lemma weights_total_ok:
  "foldE add_weight t ws = Inr u \<Longrightarrow> \<forall>w\<in>set ws. \<exists>q. w = Fin q \<and> 0 < q \<and> q \<le> 1"
  by (induction ws arbitrary: t) (auto simp: add_weight_Inr)

lemma validate_weights_ok:
  "validate_weights ws = Inr u \<Longrightarrow> \<forall>w\<in>set ws. \<exists>q. w = Fin q \<and> 0 < q \<and> q \<le> 1"
  by (auto simp: validate_weights_def dest!: weights_total_ok)

lemma weighted_term:
  assumes "valid_score s" "0 < w" "w \<le> 1"
  shows "\<exists>q. s = Fin q \<and> f_mul s (Fin w) = Fin (rnd (q * w)) \<and> 0 \<le> rnd (q * w) \<and> rnd (q * w) \<le> 100"
proof -
  obtain q where q: "s = Fin q" "0 \<le> q" "q \<le> 100" using assms(1) by (auto simp: valid_score_iff)
  have "q * w \<le> 100 * 1" using q assms by (intro mult_mono) auto
  then have "nearest (q * w) = Fin (rnd (q * w))"
    using q assms by (intro nearest_small) auto
  then show ?thesis
    using q assms binary64.percent_product [of q w] by auto
qed

lemma f_add_small:
  "0 \<le> a \<Longrightarrow> 0 \<le> b \<Longrightarrow> a + b \<le> 10000 \<Longrightarrow> f_add (Fin a) (Fin b) = Fin (rnd (a + b))"
  by (simp add: nearest_small)

section \<open>Normalised metrics\<close>

definition tame_metric :: "metric_input \<Rightarrow> bool" where
  "tame_metric m \<longleftrightarrow> tame (mi_value m) \<and> tame (mr_best (mi_rule m)) \<and> tame (mr_worst (mi_rule m))"

text \<open>The raw value of the second metric is at least as good as that of the first.\<close>

definition no_worse :: "metric_input \<Rightarrow> metric_input \<Rightarrow> bool" where
  "no_worse m m' \<longleftrightarrow> mi_rule m' = mi_rule m \<and>
     (if f_lt (mr_best (mi_rule m)) (mr_worst (mi_rule m)) then f_le (mi_value m') (mi_value m)
      else f_le (mi_value m) (mi_value m'))"

lemma normalize_tame:
  assumes "tame v" "tame (mr_best rule)" "tame (mr_worst rule)" "mr_best rule \<noteq> mr_worst rule"
  obtains q b w where "v = Fin q" "mr_best rule = Fin b" "mr_worst rule = Fin w" "b \<noteq> w"
    "(b < w \<and> 0 < rnd (w - b)) \<or> (w < b \<and> rnd (w - b) < 0)"
    "normalize_metric v rule =
       Inr (clamp_score (f_mul (Fin 100) (f_sub (Fin 1) (nearest (rnd (q - b) / rnd (w - b))))))"
proof -
  from assms obtain q b w where q: "v = Fin q" "rnd q = q" "\<bar>q\<bar> \<le> pow2 999"
    and b: "mr_best rule = Fin b" "rnd b = b" "\<bar>b\<bar> \<le> pow2 999"
    and w: "mr_worst rule = Fin w" "rnd w = w" "\<bar>w\<bar> \<le> pow2 999"
    by (auto elim!: tameE)
  have bw: "b \<noteq> w" using assms(4) b w by simp
  have sign: "(b < w \<and> 0 < rnd (w - b)) \<or> (w < b \<and> rnd (w - b) < 0)"
    using bw b w by (meson linorder_neqE rnd_diff_neg rnd_diff_pos)
  have "normalize_metric v rule =
       Inr (clamp_score (f_mul (Fin 100) (f_sub (Fin 1) (nearest (rnd (q - b) / rnd (w - b))))))"
    using sign bw q b w by (auto simp: normalize_metric_def f_sub_tame)
  with that [OF q(1) b(1) w(1) bw sign] show ?thesis by simp
qed

lemma normalize_Inr_neq: "normalize_metric v rule = Inr s \<Longrightarrow> mr_best rule \<noteq> mr_worst rule"
  by (cases "mr_best rule"; cases "mr_worst rule") (auto simp: normalize_metric_def split: if_splits)

lemma normalize_valid:
  assumes "normalize_metric v rule = Inr s" "tame v" "tame (mr_best rule)" "tame (mr_worst rule)"
  shows "valid_score s"
  using normalize_tame [OF assms(2-4) normalize_Inr_neq [OF assms(1)]] assms(1)
  by (metis Inr_inject f_mul_not_NaN f_sub_not_NaN nearest_not_NaN(1) valid_clamp zero_less_numeral)

lemma normalize_mono:
  assumes "normalize_metric (mi_value m) (mi_rule m) = Inr s"
    and "normalize_metric (mi_value m') (mi_rule m') = Inr s'"
    and "tame_metric m" "tame_metric m'" "no_worse m m'"
  shows "f_le s s'"
proof -
  let ?r = "mi_rule m"
  have r: "mi_rule m' = ?r" using assms(5) by (simp add: no_worse_def)
  have t: "tame (mi_value m)" "tame (mi_value m')" "tame (mr_best ?r)" "tame (mr_worst ?r)"
    using assms(3,4) r by (simp_all add: tame_metric_def)
  note ne = normalize_Inr_neq [OF assms(1)]
  obtain q b w where q: "mi_value m = Fin q" "mr_best ?r = Fin b" "mr_worst ?r = Fin w" "b \<noteq> w"
    and sign: "(b < w \<and> 0 < rnd (w - b)) \<or> (w < b \<and> rnd (w - b) < 0)"
    and n: "normalize_metric (mi_value m) ?r =
       Inr (clamp_score (f_mul (Fin 100) (f_sub (Fin 1) (nearest (rnd (q - b) / rnd (w - b))))))"
    by (rule normalize_tame [OF t(1,3,4) ne])
  obtain q' b' w' where q': "mi_value m' = Fin q'" "mr_best ?r = Fin b'" "mr_worst ?r = Fin w'"
    and n': "normalize_metric (mi_value m') ?r =
       Inr (clamp_score (f_mul (Fin 100) (f_sub (Fin 1) (nearest (rnd (q' - b') / rnd (w' - b'))))))"
    by (rule normalize_tame [OF t(2-4) ne])
  have eq: "b' = b" "w' = w" using q q' by simp_all
  have dir: "if b < w then q' \<le> q else q \<le> q'"
    using assms(5) q q' by (simp add: no_worse_def split: if_splits)
  have "rnd (q' - b) / rnd (w - b) \<le> rnd (q - b) / rnd (w - b)"
  proof (cases "b < w")
    case True
    with dir sign show ?thesis by (intro divide_right_mono rnd_mono) auto
  next
    case False
    with dir sign show ?thesis by (intro divide_right_mono_neg rnd_mono) auto
  qed
  then have "f_le (nearest (rnd (q' - b) / rnd (w - b))) (nearest (rnd (q - b) / rnd (w - b)))"
    by (rule nearest_mono)
  then have "f_le (f_mul (Fin 100) (f_sub (Fin 1) (nearest (rnd (q - b) / rnd (w - b)))))
      (f_mul (Fin 100) (f_sub (Fin 1) (nearest (rnd (q' - b) / rnd (w - b)))))"
    by (intro f_mul_mono_pos f_sub_antimono) simp_all
  then show ?thesis using n n' assms(1,2) r eq by (auto dest: clamp_mono)
qed

section \<open>Dimension scores are running sums\<close>

definition score_term :: "metric_input \<Rightarrow> rat" where
  "score_term m = (case (normalize_metric (mi_value m) (mi_rule m), mr_weight (mi_rule m)) of
     (Inr (Fin n), Fin w) \<Rightarrow> rnd (n * w) | _ \<Rightarrow> 0)"

definition scorable :: "metric_input \<Rightarrow> bool" where
  "scorable m \<longleftrightarrow> (\<exists>n w. normalize_metric (mi_value m) (mi_rule m) = Inr (Fin n) \<and> 0 \<le> n \<and> n \<le> 100
     \<and> mr_weight (mi_rule m) = Fin w \<and> 0 < w \<and> w \<le> 1)"

lemma score_term_bounds: "scorable m \<Longrightarrow> 0 \<le> score_term m \<and> score_term m \<le> 100"
proof -
  assume "scorable m"
  then obtain n w where "normalize_metric (mi_value m) (mi_rule m) = Inr (Fin n)" "0 \<le> n" "n \<le> 100"
    "mr_weight (mi_rule m) = Fin w" "0 < w" "w \<le> 1"
    by (auto simp: scorable_def)
  with binary64.percent_product [of n w] show ?thesis by (simp add: score_term_def)
qed

lemma score_steps_sum:
  assumes "\<forall>m\<in>set ms. scorable m" "0 \<le> a" "a \<le> of_int (int k * 100)" "k + length ms \<le> 99"
  shows "\<exists>cs'. foldE score_step (Fin a, cs) ms =
    Inr (Fin (foldl (\<lambda>s x. rnd (s + x)) a (map score_term ms)), cs') \<and>
    (\<forall>c\<in>set cs'. c \<in> set cs \<or> valid_score (cs_normalized c))"
  using assms
proof (induction ms arbitrary: a k cs)
  case (Cons m ms)
  then obtain n w where m: "normalize_metric (mi_value m) (mi_rule m) = Inr (Fin n)" "0 \<le> n" "n \<le> 100"
    "mr_weight (mi_rule m) = Fin w" "0 < w" "w \<le> 1"
    unfolding scorable_def by (metis list.set_intros(1))
  have t: "score_term m = rnd (n * w)" "0 \<le> score_term m" "score_term m \<le> 100"
    using score_term_bounds [of m] Cons.prems(1) m(1,4) by (simp_all add: score_term_def)
  have k: "(of_int (int k * 100) :: rat) \<le> 9800" using Cons.prems(4) by simp
  have sum: "f_add (Fin a) (f_mul (Fin n) (Fin w)) = Fin (rnd (a + score_term m))"
  proof -
    have "f_mul (Fin n) (Fin w) = Fin (score_term m)"
      using weighted_term [of "Fin n" w] m(2,3,5,6) t(1) by (auto simp: valid_score_iff)
    moreover have "a + score_term m \<le> 10000" using t(3) Cons.prems(3) k by linarith
    ultimately show ?thesis using f_add_small [OF Cons.prems(2) t(2)] by simp
  qed
  have "a + score_term m \<le> of_int (int (Suc k) * 100)"
    using t Cons.prems(3) by simp
  then have b: "0 \<le> rnd (a + score_term m) \<and> rnd (a + score_term m) \<le> of_int (int (Suc k) * 100)"
    using binary64.int_bounds [of 0 "a + score_term m" "int (Suc k) * 100"] t Cons.prems(2,4) by simp
  let ?c = "\<lparr>cs_metric = mi_name m, cs_raw_value = mi_value m, cs_normalized = Fin n, cs_weight = Fin w\<rparr>"
  have step: "foldE score_step (Fin a, cs) (m # ms) =
      foldE score_step (Fin (rnd (a + score_term m)), cs @ [?c]) ms"
    using m(1,4) sum by (simp add: score_step_def)
  have "\<exists>cs'. foldE score_step (Fin (rnd (a + score_term m)), cs @ [?c]) ms =
      Inr (Fin (foldl (\<lambda>s x. rnd (s + x)) (rnd (a + score_term m)) (map score_term ms)), cs') \<and>
      (\<forall>c\<in>set cs'. c \<in> set (cs @ [?c]) \<or> valid_score (cs_normalized c))"
  proof (rule Cons.IH)
    show "\<forall>m\<in>set ms. scorable m" using Cons.prems(1) by simp
    show "0 \<le> rnd (a + score_term m)" using b by (rule conjunct1)
    show "rnd (a + score_term m) \<le> of_int (int (Suc k) * 100)" using b by (rule conjunct2)
    show "Suc k + length ms \<le> 99" using Cons.prems(4) by simp
  qed
  moreover have "valid_score (cs_normalized ?c)" using m(2,3) by (simp add: valid_score_iff)
  ultimately show ?case unfolding step by fastforce
qed simp

lemma score_dimension_scorable:
  assumes "score_dimension d ms = Inr r" "\<forall>m\<in>set ms. tame_metric m"
  shows "\<forall>m\<in>set ms. scorable m"
proof
  fix m assume m: "m \<in> set ms"
  from assms(1) have "\<forall>w\<in>set (map (mr_weight \<circ> mi_rule) ms). \<exists>q. w = Fin q \<and> 0 < q \<and> q \<le> 1"
    by (auto simp: score_dimension_def dest: validate_weights_ok)
  with m obtain w where w: "mr_weight (mi_rule m) = Fin w" "0 < w" "w \<le> 1" by auto
  obtain acc where "foldE score_step (Fin 0, []) ms = Inr acc"
    using assms(1) by (auto simp: score_dimension_def)
  then obtain n where n: "normalize_metric (mi_value m) (mi_rule m) = Inr n"
    using m by (auto dest!: split_list simp: foldE_append score_step_def)
  have "valid_score n"
    using normalize_valid [OF n] assms(2) m by (simp add: tame_metric_def)
  with n w show "scorable m" by (auto simp: scorable_def valid_score_iff)
qed

lemma score_dimension_value:
  assumes "score_dimension d ms = Inr r" "\<forall>m\<in>set ms. tame_metric m" "length ms \<le> 99"
  shows "dsc_score r = clamp_score (Fin (foldl (\<lambda>s x. rnd (s + x)) 0 (map score_term ms)))"
    and "\<forall>c\<in>set (dsc_components r). valid_score (cs_normalized c)"
proof -
  have "\<exists>cs'. foldE score_step (Fin 0, []) ms =
      Inr (Fin (foldl (\<lambda>s x. rnd (s + x)) 0 (map score_term ms)), cs') \<and>
      (\<forall>c\<in>set cs'. c \<in> set [] \<or> valid_score (cs_normalized c))"
    by (rule score_steps_sum [where k = 0]) (use score_dimension_scorable [OF assms(1,2)] assms(3) in auto)
  with assms(1) show "dsc_score r = clamp_score (Fin (foldl (\<lambda>s x. rnd (s + x)) 0 (map score_term ms)))"
    and "\<forall>c\<in>set (dsc_components r). valid_score (cs_normalized c)"
    by (auto simp: score_dimension_def)
qed

section \<open>The composite\<close>

lemma composite_value:
  assumes "composite_score s w = Inr c"
  obtains p l a q wp wl wa wq where
    "ds_price s = Fin p" "ds_latency s = Fin l" "ds_sla s = Fin a" "ds_quality s = Fin q"
    "aw_price w = Fin wp" "aw_latency w = Fin wl" "aw_sla w = Fin wa" "aw_quality w = Fin wq"
    "0 < wp" "0 < wl" "0 < wa" "0 < wq"
    "c = clamp_score (Fin (foldl (\<lambda>s x. rnd (s + x)) (rnd (p * wp)) [rnd (l * wl), rnd (a * wa), rnd (q * wq)]))"
proof -
  from assms have v: "valid_score (ds_price s)" "valid_score (ds_latency s)" "valid_score (ds_sla s)"
    "valid_score (ds_quality s)"
    by (auto simp: composite_score_def validate_dimension_scores_def split: if_splits)
  from assms have "validate_weights [aw_price w, aw_latency w, aw_sla w, aw_quality w] = Inr ()"
    by (auto simp: composite_score_def)
  from validate_weights_ok [OF this] obtain wp wl wa wq where w: "aw_price w = Fin wp" "aw_latency w = Fin wl" "aw_sla w = Fin wa"
    "aw_quality w = Fin wq" "0 < wp" "0 < wl" "0 < wa" "0 < wq" "wp \<le> 1" "wl \<le> 1" "wa \<le> 1" "wq \<le> 1"
    by auto
  obtain p l a q where t: "ds_price s = Fin p" "ds_latency s = Fin l" "ds_sla s = Fin a" "ds_quality s = Fin q"
    and m: "f_mul (Fin p) (Fin wp) = Fin (rnd (p * wp))" "f_mul (Fin l) (Fin wl) = Fin (rnd (l * wl))"
      "f_mul (Fin a) (Fin wa) = Fin (rnd (a * wa))" "f_mul (Fin q) (Fin wq) = Fin (rnd (q * wq))"
    and b: "0 \<le> rnd (p * wp) \<and> rnd (p * wp) \<le> 100" "0 \<le> rnd (l * wl) \<and> rnd (l * wl) \<le> 100"
      "0 \<le> rnd (a * wa) \<and> rnd (a * wa) \<le> 100" "0 \<le> rnd (q * wq) \<and> rnd (q * wq) \<le> 100"
    using weighted_term [OF v(1) w(5,9)] weighted_term [OF v(2) w(6,10)]
      weighted_term [OF v(3) w(7,11)] weighted_term [OF v(4) w(8,12)]
    by (metis f64.inject)
  let ?x = "rnd (rnd (p * wp) + rnd (l * wl))"
  have x: "0 \<le> ?x \<and> ?x \<le> 200"
    using binary64.int_bounds [of 0 "rnd (p * wp) + rnd (l * wl)" 200] b by simp
  let ?y = "rnd (?x + rnd (a * wa))"
  have y: "0 \<le> ?y \<and> ?y \<le> 300"
    using binary64.int_bounds [of 0 "?x + rnd (a * wa)" 300] x b by simp
  have "f_add (f_add (f_add (Fin (rnd (p * wp))) (Fin (rnd (l * wl)))) (Fin (rnd (a * wa)))) (Fin (rnd (q * wq)))
      = Fin (rnd (?y + rnd (q * wq)))"
    using b x y by (simp add: nearest_small del: f_add.simps add: f_add_small)
  then have "c = clamp_score (Fin (rnd (?y + rnd (q * wq))))"
    using assms by (auto simp: composite_score_def t w(1-4) m simp del: f_mul.simps f_add.simps)
  then show ?thesis using that [OF t w(1-8)] by simp
qed

text \<open>Literal percentages that add up to 100 pass the check of the weights.\<close>

lemma percent_weight:
  assumes "1 \<le> p" "p \<le> 100"
  obtains q where "nearest (p / 100) = Fin q" "0 < q" "q \<le> 1"
    "p / 100 - 1 / 2 ^ 53 \<le> q" "q \<le> p / 100 + 1 / 2 ^ 53"
proof
  show "nearest (p / 100) = Fin (rnd (p / 100))" using assms by (simp add: nearest_small)
  have "pow2 (- 7) \<le> rnd (p / 100)" using assms by (intro rnd_ge_pow2) (simp_all add: pow2_def)
  then show "0 < rnd (p / 100)" using pow2_pos(1) [of "- 7"] by linarith
  show "rnd (p / 100) \<le> 1" using rnd_mono [of "p / 100" 1] assms by simp
  have "\<bar>rnd (p / 100) - p / 100\<bar> \<le> 1 / 2 ^ 53" using assms by (intro rnd_error) simp
  then show "p / 100 - 1 / 2 ^ 53 \<le> rnd (p / 100)" "rnd (p / 100) \<le> p / 100 + 1 / 2 ^ 53"
    by linarith+
qed

lemma f_add_near:
  assumes "- 2 < a + b" "a + b < 2"
  obtains c where "f_add (Fin a) (Fin b) = Fin c" "a + b - 1 / 2 ^ 53 \<le> c" "c \<le> a + b + 1 / 2 ^ 53"
proof
  have lt: "\<bar>a + b\<bar> < 2" using assms by (simp add: abs_less_iff)
  show "f_add (Fin a) (Fin b) = Fin (rnd (a + b))" using lt by (simp add: nearest_small)
  show "a + b - 1 / 2 ^ 53 \<le> rnd (a + b)" "rnd (a + b) \<le> a + b + 1 / 2 ^ 53"
    using rnd_error [OF lt] by linarith+
qed

lemma percent_weights_accepted:
  assumes "1 \<le> p" "1 \<le> l" "1 \<le> s" "1 \<le> q" "p + l + s + q = 100" "w = percent_weights p l s q"
  shows "validate_weights [aw_price w, aw_latency w, aw_sla w, aw_quality w] = Inr ()"
proof -
  define e :: rat where "e = 1 / 2 ^ 53"
  have e: "0 < e" "e < 1 / 10000000000000" "10 * e < pow2 (- 30)"
    by (simp_all add: e_def pow2_def)
  have pct: "p / 100 + l / 100 + s / 100 + q / 100 = 1"
    using assms(5) by (simp add: add_divide_distrib [symmetric])
  have nn: "0 < p / 100" "0 < l / 100" "0 < s / 100" "0 < q / 100" using assms by simp_all
  obtain a where a: "nearest (p / 100) = Fin a" "0 < a" "a \<le> 1" and ab: "p / 100 - e \<le> a" "a \<le> p / 100 + e"
    using percent_weight [of p] assms unfolding e_def by force
  obtain b where b: "nearest (l / 100) = Fin b" "0 < b" "b \<le> 1" and bb: "l / 100 - e \<le> b" "b \<le> l / 100 + e"
    using percent_weight [of l] assms unfolding e_def by force
  obtain c where c: "nearest (s / 100) = Fin c" "0 < c" "c \<le> 1" and cb: "s / 100 - e \<le> c" "c \<le> s / 100 + e"
    using percent_weight [of s] assms unfolding e_def by force
  obtain d where d: "nearest (q / 100) = Fin d" "0 < d" "d \<le> 1" and db: "q / 100 - e \<le> d" "d \<le> q / 100 + e"
    using percent_weight [of q] assms unfolding e_def by force
  have "- 2 < 0 + a" "0 + a < 2" using a(2,3) by linarith+
  from f_add_near [OF this] obtain t1 where t1: "f_add (Fin 0) (Fin a) = Fin t1"
    and t1b: "0 + a - e \<le> t1" "t1 \<le> 0 + a + e" unfolding e_def .
  have "- 2 < t1 + b" "t1 + b < 2" using t1b ab bb pct nn e by linarith+
  from f_add_near [OF this] obtain t2 where t2: "f_add (Fin t1) (Fin b) = Fin t2"
    and t2b: "t1 + b - e \<le> t2" "t2 \<le> t1 + b + e" unfolding e_def .
  have "- 2 < t2 + c" "t2 + c < 2" using t1b t2b ab bb cb pct nn e by linarith+
  from f_add_near [OF this] obtain t3 where t3: "f_add (Fin t2) (Fin c) = Fin t3"
    and t3b: "t2 + c - e \<le> t3" "t3 \<le> t2 + c + e" unfolding e_def .
  have "- 2 < t3 + d" "t3 + d < 2" using t1b t2b t3b ab bb cb db pct nn e by linarith+
  from f_add_near [OF this] obtain t4 where t4: "f_add (Fin t3) (Fin d) = Fin t4"
    and t4b: "t3 + d - e \<le> t4" "t4 \<le> t3 + d + e" unfolding e_def .
  have "- 2 < t4 + - 1" "t4 + - 1 < 2" using t1b t2b t3b t4b ab bb cb db pct nn e by linarith+
  from f_add_near [OF this] obtain t5 where t5: "f_add (Fin t4) (Fin (- 1)) = Fin t5"
    and t5b: "t4 + - 1 - e \<le> t5" "t5 \<le> t4 + - 1 + e" unfolding e_def .
  have t5e: "- (9 * e) \<le> t5" "t5 \<le> 9 * e" using t1b t2b t3b t4b t5b ab bb cb db pct by linarith+
  then have "\<bar>t5\<bar> \<le> 9 * e" by (simp add: abs_le_iff)
  also have "9 * e < pow2 (- 30)" using e by linarith
  also have "pow2 (- 30) \<le> rnd (1 / 1000000000)" by (rule rnd_ge_pow2) (simp_all add: pow2_def)
  finally have lt: "\<not> f_lt (nearest (1 / 1000000000)) (Fin \<bar>t5\<bar>)" by (simp add: nearest_small)
  have sub: "f_sub (Fin t4) (Fin 1) = Fin t5" using t5 by (simp add: f_sub_def)
  have "foldE add_weight (Fin 0) [Fin a, Fin b, Fin c, Fin d] = Inr (Fin t4)"
    using a(2,3) b(2,3) c(2,3) d(2,3) t1 t2 t3 t4
    by (simp add: add_weight_def del: f_add.simps)
  then show ?thesis
    using lt sub a(1) b(1) c(1) d(1)
    by (simp add: validate_weights_def assms(6) percent_weights_def del: foldE.simps)
qed

lemma composite_valid: "composite_score s w = Inr c \<Longrightarrow> valid_score c"
  by (erule composite_value) simp

lemma fixed_weights_composite:
  assumes "fixed_auto_weights v kind = Inr w" "validate_dimension_scores s = Inr ()"
  obtains c where "composite_score s w = Inr c"
proof -
  have "validate_weights [aw_price w, aw_latency w, aw_sla w, aw_quality w] = Inr ()"
    using assms(1) by (cases kind) (auto simp: fixed_auto_weights_def percent_weights_accepted [OF _ _ _ _ _ refl] split: if_splits)
  with assms(2) that show ?thesis by (simp add: composite_score_def)
qed

section \<open>Properties\<close>

text \<open>
  A dimension score that the code returns is a number between 0 and 100, and so is every
  normalised component in its explanation, when the raw values and the rule bounds are numbers
  whose differences do not overflow.
\<close>

theorem score_dimension_in_range:
  assumes "score_dimension d ms = Inr r" and "\<forall>m\<in>set ms. tame_metric m" and "length ms \<le> 99"
  shows "valid_score (dsc_score r) \<and> (\<forall>c\<in>set (dsc_components r). valid_score (cs_normalized c))"
  using score_dimension_value [OF assms] by simp

text \<open>
  Improving raw metrics never lowers a dimension score: when every metric of a second
  measurement is at least as good as that of the first under the same rules (closer to the best
  bound, whichever side it is on), the second score is at least the first, all roundings
  included.
\<close>

theorem score_dimension_monotone:
  assumes "score_dimension d ms = Inr r" and "score_dimension d' ms' = Inr r'"
    and "\<forall>m\<in>set ms. tame_metric m" and "\<forall>m\<in>set ms'. tame_metric m"
    and "list_all2 no_worse ms ms'" and "length ms \<le> 99"
  shows "f_le (dsc_score r) (dsc_score r')"
proof -
  have len: "length ms' \<le> 99" using assms(5,6) by (simp add: list_all2_lengthD)
  have sc: "\<forall>m\<in>set ms. scorable m" "\<forall>m\<in>set ms'. scorable m"
    using assms by (auto dest: score_dimension_scorable)
  have "list_all2 (\<lambda>m m'. score_term m \<le> score_term m') ms ms'"
  proof (rule list.rel_mono_strong [OF assms(5)])
    fix m m' assume m: "m \<in> set ms" "m' \<in> set ms'" "no_worse m m'"
    from sc m obtain n w n' where n: "normalize_metric (mi_value m) (mi_rule m) = Inr (Fin n)"
      "mr_weight (mi_rule m) = Fin w" "0 < w"
      "normalize_metric (mi_value m') (mi_rule m') = Inr (Fin n')"
      by (fastforce simp: scorable_def)
    have "f_le (Fin n) (Fin n')"
      using normalize_mono [OF n(1,4)] assms(3,4) m by blast
    then have "rnd (n * w) \<le> rnd (n' * w)"
      using n(3) by (intro rnd_mono mult_right_mono) auto
    moreover have "mi_rule m' = mi_rule m" using m(3) by (simp add: no_worse_def)
    ultimately show "score_term m \<le> score_term m'" using n by (simp add: score_term_def)
  qed
  then have "list_all2 (\<le>) (map score_term ms) (map score_term ms')"
    by (simp add: list.rel_map)
  then have "foldl (\<lambda>s x. rnd (s + x)) 0 (map score_term ms) \<le>
      foldl (\<lambda>s x. rnd (s + x)) 0 (map score_term ms')"
    by (rule binary64.running_sum_mono) simp
  then show ?thesis
    using score_dimension_value(1) [OF assms(1,3,6)] score_dimension_value(1) [OF assms(2,4) len]
    by (simp add: clamp_mono)
qed

text \<open>
  A metric at its best bound is worth exactly 100 and one at its worst bound exactly 0,
  whichever bound is the larger number.
\<close>

theorem normalize_metric_endpoints:
  assumes "tame (mr_best rule)" and "tame (mr_worst rule)" and "mr_best rule \<noteq> mr_worst rule"
  shows "normalize_metric (mr_best rule) rule = Inr (Fin 100) \<and>
    normalize_metric (mr_worst rule) rule = Inr (Fin 0)"
proof -
  have sub: "f_sub (Fin 1) (Fin 0) = Fin 1" "f_sub (Fin 1) (Fin 1) = Fin 0"
    by (simp_all add: f_sub_def)
  have best: "normalize_metric (mr_best rule) rule = Inr (Fin 100)"
  proof -
    obtain q b w where "mr_best rule = Fin q" "mr_best rule = Fin b"
      and "normalize_metric (mr_best rule) rule =
        Inr (clamp_score (f_mul (Fin 100) (f_sub (Fin 1) (nearest (rnd (q - b) / rnd (w - b))))))"
      by (rule normalize_tame [OF assms(1,1,2,3)])
    then show ?thesis by (simp add: sub clamp_Fin)
  qed
  have worst: "normalize_metric (mr_worst rule) rule = Inr (Fin 0)"
  proof -
    obtain q b w where "mr_worst rule = Fin q" "mr_worst rule = Fin w"
      and "(b < w \<and> 0 < rnd (w - b)) \<or> (w < b \<and> rnd (w - b) < 0)"
      and "normalize_metric (mr_worst rule) rule =
        Inr (clamp_score (f_mul (Fin 100) (f_sub (Fin 1) (nearest (rnd (q - b) / rnd (w - b))))))"
      by (rule normalize_tame [OF assms(2,1,2,3)])
    then show ?thesis by (auto simp: sub clamp_Fin)
  qed
  show ?thesis using best worst by simp
qed

text \<open>
  A composite score is a number between 0 and 100 and is monotone: raising any of the four
  dimension scores, under the same weights, never lowers it, all roundings included.
\<close>

theorem composite_score_monotone:
  assumes "composite_score s w = Inr c" and "composite_score s' w = Inr c'"
    and "f_le (ds_price s) (ds_price s')" and "f_le (ds_latency s) (ds_latency s')"
    and "f_le (ds_sla s) (ds_sla s')" and "f_le (ds_quality s) (ds_quality s')"
  shows "valid_score c \<and> f_le c c'"
proof -
  obtain p l a q wp wl wa wq where s: "ds_price s = Fin p" "ds_latency s = Fin l" "ds_sla s = Fin a"
      "ds_quality s = Fin q"
    and w: "aw_price w = Fin wp" "aw_latency w = Fin wl" "aw_sla w = Fin wa" "aw_quality w = Fin wq"
    and pos: "0 < wp" "0 < wl" "0 < wa" "0 < wq"
    and c: "c = clamp_score (Fin (foldl (\<lambda>s x. rnd (s + x)) (rnd (p * wp)) [rnd (l * wl), rnd (a * wa), rnd (q * wq)]))"
    by (rule composite_value [OF assms(1)])
  obtain p' l' a' q' wp' wl' wa' wq' where s': "ds_price s' = Fin p'" "ds_latency s' = Fin l'"
      "ds_sla s' = Fin a'" "ds_quality s' = Fin q'"
    and w': "aw_price w = Fin wp'" "aw_latency w = Fin wl'" "aw_sla w = Fin wa'" "aw_quality w = Fin wq'"
    and c': "c' = clamp_score (Fin (foldl (\<lambda>s x. rnd (s + x)) (rnd (p' * wp')) [rnd (l' * wl'), rnd (a' * wa'), rnd (q' * wq')]))"
    by (rule composite_value [OF assms(2)])
  have eq: "wp' = wp" "wl' = wl" "wa' = wa" "wq' = wq" using w w' by simp_all
  have le: "p \<le> p'" "l \<le> l'" "a \<le> a'" "q \<le> q'" using assms(3-6) s s' by simp_all
  have "foldl (\<lambda>s x. rnd (s + x)) (rnd (p * wp)) [rnd (l * wl), rnd (a * wa), rnd (q * wq)] \<le>
      foldl (\<lambda>s x. rnd (s + x)) (rnd (p' * wp)) [rnd (l' * wl), rnd (a' * wa), rnd (q' * wq)]"
    by (rule binary64.running_sum_mono) (use le pos in \<open>auto intro!: rnd_mono mult_right_mono\<close>)
  then show ?thesis unfolding c c' eq by (simp add: clamp_mono)
qed

text \<open>
  The weights of the five fixed strategies are accepted by the composite's own weight check
  (as rounded floating-point literals, not as exact decimals), so four valid dimension scores
  always have a composite under every known strategy.
\<close>

theorem fixed_weights_always_score:
  assumes "fixed_auto_weights policy_version_m2 kind = Inr w" and "validate_dimension_scores s = Inr ()"
  shows "\<exists>c. composite_score s w = Inr c \<and> valid_score c"
  by (rule fixed_weights_composite [OF assms]) (use composite_valid in auto)

text \<open>
  C39: Without a bound on the rule the normalisation is not total: a finite value under a rule
  with finite, different bounds whose distance overflows is scored NaN, which the clamp to
  0..100 lets through as a result without an error.
\<close>

theorem normalize_metric_overflow_NaN:
  "normalize_metric (Fin (pow2 1023))
     \<lparr>mr_best = Fin (- pow2 1023), mr_worst = Fin (pow2 1023), mr_weight = Fin 1\<rparr> = Inr NaN
   \<and> f_wf (Fin (pow2 1023)) \<and> f_wf (Fin (- pow2 1023))"
proof -
  have sum: "pow2 1023 + pow2 1023 = pow2 1024" using pow2_add [of 1 1023] by (simp add: pow2_def)
  have ne: "- pow2 1023 \<noteq> pow2 1023"
    using pow2_pos(1) [of 1023] by linarith
  have "f_sub (Fin (pow2 1023)) (Fin (- pow2 1023)) = PInf"
    by (simp add: f_sub_def sum nearest_overflow)
  with ne have "normalize_metric (Fin (pow2 1023))
     \<lparr>mr_best = Fin (- pow2 1023), mr_worst = Fin (pow2 1023), mr_weight = Fin 1\<rparr> = Inr NaN"
    by (simp add: normalize_metric_def f_sub_def f_inf_def)
  then show ?thesis by (simp add: rnd_pow2 rnd_uminus pow2_strict)
qed

section \<open>Witnesses\<close>

definition sample_rule :: metric_rule where
  "sample_rule = \<lparr>mr_best = Fin 0, mr_worst = Fin 10, mr_weight = Fin 1\<rparr>"

lemma sample_rule_scores:
  "normalize_metric (Fin 0) sample_rule = Inr (Fin 100)" "normalize_metric (Fin 10) sample_rule = Inr (Fin 0)"
  by (simp_all add: normalize_metric_def sample_rule_def f_sub_def nearest_small rnd_uminus clamp_Fin)

lemma sample_dimension:
  "score_dimension DimLatency [metric n (Fin 0) sample_rule] = Inr \<lparr>dsc_dimension = DimLatency,
     dsc_score = Fin 100, dsc_components = [\<lparr>cs_metric = n, cs_raw_value = Fin 0, cs_normalized = Fin 100,
     cs_weight = Fin 1\<rparr>]\<rparr>"
  "score_dimension DimLatency [metric n (Fin 10) sample_rule] = Inr \<lparr>dsc_dimension = DimLatency,
     dsc_score = Fin 0, dsc_components = [\<lparr>cs_metric = n, cs_raw_value = Fin 10, cs_normalized = Fin 0,
     cs_weight = Fin 1\<rparr>]\<rparr>"
proof -
  have "pow2 (- 30) \<le> rnd (1 / 1000000000)" by (rule rnd_ge_pow2) (simp_all add: pow2_def)
  then have "0 < rnd (1 / 1000000000)" using pow2_pos(1) [of "- 30"] by linarith
  then have w: "validate_weights [Fin 1] = Inr ()"
    by (simp add: validate_weights_def add_weight_def f_sub_def nearest_small guardE_def)
  have r: "mr_weight sample_rule = Fin 1" by (simp add: sample_rule_def)
  show "score_dimension DimLatency [metric n (Fin 0) sample_rule] = Inr \<lparr>dsc_dimension = DimLatency,
     dsc_score = Fin 100, dsc_components = [\<lparr>cs_metric = n, cs_raw_value = Fin 0, cs_normalized = Fin 100,
     cs_weight = Fin 1\<rparr>]\<rparr>"
   "score_dimension DimLatency [metric n (Fin 10) sample_rule] = Inr \<lparr>dsc_dimension = DimLatency,
     dsc_score = Fin 0, dsc_components = [\<lparr>cs_metric = n, cs_raw_value = Fin 10, cs_normalized = Fin 0,
     cs_weight = Fin 1\<rparr>]\<rparr>"
    by (simp_all add: score_dimension_def metric_def r w score_step_def sample_rule_scores clamp_Fin)
qed

lemma sample_tame: "tame_metric (metric n (Fin 0) sample_rule)" "tame_metric (metric n (Fin 10) sample_rule)"
  by (simp_all add: tame_metric_def metric_def sample_rule_def)

theorem score_dimension_in_range_witness: "valid_score (Fin 100)"
proof -
  have "\<forall>m\<in>set [metric ''m'' (Fin 0) sample_rule]. tame_metric m" by (simp add: sample_tame)
  from score_dimension_in_range [OF sample_dimension(1) [of "''m''"] this] show ?thesis by simp
qed

theorem score_dimension_monotone_witness: "f_le (Fin 0) (Fin 100)"
proof -
  have t: "\<forall>m\<in>set [metric ''m'' (Fin 10) sample_rule]. tame_metric m"
    "\<forall>m\<in>set [metric ''m'' (Fin 0) sample_rule]. tame_metric m" by (simp_all add: sample_tame)
  have l: "list_all2 no_worse [metric ''m'' (Fin 10) sample_rule] [metric ''m'' (Fin 0) sample_rule]"
    by (simp add: no_worse_def metric_def sample_rule_def)
  from score_dimension_monotone [OF sample_dimension(2) [of "''m''"] sample_dimension(1) [of "''m''"] t l]
  show ?thesis by simp
qed

theorem normalize_metric_endpoints_witness:
  "normalize_metric (Fin 0) sample_rule = Inr (Fin 100) \<and> normalize_metric (Fin 10) sample_rule = Inr (Fin 0)"
  using normalize_metric_endpoints [of sample_rule] by (simp add: sample_rule_def)

definition all_scores :: "rat \<Rightarrow> dimension_scores" where
  "all_scores q = \<lparr>ds_price = Fin q, ds_latency = Fin q, ds_sla = Fin q, ds_quality = Fin q\<rparr>"

lemma all_scores_valid: "0 \<le> q \<Longrightarrow> q \<le> 100 \<Longrightarrow> validate_dimension_scores (all_scores q) = Inr ()"
  by (simp add: validate_dimension_scores_def all_scores_def valid_score_def)

lemma all_scores_composite:
  assumes "0 \<le> q" "q \<le> 100"
  shows "\<exists>c. composite_score (all_scores q) (percent_weights 25 25 30 20) = Inr c"
  using all_scores_valid [OF assms] percent_weights_accepted [OF _ _ _ _ _ refl, of 25 25 30 20]
  by (simp add: composite_score_def)

theorem composite_score_monotone_witness:
  "\<exists>c c'. composite_score (all_scores 40) (percent_weights 25 25 30 20) = Inr c \<and>
     composite_score (all_scores 60) (percent_weights 25 25 30 20) = Inr c' \<and> valid_score c \<and> f_le c c'"
proof -
  obtain c c' where c: "composite_score (all_scores 40) (percent_weights 25 25 30 20) = Inr c"
    "composite_score (all_scores 60) (percent_weights 25 25 30 20) = Inr c'"
    using all_scores_composite [of 40] all_scores_composite [of 60] by auto
  from composite_score_monotone [OF this] have "valid_score c \<and> f_le c c'" by (simp add: all_scores_def)
  with c show ?thesis by blast
qed

theorem fixed_weights_always_score_witness:
  "\<exists>c. composite_score (all_scores 80) (percent_weights 25 25 30 20) = Inr c \<and> valid_score c"
  by (rule fixed_weights_always_score [of AutoBalanced])
    (simp_all add: fixed_auto_weights_def all_scores_valid)

end
