(* ===== verification/Histogram.thy ===== *)
theory Histogram imports Scoring begin

text \<open>
  \<open>internal/domain/scoring/histogram.go\<close>: the latency histogram with seventeen shared
  buckets and \<open>uint64\<close> counts, its overflow-checked sample count and merge, and
  nearest-rank percentiles.

  The lemmas relate the machine arithmetic to exact sums, and the percentile scan to a reference
  definition: the bucket at the rank in the sorted list of all samples.
\<close>

section \<open>Buckets and histograms\<close>

definition latency_bucket_count :: nat where "latency_bucket_count = 17"

record latency_bucket =
  lb_upper :: int
  lb_infinite :: bool

definition latency_buckets :: "latency_bucket list" where
  "latency_buckets =
     map (\<lambda>b. \<lparr>lb_upper = b, lb_infinite = False\<rparr>)
       [50, 100, 250, 500, 1000, 2000, 3000, 5000, 8000, 10000, 15000, 30000, 60000, 120000, 300000, 600000]
     @ [\<lparr>lb_upper = 0, lb_infinite = True\<rparr>]"

text \<open>A histogram holds an array of exactly seventeen counts.\<close>

record latency_histogram =
  lh_counts :: "64 word list"

definition histogram_wf :: "latency_histogram \<Rightarrow> bool" where
  "histogram_wf h \<longleftrightarrow> length (lh_counts h) = latency_bucket_count"

definition new_latency_histogram :: "64 word list \<Rightarrow> scoring_error + latency_histogram" where
  "new_latency_histogram counts =
     (if length counts \<noteq> latency_bucket_count then Inl ErrInvalidHistogram
      else Inr \<lparr>lh_counts = counts\<rparr>)"

text \<open>Checked addition: \<open>^uint64(0)-total < count\<close> reports the overflow.\<close>

definition checked_add :: "64 word \<Rightarrow> 64 word \<Rightarrow> scoring_error + 64 word" where
  "checked_add t c = (if - 1 - t < c then Inl ErrInvalidHistogram else Inr (t + c))"

definition sample_count :: "latency_histogram \<Rightarrow> scoring_error + 64 word" where
  "sample_count h = foldE checked_add 0 (lh_counts h)"

fun merge_counts :: "64 word list \<Rightarrow> 64 word list \<Rightarrow> scoring_error + 64 word list" where
  "merge_counts (m # ms) (c # cs) =
     bindE (checked_add m c) (\<lambda>s. bindE (merge_counts ms cs) (\<lambda>ss. Inr (s # ss)))"
| "merge_counts ms cs = Inr ms"

definition merge_latency_histograms :: "latency_histogram list \<Rightarrow> scoring_error + latency_histogram" where
  "merge_latency_histograms hs =
     (if hs = [] then Inl ErrInvalidHistogram
      else bindE (foldE (\<lambda>m h. merge_counts m (lh_counts h)) (replicate latency_bucket_count 0) hs) (\<lambda>m.
        bindE (sample_count \<lparr>lh_counts = m\<rparr>) (\<lambda>_. Inr \<lparr>lh_counts = m\<rparr>)))"

section \<open>Percentiles\<close>

record percentile_range =
  pg_percentile :: "8 word"
  pg_rank :: "64 word"
  pg_sample_count :: "64 word"
  pg_lower :: int
  pg_lower_inclusive :: bool
  pg_upper :: int
  pg_upper_infinite :: bool

definition percentile_rank :: "64 word \<Rightarrow> 64 word \<Rightarrow> 64 word" where
  "percentile_rank samples p =
     (let whole = (samples div 100) * p; remainder = (samples mod 100) * p
      in whole + (remainder + 99) div 100)"

text \<open>The scan of \<open>Percentile\<close>: the first index where the running count reaches the
  rank.\<close>

fun rank_bucket :: "nat \<Rightarrow> 64 word \<Rightarrow> 64 word \<Rightarrow> 64 word list \<Rightarrow> nat option" where
  "rank_bucket i cumulative rank [] = None"
| "rank_bucket i cumulative rank (c # cs) =
     (if cumulative + c < rank then rank_bucket (Suc i) (cumulative + c) rank cs else Some i)"

definition percentile :: "latency_histogram \<Rightarrow> 8 word \<Rightarrow> scoring_error + percentile_range" where
  "percentile h p =
     (if p = 0 \<or> 100 < p then Inl ErrInvalidMetric
      else bindE (sample_count h) (\<lambda>samples.
        if samples = 0 then Inl ErrNoSamples
        else let rank = percentile_rank samples (ucast p) in
          case rank_bucket 0 0 rank (lh_counts h) of
            None \<Rightarrow> Inl ErrInvalidHistogram
          | Some i \<Rightarrow> Inr \<lparr>pg_percentile = p, pg_rank = rank, pg_sample_count = samples,
              pg_lower = (if 0 < i then lb_upper (latency_buckets ! (i - 1)) else 0),
              pg_lower_inclusive = (i = 0),
              pg_upper = lb_upper (latency_buckets ! i),
              pg_upper_infinite = lb_infinite (latency_buckets ! i)\<rparr>))"

record latency_summary =
  ls_histogram :: latency_histogram
  ls_samples :: "64 word"
  ls_p50 :: percentile_range
  ls_p90 :: percentile_range
  ls_p95 :: percentile_range

definition summarize_latency :: "latency_histogram list \<Rightarrow> scoring_error + latency_summary" where
  "summarize_latency hs =
     bindE (merge_latency_histograms hs) (\<lambda>merged.
     bindE (percentile merged 50) (\<lambda>p50.
     bindE (percentile merged 90) (\<lambda>p90.
     bindE (percentile merged 95) (\<lambda>p95.
     Inr \<lparr>ls_histogram = merged, ls_samples = pg_sample_count p50,
          ls_p50 = p50, ls_p90 = p90, ls_p95 = p95\<rparr>))))"

section \<open>Checked sums\<close>

text \<open>An overflow-checked accumulation: what a fold of a checked addition computes when it
  returns, and when it fails.\<close>

lemma checked_add_cases:
  "checked_add t c = (if unat t + unat c < 18446744073709551616 then Inr (t + c) else Inl ErrInvalidHistogram)"
proof -
  have "t \<le> - 1" by simp
  then have "unat (- 1 - t) = unat (- 1 :: 64 word) - unat t"
    by (simp only: unat_sub)
  then have "unat (- 1 - t) = 18446744073709551615 - unat t"
    by (simp add: unsigned_minus_1_eq_mask mask_eq_exp_minus_1)
  then have "- 1 - t < c \<longleftrightarrow> \<not> unat t + unat c < 18446744073709551616"
    using unat64_less [of t] unfolding word_less_nat_alt by linarith
  then show ?thesis by (simp add: checked_add_def)
qed

lemma checked_sum:
  "foldE checked_add t cs =
     (if unat t + sum_list (map unat cs) < 18446744073709551616 then Inr (t + sum_list cs) else Inl ErrInvalidHistogram)"
proof (induction cs arbitrary: t)
  case (Cons c cs)
  then show ?case
    by (cases "unat t + unat c < 18446744073709551616") (auto simp: checked_add_cases unat64_add add.assoc)
qed simp

lemma unat_sum_list:
  "sum_list (map unat cs) < 18446744073709551616 \<Longrightarrow> unat (sum_list (cs :: 64 word list)) = sum_list (map unat cs)"
  by (induction cs) (auto simp: unat64_add)

lemma sample_count_cases:
  "sample_count h =
     (if sum_list (map unat (lh_counts h)) < 18446744073709551616 then Inr (sum_list (lh_counts h))
      else Inl ErrInvalidHistogram)"
  by (simp add: sample_count_def checked_sum)

definition fits :: "64 word \<Rightarrow> 64 word \<Rightarrow> bool" where
  "fits m c \<longleftrightarrow> unat m + unat c < 18446744073709551616"

lemma merge_counts_cases:
  "length ms = length cs \<Longrightarrow>
   merge_counts ms cs = (if list_all2 fits ms cs then Inr (map2 (+) ms cs) else Inl ErrInvalidHistogram)"
  by (induction ms cs rule: list_induct2) (auto simp: checked_add_cases fits_def)

definition column :: "latency_histogram list \<Rightarrow> nat \<Rightarrow> nat" where
  "column hs i = sum_list (map (\<lambda>h. unat (lh_counts h ! i)) hs)"

lemma merge_fold:
  assumes "\<forall>h\<in>set hs. length (lh_counts h) = n" "length m = n"
  shows "foldE (\<lambda>m h. merge_counts m (lh_counts h)) m hs =
    (if \<forall>i<n. unat (m ! i) + column hs i < 18446744073709551616
     then Inr (map (\<lambda>i. of_nat (unat (m ! i) + column hs i)) [0..<n]) else Inl ErrInvalidHistogram)"
  using assms
proof (induction hs arbitrary: m)
  case Nil
  have "map (\<lambda>i. of_nat (unat (m ! i))) [0..<n] = m"
    using Nil(2) by (intro nth_equalityI) auto
  then show ?case by (simp add: column_def)
next
  case (Cons h hs)
  let ?c = "lh_counts h"
  have len: "length m = length ?c" "length ?c = n" using Cons.prems by auto
  have col: "column (h # hs) i = unat (?c ! i) + column hs i" for i by (simp add: column_def)
  show ?case
  proof (cases "list_all2 fits m ?c")
    case False
    then obtain i where "i < n" "\<not> unat (m ! i) + unat (?c ! i) < 18446744073709551616"
      using len by (auto simp: list_all2_conv_all_nth fits_def)
    then have "\<not> (\<forall>i<n. unat (m ! i) + column (h # hs) i < 18446744073709551616)"
      by (auto simp: col intro!: exI [of _ i])
    with False show ?thesis by (simp add: merge_counts_cases [OF len(1)])
  next
    case True
    then have f: "unat (m ! i) + unat (?c ! i) < 18446744073709551616" if "i < n" for i
      using that len by (auto simp: list_all2_conv_all_nth fits_def)
    have s: "unat (map2 (+) m ?c ! i) = unat (m ! i) + unat (?c ! i)" if "i < n" for i
      using that len f [OF that] by (simp add: unat64_add)
    have l: "length (map2 (+) m ?c) = n" using len by simp
    have "(\<forall>i<n. unat (map2 (+) m ?c ! i) + column hs i < 18446744073709551616) \<longleftrightarrow>
        (\<forall>i<n. unat (m ! i) + column (h # hs) i < 18446744073709551616)"
      by (simp add: s col add.assoc)
    moreover have "map (\<lambda>i. of_nat (unat (map2 (+) m ?c ! i) + column hs i)) [0..<n] =
        (map (\<lambda>i. of_nat (unat (m ! i) + column (h # hs) i)) [0..<n] :: 64 word list)"
      by (intro map_cong refl) (simp only: s col add.assoc set_upt atLeastLessThan_iff)
    ultimately show ?thesis
      using True Cons.IH [OF _ l] Cons.prems(1) by (simp add: merge_counts_cases [OF len(1)])
  qed
qed

lemma merge_exact:
  assumes "hs \<noteq> []" "\<forall>h\<in>set hs. histogram_wf h"
  shows "merge_latency_histograms hs =
    (if (\<Sum>i<17. column hs i) < 18446744073709551616
     then Inr \<lparr>lh_counts = map (\<lambda>i. of_nat (column hs i)) [0..<17]\<rparr> else Inl ErrInvalidHistogram)"
proof -
  let ?m = "map (\<lambda>i. of_nat (column hs i)) [0..<17] :: 64 word list"
  have "foldE (\<lambda>m h. merge_counts m (lh_counts h)) (replicate latency_bucket_count 0) hs =
      (if \<forall>i<17. column hs i < 18446744073709551616 then Inr ?m else Inl ErrInvalidHistogram)"
    using merge_fold [of hs 17 "replicate 17 0"] assms(2)
    by (simp add: histogram_wf_def latency_bucket_count_def cong: map_cong)
  moreover have "column hs i < 18446744073709551616" if "(\<Sum>i<17. column hs i) < 18446744073709551616" "i < 17" for i
    using member_le_sum [of i "{..<17}" "column hs"] that by simp
  moreover have "sum_list (map unat ?m) = (\<Sum>i<17. column hs i)"
    if "\<forall>i<17. column hs i < 18446744073709551616"
  proof -
    have "map unat ?m = map (column hs) [0..<17]"
      using that by (auto simp: unat_of_nat)
    then show ?thesis by (simp add: sum_list_distinct_conv_sum_set atLeast0LessThan del: upt.simps)
  qed
  ultimately show ?thesis
    using assms(1) by (auto simp: merge_latency_histograms_def sample_count_cases)
qed

lemma merge_histograms_wf:
  "hs \<noteq> [] \<Longrightarrow> \<forall>h\<in>set hs. histogram_wf h \<Longrightarrow> merge_latency_histograms hs = Inr m \<Longrightarrow> histogram_wf m"
  by (auto simp: merge_exact histogram_wf_def latency_bucket_count_def simp del: upt.simps split: if_splits)

section \<open>Nearest rank\<close>

lemma percentile_rank_exact:
  assumes "unat p \<le> 100"
  shows "unat (percentile_rank s p) = (unat s * unat p + 99) div 100"
proof -
  let ?s = "unat s" and ?p = "unat p"
  have q: "?s div 100 * ?p + (?s mod 100 * ?p + 99) div 100 = (?s * ?p + 99) div 100"
  proof -
    define a b where "a = ?s div 100" and "b = ?s mod 100"
    have "?s = 100 * a + b" by (simp add: a_def b_def)
    then have "?s * ?p + 99 = 100 * (a * ?p) + (b * ?p + 99)" by (simp add: algebra_simps)
    then show ?thesis unfolding a_def [symmetric] b_def [symmetric] by simp
  qed
  have "(?s * ?p + 99) div 100 \<le> (?s * 100 + 99) div 100"
    using assms by (intro div_le_mono add_right_mono mult_le_mono2)
  then have le: "(?s * ?p + 99) div 100 \<le> ?s" by simp
  have "?s div 100 * ?p \<le> ?s" "?s div 100 \<le> ?s" using q le by linarith+
  then have w: "unat (s div 100 * p) = ?s div 100 * ?p"
    using unat64_less [of s] order_le_less_trans [OF _ unat64_less [of s]]
    by (simp add: unat_word_ariths unat_div)
  have "?s mod 100 * ?p \<le> 99 * 100"
    using assms by (intro mult_le_mono) simp_all
  then have r: "unat ((s mod 100 * p + 99) div 100) = (?s mod 100 * ?p + 99) div 100"
    by (simp add: unat_word_ariths unat_div unat_mod)
  have "?s div 100 * ?p + (?s mod 100 * ?p + 99) div 100 < 18446744073709551616"
    using q le unat64_less [of s] by linarith
  then show ?thesis
    unfolding percentile_rank_def Let_def by (subst unat64_add) (simp_all only: w r q)
qed

text \<open>All samples of a histogram, in order, each as the index of its bucket.\<close>

fun samples_from :: "nat \<Rightarrow> 64 word list \<Rightarrow> nat list" where
  "samples_from i [] = []"
| "samples_from i (c # cs) = replicate (unat c) i @ samples_from (Suc i) cs"

lemma length_samples [simp]: "length (samples_from i cs) = sum_list (map unat cs)"
  by (induction cs arbitrary: i) auto

lemma samples_bounds: "x \<in> set (samples_from i cs) \<Longrightarrow> i \<le> x \<and> x < i + length cs"
  by (induction cs arbitrary: i) (fastforce split: if_splits)+

lemma sorted_samples: "sorted (samples_from i cs)"
  by (induction cs arbitrary: i) (auto simp: sorted_append dest!: samples_bounds)

lemma rank_bucket_nth:
  assumes "unat k < unat r" "unat r \<le> unat k + sum_list (map unat cs)"
    and "unat k + sum_list (map unat cs) < 18446744073709551616"
  shows "rank_bucket i k r cs = Some (samples_from i cs ! (unat r - unat k - 1))"
  using assms
proof (induction cs arbitrary: i k)
  case (Cons c cs)
  have add: "unat (k + c) = unat k + unat c"
    using Cons.prems(3) by (intro unat64_add) simp
  show ?case
  proof (cases "k + c < r")
    case True
    then have lt: "unat k + unat c < unat r" using add by (simp add: word_less_nat_alt)
    have "rank_bucket (Suc i) (k + c) r cs = Some (samples_from (Suc i) cs ! (unat r - unat (k + c) - 1))"
      using Cons.prems lt by (intro Cons.IH) (simp_all add: add)
    moreover have "samples_from i (c # cs) ! (unat r - unat k - 1) =
        samples_from (Suc i) cs ! (unat r - unat (k + c) - 1)"
    proof -
      have "unat r - unat k - 1 = unat c + (unat r - unat (k + c) - 1)" using lt add by linarith
      then show ?thesis by (simp add: nth_append)
    qed
    ultimately show ?thesis using True by simp
  next
    case False
    then have "unat r \<le> unat k + unat c" using add by (simp add: word_less_nat_alt)
    with Cons.prems(1) have "unat r - unat k - 1 < unat c" by linarith
    with False show ?thesis by (simp add: nth_append)
  qed
qed simp

lemma percentile_cases:
  assumes "0 < p" "p \<le> 100" "sample_count h = Inr n" "n \<noteq> 0" "histogram_wf h"
  obtains i where "i = samples_from 0 (lh_counts h) ! ((unat n * unat p + 99) div 100 - 1)" "i < 17"
    "unat n = length (samples_from 0 (lh_counts h))"
    "percentile h p = Inr \<lparr>pg_percentile = p, pg_rank = percentile_rank n (ucast p), pg_sample_count = n,
        pg_lower = (if 0 < i then lb_upper (latency_buckets ! (i - 1)) else 0), pg_lower_inclusive = (i = 0),
        pg_upper = lb_upper (latency_buckets ! i), pg_upper_infinite = lb_infinite (latency_buckets ! i)\<rparr>"
proof -
  let ?t = "sum_list (map unat (lh_counts h))" and ?r = "percentile_rank n (ucast p)"
  have n: "?t < 18446744073709551616" "n = sum_list (lh_counts h)"
    using assms(3) by (auto simp: sample_count_cases split: if_splits)
  then have un: "unat n = ?t" by (simp add: unat_sum_list)
  have p: "unat (ucast p :: 64 word) = unat p" 
  proof -
    have "unat p < 2 ^ 8" by (rule order_less_le_trans [OF unsigned_less]) simp
    then show ?thesis by (simp add: unsigned_ucast_eq take_bit_nat_eq_self)
  qed
  have p100: "unat p \<le> 100" using assms(2) by (simp add: word_le_nat_alt)
  have ur: "unat ?r = (unat n * unat p + 99) div 100"
    using percentile_rank_exact [of "ucast p" n] p p100 by simp
  have "0 < unat p" "0 < unat n" using assms(1,4) by (simp_all add: word_less_nat_alt unat_gt_0)
  then have "0 < unat n * unat p" by simp
  then have pos: "0 < unat ?r" unfolding ur by linarith
  have "unat n * unat p \<le> unat n * 100" using p100 by simp
  then have le: "unat ?r \<le> unat n" unfolding ur by linarith
  have rb: "rank_bucket 0 0 ?r (lh_counts h) = Some (samples_from 0 (lh_counts h) ! (unat ?r - 1))"
    using rank_bucket_nth [of 0 ?r "lh_counts h" 0] pos le un n(1) by simp
  let ?i = "samples_from 0 (lh_counts h) ! (unat ?r - 1)"
  have "?i \<in> set (samples_from 0 (lh_counts h))" using pos le un by (intro nth_mem) simp
  then have i17: "?i < 17"
    using samples_bounds assms(5) by (fastforce simp: histogram_wf_def latency_bucket_count_def)
  show ?thesis
  proof (rule that [of ?i])
    show "?i = samples_from 0 (lh_counts h) ! ((unat n * unat p + 99) div 100 - 1)" by (simp add: ur)
    show "?i < 17" by (rule i17)
    show "unat n = length (samples_from 0 (lh_counts h))" by (simp add: un)
    have "\<not> (p = 0 \<or> 100 < p)" using assms(1,2) by auto
    then show "percentile h p = Inr \<lparr>pg_percentile = p, pg_rank = ?r, pg_sample_count = n,
        pg_lower = (if 0 < ?i then lb_upper (latency_buckets ! (?i - 1)) else 0), pg_lower_inclusive = (?i = 0),
        pg_upper = lb_upper (latency_buckets ! ?i), pg_upper_infinite = lb_infinite (latency_buckets ! ?i)\<rparr>"
      using assms(3,4) rb by (simp add: percentile_def Let_def)
  qed
qed

lemma bucket_lower_mono:
  assumes "i \<le> j" "j < 17"
  shows "(if 0 < i then lb_upper (latency_buckets ! (i - 1)) else 0) \<le>
    (if 0 < j then lb_upper (latency_buckets ! (j - 1)) else 0)"
proof -
  let ?b = "map lb_upper (take 16 latency_buckets)"
  have b: "sorted (0 # ?b)" by (simp add: latency_buckets_def)
  have nth: "(0 # ?b) ! k = (if 0 < k then lb_upper (latency_buckets ! (k - 1)) else 0)" if "k < 17" for k
    using that by (simp add: nth_Cons' latency_buckets_def)
  have "length (0 # ?b) = 17" by (simp add: latency_buckets_def)
  then have "(0 # ?b) ! i \<le> (0 # ?b) ! j" using sorted_nth_mono [OF b, of i j] assms by linarith
  then show ?thesis using nth [of i] nth [of j] assms by simp
qed

lemma percentile_Inr_cond:
  assumes "percentile h p = Inr g"
  obtains n where "0 < p" "p \<le> 100" "sample_count h = Inr n" "n \<noteq> 0"
  using assms by (auto simp: percentile_def word_gt_0 not_less split: if_splits)

lemma percentile_lower_mono:
  assumes "percentile h p = Inr g" "percentile h q = Inr g'" "p \<le> q" "histogram_wf h"
  shows "pg_lower g \<le> pg_lower g' \<and> pg_rank g \<le> pg_rank g' \<and> pg_sample_count g = pg_sample_count g'"
proof -
  obtain n where n: "0 < p" "p \<le> 100" "sample_count h = Inr n" "n \<noteq> 0"
    by (rule percentile_Inr_cond [OF assms(1)])
  obtain n' where n': "0 < q" "q \<le> 100" "sample_count h = Inr n'" "n' \<noteq> 0"
    by (rule percentile_Inr_cond [OF assms(2)])
  have nn: "n' = n" using n(3) n'(3) by simp
  let ?xs = "samples_from 0 (lh_counts h)"
  obtain i where i: "i = ?xs ! ((unat n * unat p + 99) div 100 - 1)" "i < 17" "unat n = length ?xs"
    and g: "percentile h p = Inr \<lparr>pg_percentile = p, pg_rank = percentile_rank n (ucast p), pg_sample_count = n,
        pg_lower = (if 0 < i then lb_upper (latency_buckets ! (i - 1)) else 0), pg_lower_inclusive = (i = 0),
        pg_upper = lb_upper (latency_buckets ! i), pg_upper_infinite = lb_infinite (latency_buckets ! i)\<rparr>"
    by (rule percentile_cases [OF n assms(4)])
  obtain j where j: "j = ?xs ! ((unat n * unat q + 99) div 100 - 1)" "j < 17"
    and g': "percentile h q = Inr \<lparr>pg_percentile = q, pg_rank = percentile_rank n (ucast q), pg_sample_count = n,
        pg_lower = (if 0 < j then lb_upper (latency_buckets ! (j - 1)) else 0), pg_lower_inclusive = (j = 0),
        pg_upper = lb_upper (latency_buckets ! j), pg_upper_infinite = lb_infinite (latency_buckets ! j)\<rparr>"
    by (rule percentile_cases [OF n' assms(4)]) (simp add: nn)
  have pq: "unat p \<le> unat q" "unat q \<le> 100" using assms(3) n'(2) by (simp_all add: word_le_nat_alt)
  have up: "unat (ucast w :: 64 word) = unat w" for w :: "8 word"
  proof -
    have "unat w < 2 ^ 8" by (rule order_less_le_trans [OF unsigned_less]) simp
    then show ?thesis by (simp add: unsigned_ucast_eq take_bit_nat_eq_self)
  qed
  have rk: "(unat n * unat p + 99) div 100 \<le> (unat n * unat q + 99) div 100"
    using pq(1) by (intro div_le_mono add_right_mono mult_le_mono2)
  have "(unat n * unat q + 99) div 100 \<le> (unat n * 100 + 99) div 100"
    using pq(2) by (intro div_le_mono add_right_mono mult_le_mono2)
  then have "(unat n * unat q + 99) div 100 - 1 < length ?xs"
    using n(4) i(3) by (simp add: unat_gt_0 [symmetric] del: unat_gt_0)
  moreover have "(unat n * unat p + 99) div 100 - 1 \<le> (unat n * unat q + 99) div 100 - 1"
    using rk by linarith
  ultimately have "i \<le> j" unfolding i(1) j(1) by (intro sorted_nth_mono [OF sorted_samples])
  from bucket_lower_mono [OF this j(2)] have lo: "pg_lower g \<le> pg_lower g'"
    using assms(1,2) g g' by auto
  have "percentile_rank n (ucast p) \<le> percentile_rank n (ucast q)"
    using pq rk by (simp add: word_le_nat_alt percentile_rank_exact up)
  with lo show ?thesis using assms(1,2) g g' by auto
qed

section \<open>Properties\<close>

text \<open>
  C30: Merging histograms adds the counts bucket by bucket without wrap-around, and fails exactly
  when the total number of samples of all histograms does not fit in a \<open>uint64\<close>.
\<close>

theorem merge_histograms_exact:
  assumes "hs \<noteq> []" and "\<forall>h\<in>set hs. histogram_wf h"
  shows "case merge_latency_histograms hs of
      Inr m \<Rightarrow> histogram_wf m \<and> (\<forall>i<17. unat (lh_counts m ! i) = column hs i)
        \<and> (\<Sum>i<17. column hs i) < 2 ^ 64
    | Inl e \<Rightarrow> e = ErrInvalidHistogram \<and> 2 ^ 64 \<le> (\<Sum>i<17. column hs i)"
proof -
  have "column hs i < 18446744073709551616" if "(\<Sum>i<17. column hs i) < 18446744073709551616" "i < 17" for i
    using member_le_sum [of i "{..<17}" "column hs"] that by simp
  then show ?thesis
    by (simp add: merge_exact [OF assms] histogram_wf_def latency_bucket_count_def unat_of_nat not_less
        del: upt.simps)
qed

text \<open>
  The result of a merge, success or failure, does not depend on the order in which the
  histograms are given.
\<close>

theorem merge_histograms_order_independent:
  assumes "mset hs = mset hs'" and "\<forall>h\<in>set hs. histogram_wf h"
  shows "merge_latency_histograms hs = merge_latency_histograms hs'"
proof (cases "hs = []")
  case False
  then have ne: "hs' \<noteq> []" using assms(1) by auto
  have wf: "\<forall>h\<in>set hs'. histogram_wf h" using assms by (metis set_mset_mset)
  have "column hs = column hs'"
  proof
    fix i
    have "mset (map (\<lambda>h. unat (lh_counts h ! i)) hs) = mset (map (\<lambda>h. unat (lh_counts h ! i)) hs')"
      using assms(1) by simp
    then show "column hs i = column hs' i" unfolding column_def by (metis sum_mset_sum_list)
  qed
  then show ?thesis using merge_exact [OF False assms(2)] merge_exact [OF ne wf] by simp
qed (use assms(1) in simp)

text \<open>
  C31: \<open>Percentile\<close> is the nearest-rank percentile: on a histogram whose samples can be
  counted and are not empty it always returns, and its bucket is the one that holds the sample
  at rank \<open>ceiling(p * n / 100)\<close> of the sorted list of all samples.
\<close>

theorem percentile_is_nearest_rank:
  assumes "histogram_wf h" and "sample_count h = Inr n" and "n \<noteq> 0" and "0 < p" and "p \<le> 100"
  shows "\<exists>g. percentile h p = Inr g \<and> unat (pg_rank g) = (unat p * unat n + 99) div 100 \<and>
    (let xs = samples_from 0 (lh_counts h); i = xs ! (unat (pg_rank g) - 1) in
       sorted xs \<and> length xs = unat n \<and> pg_upper g = lb_upper (latency_buckets ! i) \<and>
       pg_upper_infinite g = lb_infinite (latency_buckets ! i) \<and>
       pg_lower g = (if i = 0 then 0 else lb_upper (latency_buckets ! (i - 1))))"
proof -
  have "unat p < 2 ^ 8" by (rule order_less_le_trans [OF unsigned_less]) simp
  then have up: "unat (ucast p :: 64 word) = unat p"
    by (simp add: unsigned_ucast_eq take_bit_nat_eq_self)
  have rk: "unat (percentile_rank n (ucast p)) = (unat n * unat p + 99) div 100"
    using percentile_rank_exact [of "ucast p" n] assms(5) by (simp add: up word_le_nat_alt)
  show ?thesis
    by (rule percentile_cases [OF assms(4,5,2,3,1)])
      (simp add: rk Let_def sorted_samples mult.commute)
qed

text \<open>
  A latency summary has monotone percentiles (the rank and the lower bound of P50, P90 and
  P95 never decrease), all taken over the same number of samples.
\<close>

theorem summary_percentiles_monotone:
  assumes "summarize_latency hs = Inr s" and "\<forall>h\<in>set hs. histogram_wf h"
  shows "pg_lower (ls_p50 s) \<le> pg_lower (ls_p90 s) \<and> pg_lower (ls_p90 s) \<le> pg_lower (ls_p95 s) \<and>
    pg_rank (ls_p50 s) \<le> pg_rank (ls_p90 s) \<and> pg_rank (ls_p90 s) \<le> pg_rank (ls_p95 s) \<and>
    pg_sample_count (ls_p95 s) = ls_samples s"
proof -
  from assms(1) obtain m p50 p90 p95 where m: "merge_latency_histograms hs = Inr m"
    "percentile m 50 = Inr p50" "percentile m 90 = Inr p90" "percentile m 95 = Inr p95"
    and s: "s = \<lparr>ls_histogram = m, ls_samples = pg_sample_count p50, ls_p50 = p50, ls_p90 = p90, ls_p95 = p95\<rparr>"
    by (auto simp: summarize_latency_def)
  have "hs \<noteq> []" using m(1) by (auto simp: merge_latency_histograms_def)
  then have "histogram_wf m" using merge_histograms_wf [OF _ assms(2) m(1)] by simp
  then show ?thesis
    using percentile_lower_mono [OF m(2,3)] percentile_lower_mono [OF m(3,4)] unfolding s by simp
qed

section \<open>Witnesses\<close>

definition sample_histogram :: latency_histogram where
  "sample_histogram = \<lparr>lh_counts = [3, 0, 5, 0, 2, 0, 0, 0, 0, 0, 0, 0, 0, 0, 0, 0, 1]\<rparr>"

lemma sample_histogram_wf: "histogram_wf sample_histogram"
  by (simp add: histogram_wf_def sample_histogram_def latency_bucket_count_def)

lemma sample_histogram_count: "sample_count sample_histogram = Inr 11"
  by (simp add: sample_count_def sample_histogram_def checked_add_def)

lemma sample_column: "column [sample_histogram, sample_histogram] i = 2 * unat (lh_counts sample_histogram ! i)"
  by (simp add: column_def)

lemma sample_merge:
  "merge_latency_histograms [sample_histogram, sample_histogram] =
     Inr \<lparr>lh_counts = [6, 0, 10, 0, 4, 0, 0, 0, 0, 0, 0, 0, 0, 0, 0, 0, 2]\<rparr>"
  by code_simp

theorem merge_histograms_exact_witness:
  "column [sample_histogram, sample_histogram] 2 = 10"
proof -
  have "histogram_wf sample_histogram" by (rule sample_histogram_wf)
  then have "\<forall>i<17. unat ([6, 0, 10, 0, 4, 0, 0, 0, 0, 0, 0, 0, 0, 0, 0, 0, 2] ! i :: 64 word) =
      column [sample_histogram, sample_histogram] i"
    using merge_histograms_exact [of "[sample_histogram, sample_histogram]"] by (simp add: sample_merge)
  then have "unat ([6, 0, 10, 0, 4, 0, 0, 0, 0, 0, 0, 0, 0, 0, 0, 0, 2] ! 2 :: 64 word) =
      column [sample_histogram, sample_histogram] 2"
    by (rule allE [of _ 2]) simp
  then show ?thesis by simp
qed

definition other_histogram :: latency_histogram where
  "other_histogram = \<lparr>lh_counts = [0, 1, 0, 0, 0, 0, 0, 0, 0, 0, 0, 0, 0, 0, 0, 0, 0]\<rparr>"

lemma other_histogram_wf: "histogram_wf other_histogram"
  by (simp add: histogram_wf_def other_histogram_def latency_bucket_count_def)

theorem merge_histograms_order_independent_witness:
  "merge_latency_histograms [sample_histogram, other_histogram] =
    merge_latency_histograms [other_histogram, sample_histogram]"
  using merge_histograms_order_independent [of "[sample_histogram, other_histogram]" "[other_histogram, sample_histogram]"]
  by (simp add: sample_histogram_wf other_histogram_wf)

theorem percentile_is_nearest_rank_witness:
  "\<exists>g. percentile sample_histogram 90 = Inr g \<and> unat (pg_rank g) = 10"
  using percentile_is_nearest_rank [OF sample_histogram_wf sample_histogram_count, of 90] by auto

theorem summary_percentiles_monotone_witness:
  "\<exists>s. summarize_latency [sample_histogram, sample_histogram] = Inr s \<and>
     pg_lower (ls_p50 s) \<le> pg_lower (ls_p90 s)"
proof -
  obtain s where "summarize_latency [sample_histogram, sample_histogram] = Inr s"
    by (simp add: summarize_latency_def sample_merge percentile_def sample_count_def checked_add_def
        percentile_rank_def Let_def)
  then show ?thesis
    using summary_percentiles_monotone [of "[sample_histogram, sample_histogram]" s]
    by (simp add: sample_histogram_wf)
qed

end
