(* ===== verification/Automation.thy ===== *)
theory Automation imports Scoring begin

text \<open>
  \<open>internal/domain/automation/decision.go\<close>: one decision about a supplier's membership in
  an automatic pool, from the advice on each of its models.

  The loop over the models is a fold over its local variables, brought into closed form.  The
  lemmas show which action each combination of advice gives, that a supplier on hold is never a
  member after the decision, and that the order of the models does not matter.
\<close>

section \<open>Decisions\<close>

datatype auto_action = ActionJoin | ActionKeep | ActionExit | ActionExclude | ActionWatch | ActionRecover

datatype hold_action = HoldNone | HoldApply | HoldClear

text \<open>\<open>HardReasons\<close> are the texts of the gate reasons.\<close>

record model_advice =
  ma_model :: string
  ma_snapshot_id :: uuid
  ma_action :: advice_action
  ma_reasons :: "string list"
  ma_hard_reasons :: "string list"

record decision_input =
  di_current_member :: bool
  di_held :: bool
  di_models :: "model_advice list"

record decision =
  de_action :: auto_action
  de_target_member :: bool
  de_hold_action :: hold_action
  de_reasons :: "string list"
  de_snapshot_ids :: "uuid list"

datatype automation_error = ErrNoAdvice | ErrInvalidAdvice | ErrUnsupportedAdvice

text \<open>The local variables of the loop; the two Go maps to \<open>bool\<close> are sets.\<close>

record advice_scan =
  ac_seen :: "string set"
  ac_reasons :: "string set"
  ac_ids :: "uuid list"
  ac_all_join :: bool
  ac_any_exit :: bool
  ac_any_exclude :: bool

definition advice_texts :: "model_advice \<Rightarrow> string set" where
  "advice_texts a = set (filter (\<lambda>r. r \<noteq> []) (map trim_space (ma_reasons a)))
     \<union> set (filter (\<lambda>r. r \<noteq> []) (ma_hard_reasons a))"

definition advice_step :: "advice_scan \<Rightarrow> model_advice \<Rightarrow> automation_error + advice_scan" where
  "advice_step s a =
     (let model = trim_space (ma_model a) in
      if model = [] \<or> ma_snapshot_id a = uuid_nil \<or> model \<in> ac_seen s then Inl ErrInvalidAdvice
      else let t = s\<lparr>ac_seen := insert model (ac_seen s), ac_ids := ac_ids s @ [ma_snapshot_id a],
                     ac_reasons := ac_reasons s \<union> advice_texts a\<rparr> in
        case ma_action a of
          AdviceJoin \<Rightarrow> Inr t
        | AdviceExit \<Rightarrow> Inr (t\<lparr>ac_all_join := False, ac_any_exit := True\<rparr>)
        | AdviceExclude \<Rightarrow> Inr (t\<lparr>ac_all_join := False, ac_any_exclude := True\<rparr>)
        | AdviceKeep \<Rightarrow> Inr (t\<lparr>ac_all_join := False\<rparr>)
        | AdviceWatch \<Rightarrow> Inr (t\<lparr>ac_all_join := False\<rparr>)
        | AdviceOther x \<Rightarrow> Inl ErrUnsupportedAdvice)"

definition sorted_reasons :: "string set \<Rightarrow> string list" where
  "sorted_reasons rs = sorted_list_of_set rs"

definition advice_scan0 :: advice_scan where
  "advice_scan0 = \<lparr>ac_seen = {}, ac_reasons = {}, ac_ids = [], ac_all_join = True, ac_any_exit = False,
                   ac_any_exclude = False\<rparr>"

definition decide :: "'d libs \<Rightarrow> decision_input \<Rightarrow> automation_error + decision" where
  "decide L inp =
     (if di_models inp = [] then Inl ErrNoAdvice
      else bindE (foldE advice_step advice_scan0 (di_models inp)) (\<lambda>s.
        let r = \<lparr>de_action = ActionWatch, de_target_member = di_current_member inp, de_hold_action = HoldNone,
                 de_reasons = sorted_reasons (ac_reasons s), de_snapshot_ids = sort_key (uuid_string L) (ac_ids s)\<rparr> in
        if ac_any_exclude s
        then Inr (r\<lparr>de_reasons := (if de_reasons r = [] then [''hard_gate_failed''] else de_reasons r),
                    de_action := ActionExclude, de_target_member := False,
                    de_hold_action := (if di_held inp then HoldNone else HoldApply)\<rparr>)
        else if di_held inp
        then Inr (if ac_all_join s
                  then r\<lparr>de_action := ActionRecover, de_target_member := True, de_hold_action := HoldClear\<rparr>
                  else r\<lparr>de_target_member := False\<rparr>)
        else if di_current_member inp
        then Inr (if ac_any_exit s then r\<lparr>de_action := ActionExit, de_target_member := False\<rparr>
                  else r\<lparr>de_action := ActionKeep, de_target_member := True\<rparr>)
        else Inr (if ac_all_join s then r\<lparr>de_action := ActionJoin, de_target_member := True\<rparr>
                  else r\<lparr>de_target_member := False\<rparr>)))"

section \<open>The loop in closed form\<close>

definition model_name :: "model_advice \<Rightarrow> string" where
  "model_name a = trim_space (ma_model a)"

fun supported_advice :: "advice_action \<Rightarrow> bool" where
  "supported_advice (AdviceOther s) = False"
| "supported_advice a = True"

definition advice_ok :: "model_advice \<Rightarrow> bool" where
  "advice_ok a \<longleftrightarrow> model_name a \<noteq> [] \<and> ma_snapshot_id a \<noteq> uuid_nil \<and> supported_advice (ma_action a)"

definition advices_ok :: "string set \<Rightarrow> model_advice list \<Rightarrow> bool" where
  "advices_ok seen as \<longleftrightarrow> list_all (\<lambda>a. advice_ok a \<and> model_name a \<notin> seen) as \<and> distinct (map model_name as)"

definition some_advice :: "advice_action \<Rightarrow> model_advice list \<Rightarrow> bool" where
  "some_advice act as \<longleftrightarrow> list_ex (\<lambda>a. ma_action a = act) as"

definition all_advice :: "advice_action \<Rightarrow> model_advice list \<Rightarrow> bool" where
  "all_advice act as \<longleftrightarrow> list_all (\<lambda>a. ma_action a = act) as"

definition scan_advice :: "advice_scan \<Rightarrow> model_advice list \<Rightarrow> advice_scan" where
  "scan_advice s as =
     \<lparr>ac_seen = model_name ` set as \<union> ac_seen s,
      ac_reasons = ac_reasons s \<union> (\<Union>a\<in>set as. advice_texts a),
      ac_ids = ac_ids s @ map ma_snapshot_id as,
      ac_all_join = (ac_all_join s \<and> all_advice AdviceJoin as),
      ac_any_exit = (ac_any_exit s \<or> some_advice AdviceExit as),
      ac_any_exclude = (ac_any_exclude s \<or> some_advice AdviceExclude as)\<rparr>"

lemma advice_step_Inr:
  "advice_step s a = Inr t \<longleftrightarrow> advice_ok a \<and> model_name a \<notin> ac_seen s \<and> t = scan_advice s [a]"
  by (cases "ma_action a")
    (auto simp: advice_step_def advice_ok_def model_name_def scan_advice_def all_advice_def some_advice_def Let_def)

lemma scan_advice_append: "scan_advice (scan_advice s as) bs = scan_advice s (as @ bs)"
  by (auto simp: scan_advice_def all_advice_def some_advice_def)

lemma advice_loop:
  "foldE advice_step s as = Inr t \<longleftrightarrow> advices_ok (ac_seen s) as \<and> t = scan_advice s as"
proof (induction as arbitrary: s)
  case Nil
  show ?case by (auto simp: advices_ok_def scan_advice_def all_advice_def some_advice_def)
next
  case (Cons a as)
  have "advices_ok (ac_seen s) (a # as) \<longleftrightarrow>
      advice_ok a \<and> model_name a \<notin> ac_seen s \<and> advices_ok (ac_seen (scan_advice s [a])) as"
    by (auto simp: advices_ok_def scan_advice_def list_all_iff) (metis imageI)+
  then show ?case
    using Cons.IH [of "scan_advice s [a]"] scan_advice_append [of s "[a]" as]
    by (auto simp: advice_step_Inr)
qed

lemma scan_advice0_simps [simp]:
  "ac_any_exclude (scan_advice advice_scan0 as) = some_advice AdviceExclude as"
  "ac_any_exit (scan_advice advice_scan0 as) = some_advice AdviceExit as"
  "ac_all_join (scan_advice advice_scan0 as) = all_advice AdviceJoin as"
  "ac_ids (scan_advice advice_scan0 as) = map ma_snapshot_id as"
  "ac_reasons (scan_advice advice_scan0 as) = (\<Union>a\<in>set as. advice_texts a)"
  "ac_seen advice_scan0 = {}"
  by (simp_all add: scan_advice_def advice_scan0_def)

text \<open>The action the advice calls for, as a table.\<close>

definition decided_action :: "decision_input \<Rightarrow> auto_action" where
  "decided_action inp =
     (let as = di_models inp in
      if some_advice AdviceExclude as then ActionExclude
      else if di_held inp then (if all_advice AdviceJoin as then ActionRecover else ActionWatch)
      else if di_current_member inp then (if some_advice AdviceExit as then ActionExit else ActionKeep)
      else if all_advice AdviceJoin as then ActionJoin else ActionWatch)"

definition decided :: "'d libs \<Rightarrow> decision_input \<Rightarrow> decision" where
  "decided L inp =
     \<lparr>de_action = decided_action inp,
      de_target_member = decided_action inp \<in> {ActionJoin, ActionKeep, ActionRecover},
      de_hold_action = (case decided_action inp of ActionRecover \<Rightarrow> HoldClear
        | ActionExclude \<Rightarrow> (if di_held inp then HoldNone else HoldApply) | _ \<Rightarrow> HoldNone),
      de_reasons = (let rs = sorted_reasons (\<Union>a\<in>set (di_models inp). advice_texts a) in
        if decided_action inp = ActionExclude \<and> rs = [] then [''hard_gate_failed''] else rs),
      de_snapshot_ids = sort_key (uuid_string L) (map ma_snapshot_id (di_models inp))\<rparr>"

lemma decide_ok:
  assumes "di_models inp \<noteq> []" "advices_ok {} (di_models inp)"
  shows "decide L inp = Inr (decided L inp)"
proof -
  have "foldE advice_step advice_scan0 (di_models inp) = Inr (scan_advice advice_scan0 (di_models inp))"
    using assms(2) by (simp add: advice_loop)
  then show ?thesis
    using assms(1)
    by (cases "some_advice AdviceExclude (di_models inp)"; cases "di_held inp"; cases "di_current_member inp";
        cases "all_advice AdviceJoin (di_models inp)"; cases "some_advice AdviceExit (di_models inp)")
      (simp_all add: decide_def decided_def decided_action_def Let_def)
qed

lemma decide_cases:
  "decide L inp = Inr d \<longleftrightarrow> di_models inp \<noteq> [] \<and> advices_ok {} (di_models inp) \<and> d = decided L inp"
proof -
  have "di_models inp \<noteq> [] \<and> advices_ok {} (di_models inp)" if "decide L inp = Inr d"
    using that by (cases "di_models inp = []") (auto simp: decide_def advice_loop)
  then show ?thesis using decide_ok [of inp L] by auto
qed

lemma advice_texts_finite [simp]: "finite (advice_texts a)"
  by (simp add: advice_texts_def)

section \<open>Properties\<close>

text \<open>
  \<open>Decide\<close> returns exactly when there is advice and every advice names a distinct
  model and a snapshot and is of a known kind; its action is then the one of the decision table
  (exclusion first, then the hold, then membership), and the target membership agrees with it.
\<close>

theorem decide_follows_table:
  "case decide L inp of
     Inl e \<Rightarrow> \<not> (di_models inp \<noteq> [] \<and> advices_ok {} (di_models inp))
   | Inr d \<Rightarrow> di_models inp \<noteq> [] \<and> advices_ok {} (di_models inp) \<and> de_action d = decided_action inp
       \<and> (de_target_member d \<longleftrightarrow> decided_action inp \<in> {ActionJoin, ActionKeep, ActionRecover})"
proof (cases "di_models inp \<noteq> [] \<and> advices_ok {} (di_models inp)")
  case True
  then show ?thesis by (simp add: decide_ok decided_def)
next
  case False
  then have "\<And>d. decide L inp \<noteq> Inr d" by (auto simp: decide_cases)
  with False show ?thesis by (cases "decide L inp") auto
qed

text \<open>The hold of a supplier after a decision is carried out.\<close>

definition next_held :: "bool \<Rightarrow> hold_action \<Rightarrow> bool" where
  "next_held held h = (case h of HoldNone \<Rightarrow> held | HoldApply \<Rightarrow> True | HoldClear \<Rightarrow> False)"

text \<open>
  C26: Membership is safe: after a decision a supplier is never a member and on hold at the same
  time, an excluded supplier is on hold and not a member, and the hold is cleared only when every
  model is advised to join.
\<close>

theorem decide_hold_safe:
  assumes "decide L inp = Inr d"
  shows "\<not> (de_target_member d \<and> next_held (di_held inp) (de_hold_action d))
    \<and> (some_advice AdviceExclude (di_models inp) \<longrightarrow>
         next_held (di_held inp) (de_hold_action d) \<and> \<not> de_target_member d)
    \<and> (di_held inp \<and> \<not> next_held (di_held inp) (de_hold_action d) \<longrightarrow> all_advice AdviceJoin (di_models inp))"
  using assms by (auto simp: decide_cases decided_def next_held_def decided_action_def Let_def)

text \<open>
  The decision, its reasons and the order of its snapshots included, does not depend on the
  order in which the models are given, when different identifiers have different texts (as
  \<open>UUID.String\<close> guarantees).
\<close>

theorem decide_order_independent:
  assumes "decide L inp = Inr d" and "mset as = mset (di_models inp)" and "inj (uuid_string L)"
  shows "decide L (inp\<lparr>di_models := as\<rparr>) = Inr d"
proof -
  have set: "set as = set (di_models inp)" using assms(2) by (metis set_mset_mset)
  have d: "di_models inp \<noteq> []" "advices_ok {} (di_models inp)" "d = decided L inp"
    using assms(1) by (simp_all add: decide_cases)
  have "mset (map model_name as) = mset (map model_name (di_models inp))" using assms(2) by simp
  then have "distinct (map model_name as)"
    using d(2) by (metis advices_ok_def mset_eq_imp_distinct_iff)
  then have ok: "advices_ok {} as" using d(2) set by (simp add: advices_ok_def list_all_iff)
  have ne: "as \<noteq> []" using d(1) set by auto
  have act: "decided_action (inp\<lparr>di_models := as\<rparr>) = decided_action inp"
    using set by (simp add: decided_action_def Let_def some_advice_def all_advice_def list_ex_iff list_all_iff)
  have "sort_key (uuid_string L) (map ma_snapshot_id as) = sort_key (uuid_string L) (map ma_snapshot_id (di_models inp))"
    using assms(2,3) by (intro sort_key_inj) (auto intro: inj_on_subset)
  then have "decided L (inp\<lparr>di_models := as\<rparr>) = decided L inp"
    using act set by (simp add: decided_def)
  with d(3) ok ne show ?thesis by (simp add: decide_cases)
qed

text \<open>
  The reasons of a decision are sorted and without repetition, hold exactly the trimmed
  non-empty texts of the advice, and are never empty for an exclusion.
\<close>

theorem decide_reasons:
  assumes "decide L inp = Inr d"
  shows "sorted (de_reasons d) \<and> distinct (de_reasons d)
    \<and> (de_action d = ActionExclude \<longrightarrow> de_reasons d \<noteq> [])
    \<and> (let texts = (\<Union>a\<in>set (di_models inp). advice_texts a) in
       set (de_reasons d) = (if de_action d = ActionExclude \<and> texts = {} then {''hard_gate_failed''} else texts))"
proof -
  let ?T = "\<Union>a\<in>set (di_models inp). advice_texts a"
  have fin: "finite ?T" by simp
  then have "sorted_reasons ?T = [] \<longleftrightarrow> ?T = {}" unfolding sorted_reasons_def by (rule sorted_list_of_set_eq_Nil_iff)
  then show ?thesis
    using assms fin
    by (auto simp: decide_cases decided_def Let_def sorted_reasons_def simp del: finite_UN sorted_list_of_set_eq_Nil_iff)
qed

section \<open>Witnesses\<close>

definition sample_advice_of :: "string \<Rightarrow> uuid \<Rightarrow> advice_action \<Rightarrow> model_advice" where
  "sample_advice_of m i act = \<lparr>ma_model = m, ma_snapshot_id = i, ma_action = act, ma_reasons = [], ma_hard_reasons = []\<rparr>"

definition sample_decision_input :: decision_input where
  "sample_decision_input = \<lparr>di_current_member = True, di_held = False,
     di_models = [sample_advice_of ''a'' 1 AdviceJoin, sample_advice_of ''b'' 2 AdviceExclude]\<rparr>"

lemma trim_letter [simp]: "trim_space ''a'' = ''a''" "trim_space ''b'' = ''b''"
  by code_simp+

lemma sample_decided: "\<exists>d. decide L sample_decision_input = Inr d"
  by (simp add: decide_cases sample_decision_input_def sample_advice_of_def advices_ok_def advice_ok_def model_name_def)

theorem decide_hold_safe_witness:
  "\<exists>d. decide sample_libs sample_decision_input = Inr d \<and> next_held False (de_hold_action d)"
proof -
  obtain d where d: "decide sample_libs sample_decision_input = Inr d" using sample_decided by blast
  then show ?thesis
    using decide_hold_safe [OF d] by (simp add: sample_decision_input_def sample_advice_of_def some_advice_def)
qed

theorem decide_order_independent_witness:
  "\<exists>d. decide sample_libs sample_decision_input = Inr d \<and>
     decide sample_libs (sample_decision_input\<lparr>di_models := rev (di_models sample_decision_input)\<rparr>) = Inr d"
proof -
  obtain d where d: "decide sample_libs sample_decision_input = Inr d" using sample_decided by blast
  have "decide sample_libs (sample_decision_input\<lparr>di_models := rev (di_models sample_decision_input)\<rparr>) = Inr d"
    by (rule decide_order_independent [OF d]) (simp_all add: sample_libs_def inj_uuid_bits)
  with d show ?thesis by blast
qed

theorem decide_reasons_witness:
  "\<exists>d. decide sample_libs sample_decision_input = Inr d \<and> sorted (de_reasons d)"
proof -
  obtain d where d: "decide sample_libs sample_decision_input = Inr d" using sample_decided by blast
  then show ?thesis using decide_reasons [OF d] by blast
qed

end
