(* ===== verification/Values.thy ===== *)
theory Values imports Externals begin

text \<open>
  \<open>internal/domain/value/validation.go\<close>: the normalisation of codes, names and base URLs.
  \<open>net/url\<close> is reached through the fields \<open>url_parse\<close> and \<open>url_string\<close> of
  \<open>libs\<close>.

  The lemmas show what a normalised value looks like, that normalising it again changes nothing
  (for URLs, when the parser reads back what the printer wrote), and one input on which the
  normaliser of supplier URLs leaves a value that the check of snapshots does not accept.
\<close>

section \<open>Normalisation\<close>

datatype value_error = ErrCode | ErrNameRequired | ErrNameTooLong int | ErrUrlTooLong | ErrUrlInvalid
  | ErrUrlScheme | ErrUrlHost | ErrUrlUser | ErrUrlQuery

definition code_alnum :: "char \<Rightarrow> bool" where
  "code_alnum c \<longleftrightarrow> CHR ''a'' \<le> c \<and> c \<le> CHR ''z'' \<or> CHR ''0'' \<le> c \<and> c \<le> CHR ''9''"

definition code_char :: "char \<Rightarrow> bool" where
  "code_char c \<longleftrightarrow> code_alnum c \<or> c = CHR ''-''"

text \<open>\<open>^[a-z0-9](?:[a-z0-9-]{0,61}[a-z0-9])?$\<close>\<close>

definition code_pattern :: "string \<Rightarrow> bool" where
  "code_pattern s \<longleftrightarrow>
     (case s of [] \<Rightarrow> False
      | c # rest \<Rightarrow> code_alnum c \<and>
          (rest = [] \<or> (code_alnum (last rest) \<and> list_all code_char (butlast rest) \<and> length (butlast rest) \<le> 61)))"

definition normalize_code :: "string \<Rightarrow> value_error + string" where
  "normalize_code raw =
     (let code = trim_space raw in
      if length code < 2 \<or> 63 < length code \<or> \<not> code_pattern code then Inl ErrCode else Inr code)"

definition normalize_name :: "string \<Rightarrow> int \<Rightarrow> value_error + string" where
  "normalize_name raw max_length =
     (let name = trim_space raw in
      if name = [] then Inl ErrNameRequired
      else if max_length < int (rune_count name) then Inl (ErrNameTooLong max_length)
      else Inr name)"

definition normalize_http_base_url :: "'d libs \<Rightarrow> string \<Rightarrow> value_error + string" where
  "normalize_http_base_url L raw =
     (let trimmed = trim_space raw in
      if 2048 < length trimmed then Inl ErrUrlTooLong
      else case url_parse L trimmed of
        None \<Rightarrow> Inl ErrUrlInvalid
      | Some u \<Rightarrow>
          if u_scheme u \<noteq> ''http'' \<and> u_scheme u \<noteq> ''https'' then Inl ErrUrlScheme
          else if u_host u = [] then Inl ErrUrlHost
          else if u_user u \<noteq> None then Inl ErrUrlUser
          else if u_raw_query u \<noteq> [] \<or> u_fragment u \<noteq> [] then Inl ErrUrlQuery
          else Inr (url_string L (u\<lparr>u_path := trim_right_char (u_path u) (CHR ''/'')\<rparr>)))"

definition normalize_openai_base_url :: "'d libs \<Rightarrow> string \<Rightarrow> value_error + string" where
  "normalize_openai_base_url L raw =
     bindE (normalize_http_base_url L raw) (\<lambda>normalized.
       case url_parse L normalized of
         None \<Rightarrow> Inl ErrUrlInvalid
       | Some u \<Rightarrow>
           if u_path u = ''/v1'' then Inr (url_string L (u\<lparr>u_path := [], u_raw_path := []\<rparr>))
           else if has_suffix (u_path u) ''/v1''
           then Inr (url_string L (u\<lparr>u_path := trim_suffix (u_path u) ''/v1'', u_raw_path := []\<rparr>))
           else Inr (url_string L u))"

section \<open>Properties\<close>

lemma normalize_code_Inr:
  "normalize_code raw = Inr c \<longleftrightarrow> c = trim_space raw \<and> 2 \<le> length c \<and> length c \<le> 63 \<and> code_pattern c"
  by (auto simp: normalize_code_def Let_def)

lemma normalize_name_Inr:
  "normalize_name raw n = Inr s \<longleftrightarrow> s = trim_space raw \<and> s \<noteq> [] \<and> int (rune_count s) \<le> n"
  by (auto simp: normalize_name_def Let_def)

text \<open>A URL that the base-URL check lets through.\<close>

definition base_url_ok :: "url \<Rightarrow> bool" where
  "base_url_ok u \<longleftrightarrow> (u_scheme u = ''http'' \<or> u_scheme u = ''https'') \<and> u_host u \<noteq> [] \<and> u_user u = None
     \<and> u_raw_query u = [] \<and> u_fragment u = []"

lemma normalize_http_Inr:
  "normalize_http_base_url L raw = Inr s \<longleftrightarrow>
     length (trim_space raw) \<le> 2048 \<and>
     (\<exists>u. url_parse L (trim_space raw) = Some u \<and> base_url_ok u \<and>
        s = url_string L (u\<lparr>u_path := trim_right_char (u_path u) (CHR ''/'')\<rparr>))"
  by (auto simp: normalize_http_base_url_def base_url_ok_def Let_def split: option.splits)

text \<open>
  A normalised code is 2 to 63 bytes of lower-case letters, digits and hyphens that starts
  and ends with a letter or digit, and normalising it again changes nothing.
\<close>

theorem normalize_code_sound:
  assumes "normalize_code raw = Inr c"
  shows "2 \<le> length c \<and> length c \<le> 63 \<and> list_all code_char c \<and> code_alnum (hd c) \<and> code_alnum (last c)
    \<and> normalize_code c = Inr c"
proof -
  have c: "c = trim_space raw" "2 \<le> length c" "length c \<le> 63" "code_pattern c"
    using assms unfolding normalize_code_Inr by blast+
  obtain x rest where x: "c = x # rest" using c(2) by (cases c) auto
  with c(2) have x: "c = x # rest" "rest \<noteq> []" by auto
  have "list_all code_char rest \<longleftrightarrow> list_all code_char (butlast rest) \<and> code_char (last rest)"
    using x(2) by (cases rest rule: rev_cases) auto
  moreover have "trim_space c = c" using c(1) by simp
  ultimately show ?thesis
    using c(2-4) x by (simp add: code_pattern_def code_char_def normalize_code_Inr)
qed

text \<open>The URL that is printed for a base URL, without its trailing slashes.\<close>

definition stripped :: "url \<Rightarrow> url" where
  "stripped u = u\<lparr>u_path := trim_right_char (u_path u) (CHR ''/'')\<rparr>"

text \<open>
  Normalising a base URL is idempotent: when the printed URL reads back as the URL that was
  printed, the result of a normalisation is accepted again unchanged.  It is then a fixed point,
  as the check of snapshots requires.
\<close>

theorem normalize_http_base_url_idempotent:
  assumes "normalize_http_base_url L raw = Inr s"
    and "url_parse L (trim_space raw) = Some u" and "url_parse L (url_string L (stripped u)) = Some (stripped u)"
    and "trim_space s = s" and "length s \<le> 2048"
  shows "normalize_http_base_url L s = Inr s"
proof -
  have u: "base_url_ok u" "s = url_string L (stripped u)"
    using assms(1,2) by (auto simp: normalize_http_Inr stripped_def)
  have "base_url_ok (stripped u)" "stripped (stripped u) = stripped u"
    using u(1) by (simp_all add: base_url_ok_def stripped_def)
  with u(2) assms(3,4,5) show ?thesis by (auto simp: normalize_http_Inr stripped_def [symmetric])
qed

definition https_url :: "string \<Rightarrow> url" where
  "https_url path = empty_url\<lparr>u_scheme := ''https'', u_host := ''h'', u_path := path\<rparr>"

text \<open>
  C40: Supplier base URLs with an empty segment before the version suffix are not stable.  Wherever
  the URL package reads back the URLs it prints, a base URL whose path is \<open>p//v1\<close> (such as
  \<open>https://h/x//v1\<close>) is normalised to one that ends in a slash, which normalising it once more
  rewrites: it is not the fixed point that the check of snapshots requires.
\<close>

theorem openai_base_url_not_stable:
  assumes "url_parse L (trim_space raw) = Some u" "length (trim_space raw) \<le> 2048" "base_url_ok u"
    and "u_path u = p @ ''//v1''" "p = [] \<or> last p \<noteq> CHR ''/''" "u_raw_path u = []"
    and "url_parse L (url_string L u) = Some u"
    and "url_parse L (url_string L (u\<lparr>u_path := p @ ''/''\<rparr>)) = Some (u\<lparr>u_path := p @ ''/''\<rparr>)"
    and "url_parse L (url_string L (u\<lparr>u_path := p\<rparr>)) = Some (u\<lparr>u_path := p\<rparr>)"
    and "s = url_string L (u\<lparr>u_path := p @ ''/''\<rparr>)" "trim_space s = s" "length s \<le> 2048"
  shows "normalize_openai_base_url L raw = Inr s
    \<and> normalize_http_base_url L s = Inr (url_string L (u\<lparr>u_path := p\<rparr>)) \<and> normalize_http_base_url L s \<noteq> Inr s"
proof -
  have tr: "trim_right_char (p @ ''//v1'') (CHR ''/'') = p @ ''//v1''" "trim_right_char (p @ ''/'') (CHR ''/'') = p"
    using assms(5) by (cases p rule: rev_cases; auto simp: trim_right_char_def)+
  have sfx: "has_suffix (p @ ''//v1'') ''/v1''" "trim_suffix (p @ ''//v1'') ''/v1'' = p @ ''/''"
    by (simp_all add: has_suffix_def trim_suffix_def)
  have long: "p @ ''//v1'' \<noteq> ''/v1''" by (auto dest: arg_cong [of _ _ length])
  have same: "u\<lparr>u_path := p @ ''//v1''\<rparr> = u" "u\<lparr>u_path := q, u_raw_path := []\<rparr> = u\<lparr>u_path := q\<rparr>" for q
    using assms(4,6) by simp_all
  have first: "normalize_http_base_url L raw = Inr (url_string L u)"
    by (simp add: normalize_http_Inr assms(1-4) tr(1) same(1))
  have openai: "normalize_openai_base_url L raw = Inr s"
    using first assms(4,7,10) sfx long same(2) by (simp add: normalize_openai_base_url_def)
  have "base_url_ok (u\<lparr>u_path := p @ ''/''\<rparr>)" using assms(3) by (simp add: base_url_ok_def)
  moreover have parse: "url_parse L s = Some (u\<lparr>u_path := p @ ''/''\<rparr>)" unfolding assms(10) by (rule assms(8))
  ultimately have again: "normalize_http_base_url L s = Inr (url_string L (u\<lparr>u_path := p\<rparr>))"
    by (simp add: normalize_http_Inr assms(11,12) tr(2))
  have "s \<noteq> url_string L (u\<lparr>u_path := p\<rparr>)"
  proof
    assume s: "s = url_string L (u\<lparr>u_path := p\<rparr>)"
    have "url_parse L s = Some (u\<lparr>u_path := p\<rparr>)" unfolding s by (rule assms(9))
    then have "u\<lparr>u_path := p @ ''/''\<rparr> = u\<lparr>u_path := p\<rparr>" unfolding parse by (rule option.inject [THEN iffD1])
    then have "u_path (u\<lparr>u_path := p @ ''/''\<rparr>) = u_path (u\<lparr>u_path := p\<rparr>)" by (rule arg_cong)
    then show False by simp
  qed
  with openai again show ?thesis by auto
qed

section \<open>Witnesses\<close>

theorem normalize_code_sound_witness: "normalize_code ''site-a'' = Inr ''site-a''"
proof -
  have "normalize_code '' site-a'' = Inr ''site-a''" by code_simp
  then show ?thesis using normalize_code_sound by blast
qed

lemma sample_url [simp]:
  "url_string sample_libs (https_url p) = ''https://h'' @ p"
  "p \<in> {''/x//v1'', ''/x/'', ''/x'', ''/v1''} \<Longrightarrow> url_parse sample_libs (''https://h'' @ p) = Some (https_url p)"
  by (auto simp: sample_libs_def print_https_def parse_https_def https_url_def empty_url_def)

theorem normalize_http_base_url_idempotent_witness:
  "normalize_http_base_url sample_libs ''https://h/x'' = Inr ''https://h/x''"
proof (rule normalize_http_base_url_idempotent [of _ "''https://h/x/''"])
  have s: "stripped (https_url ''/x/'') = https_url ''/x''"
    by (simp add: stripped_def https_url_def trim_right_char_def)
  have t: "trim_space ''https://h/x/'' = ''https://h/x/''" by code_simp
  show p: "url_parse sample_libs (trim_space ''https://h/x/'') = Some (https_url ''/x/'')"
    using sample_url(2) [of "''/x/''"] by (simp add: t)
  then show "normalize_http_base_url sample_libs ''https://h/x/'' = Inr ''https://h/x''"
    using s t by (auto simp: normalize_http_Inr stripped_def [symmetric])
      (auto simp: base_url_ok_def https_url_def empty_url_def)
  show "url_parse sample_libs (url_string sample_libs (stripped (https_url ''/x/''))) = Some (stripped (https_url ''/x/''))"
    using sample_url(2) [of "''/x''"] by (simp add: s)
  show "trim_space ''https://h/x'' = ''https://h/x''" by code_simp
qed simp

theorem openai_base_url_not_stable_witness:
  "normalize_openai_base_url sample_libs ''https://h/x//v1'' = Inr ''https://h/x/''
   \<and> normalize_http_base_url sample_libs ''https://h/x/'' \<noteq> Inr ''https://h/x/''"
proof -
  have trim: "trim_space ''https://h/x//v1'' = ''https://h/x//v1''" "trim_space ''https://h/x/'' = ''https://h/x/''"
    by code_simp+
  have path: "(https_url ''/x//v1'')\<lparr>u_path := q\<rparr> = https_url q" for q
    by (simp add: https_url_def)
  have u: "base_url_ok (https_url ''/x//v1'')" "u_path (https_url ''/x//v1'') = ''/x'' @ ''//v1''" "u_raw_path (https_url ''/x//v1'') = []"
    by (simp_all add: https_url_def empty_url_def base_url_ok_def)
  have parse: "url_parse sample_libs (url_string sample_libs (https_url p)) = Some (https_url p)"
    if "p \<in> {''/x//v1'', ''/x/'', ''/x'', ''/v1''}" for p
    using sample_url(2) [OF that] by (simp add: sample_url(1))
  have s: "url_string sample_libs (https_url ''/x/'') = ''https://h/x/''" using sample_url(1) [of "''/x/''"] by simp
  have r: "url_parse sample_libs (trim_space ''https://h/x//v1'') = Some (https_url ''/x//v1'')"
    using sample_url(2) [of "''/x//v1''"] by (simp add: trim)
  note law = openai_base_url_not_stable [of sample_libs "''https://h/x//v1''" "https_url ''/x//v1''" "''/x''" "''https://h/x/''",
      unfolded path, OF r _ u(1,2) _ u(3) parse]
  have "normalize_openai_base_url sample_libs ''https://h/x//v1'' = Inr ''https://h/x/''
      \<and> normalize_http_base_url sample_libs ''https://h/x/'' = Inr (url_string sample_libs (https_url ''/x''))
      \<and> normalize_http_base_url sample_libs ''https://h/x/'' \<noteq> Inr ''https://h/x/''"
    by (rule law) (use parse [of "''/x/''"] parse [of "''/x''"] s in \<open>simp_all add: trim\<close>)
  then show ?thesis by blast
qed

end
