(* ===== verification/Sites.thy ===== *)
theory Sites imports Values begin

text \<open>
  \<open>internal/domain/site/site.go\<close> and \<open>internal/domain/credential/credential.go\<close>:
  sites, their creation and the check that a site may be synchronised.
\<close>

section \<open>Credentials\<close>

datatype purpose = PurposeNewAPIAdmin | PurposeSupplierAPIKey | PurposeOther string

record credential_record =
  cr_id :: uuid
  cr_purpose :: purpose
  cr_ciphertext :: "8 word list"
  cr_nonce :: "8 word list"
  cr_key_version :: "32 word"

section \<open>Sites\<close>

datatype site_status = SiteEnabled | SiteDisabled | SiteStatusOther string

datatype compatibility_status = CompatibilityUnknown | CompatibilityCompatible | CompatibilityIncompatible
  | CompatibilityOther string

record site =
  st_id :: uuid
  st_code :: string
  st_name :: string
  st_base_url :: string
  st_admin_credential_id :: uuid
  st_admin_user_id :: int
  st_status :: site_status
  st_compatibility :: compatibility_status
  st_version :: int
  st_created_at :: instant
  st_updated_at :: instant

datatype site_error = ErrSiteID | ErrSiteCredential | ErrSiteValue value_error | ErrSiteDisabled
  | ErrSiteIncompatible

definition site_value :: "value_error + 'a \<Rightarrow> site_error + 'a" where
  "site_value r = (case r of Inl e \<Rightarrow> Inl (ErrSiteValue e) | Inr x \<Rightarrow> Inr x)"

definition new_site ::
  "'d libs \<Rightarrow> uuid \<Rightarrow> string \<Rightarrow> string \<Rightarrow> string \<Rightarrow> uuid \<Rightarrow> instant \<Rightarrow> site_error + site" where
  "new_site L i code name base_url credential now =
     (if i = uuid_nil then Inl ErrSiteID
      else if credential = uuid_nil then Inl ErrSiteCredential
      else bindE (site_value (normalize_code code)) (\<lambda>c.
        bindE (site_value (normalize_name name 120)) (\<lambda>n.
        bindE (site_value (normalize_http_base_url L base_url)) (\<lambda>u.
        Inr \<lparr>st_id = i, st_code = c, st_name = n, st_base_url = u, st_admin_credential_id = credential,
             st_admin_user_id = 1, st_status = SiteEnabled, st_compatibility = CompatibilityUnknown,
             st_version = 1, st_created_at = to_utc now, st_updated_at = to_utc now\<rparr>))))"

definition can_sync :: "site \<Rightarrow> site_error + unit" where
  "can_sync s =
     (if st_status s \<noteq> SiteEnabled then Inl ErrSiteDisabled
      else if st_compatibility s = CompatibilityIncompatible then Inl ErrSiteIncompatible
      else Inr ())"

lemma site_value_Inr [simp]: "site_value r = Inr x \<longleftrightarrow> r = Inr x"
  by (cases r) (auto simp: site_value_def)

lemma new_site_Inr:
  assumes "new_site L i code name base_url credential now = Inr s"
  shows "st_id s = i" "i \<noteq> uuid_nil" "credential \<noteq> uuid_nil" "st_status s = SiteEnabled"
    "st_compatibility s = CompatibilityUnknown" "can_sync s = Inr ()"
    "normalize_code code = Inr (st_code s)" "normalize_name name 120 = Inr (st_name s)"
    "normalize_http_base_url L base_url = Inr (st_base_url s)"
  using assms by (auto simp: new_site_def can_sync_def split: if_splits)

end
