(* ===== verification/Suppliers.thy ===== *)
theory Suppliers imports Values begin

text \<open>
  \<open>internal/domain/supplier/supplier.go\<close>: suppliers, the normalisation of their models and
  the check that a supplier may be deployed.  Prices are decimals of \<open>shopspring/decimal\<close>
  (type \<open>'d\<close>), seen through \<open>dec_value\<close> and \<open>dec_exponent\<close>.

  The lemmas show that a new supplier is well formed and deployable, and that the order of the
  model inputs does not matter.
\<close>

section \<open>Suppliers\<close>

definition protocol_openai :: string where "protocol_openai = ''openai_compatible''"

datatype supplier_status = SupplierDraft | SupplierEnabled | SupplierDisabled | SupplierStatusOther string

record 'd model =
  md_name :: string
  md_upstream_name :: string
  md_input_price :: 'd
  md_output_price :: 'd
  md_currency :: string
  md_enabled :: bool
  md_created_at :: instant
  md_updated_at :: instant

record 'd supplier =
  su_id :: uuid
  su_code :: string
  su_name :: string
  su_protocol :: string
  su_base_url :: string
  su_credential_id :: uuid
  su_credential_version :: int
  su_status :: supplier_status
  su_version :: int
  su_models :: "'d model list"
  su_created_at :: instant
  su_updated_at :: instant

record 'd model_input =
  mn_name :: string
  mn_upstream_name :: string
  mn_input_price :: 'd
  mn_output_price :: 'd
  mn_currency :: string

datatype supplier_error = ErrSupplierID | ErrSupplierCredential | ErrSupplierValue value_error
  | ErrModelRequired | ErrModelName | ErrUpstreamName | ErrDuplicateModel string
  | ErrPriceNegative string | ErrPriceRange string | ErrPricePlaces string | ErrCurrency string
  | ErrSupplierNotEnabled | ErrNoEnabledModels

definition supplier_value :: "value_error + 'a \<Rightarrow> supplier_error + 'a" where
  "supplier_value r = (case r of Inl e \<Rightarrow> Inl (ErrSupplierValue e) | Inr x \<Rightarrow> Inr x)"

text \<open>\<open>normalizeModelName\<close>; its three failures are one here.\<close>

definition normalize_model_name :: "string \<Rightarrow> string option" where
  "normalize_model_name raw =
     (let name = trim_space raw in
      if name = [] then None else if 191 < length name then None
      else if has_separator name then None else Some name)"

text \<open>\<open>decimal.RequireFromString("9999999999.9999999999")\<close>\<close>

definition max_price :: rat where "max_price = 99999999999999999999 / 10 ^ 10"

definition upper_letters :: "string \<Rightarrow> bool" where
  "upper_letters s \<longleftrightarrow> list_all (\<lambda>c. CHR ''A'' \<le> c \<and> c \<le> CHR ''Z'') s"

definition model_step ::
  "'d libs \<Rightarrow> instant \<Rightarrow> string set \<times> 'd model list \<Rightarrow> 'd model_input \<Rightarrow> supplier_error + string set \<times> 'd model list" where
  "model_step L now acc inp =
     (case normalize_model_name (mn_name inp) of
        None \<Rightarrow> Inl ErrModelName
      | Some name \<Rightarrow>
      case normalize_model_name (mn_upstream_name inp) of
        None \<Rightarrow> Inl ErrUpstreamName
      | Some upstream \<Rightarrow>
      if name \<in> fst acc then Inl (ErrDuplicateModel name)
      else if dec_value L (mn_input_price inp) < 0 \<or> dec_value L (mn_output_price inp) < 0 then Inl (ErrPriceNegative name)
      else if max_price < dec_value L (mn_input_price inp) \<or> max_price < dec_value L (mn_output_price inp)
      then Inl (ErrPriceRange name)
      else if dec_exponent L (mn_input_price inp) < - 10 \<or> dec_exponent L (mn_output_price inp) < - 10
      then Inl (ErrPricePlaces name)
      else let currency = to_upper L (trim_space (mn_currency inp)) in
      if length currency \<noteq> 3 \<or> \<not> upper_letters currency then Inl (ErrCurrency name)
      else Inr (insert name (fst acc), snd acc @
        [\<lparr>md_name = name, md_upstream_name = upstream, md_input_price = mn_input_price inp,
          md_output_price = mn_output_price inp, md_currency = currency, md_enabled = True,
          md_created_at = now, md_updated_at = now\<rparr>]))"

definition normalize_models :: "'d libs \<Rightarrow> 'd model_input list \<Rightarrow> instant \<Rightarrow> supplier_error + 'd model list" where
  "normalize_models L inputs now =
     (if inputs = [] then Inl ErrModelRequired
      else bindE (foldE (model_step L now) ({}, []) inputs) (\<lambda>acc. Inr (sort_key md_name (snd acc))))"

definition new_supplier ::
  "'d libs \<Rightarrow> uuid \<Rightarrow> string \<Rightarrow> string \<Rightarrow> string \<Rightarrow> uuid \<Rightarrow> 'd model_input list \<Rightarrow> instant \<Rightarrow> supplier_error + 'd supplier" where
  "new_supplier L i code name base_url credential models now =
     (if i = uuid_nil then Inl ErrSupplierID
      else if credential = uuid_nil then Inl ErrSupplierCredential
      else bindE (supplier_value (normalize_code code)) (\<lambda>c.
        bindE (supplier_value (normalize_name name 120)) (\<lambda>n.
        bindE (supplier_value (normalize_openai_base_url L base_url)) (\<lambda>u.
        bindE (normalize_models L models (to_utc now)) (\<lambda>ms.
        Inr \<lparr>su_id = i, su_code = c, su_name = n, su_protocol = protocol_openai, su_base_url = u,
             su_credential_id = credential, su_credential_version = 1, su_status = SupplierEnabled,
             su_version = 1, su_models = ms, su_created_at = to_utc now, su_updated_at = to_utc now\<rparr>)))))"

definition can_deploy :: "'d supplier \<Rightarrow> supplier_error + unit" where
  "can_deploy s =
     (if su_status s \<noteq> SupplierEnabled then Inl ErrSupplierNotEnabled
      else if list_ex md_enabled (su_models s) then Inr () else Inl ErrNoEnabledModels)"

section \<open>Well-formed models\<close>

definition model_name_ok :: "string \<Rightarrow> bool" where
  "model_name_ok s \<longleftrightarrow> s \<noteq> [] \<and> trim_space s = s \<and> length s \<le> 191 \<and> \<not> has_separator s"

definition price_ok :: "'d libs \<Rightarrow> 'd \<Rightarrow> bool" where
  "price_ok L p \<longleftrightarrow> 0 \<le> dec_value L p \<and> dec_value L p \<le> max_price \<and> - 10 \<le> dec_exponent L p"

definition model_wf :: "'d libs \<Rightarrow> 'd model \<Rightarrow> bool" where
  "model_wf L m \<longleftrightarrow> model_name_ok (md_name m) \<and> model_name_ok (md_upstream_name m)
     \<and> price_ok L (md_input_price m) \<and> price_ok L (md_output_price m)
     \<and> length (md_currency m) = 3 \<and> upper_letters (md_currency m) \<and> md_enabled m"

lemma normalize_model_name_eq:
  "normalize_model_name raw = (if model_name_ok (trim_space raw) then Some (trim_space raw) else None)"
  by (auto simp: normalize_model_name_def model_name_ok_def Let_def)

lemma supplier_value_Inr [simp]: "supplier_value r = Inr x \<longleftrightarrow> r = Inr x"
  by (cases r) (auto simp: supplier_value_def)

text \<open>The model an input gives, and the inputs that give one.\<close>

definition model_of :: "'d libs \<Rightarrow> instant \<Rightarrow> 'd model_input \<Rightarrow> 'd model" where
  "model_of L now inp =
     \<lparr>md_name = trim_space (mn_name inp), md_upstream_name = trim_space (mn_upstream_name inp),
      md_input_price = mn_input_price inp, md_output_price = mn_output_price inp,
      md_currency = to_upper L (trim_space (mn_currency inp)), md_enabled = True,
      md_created_at = now, md_updated_at = now\<rparr>"

lemma model_step_Inr:
  "model_step L now acc inp = Inr acc' \<longleftrightarrow>
     model_wf L (model_of L now inp) \<and> md_name (model_of L now inp) \<notin> fst acc \<and>
     acc' = (insert (md_name (model_of L now inp)) (fst acc), snd acc @ [model_of L now inp])"
  by (auto simp: model_step_def model_wf_def model_of_def price_ok_def normalize_model_name_eq Let_def
      not_less split: if_splits)

lemma model_loop:
  "foldE (model_step L now) acc inps = Inr acc' \<longleftrightarrow>
     list_all (\<lambda>i. model_wf L (model_of L now i) \<and> md_name (model_of L now i) \<notin> fst acc) inps \<and>
     distinct (map (md_name \<circ> model_of L now) inps) \<and>
     acc' = (md_name ` model_of L now ` set inps \<union> fst acc, snd acc @ map (model_of L now) inps)"
proof (induction inps arbitrary: acc)
  case Nil
  show ?case by auto
next
  case (Cons i inps)
  then show ?case
    by (auto simp: model_step_Inr list_all_iff image_image image_iff)
qed

lemma normalize_models_Inr:
  "normalize_models L inps now = Inr ms \<longleftrightarrow>
     inps \<noteq> [] \<and> list_all (\<lambda>i. model_wf L (model_of L now i)) inps \<and>
     distinct (map md_name (map (model_of L now) inps)) \<and>
     ms = sort_key md_name (map (model_of L now) inps)"
  by (auto simp: normalize_models_def model_loop comp_def)

lemma normalize_models_wf:
  assumes "normalize_models L inps now = Inr ms"
  shows "ms \<noteq> []" "list_all (model_wf L) ms" "strictly_sorted_by md_name ms"
proof -
  note n = assms [unfolded normalize_models_Inr]
  have set: "set ms = model_of L now ` set inps" using n by simp
  then show "list_all (model_wf L) ms" using n by (auto simp: list_all_iff)
  show "ms \<noteq> []" using n by (metis length_0_conv length_map length_sort)
  show "strictly_sorted_by md_name ms" using n by (auto intro!: sort_key_strict)
qed

definition supplier_wf :: "'d libs \<Rightarrow> 'd supplier \<Rightarrow> bool" where
  "supplier_wf L s \<longleftrightarrow> su_id s \<noteq> uuid_nil \<and> su_credential_id s \<noteq> uuid_nil
     \<and> normalize_code (su_code s) = Inr (su_code s) \<and> normalize_name (su_name s) 120 = Inr (su_name s)
     \<and> su_protocol s = protocol_openai \<and> su_models s \<noteq> [] \<and> list_all (model_wf L) (su_models s)
     \<and> strictly_sorted_by md_name (su_models s)"

lemma new_supplier_Inr:
  "new_supplier L i code name url credential inps now = Inr s \<longleftrightarrow>
     i \<noteq> uuid_nil \<and> credential \<noteq> uuid_nil \<and>
     (\<exists>c n u ms. normalize_code code = Inr c \<and> normalize_name name 120 = Inr n \<and>
        normalize_openai_base_url L url = Inr u \<and> normalize_models L inps (to_utc now) = Inr ms \<and>
        s = \<lparr>su_id = i, su_code = c, su_name = n, su_protocol = protocol_openai, su_base_url = u,
             su_credential_id = credential, su_credential_version = 1, su_status = SupplierEnabled,
             su_version = 1, su_models = ms, su_created_at = to_utc now, su_updated_at = to_utc now\<rparr>)"
  by (auto simp: new_supplier_def)

lemma new_supplier_wf:
  assumes "new_supplier L i code name url credential inps now = Inr s"
  shows "supplier_wf L s" "can_deploy s = Inr ()"
proof -
  obtain c n u ms where s: "i \<noteq> uuid_nil" "credential \<noteq> uuid_nil" "normalize_code code = Inr c"
      "normalize_name name 120 = Inr n" "normalize_models L inps (to_utc now) = Inr ms"
    and eq: "s = \<lparr>su_id = i, su_code = c, su_name = n, su_protocol = protocol_openai, su_base_url = u,
             su_credential_id = credential, su_credential_version = 1, su_status = SupplierEnabled,
             su_version = 1, su_models = ms, su_created_at = to_utc now, su_updated_at = to_utc now\<rparr>"
    using assms unfolding new_supplier_Inr by blast
  have "normalize_code c = Inr c" "normalize_name n 120 = Inr n"
    using s(3,4) by (auto simp: normalize_code_def normalize_name_def Let_def split: if_splits)
  then show "supplier_wf L s"
    using s(1,2) normalize_models_wf [OF s(5)] unfolding eq supplier_wf_def by simp
  show "can_deploy s = Inr ()"
    using normalize_models_wf(1,2) [OF s(5)]
    unfolding eq can_deploy_def by (cases ms) (simp_all add: model_wf_def)
qed

section \<open>Properties\<close>

text \<open>
  A new supplier is well formed (code and name normalised, at least one model, every model with
  a clean name, prices within range and precision and a three-letter currency, the models strictly
  sorted by name) and may be deployed at once.
\<close>

theorem new_supplier_sound:
  assumes "new_supplier L i code name url credential inps now = Inr s"
  shows "supplier_wf L s \<and> can_deploy s = Inr ()"
  using new_supplier_wf [OF assms] by blast

text \<open>
  A supplier does not depend on the order in which its models are entered.
\<close>

theorem new_supplier_order_independent:
  assumes "new_supplier L i code name url credential inps now = Inr s" and "mset inps' = mset inps"
  shows "new_supplier L i code name url credential inps' now = Inr s"
proof -
  let ?m = "map (model_of L (to_utc now))"
  have set: "set inps' = set inps" using assms(2) by (metis set_mset_mset)
  have "normalize_models L inps' t = Inr ms" if "normalize_models L inps t = Inr ms" for t ms
  proof -
    note n = that [unfolded normalize_models_Inr]
    let ?k = "map (model_of L t)"
    have "mset (?k inps') = mset (?k inps)" using assms(2) by simp
    then have "distinct (map md_name (?k inps'))" "sort_key md_name (?k inps') = sort_key md_name (?k inps)"
      using n by (metis mset_eq_imp_distinct_iff mset_map) (use n \<open>mset (?k inps') = mset (?k inps)\<close> in \<open>metis sort_key_canonical\<close>)
    then show ?thesis using n set by (auto simp: normalize_models_Inr list_all_iff)
  qed
  then show ?thesis using assms(1) unfolding new_supplier_Inr by blast
qed

section \<open>Witnesses\<close>

definition sample_model_input :: "string \<Rightarrow> rat model_input" where
  "sample_model_input n = \<lparr>mn_name = n, mn_upstream_name = n, mn_input_price = 1, mn_output_price = 2, mn_currency = ''USD''\<rparr>"

definition sample_supplier :: "rat model_input list \<Rightarrow> supplier_error + rat supplier" where
  "sample_supplier inps = new_supplier sample_libs 1 ''supplier-a'' ''Supplier'' ''https://h/x'' 2 inps time_zero"

lemma sample_supplier_made:
  "\<exists>s. sample_supplier [sample_model_input ''b'', sample_model_input ''a''] = Inr s"
proof -
  have v: "normalize_code ''supplier-a'' = Inr ''supplier-a''" "normalize_name ''Supplier'' 120 = Inr ''Supplier''"
    "trim_space ''a'' = ''a''" "trim_space ''b'' = ''b''" "trim_space ''USD'' = ''USD''"
    "trim_space ''https://h/x'' = ''https://h/x''"
    by code_simp+
  have u: "normalize_openai_base_url sample_libs ''https://h/x'' = Inr ''https://h/x''"
    by (simp add: normalize_openai_base_url_def normalize_http_base_url_def v Let_def sample_libs_def parse_https_def
        print_https_def empty_url_def trim_right_char_def has_suffix_def)
  have m: "list_all (\<lambda>i. model_wf sample_libs (model_of sample_libs t i)) [sample_model_input ''b'', sample_model_input ''a'']" for t
    by (simp add: model_wf_def model_of_def sample_model_input_def v model_name_ok_def has_separator_def contains_any_def
        cr_def nl_def price_ok_def sample_libs_def max_price_def upper_letters_def less_eq_char_def)
  have d: "distinct (map md_name (map (model_of sample_libs t) [sample_model_input ''b'', sample_model_input ''a'']))" for t
    by (simp add: model_of_def sample_model_input_def v)
  show ?thesis
    unfolding sample_supplier_def new_supplier_Inr using v u m d by (auto simp: normalize_models_Inr)
qed

theorem new_supplier_sound_witness:
  "\<exists>s. sample_supplier [sample_model_input ''b'', sample_model_input ''a''] = Inr s \<and> supplier_wf sample_libs s"
proof -
  obtain s where s: "sample_supplier [sample_model_input ''b'', sample_model_input ''a''] = Inr s"
    using sample_supplier_made by blast
  then show ?thesis using new_supplier_sound [OF s [unfolded sample_supplier_def]] by blast
qed

theorem new_supplier_order_independent_witness:
  "sample_supplier [sample_model_input ''a'', sample_model_input ''b''] =
     sample_supplier [sample_model_input ''b'', sample_model_input ''a'']"
proof -
  obtain s where s: "sample_supplier [sample_model_input ''b'', sample_model_input ''a''] = Inr s"
    using sample_supplier_made by blast
  have "sample_supplier [sample_model_input ''a'', sample_model_input ''b''] = Inr s"
    unfolding sample_supplier_def
    by (rule new_supplier_order_independent [OF s [unfolded sample_supplier_def]]) (simp add: add_mset_commute)
  with s show ?thesis by simp
qed

end
