(* ===== verification/Relations.thy ===== *)
theory Relations imports Sites Suppliers begin

text \<open>
  \<open>internal/domain/routing/relation.go\<close> and \<open>plan.go\<close>: the relation between a site
  and a supplier, its managed channel, the names ManyRouter gives to what it owns at the gateway,
  and the record of a plan.
\<close>

section \<open>Relations\<close>

datatype desired_status = DesiredObserving | DesiredEnabled | DesiredDisabled | DesiredOther string

datatype sync_status = SyncPending | Syncing | SyncActive | SyncFailed | SyncManualLocked | SyncOther string

record 'd relation =
  rl_id :: uuid
  rl_site_id :: uuid
  rl_supplier_id :: uuid
  rl_group_key :: string
  rl_group_display_name :: string
  rl_sale_ratio :: 'd
  rl_visible :: bool
  rl_desired_status :: desired_status
  rl_sync_status :: sync_status
  rl_version :: int
  rl_current_plan_id :: uuid
  rl_current_plan_version :: int
  rl_last_confirmed_at :: "instant option"
  rl_created_at :: instant
  rl_updated_at :: instant

record managed_channel =
  mc_id :: uuid
  mc_relation_id :: uuid
  mc_managed_tag :: string
  mc_external_channel_id :: "int option"
  mc_last_confirmed_plan_version :: "int option"
  mc_last_confirmed_credential_id :: uuid
  mc_last_confirmed_credential_version :: int
  mc_last_confirmed_enabled :: "bool option"
  mc_created_at :: instant
  mc_updated_at :: instant

datatype relation_error = ErrRelationIDs | ErrGroupName value_error | ErrRatioNotPositive | ErrRatioRange
  | ErrRatioPlaces | ErrChannelIDs

definition group_key :: "'d libs \<Rightarrow> uuid \<Rightarrow> string" where
  "group_key L r = ''mr_s_'' @ filter (\<lambda>c. c \<noteq> CHR ''-'') (uuid_string L r)"

definition managed_tag :: "'d libs \<Rightarrow> uuid \<Rightarrow> string" where
  "managed_tag L r = ''manyrouter:'' @ uuid_string L r"

text \<open>\<open>decimal.RequireFromString("999999.999999")\<close>\<close>

definition max_ratio :: rat where "max_ratio = 999999999999 / 10 ^ 6"

definition group_name :: "value_error + 'a \<Rightarrow> relation_error + 'a" where
  "group_name r = (case r of Inl e \<Rightarrow> Inl (ErrGroupName e) | Inr x \<Rightarrow> Inr x)"

definition new_relation ::
  "'d libs \<Rightarrow> uuid \<Rightarrow> uuid \<Rightarrow> uuid \<Rightarrow> string \<Rightarrow> 'd \<Rightarrow> bool \<Rightarrow> instant \<Rightarrow> relation_error + 'd relation" where
  "new_relation L i site_id supplier_id display ratio visible now =
     (if i = uuid_nil \<or> site_id = uuid_nil \<or> supplier_id = uuid_nil then Inl ErrRelationIDs
      else bindE (group_name (normalize_name display 120)) (\<lambda>name.
        if \<not> 0 < dec_value L ratio then Inl ErrRatioNotPositive
        else if max_ratio < dec_value L ratio then Inl ErrRatioRange
        else if dec_exponent L ratio < - 6 then Inl ErrRatioPlaces
        else Inr \<lparr>rl_id = i, rl_site_id = site_id, rl_supplier_id = supplier_id, rl_group_key = group_key L i,
                  rl_group_display_name = name, rl_sale_ratio = ratio, rl_visible = visible,
                  rl_desired_status = DesiredObserving, rl_sync_status = SyncPending, rl_version = 1,
                  rl_current_plan_id = uuid_nil, rl_current_plan_version = 0, rl_last_confirmed_at = None,
                  rl_created_at = to_utc now, rl_updated_at = to_utc now\<rparr>))"

definition new_managed_channel :: "'d libs \<Rightarrow> uuid \<Rightarrow> uuid \<Rightarrow> instant \<Rightarrow> relation_error + managed_channel" where
  "new_managed_channel L i relation_id now =
     (if i = uuid_nil \<or> relation_id = uuid_nil then Inl ErrChannelIDs
      else Inr \<lparr>mc_id = i, mc_relation_id = relation_id, mc_managed_tag = managed_tag L relation_id,
                mc_external_channel_id = None, mc_last_confirmed_plan_version = None,
                mc_last_confirmed_credential_id = uuid_nil, mc_last_confirmed_credential_version = 0,
                mc_last_confirmed_enabled = None, mc_created_at = to_utc now, mc_updated_at = to_utc now\<rparr>)"

lemma group_name_Inr [simp]: "group_name r = Inr x \<longleftrightarrow> r = Inr x"
  by (cases r) (auto simp: group_name_def)

text \<open>A relation as \<open>NewRelation\<close> makes it.\<close>

definition relation_wf :: "'d libs \<Rightarrow> 'd relation \<Rightarrow> bool" where
  "relation_wf L r \<longleftrightarrow> rl_id r \<noteq> uuid_nil \<and> rl_site_id r \<noteq> uuid_nil \<and> rl_supplier_id r \<noteq> uuid_nil
     \<and> rl_group_key r = group_key L (rl_id r) \<and> rl_group_display_name r \<noteq> []
     \<and> 0 < dec_value L (rl_sale_ratio r) \<and> dec_value L (rl_sale_ratio r) \<le> max_ratio
     \<and> - 6 \<le> dec_exponent L (rl_sale_ratio r)"

lemma new_relation_wf:
  assumes "new_relation L i site_id supplier_id display ratio visible now = Inr r"
  shows "relation_wf L r" "rl_id r = i" "rl_site_id r = site_id" "rl_supplier_id r = supplier_id"
    "rl_sale_ratio r = ratio" "rl_desired_status r = DesiredObserving"
  using assms by (auto simp: new_relation_def relation_wf_def normalize_name_Inr split: if_splits)

lemma new_managed_channel_Inr:
  assumes "new_managed_channel L i relation_id now = Inr c"
  shows "mc_id c = i" "i \<noteq> uuid_nil" "mc_relation_id c = relation_id" "mc_managed_tag c = managed_tag L relation_id"
  using assms by (auto simp: new_managed_channel_def split: if_splits)

end
