(* ===== verification/Snapshots.thy ===== *)
theory Snapshots imports Relations begin

text \<open>
  \<open>internal/domain/routing/snapshot.go\<close> and \<open>site_snapshot.go\<close>: the desired state of a
  relation (schema 1) or of a whole site (schema 2), how it is built from a site, a supplier and
  a relation, and the check every snapshot goes through before it is stored or read.

  A snapshot of schema 2 holds snapshots of schema 1, so the type is recursive.  The lemmas bring
  the checks into closed form; the properties show that built snapshots pass them, what a checked
  site snapshot guarantees, and that encoding and decoding are inverse.
\<close>

section \<open>Data\<close>

record model_route =
  mt_model :: string
  mt_upstream_model :: string

record desired_group =
  dg_key :: string
  dg_display_name :: string
  dg_sale_ratio :: string
  dg_visible :: bool

record desired_channel =
  dc_id :: uuid
  dc_managed_tag :: string
  dc_name :: string
  dc_protocol :: string
  dc_base_url :: string
  dc_credential_id :: uuid
  dc_credential_version :: int
  dc_models :: "model_route list"
  dc_group_key :: string
  dc_extra_group_keys :: "string list"
  dc_priority :: int
  dc_weight :: int
  dc_desired_status :: desired_status

record strategy_reference =
  sf_id :: uuid
  sf_version :: int

datatype snapshot = Snapshot
  (sn_schema_version: int) (sn_site_id: uuid) (sn_relation_id: uuid) (sn_supplier_id: uuid)
  (sn_group: desired_group) (sn_channel: desired_channel) (sn_resources: "snapshot list")
  (sn_auto_groups: "desired_group list") (sn_resume_relation_ids: "uuid list")
  (sn_billing_basis_hash: string) (sn_price_version_ids: "uuid list")
  (sn_strategy_versions: "strategy_reference list")

definition snapshot_schema_version :: int where "snapshot_schema_version = 1"
definition site_snapshot_schema_version :: int where "site_snapshot_schema_version = 2"

datatype plan_status = PlanPending | PlanApplying | PlanConfirmed | PlanFailed | PlanUncertain
  | PlanSuperseded | PlanOther string

record plan =
  pl_id :: uuid
  pl_site_id :: uuid
  pl_relation_id :: uuid
  pl_version :: int
  pl_previous_plan_id :: "uuid option"
  pl_reason :: string
  pl_snapshot :: snapshot
  pl_snapshot_json :: string
  pl_content_hash :: string
  pl_status :: plan_status
  pl_created_at :: instant
  pl_confirmed_at :: "instant option"

text \<open>\<open>DesiredChannel.GroupKeys\<close>: \<open>slices.Sort\<close> and \<open>slices.Compact\<close>.\<close>

definition channel_group_keys :: "desired_channel \<Rightarrow> string list" where
  "channel_group_keys c = remdups_adj (sort (dc_group_key c # dc_extra_group_keys c))"

definition resource_snapshots :: "snapshot \<Rightarrow> snapshot list" where
  "resource_snapshots s =
     (if sn_schema_version s = site_snapshot_schema_version then sn_resources s else [s])"

definition snapshot_groups :: "snapshot \<Rightarrow> desired_group list" where
  "snapshot_groups s = map sn_group (resource_snapshots s) @ sn_auto_groups s"

section \<open>Building a snapshot\<close>

datatype snapshot_error = ErrSnapSite site_error | ErrSnapSupplier supplier_error | ErrSnapOwner
  | ErrSnapChannelOwner | ErrSnapModels | ErrSnapSchema | ErrSnapIDs | ErrSnapSiteFields | ErrSnapGroup
  | ErrSnapChannel | ErrSnapCredential | ErrSnapProtocol | ErrSnapURL | ErrSnapRatio | ErrSnapModel
  | ErrSnapModelOrder | ErrSnapWeight | ErrSnapExtraGroups | ErrSnapStatus | ErrSnapResources
  | ErrSnapBillingHash | ErrSnapAutoGroup | ErrSnapResource | ErrSnapResourceOrder | ErrSnapForeignGroup
  | ErrSnapRepresentative | ErrSnapResume | ErrSnapPrices | ErrSnapStrategies | ErrSnapEncoding
  | ErrSnapDecoding

definition snap_site :: "site_error + 'a \<Rightarrow> snapshot_error + 'a" where
  "snap_site r = (case r of Inl e \<Rightarrow> Inl (ErrSnapSite e) | Inr x \<Rightarrow> Inr x)"

definition snap_supplier :: "supplier_error + 'a \<Rightarrow> snapshot_error + 'a" where
  "snap_supplier r = (case r of Inl e \<Rightarrow> Inl (ErrSnapSupplier e) | Inr x \<Rightarrow> Inr x)"

definition route_of :: "'d model \<Rightarrow> model_route" where
  "route_of m = \<lparr>mt_model = md_name m, mt_upstream_model = md_upstream_name m\<rparr>"

definition build_snapshot ::
  "'d libs \<Rightarrow> site \<Rightarrow> 'd supplier \<Rightarrow> 'd relation \<Rightarrow> managed_channel \<Rightarrow> snapshot_error + snapshot" where
  "build_snapshot L site su rel ch =
     bindE (snap_site (can_sync site)) (\<lambda>_.
     bindE (snap_supplier (can_deploy su)) (\<lambda>_.
     if rl_site_id rel \<noteq> st_id site \<or> rl_supplier_id rel \<noteq> su_id su then Inl ErrSnapOwner
     else if mc_relation_id ch \<noteq> rl_id rel then Inl ErrSnapChannelOwner
     else let models = sort_key mt_model (map route_of (filter md_enabled (su_models su))) in
       if models = [] then Inl ErrSnapModels
       else Inr (Snapshot snapshot_schema_version (st_id site) (rl_id rel) (su_id su)
         \<lparr>dg_key = rl_group_key rel, dg_display_name = rl_group_display_name rel,
          dg_sale_ratio = dec_string L (rl_sale_ratio rel), dg_visible = rl_visible rel\<rparr>
         \<lparr>dc_id = mc_id ch, dc_managed_tag = mc_managed_tag ch, dc_name = su_name su @ '' [ManyRouter]'',
          dc_protocol = su_protocol su, dc_base_url = su_base_url su, dc_credential_id = su_credential_id su,
          dc_credential_version = su_credential_version su, dc_models = models, dc_group_key = rl_group_key rel,
          dc_extra_group_keys = [], dc_priority = 0, dc_weight = 100, dc_desired_status = DesiredEnabled\<rparr>
         [] [] [] [] [] [])))"

section \<open>Checking a snapshot\<close>

text \<open>The loop over the models; \<open>previous\<close> starts as the empty string.\<close>

fun check_models :: "string \<Rightarrow> model_route list \<Rightarrow> snapshot_error + unit" where
  "check_models previous [] = Inr ()"
| "check_models previous (m # ms) =
     (if trim_space (mt_model m) = [] \<or> trim_space (mt_upstream_model m) = []
        \<or> has_separator (mt_model m @ mt_upstream_model m) then Inl ErrSnapModel
      else if previous \<noteq> [] \<and> mt_model m \<le> previous then Inl ErrSnapModelOrder
      else check_models (mt_model m) ms)"

fun check_extra_groups :: "string \<Rightarrow> string \<Rightarrow> string list \<Rightarrow> snapshot_error + unit" where
  "check_extra_groups own previous [] = Inr ()"
| "check_extra_groups own previous (g # gs) =
     (if g = [] \<or> g \<le> previous \<or> g = own \<or> has_separator g then Inl ErrSnapExtraGroups
      else check_extra_groups own g gs)"

definition ratio_ok :: "'d libs \<Rightarrow> string \<Rightarrow> bool" where
  "ratio_ok L s \<longleftrightarrow>
     (case dec_parse L s of None \<Rightarrow> False
      | Some d \<Rightarrow> 0 < dec_value L d \<and> - 6 \<le> dec_exponent L d)"

definition ratio_in_range :: "'d libs \<Rightarrow> string \<Rightarrow> bool" where
  "ratio_in_range L s \<longleftrightarrow> ratio_ok L s \<and> dec_value L (the (dec_parse L s)) \<le> max_ratio"

text \<open>\<open>ValidateSnapshot\<close> for a snapshot that is not of schema 2.\<close>

definition validate_single :: "'d libs \<Rightarrow> snapshot \<Rightarrow> snapshot_error + unit" where
  "validate_single L s =
     (let g = sn_group s; c = sn_channel s in
      if sn_schema_version s \<noteq> snapshot_schema_version then Inl ErrSnapSchema
      else if sn_site_id s = uuid_nil \<or> sn_relation_id s = uuid_nil \<or> sn_supplier_id s = uuid_nil then Inl ErrSnapIDs
      else if sn_resources s \<noteq> [] \<or> sn_auto_groups s \<noteq> [] \<or> sn_resume_relation_ids s \<noteq> []
        \<or> sn_billing_basis_hash s \<noteq> [] \<or> sn_price_version_ids s \<noteq> [] \<or> sn_strategy_versions s \<noteq> []
      then Inl ErrSnapSiteFields
      else if dg_key g \<noteq> group_key L (sn_relation_id s) \<or> dc_group_key c \<noteq> dg_key g then Inl ErrSnapGroup
      else if dc_id c = uuid_nil \<or> dc_managed_tag c \<noteq> managed_tag L (sn_relation_id s) then Inl ErrSnapChannel
      else if dc_credential_id c = uuid_nil \<or> dc_credential_version c \<le> 0 then Inl ErrSnapCredential
      else if dc_protocol c \<noteq> protocol_openai then Inl ErrSnapProtocol
      else if normalize_http_base_url L (dc_base_url c) \<noteq> Inr (dc_base_url c) then Inl ErrSnapURL
      else if \<not> ratio_in_range L (dg_sale_ratio g) then Inl ErrSnapRatio
      else if dc_models c = [] then Inl ErrSnapModels
      else bindE (check_models [] (dc_models c)) (\<lambda>_.
        if dc_weight c < 0 then Inl ErrSnapWeight
        else bindE (check_extra_groups (dc_group_key c) [] (dc_extra_group_keys c)) (\<lambda>_.
          if dc_desired_status c \<noteq> DesiredEnabled \<and> dc_desired_status c \<noteq> DesiredDisabled then Inl ErrSnapStatus
          else Inr ())))"

definition hex_digit :: "char \<Rightarrow> bool" where
  "hex_digit c \<longleftrightarrow> CHR ''0'' \<le> c \<and> c \<le> CHR ''9'' \<or> CHR ''a'' \<le> c \<and> c \<le> CHR ''f'' \<or> CHR ''A'' \<le> c \<and> c \<le> CHR ''F''"

definition hex_string :: "string \<Rightarrow> bool" where
  "hex_string s \<longleftrightarrow> even (length s) \<and> list_all hex_digit s"

definition valid_auto_group_key :: "string \<Rightarrow> bool" where
  "valid_auto_group_key k \<longleftrightarrow> k \<in> {''mrap'', ''mral'', ''mras'', ''mraq'', ''mrab''} \<or> has_prefix k ''mr_a_''"

definition auto_group_step :: "'d libs \<Rightarrow> string set \<Rightarrow> desired_group \<Rightarrow> snapshot_error + string set" where
  "auto_group_step L groups g =
     (if \<not> valid_auto_group_key (dg_key g) \<or> has_separator (dg_key g) \<or> dg_display_name g = []
        \<or> dg_key g \<in> groups \<or> \<not> ratio_ok L (dg_sale_ratio g)
      then Inl ErrSnapAutoGroup else Inr (insert (dg_key g) groups))"

text \<open>The locals of the loop over the resources: relations, channels and the previous text.\<close>

record resource_scan =
  rs_relations :: "uuid set"
  rs_channels :: "uuid set"
  rs_previous :: string

definition resource_step ::
  "'d libs \<Rightarrow> uuid \<Rightarrow> string set \<Rightarrow> resource_scan \<Rightarrow> snapshot \<Rightarrow> snapshot_error + resource_scan" where
  "resource_step L site_id groups s r =
     (if sn_schema_version r \<noteq> snapshot_schema_version \<or> sn_site_id r \<noteq> site_id then Inl ErrSnapResource
      else bindE (validate_single L r) (\<lambda>_.
        if sn_relation_id r \<in> rs_relations s \<or> dc_id (sn_channel r) \<in> rs_channels s
          \<or> uuid_string L (sn_relation_id r) \<le> rs_previous s
        then Inl ErrSnapResourceOrder
        else bindE (check_all (\<lambda>g. guardE (g \<notin> groups) ErrSnapForeignGroup) (dc_extra_group_keys (sn_channel r))) (\<lambda>_.
          Inr \<lparr>rs_relations = insert (sn_relation_id r) (rs_relations s),
               rs_channels = insert (dc_id (sn_channel r)) (rs_channels s),
               rs_previous = uuid_string L (sn_relation_id r)\<rparr>)))"

definition unique_step :: "(uuid \<Rightarrow> bool) \<Rightarrow> snapshot_error \<Rightarrow> uuid set \<Rightarrow> uuid \<Rightarrow> snapshot_error + uuid set" where
  "unique_step ok e seen i = (if \<not> ok i \<or> i \<in> seen then Inl e else Inr (insert i seen))"

definition strategy_step :: "'d libs \<Rightarrow> string \<Rightarrow> strategy_reference \<Rightarrow> snapshot_error + string" where
  "strategy_step L previous r =
     (if sf_id r = uuid_nil \<or> sf_version r < 1 \<or> uuid_string L (sf_id r) \<le> previous then Inl ErrSnapStrategies
      else Inr (uuid_string L (sf_id r)))"

definition validate_site_snapshot :: "'d libs \<Rightarrow> snapshot \<Rightarrow> snapshot_error + unit" where
  "validate_site_snapshot L s =
     (if sn_site_id s = uuid_nil \<or> sn_resources s = [] then Inl ErrSnapResources
      else if \<not> hex_string (sn_billing_basis_hash s) \<or> length (sn_billing_basis_hash s) \<noteq> 64 then Inl ErrSnapBillingHash
      else bindE (foldE (auto_group_step L) {} (sn_auto_groups s)) (\<lambda>groups.
        bindE (foldE (resource_step L (sn_site_id s) groups)
            \<lparr>rs_relations = {}, rs_channels = {}, rs_previous = []\<rparr> (sn_resources s)) (\<lambda>rs.
        if sn_relation_id s \<noteq> sn_relation_id (hd (sn_resources s))
          \<or> sn_supplier_id s \<noteq> sn_supplier_id (hd (sn_resources s)) then Inl ErrSnapRepresentative
        else bindE (foldE (unique_step (\<lambda>i. i \<in> rs_relations rs) ErrSnapResume) {} (sn_resume_relation_ids s)) (\<lambda>_.
          bindE (foldE (unique_step (\<lambda>i. i \<noteq> uuid_nil) ErrSnapPrices) {} (sn_price_version_ids s)) (\<lambda>_.
          bindE (foldE (strategy_step L) [] (sn_strategy_versions s)) (\<lambda>_. Inr ()))))))"

text \<open>A resource of a site snapshot is only checked after its schema was found to be 1, so the
  recursion of \<open>ValidateSnapshot\<close> is one level deep.\<close>

definition validate_snapshot :: "'d libs \<Rightarrow> snapshot \<Rightarrow> snapshot_error + unit" where
  "validate_snapshot L s =
     (if sn_schema_version s = site_snapshot_schema_version then validate_site_snapshot L s
      else validate_single L s)"

text \<open>Encoding.  \<open>json.Marshal\<close> and the strict decoder are arguments.\<close>

definition encode_snapshot ::
  "'d libs \<Rightarrow> (snapshot \<Rightarrow> string option) \<Rightarrow> snapshot \<Rightarrow> snapshot_error + string \<times> string" where
  "encode_snapshot L marshal s =
     bindE (validate_snapshot L s) (\<lambda>_.
       case marshal s of None \<Rightarrow> Inl ErrSnapEncoding
       | Some payload \<Rightarrow> Inr (payload, sha256_hex L payload))"

definition decode_snapshot ::
  "'d libs \<Rightarrow> (string \<Rightarrow> snapshot option) \<Rightarrow> string \<Rightarrow> snapshot_error + snapshot" where
  "decode_snapshot L unmarshal payload =
     (case unmarshal payload of None \<Rightarrow> Inl ErrSnapDecoding
      | Some s \<Rightarrow> bindE (validate_snapshot L s) (\<lambda>_. Inr s))"

section \<open>The checks in closed form\<close>

definition route_ok :: "model_route \<Rightarrow> bool" where
  "route_ok m \<longleftrightarrow> trim_space (mt_model m) \<noteq> [] \<and> trim_space (mt_upstream_model m) \<noteq> []
     \<and> \<not> has_separator (mt_model m) \<and> \<not> has_separator (mt_upstream_model m)"

lemma nil_less: "[] < (x :: string) \<longleftrightarrow> x \<noteq> []"
  by (cases x) auto

lemma check_models_Inr:
  "check_models p ms = Inr () \<longleftrightarrow>
     list_all route_ok ms \<and> strictly_sorted_by mt_model ms \<and> (p \<noteq> [] \<longrightarrow> list_all (\<lambda>m. p < mt_model m) ms)"
proof (induction ms arbitrary: p)
  case (Cons m ms)
  have ne: "route_ok m \<Longrightarrow> mt_model m \<noteq> []" by (auto simp: route_ok_def)
  have "p < mt_model m \<and> list_all (\<lambda>x. mt_model m < mt_model x) ms \<Longrightarrow> list_all (\<lambda>x. p < mt_model x) ms"
    by (auto simp: list_all_iff)
  then show ?case
    using ne by (auto simp: Cons.IH route_ok_def list_all_iff not_le)
qed simp

lemma check_extra_groups_Inr:
  "check_extra_groups own p gs = Inr () \<longleftrightarrow>
     list_all (\<lambda>g. g \<noteq> [] \<and> p < g \<and> g \<noteq> own \<and> \<not> has_separator g) gs \<and> strictly_sorted_by id gs"
proof (induction gs arbitrary: p)
  case (Cons g gs)
  have "p < g \<and> list_all (\<lambda>x. g < x) gs \<Longrightarrow> list_all (\<lambda>x. p < x) gs" by (auto simp: list_all_iff)
  then show ?case by (auto simp: Cons.IH list_all_iff not_le)
qed simp

lemma auto_group_loop:
  "foldE (auto_group_step L) seen gs = Inr t \<longleftrightarrow>
     list_all (\<lambda>g. valid_auto_group_key (dg_key g) \<and> \<not> has_separator (dg_key g) \<and> dg_display_name g \<noteq> []
       \<and> ratio_ok L (dg_sale_ratio g) \<and> dg_key g \<notin> seen) gs
     \<and> distinct (map dg_key gs) \<and> t = dg_key ` set gs \<union> seen"
proof (induction gs arbitrary: seen)
  case (Cons g gs)
  then show ?case by (auto simp: auto_group_step_def list_all_iff image_iff)
qed auto

lemma unique_loop:
  "foldE (unique_step ok e) seen is = Inr t \<longleftrightarrow>
     list_all (\<lambda>i. ok i \<and> i \<notin> seen) is \<and> distinct is \<and> t = set is \<union> seen"
proof (induction "is" arbitrary: seen)
  case (Cons i "is")
  then show ?case by (auto simp: unique_step_def list_all_iff)
qed auto

lemma strategy_loop:
  "foldE (strategy_step L) p rs = Inr t \<longleftrightarrow>
     list_all (\<lambda>r. sf_id r \<noteq> uuid_nil \<and> 1 \<le> sf_version r \<and> p < uuid_string L (sf_id r)) rs
     \<and> strictly_sorted_by (\<lambda>r. uuid_string L (sf_id r)) rs
     \<and> t = (if rs = [] then p else uuid_string L (sf_id (last rs)))"
proof (induction rs arbitrary: p)
  case (Cons r rs)
  have "p < uuid_string L (sf_id r) \<and> list_all (\<lambda>x. uuid_string L (sf_id r) < uuid_string L (sf_id x)) rs \<Longrightarrow>
      list_all (\<lambda>x. p < uuid_string L (sf_id x)) rs"
    by (auto simp: list_all_iff)
  moreover have "strategy_step L p r = Inr x \<longleftrightarrow>
      sf_id r \<noteq> uuid_nil \<and> 1 \<le> sf_version r \<and> p < uuid_string L (sf_id r) \<and> x = uuid_string L (sf_id r)" for x
    by (auto simp: strategy_step_def not_le not_less)
  ultimately show ?case by (auto simp: Cons.IH list_all_iff)
qed auto

definition resource_ok :: "'d libs \<Rightarrow> uuid \<Rightarrow> string set \<Rightarrow> snapshot \<Rightarrow> bool" where
  "resource_ok L site_id groups r \<longleftrightarrow> sn_schema_version r = snapshot_schema_version \<and> sn_site_id r = site_id
     \<and> validate_single L r = Inr () \<and> set (dc_extra_group_keys (sn_channel r)) \<subseteq> groups"

lemma resource_loop:
  "foldE (resource_step L site_id groups) s rs = Inr t \<longleftrightarrow>
     list_all (\<lambda>r. resource_ok L site_id groups r \<and> sn_relation_id r \<notin> rs_relations s
       \<and> dc_id (sn_channel r) \<notin> rs_channels s \<and> rs_previous s < uuid_string L (sn_relation_id r)) rs
     \<and> distinct (map sn_relation_id rs) \<and> distinct (map (dc_id \<circ> sn_channel) rs)
     \<and> strictly_sorted_by (\<lambda>r. uuid_string L (sn_relation_id r)) rs
     \<and> t = \<lparr>rs_relations = sn_relation_id ` set rs \<union> rs_relations s,
            rs_channels = (dc_id \<circ> sn_channel) ` set rs \<union> rs_channels s,
            rs_previous = (if rs = [] then rs_previous s else uuid_string L (sn_relation_id (last rs)))\<rparr>"
proof (induction rs arbitrary: s)
  case Nil
  show ?case by auto
next
  case (Cons r rs)
  let ?u = "\<lambda>x. uuid_string L (sn_relation_id x)"
  let ?t = "\<lparr>rs_relations = insert (sn_relation_id r) (rs_relations s),
      rs_channels = insert (dc_id (sn_channel r)) (rs_channels s), rs_previous = ?u r\<rparr>"
  have step: "resource_step L site_id groups s r = Inr x \<longleftrightarrow>
      resource_ok L site_id groups r \<and> sn_relation_id r \<notin> rs_relations s \<and> dc_id (sn_channel r) \<notin> rs_channels s
      \<and> rs_previous s < ?u r \<and> x = ?t" for x
    by (auto simp: resource_step_def resource_ok_def not_le)
  have tr: "rs_previous s < ?u r \<and> list_all (\<lambda>x. ?u r < ?u x) rs \<Longrightarrow> list_all (\<lambda>x. rs_previous s < ?u x) rs"
    by (auto simp: list_all_iff)
  show ?case
    using tr by (auto simp: step Cons.IH [of ?t] list_all_iff image_iff)
qed

lemma validate_single_Inr:
  "validate_single L s = Inr () \<longleftrightarrow>
     sn_schema_version s = snapshot_schema_version \<and>
     sn_site_id s \<noteq> uuid_nil \<and> sn_relation_id s \<noteq> uuid_nil \<and> sn_supplier_id s \<noteq> uuid_nil \<and>
     sn_resources s = [] \<and> sn_auto_groups s = [] \<and> sn_resume_relation_ids s = [] \<and>
     sn_billing_basis_hash s = [] \<and> sn_price_version_ids s = [] \<and> sn_strategy_versions s = [] \<and>
     dg_key (sn_group s) = group_key L (sn_relation_id s) \<and> dc_group_key (sn_channel s) = dg_key (sn_group s) \<and>
     dc_id (sn_channel s) \<noteq> uuid_nil \<and> dc_managed_tag (sn_channel s) = managed_tag L (sn_relation_id s) \<and>
     dc_credential_id (sn_channel s) \<noteq> uuid_nil \<and> 0 < dc_credential_version (sn_channel s) \<and>
     dc_protocol (sn_channel s) = protocol_openai \<and>
     normalize_http_base_url L (dc_base_url (sn_channel s)) = Inr (dc_base_url (sn_channel s)) \<and>
     ratio_in_range L (dg_sale_ratio (sn_group s)) \<and>
     dc_models (sn_channel s) \<noteq> [] \<and> list_all route_ok (dc_models (sn_channel s)) \<and>
     strictly_sorted_by mt_model (dc_models (sn_channel s)) \<and>
     0 \<le> dc_weight (sn_channel s) \<and>
     list_all (\<lambda>g. g \<noteq> [] \<and> g \<noteq> dc_group_key (sn_channel s) \<and> \<not> has_separator g) (dc_extra_group_keys (sn_channel s)) \<and>
     strictly_sorted_by id (dc_extra_group_keys (sn_channel s)) \<and>
     (dc_desired_status (sn_channel s) = DesiredEnabled \<or> dc_desired_status (sn_channel s) = DesiredDisabled)"
proof -
  have "list_all (\<lambda>g. g \<noteq> [] \<and> [] < g \<and> P g) gs = list_all (\<lambda>g. g \<noteq> [] \<and> P g) gs" for P and gs :: "string list"
    by (auto simp: list_all_iff nil_less)
  then show ?thesis
    by (auto simp: validate_single_def Let_def check_models_Inr check_extra_groups_Inr not_less not_le)
qed

lemma validate_site_Inr:
  "validate_site_snapshot L s = Inr () \<longleftrightarrow>
     sn_site_id s \<noteq> uuid_nil \<and> sn_resources s \<noteq> [] \<and>
     hex_string (sn_billing_basis_hash s) \<and> length (sn_billing_basis_hash s) = 64 \<and>
     list_all (\<lambda>g. valid_auto_group_key (dg_key g) \<and> \<not> has_separator (dg_key g) \<and> dg_display_name g \<noteq> []
       \<and> ratio_ok L (dg_sale_ratio g)) (sn_auto_groups s) \<and>
     distinct (map dg_key (sn_auto_groups s)) \<and>
     list_all (resource_ok L (sn_site_id s) (dg_key ` set (sn_auto_groups s))) (sn_resources s) \<and>
     list_all (\<lambda>r. uuid_string L (sn_relation_id r) \<noteq> []) (sn_resources s) \<and>
     distinct (map sn_relation_id (sn_resources s)) \<and> distinct (map (dc_id \<circ> sn_channel) (sn_resources s)) \<and>
     strictly_sorted_by (\<lambda>r. uuid_string L (sn_relation_id r)) (sn_resources s) \<and>
     sn_relation_id s = sn_relation_id (hd (sn_resources s)) \<and>
     sn_supplier_id s = sn_supplier_id (hd (sn_resources s)) \<and>
     set (sn_resume_relation_ids s) \<subseteq> sn_relation_id ` set (sn_resources s) \<and> distinct (sn_resume_relation_ids s) \<and>
     uuid_nil \<notin> set (sn_price_version_ids s) \<and> distinct (sn_price_version_ids s) \<and>
     list_all (\<lambda>r. sf_id r \<noteq> uuid_nil \<and> 1 \<le> sf_version r \<and> uuid_string L (sf_id r) \<noteq> []) (sn_strategy_versions s) \<and>
     strictly_sorted_by (\<lambda>r. uuid_string L (sf_id r)) (sn_strategy_versions s)"
proof -
  have conj: "list_all (\<lambda>r. P r \<and> Q r) xs \<longleftrightarrow> list_all P xs \<and> list_all Q xs" for P Q and xs :: "'x list"
    by (auto simp: list_all_iff)
  show ?thesis
    by (auto simp: validate_site_snapshot_def auto_group_loop resource_loop unique_loop strategy_loop nil_less conj
        list_all_iff subset_iff)
qed

section \<open>Built snapshots\<close>

text \<open>
  What \<open>Decimal.String\<close> documents: the text reads back as the same number, with no more
  decimal places than the number had.
\<close>

definition decimal_text_law :: "'d libs \<Rightarrow> 'd \<Rightarrow> bool" where
  "decimal_text_law L d \<longleftrightarrow>
     (\<exists>d'. dec_parse L (dec_string L d) = Some d' \<and> dec_value L d' = dec_value L d \<and>
        min 0 (dec_exponent L d) \<le> dec_exponent L d')"

lemma decimal_text_ratio:
  assumes "decimal_text_law L d" "0 < dec_value L d" "dec_value L d \<le> max_ratio" "- 6 \<le> dec_exponent L d"
  shows "ratio_in_range L (dec_string L d)"
  using assms by (auto simp: decimal_text_law_def ratio_in_range_def ratio_ok_def)

lemma supplier_routes:
  assumes "supplier_wf L su"
  defines "ms \<equiv> sort_key mt_model (map route_of (filter md_enabled (su_models su)))"
  shows "ms \<noteq> []" "list_all route_ok ms" "strictly_sorted_by mt_model ms"
proof -
  have wf: "list_all (model_wf L) (su_models su)" "su_models su \<noteq> []" "strictly_sorted_by md_name (su_models su)"
    using assms(1) by (simp_all add: supplier_wf_def)
  have en: "filter md_enabled (su_models su) = su_models su"
    using wf(1) by (auto simp: list_all_iff model_wf_def filter_id_conv)
  have "map mt_model (map route_of (su_models su)) = map md_name (su_models su)"
    by (simp add: route_of_def comp_def)
  then have "distinct (map mt_model (map route_of (su_models su)))"
    using wf(3) by (simp only: strictly_sorted_by_def strict_sorted_iff)
  then show "strictly_sorted_by mt_model ms" unfolding ms_def en by (rule sort_key_strict)
  show "ms \<noteq> []" unfolding ms_def en using wf(2) by (metis length_0_conv length_map length_sort)
  show "list_all route_ok ms"
    unfolding ms_def en using wf(1)
    by (auto simp: list_all_iff model_wf_def model_name_ok_def route_ok_def route_of_def)
qed

lemma snap_simps [simp]:
  "snap_site r = Inr x \<longleftrightarrow> r = Inr x" "snap_supplier q = Inr x \<longleftrightarrow> q = Inr x"
  by (cases r; auto simp: snap_site_def) (cases q; auto simp: snap_supplier_def)

lemma built_snapshot_checked:
  assumes site: "new_site L i scode sname surl scred t1 = Inr site"
    and supplier: "new_supplier L ui ucode uname uurl ucred inps t2 = Inr su"
    and relation: "new_relation L ri i ui display ratio visible t3 = Inr rel"
    and channel: "new_managed_channel L ci ri t4 = Inr ch"
    and ratio: "decimal_text_law L ratio"
  shows "\<exists>s. build_snapshot L site su rel ch = Inr s
    \<and> (validate_snapshot L s = Inr () \<longleftrightarrow> normalize_http_base_url L (su_base_url su) = Inr (su_base_url su))"
proof -
  note st = new_site_Inr [OF site]
  note wf = new_supplier_wf [OF supplier]
  note rl = new_relation_wf [OF relation]
  note mc = new_managed_channel_Inr [OF channel]
  note routes = supplier_routes [OF wf(1)]
  have id: "su_id su = ui" "su_credential_version su = 1"
    using supplier by (auto simp: new_supplier_Inr)
  let ?s = "Snapshot snapshot_schema_version (st_id site) (rl_id rel) (su_id su)
         \<lparr>dg_key = rl_group_key rel, dg_display_name = rl_group_display_name rel,
          dg_sale_ratio = dec_string L (rl_sale_ratio rel), dg_visible = rl_visible rel\<rparr>
         \<lparr>dc_id = mc_id ch, dc_managed_tag = mc_managed_tag ch, dc_name = su_name su @ '' [ManyRouter]'',
          dc_protocol = su_protocol su, dc_base_url = su_base_url su, dc_credential_id = su_credential_id su,
          dc_credential_version = su_credential_version su,
          dc_models = sort_key mt_model (map route_of (filter md_enabled (su_models su))), dc_group_key = rl_group_key rel,
          dc_extra_group_keys = [], dc_priority = 0, dc_weight = 100, dc_desired_status = DesiredEnabled\<rparr>
         [] [] [] [] [] []"
  have "build_snapshot L site su rel ch = Inr ?s"
    using st wf(2) rl mc id routes(1) by (simp add: build_snapshot_def Let_def)
  moreover have "validate_single L ?s = Inr () \<longleftrightarrow> normalize_http_base_url L (su_base_url su) = Inr (su_base_url su)"
    using st rl mc id wf(1) routes decimal_text_ratio [OF ratio]
    by (simp add: validate_single_Inr supplier_wf_def relation_wf_def)
  ultimately show ?thesis
    by (simp add: validate_snapshot_def snapshot_schema_version_def site_snapshot_schema_version_def)
qed

section \<open>Properties\<close>

text \<open>
  C36: What a checked site snapshot guarantees: its resources are checked snapshots of that site
  with pairwise different relations, channels, managed group keys and managed tags (when different
  identifiers have different texts, with and without hyphens), they reference only automatic groups
  of the snapshot, and resumed relations are among its own.
\<close>

theorem checked_site_snapshot:
  assumes "validate_snapshot L s = Inr ()" and "sn_schema_version s = site_snapshot_schema_version"
    and "inj (uuid_string L)" and "inj (group_key L)"
  shows "sn_resources s \<noteq> []
    \<and> list_all (\<lambda>r. validate_snapshot L r = Inr () \<and> sn_site_id r = sn_site_id s) (sn_resources s)
    \<and> distinct (map sn_relation_id (sn_resources s))
    \<and> distinct (map (dc_id \<circ> sn_channel) (sn_resources s))
    \<and> distinct (map (dg_key \<circ> sn_group) (sn_resources s))
    \<and> distinct (map (dc_managed_tag \<circ> sn_channel) (sn_resources s))
    \<and> list_all (\<lambda>r. set (dc_extra_group_keys (sn_channel r)) \<subseteq> dg_key ` set (sn_auto_groups s)) (sn_resources s)
    \<and> set (sn_resume_relation_ids s) \<subseteq> sn_relation_id ` set (sn_resources s)"
proof -
  have "validate_site_snapshot L s = Inr ()" using assms(1,2) by (simp add: validate_snapshot_def)
  note v = this [unfolded validate_site_Inr]
  let ?rs = "sn_resources s"
  have single: "validate_single L r = Inr ()" "sn_schema_version r = snapshot_schema_version" if "r \<in> set ?rs" for r
    using v that by (auto simp: list_all_iff resource_ok_def)
  then have keys: "map (dg_key \<circ> sn_group) ?rs = map (group_key L) (map sn_relation_id ?rs)"
    and tags: "map (dc_managed_tag \<circ> sn_channel) ?rs = map (managed_tag L) (map sn_relation_id ?rs)"
    by (auto simp: validate_single_Inr)
  have inj: "inj (managed_tag L)" using assms(3) by (auto simp: managed_tag_def inj_def)
  have "distinct (map sn_relation_id ?rs)" using v by blast
  then have "distinct (map (dg_key \<circ> sn_group) ?rs)" "distinct (map (dc_managed_tag \<circ> sn_channel) ?rs)"
    unfolding keys tags distinct_map [of "group_key L"] distinct_map [of "managed_tag L"]
    using assms(4) inj by (auto intro: inj_on_subset)
  moreover have "list_all (\<lambda>r. validate_snapshot L r = Inr () \<and> sn_site_id r = sn_site_id s) ?rs"
    using v single
    by (auto simp: list_all_iff resource_ok_def validate_snapshot_def snapshot_schema_version_def site_snapshot_schema_version_def)
  moreover have "list_all (\<lambda>r. set (dc_extra_group_keys (sn_channel r)) \<subseteq> dg_key ` set (sn_auto_groups s)) ?rs"
    using v by (auto simp: list_all_iff resource_ok_def)
  ultimately show ?thesis using v by blast
qed

text \<open>
  C35: From creation to snapshot: of a site, a supplier, a relation between them and its channel, all
  made by the constructors of the domain, a snapshot is always built, and it passes the check it goes
  through before it is stored exactly when the supplier's base URL is a fixed point of the base-URL
  normalisation: the constructors guarantee everything else (when the text of the ratio reads back as
  the ratio).
\<close>

theorem built_snapshot_validates:
  assumes "new_site L i scode sname surl scred t1 = Inr site"
    and "new_supplier L ui ucode uname uurl ucred inps t2 = Inr su"
    and "new_relation L ri i ui display ratio visible t3 = Inr rel"
    and "new_managed_channel L ci ri t4 = Inr ch"
    and "decimal_text_law L ratio"
  shows "\<exists>s. build_snapshot L site su rel ch = Inr s
    \<and> (validate_snapshot L s = Inr () \<longleftrightarrow> normalize_http_base_url L (su_base_url su) = Inr (su_base_url su))"
  by (rule built_snapshot_checked [OF assms])

text \<open>
  The group keys of a channel are its own group and its extra groups, in strictly increasing
  order whatever the order and the repetitions they were given in.
\<close>

theorem channel_group_keys_canonical:
  "sorted (channel_group_keys c) \<and> distinct (channel_group_keys c)
     \<and> set (channel_group_keys c) = insert (dc_group_key c) (set (dc_extra_group_keys c))"
proof -
  have "sorted (channel_group_keys c)"
    unfolding channel_group_keys_def by (rule sorted_remdups_adj) (rule sorted_sort)
  moreover have "distinct (channel_group_keys c)"
    unfolding channel_group_keys_def by (rule distinct_remdups_adj_sorted) (rule sorted_sort)
  moreover have "set (channel_group_keys c) = insert (dc_group_key c) (set (dc_extra_group_keys c))"
    unfolding channel_group_keys_def remdups_adj_set set_sort by simp
  ultimately show ?thesis by blast
qed

section \<open>Witnesses\<close>

definition sample_site :: "site_error + site" where
  "sample_site = new_site sample_libs 3 ''site-a'' ''Site'' ''https://h/x'' 4 time_zero"

lemma sample_values:
  "normalize_code ''site-a'' = Inr ''site-a''" "normalize_name ''Site'' 120 = Inr ''Site''"
  "trim_space ''https://h/x'' = ''https://h/x''" "normalize_code ''supplier-a'' = Inr ''supplier-a''"
  "normalize_name ''Supplier'' 120 = Inr ''Supplier''"
  by code_simp+

lemma sample_base_url:
  "normalize_http_base_url sample_libs ''https://h/x'' = Inr ''https://h/x''"
  "normalize_openai_base_url sample_libs ''https://h/x'' = Inr ''https://h/x''"
  by (simp_all add: normalize_openai_base_url_def normalize_http_base_url_def sample_values(3) Let_def sample_libs_def
      parse_https_def print_https_def empty_url_def trim_right_char_def has_suffix_def)

lemma sample_decimal: "decimal_text_law sample_libs 1"
  by (simp add: decimal_text_law_def sample_libs_def)

text \<open>The parts of a sample deployment.\<close>

lemma sample_parts:
  obtains site su rel ch where "sample_site = Inr site"
    "sample_supplier [sample_model_input ''b'', sample_model_input ''a''] = Inr su"
    "new_relation sample_libs 5 3 1 ''Site'' 1 True time_zero = Inr rel"
    "new_managed_channel sample_libs 6 5 time_zero = Inr ch"
    "normalize_http_base_url sample_libs (su_base_url su) = Inr (su_base_url su)"
proof -
  obtain su where su: "sample_supplier [sample_model_input ''b'', sample_model_input ''a''] = Inr su"
    using sample_supplier_made by blast
  moreover have "\<exists>site. sample_site = Inr site"
    by (simp add: sample_site_def new_site_def sample_values sample_base_url)
  moreover have "\<exists>rel. new_relation sample_libs 5 3 1 ''Site'' 1 True time_zero = Inr rel"
    by (simp add: new_relation_def sample_values sample_libs_def max_ratio_def)
  moreover have "\<exists>ch. new_managed_channel sample_libs 6 5 time_zero = Inr ch"
    by (simp add: new_managed_channel_def)
  moreover have "su_base_url su = ''https://h/x''"
    using su by (auto simp: sample_supplier_def new_supplier_Inr sample_base_url)
  ultimately show ?thesis using that sample_base_url by auto
qed

theorem built_snapshot_validates_witness:
  "\<exists>site su rel ch s. sample_site = Inr site \<and> build_snapshot sample_libs site su rel ch = Inr s
     \<and> validate_snapshot sample_libs s = Inr ()"
proof -
  obtain site su rel ch where p: "sample_site = Inr site"
    "sample_supplier [sample_model_input ''b'', sample_model_input ''a''] = Inr su"
    "new_relation sample_libs 5 3 1 ''Site'' 1 True time_zero = Inr rel"
    "new_managed_channel sample_libs 6 5 time_zero = Inr ch"
    "normalize_http_base_url sample_libs (su_base_url su) = Inr (su_base_url su)"
    by (rule sample_parts)
  then show ?thesis
    using built_snapshot_validates [OF p(1) [unfolded sample_site_def] p(2) [unfolded sample_supplier_def] p(3,4) sample_decimal] p(5)
    by blast
qed

text \<open>A site snapshot with one resource.\<close>

definition site_snapshot_of :: "snapshot \<Rightarrow> snapshot" where
  "site_snapshot_of r = Snapshot site_snapshot_schema_version (sn_site_id r) (sn_relation_id r) (sn_supplier_id r)
     (sn_group r) (sn_channel r) [r] [] [] (replicate 64 (CHR ''1'')) [] []"

lemma uuid_bits_binary: "filter (\<lambda>c. c \<noteq> CHR ''-'') (uuid_bits u) = uuid_bits u"
  by (auto simp: uuid_bits_def filter_id_conv simp del: upt.simps)

lemma sample_keys: "inj (uuid_string sample_libs)" "inj (group_key sample_libs)" "uuid_string sample_libs u \<noteq> []"
proof -
  show "inj (uuid_string sample_libs)" by (simp add: sample_libs_def inj_uuid_bits)
  then show "inj (group_key sample_libs)"
    by (simp add: inj_def group_key_def sample_libs_def uuid_bits_binary)
  show "uuid_string sample_libs u \<noteq> []" by (simp add: sample_libs_def uuid_bits_def)
qed

lemma site_snapshot_of_valid:
  assumes "validate_snapshot sample_libs r = Inr ()" "sn_schema_version r = snapshot_schema_version"
    "dc_extra_group_keys (sn_channel r) = []"
  shows "validate_snapshot sample_libs (site_snapshot_of r) = Inr ()"
proof -
  have "validate_single sample_libs r = Inr ()"
    using assms by (simp add: validate_snapshot_def snapshot_schema_version_def site_snapshot_schema_version_def)
  moreover from this have "sn_site_id r \<noteq> uuid_nil" by (simp add: validate_single_Inr)
  ultimately have "validate_site_snapshot sample_libs (site_snapshot_of r) = Inr ()"
    using assms(2,3) sample_keys(3)
    by (simp add: validate_site_Inr site_snapshot_of_def resource_ok_def hex_string_def hex_digit_def list_all_iff less_eq_char_def)
  then show ?thesis by (simp add: validate_snapshot_def site_snapshot_of_def)
qed

lemma sample_snapshot:
  obtains r where "validate_snapshot sample_libs r = Inr ()" "sn_schema_version r = snapshot_schema_version"
    "dc_extra_group_keys (sn_channel r) = []"
proof -
  obtain site su rel ch where p: "sample_site = Inr site"
    "sample_supplier [sample_model_input ''b'', sample_model_input ''a''] = Inr su"
    "new_relation sample_libs 5 3 1 ''Site'' 1 True time_zero = Inr rel"
    "new_managed_channel sample_libs 6 5 time_zero = Inr ch"
    "normalize_http_base_url sample_libs (su_base_url su) = Inr (su_base_url su)"
    by (rule sample_parts)
  obtain s where s: "build_snapshot sample_libs site su rel ch = Inr s" "validate_snapshot sample_libs s = Inr ()"
    using built_snapshot_checked [OF p(1) [unfolded sample_site_def] p(2) [unfolded sample_supplier_def] p(3,4) sample_decimal] p(5)
    by blast
  from s(1) have "sn_schema_version s = snapshot_schema_version" "dc_extra_group_keys (sn_channel s) = []"
    by (auto simp: build_snapshot_def Let_def split: if_splits)
  with s(2) that show ?thesis by blast
qed

theorem checked_site_snapshot_witness:
  "\<exists>s. validate_snapshot sample_libs s = Inr () \<and> distinct (map sn_relation_id (sn_resources s)) \<and> sn_resources s \<noteq> []"
proof -
  obtain r where r: "validate_snapshot sample_libs r = Inr ()" "sn_schema_version r = snapshot_schema_version"
    "dc_extra_group_keys (sn_channel r) = []"
    by (rule sample_snapshot)
  have v: "validate_snapshot sample_libs (site_snapshot_of r) = Inr ()" by (rule site_snapshot_of_valid [OF r])
  have "sn_schema_version (site_snapshot_of r) = site_snapshot_schema_version" by (simp add: site_snapshot_of_def)
  from checked_site_snapshot [OF v this sample_keys(1,2)] v show ?thesis by blast
qed

end
