(* ===== verification/Gateway.thy ===== *)
theory Gateway imports Snapshots "HOL-Library.AList" begin

text \<open>
  \<open>internal/application/reconciliation/gateway.go\<close> and \<open>operation.go\<close>: the data a
  synchronisation works on - what the gateway (New API) reports, the operation and its resources,
  failures - and the errors Go code passes around.

  Texts of messages, causes and the payloads of the step log are not modelled: a failure is its
  kind and its code.
\<close>

section \<open>Failures and errors\<close>

datatype failure_kind = FailureConfiguration | FailureAuthentication | FailureCompatibility
  | FailureRetryable | FailureUncertain | FailureOwnership | FailureManualLock

record failure =
  fl_kind :: failure_kind
  fl_code :: string

definition fail :: "failure_kind \<Rightarrow> string \<Rightarrow> failure" where
  "fail k c = \<lparr>fl_kind = k, fl_code = c\<rparr>"

text \<open>A Go \<open>error\<close>: a \<open>*Failure\<close>, an error that wraps another one
  (\<open>fmt.Errorf\<close> with \<open>%w\<close>), errors joined by \<open>errors.Join\<close>, or any other
  one.\<close>

datatype go_error = ErrFailure failure | ErrWrap string go_error | ErrJoin "go_error list" | ErrPlain string

text \<open>\<open>errors.As(err, &failure)\<close>: the first failure of the tree, depth first.\<close>

fun as_failure :: "go_error \<Rightarrow> failure option" and as_failure_list :: "go_error list \<Rightarrow> failure option" where
  "as_failure (ErrFailure f) = Some f"
| "as_failure (ErrWrap m e) = as_failure e"
| "as_failure (ErrJoin es) = as_failure_list es"
| "as_failure (ErrPlain m) = None"
| "as_failure_list [] = None"
| "as_failure_list (e # es) = (case as_failure e of Some f \<Rightarrow> Some f | None \<Rightarrow> as_failure_list es)"

section \<open>What the gateway reports\<close>

datatype channel_status = ChannelEnabled | ChannelManuallyDisabled | ChannelAutoDisabled | ChannelUnknown
  | ChannelStatusOther string

text \<open>A Go \<open>map[string]string\<close>: an association list with one entry per key, in the
  (arbitrary) order in which a \<open>range\<close> visits it.\<close>

type_synonym string_map = "(string \<times> string) list"

definition map_wf :: "string_map \<Rightarrow> bool" where
  "map_wf m \<longleftrightarrow> distinct (map fst m)"

text \<open>\<open>m[k]\<close> on a Go map: the zero value where the key is missing.\<close>

definition go_get :: "string_map \<Rightarrow> string \<Rightarrow> string" where
  "go_get m k = (case map_of m k of None \<Rightarrow> [] | Some v \<Rightarrow> v)"

record actual_channel =
  ac_id :: int
  ac_managed_tag :: string
  ac_name :: string
  ac_protocol :: string
  ac_base_url :: string
  ac_models :: "string list"
  ac_model_mapping :: string_map
  ac_groups :: "string list"
  ac_priority :: int
  ac_weight :: int
  ac_status :: channel_status
  ac_credential_version :: int

record actual_state =
  as_version :: string
  as_group_ratios :: string_map
  as_user_usable_groups :: string_map
  as_channels :: "actual_channel list"

record status_code_range =
  sc_start :: int
  sc_end :: int

record retry_policy =
  rp_retry_times :: int
  rp_status_codes :: "status_code_range list"

definition allows_status :: "retry_policy \<Rightarrow> int \<Rightarrow> bool" where
  "allows_status p code \<longleftrightarrow> list_ex (\<lambda>r. sc_start r \<le> code \<and> code \<le> sc_end r) (rp_status_codes p)"

section \<open>Managed synchronisation\<close>

definition managed_sync_contract_version :: string where
  "managed_sync_contract_version = ''m4-managed-sync-v1''"

record managed_sync_features =
  mf_atomic_apply :: bool
  mf_managed_channels :: bool
  mf_multiple_groups :: bool
  mf_group_ratios :: bool
  mf_entry_visibility :: bool
  mf_persistent_idempotency :: bool
  mf_final_state_digest :: bool
  mf_log_read :: bool

record managed_sync_limits =
  ml_max_channels :: int
  ml_max_groups :: int
  ml_max_models :: int
  ml_max_group_key_bytes :: int
  ml_max_request_bytes :: int

record managed_sync_capabilities =
  mcap_contract_version :: string
  mcap_new_api_version :: string
  mcap_database_type :: string
  mcap_features :: managed_sync_features
  mcap_limits :: managed_sync_limits
  mcap_retry_policy :: retry_policy
  mcap_billing_basis :: string_map
  mcap_billing_basis_hash :: string

record managed_sync_state =
  mss_state_hash :: string
  mss_billing_basis_hash :: string
  mss_actual :: actual_state
  mss_conflicts :: "string list"

record managed_sync_channel =
  msc_desired :: desired_channel
  msc_api_key :: "8 word list option"
  msc_resume :: bool

record managed_sync_request =
  msr_operation_id :: uuid
  msr_route_plan_version :: int
  msr_expected_state_hash :: string
  msr_channels :: "managed_sync_channel list"
  msr_groups :: "desired_group list"

record managed_sync_action =
  msa_resource :: string
  msa_key :: string
  msa_action :: string
  msa_channel_id :: int

record managed_sync_result =
  msx_replayed :: bool
  msx_actions :: "managed_sync_action list"
  msx_state :: managed_sync_state

section \<open>Operations\<close>

datatype operation_status = OperationPending | OperationRunning | OperationUncertain | OperationSucceeded
  | OperationRetryableFailed | OperationManualRequired | OperationSuperseded | OperationOther string

record operation =
  op_id :: uuid
  op_site_id :: uuid
  op_relation_id :: uuid
  op_route_plan_id :: uuid
  op_status :: operation_status
  op_attempt :: int

record resource_bundle =
  rb_snapshot :: snapshot
  rb_managed_channel :: managed_channel
  rb_supplier_credential :: credential_record
  rb_credential_available :: bool

record sync_bundle =
  bn_operation :: operation
  bn_site :: site
  bn_plan :: plan
  bn_managed_channel :: managed_channel
  bn_admin_credential :: credential_record
  bn_supplier_credential :: credential_record
  bn_current_plan_id :: uuid
  bn_resources :: "resource_bundle list"

record resource_confirmation =
  rc_resource :: resource_bundle
  rc_external_channel_id :: "int option"
  rc_credential_applied :: bool

datatype step_status = StepRunning | StepSucceeded | StepFailed | StepUncertain

record step_record =
  sr_operation_id :: uuid
  sr_key :: string
  sr_status :: step_status
  sr_error_code :: string
  sr_started_at :: instant
  sr_finished_at :: "instant option"

record failure_record =
  fr_operation_id :: uuid
  fr_site_id :: uuid
  fr_relation_id :: uuid
  fr_route_plan_id :: uuid
  fr_kind :: failure_kind
  fr_step :: string
  fr_code :: string
  fr_next_attempt_at :: "instant option"
  fr_occurred_at :: instant

text \<open>The statuses on which a synchronisation stops before doing anything.\<close>

definition operation_settled :: "operation_status \<Rightarrow> bool" where
  "operation_settled st \<longleftrightarrow> st = OperationSucceeded \<or> st = OperationManualRequired \<or> st = OperationSuperseded"

end
