(* ===== verification/Programs.thy ===== *)
theory Programs imports Prelude begin

text \<open>
  Operations with side effects: functions over an abstract world and the trace of the calls they
  made.

  The world \<open>'w\<close> stands for the database, the gateway and the clock; every call the
  service makes on them is a function of the service's environment, so a statement
  about all environments and worlds covers every reply, error and interleaving with other actors.
  A call adds an event of the service's type \<open>'ev\<close> with its arguments and its reply to the
  trace (newest first); the trace is what the properties speak about, the program never reads it.

  \<open>safe\<close> states what holds of outcome and trace in every environment; \<open>only\<close> says
  which events a program can add.  Both come with one rule per construct.
\<close>

section \<open>Programs\<close>

text \<open>How a statement ends: with a value for the next one, with an early \<open>return\<close> from
  the function, or with a panic.\<close>

datatype ('r, 'a) outcome = Value 'a | Returned 'r | Panicked

type_synonym ('ev, 'w, 'r, 'a) action = "'w \<Rightarrow> 'ev list \<Rightarrow> ('r, 'a) outcome \<times> 'w \<times> 'ev list"

definition ret :: "'a \<Rightarrow> ('ev, 'w, 'r, 'a) action" where
  "ret a = (\<lambda>w t. (Value a, w, t))"

definition exit :: "'r \<Rightarrow> ('ev, 'w, 'r, 'a) action" where
  "exit r = (\<lambda>w t. (Returned r, w, t))"

definition panic :: "('ev, 'w, 'r, 'a) action" where
  "panic = (\<lambda>w t. (Panicked, w, t))"

definition bindP :: "('ev, 'w, 'r, 'a) action \<Rightarrow> ('a \<Rightarrow> ('ev, 'w, 'r, 'b) action) \<Rightarrow> ('ev, 'w, 'r, 'b) action" where
  "bindP m f = (\<lambda>w t. case m w t of
     (Value a, w', t') \<Rightarrow> f a w' t'
   | (Returned r, w', t') \<Rightarrow> (Returned r, w', t')
   | (Panicked, w', t') \<Rightarrow> (Panicked, w', t'))"

text \<open>A call that leaves an event, and one (of the clock) that leaves none.\<close>

definition observed :: "('x \<Rightarrow> 'ev) \<Rightarrow> ('w \<Rightarrow> 'x \<times> 'w) \<Rightarrow> ('ev, 'w, 'r, 'x) action" where
  "observed ev f = (\<lambda>w t. case f w of (x, w') \<Rightarrow> (Value x, w', ev x # t))"

definition silent :: "('w \<Rightarrow> 'x \<times> 'w) \<Rightarrow> ('ev, 'w, 'r, 'x) action" where
  "silent f = (\<lambda>w t. case f w of (x, w') \<Rightarrow> (Value x, w', t))"

text \<open>Calling a function of the program: its body ends with the value it returns.\<close>

definition invoke :: "('ev, 'w, 'x, 'x) action \<Rightarrow> ('ev, 'w, 'r, 'x) action" where
  "invoke m = (\<lambda>w t. case m w t of
     (Value x, w', t') \<Rightarrow> (Value x, w', t')
   | (Returned x, w', t') \<Rightarrow> (Value x, w', t')
   | (Panicked, w', t') \<Rightarrow> (Panicked, w', t'))"

text \<open>\<open>if err := m; err != nil { return h(err) }\<close>, for calls without and with a result.\<close>

definition try_call :: "('ev, 'w, 'r, 'err option) action \<Rightarrow> ('err \<Rightarrow> ('ev, 'w, 'r, 'r) action) \<Rightarrow> ('ev, 'w, 'r, unit) action" where
  "try_call m h = bindP m (\<lambda>r. case r of None \<Rightarrow> ret () | Some e \<Rightarrow> bindP (h e) exit)"

definition try_value :: "('ev, 'w, 'r, 'err + 'x) action \<Rightarrow> ('err \<Rightarrow> ('ev, 'w, 'r, 'r) action) \<Rightarrow> ('ev, 'w, 'r, 'x) action" where
  "try_value m h = bindP m (\<lambda>r. case r of Inr x \<Rightarrow> ret x | Inl e \<Rightarrow> bindP (h e) exit)"

text \<open>\<open>defer\<close>: \<open>g\<close> runs when the function ends, also by a panic, and may change the
  error it returns.\<close>

definition deferred :: "('ev, 'w, 'r, 'r) action \<Rightarrow> ('ev, 'w, 'r, 'err option) action \<Rightarrow> ('r \<Rightarrow> 'err \<Rightarrow> 'r) \<Rightarrow> ('ev, 'w, 'r, 'r) action" where
  "deferred m g join = (\<lambda>w t. case m w t of
     (Value x, w', t') \<Rightarrow> bindP g (\<lambda>e. ret (case e of None \<Rightarrow> x | Some err \<Rightarrow> join x err)) w' t'
   | (Returned x, w', t') \<Rightarrow> bindP g (\<lambda>e. ret (case e of None \<Rightarrow> x | Some err \<Rightarrow> join x err)) w' t'
   | (Panicked, w', t') \<Rightarrow> bindP g (\<lambda>e. panic) w' t')"

text \<open>\<open>now().UTC()\<close>.\<close>

definition now_utc :: "('w \<Rightarrow> instant \<times> 'w) \<Rightarrow> ('ev, 'w, 'r, instant) action" where
  "now_utc f = bindP (silent f) (\<lambda>x. ret (to_utc x))"

lemmas prog_defs = ret_def exit_def panic_def bindP_def observed_def silent_def invoke_def try_call_def try_value_def
  deferred_def now_utc_def

section \<open>What holds in every environment\<close>

definition safe :: "('ev, 'w, 'r, 'a) action \<Rightarrow> 'ev list \<Rightarrow> (('r, 'a) outcome \<Rightarrow> 'ev list \<Rightarrow> bool) \<Rightarrow> bool" where
  "safe m t Q \<longleftrightarrow> (\<forall>w. case m w t of (out, w', t') \<Rightarrow> Q out t')"

lemma safeD: "safe m t Q \<Longrightarrow> m w t = (out, w', t') \<Longrightarrow> Q out t'"
  unfolding safe_def by (metis case_prod_conv)

lemma safeI: "(\<And>w out w' t'. m w t = (out, w', t') \<Longrightarrow> Q out t') \<Longrightarrow> safe m t Q"
  unfolding safe_def by auto

lemma safe_mono: "safe m t Q \<Longrightarrow> (\<And>out t'. Q out t' \<Longrightarrow> Q' out t') \<Longrightarrow> safe m t Q'"
  by (blast intro: safeI dest: safeD)

lemma safe_conj: "safe m t P \<Longrightarrow> safe m t Q \<Longrightarrow> safe m t (\<lambda>out t'. P out t' \<and> Q out t')"
  by (blast intro: safeI dest: safeD)

lemma safe_ret [simp]: "safe (ret a) t Q \<longleftrightarrow> Q (Value a) t"
  by (simp add: safe_def ret_def)

lemma safe_exit [simp]: "safe (exit r) t Q \<longleftrightarrow> Q (Returned r) t"
  by (simp add: safe_def exit_def)

lemma safe_panic [simp]: "safe panic t Q \<longleftrightarrow> Q Panicked t"
  by (simp add: safe_def panic_def)

text \<open>What is left to show when the first of two statements has ended.\<close>

fun continue_with :: "('a \<Rightarrow> ('ev, 'w, 'r, 'b) action) \<Rightarrow> (('r, 'b) outcome \<Rightarrow> 'ev list \<Rightarrow> bool)
    \<Rightarrow> ('r, 'a) outcome \<Rightarrow> 'ev list \<Rightarrow> bool" where
  "continue_with f Q (Value a) t = safe (f a) t Q"
| "continue_with f Q (Returned r) t = Q (Returned r) t"
| "continue_with f Q Panicked t = Q Panicked t"

lemma safe_bind: "safe m t (continue_with f Q) \<Longrightarrow> safe (bindP m f) t Q"
proof (rule safeI)
  fix w out w' t'
  assume s: "safe m t (continue_with f Q)" and e: "bindP m f w t = (out, w', t')"
  obtain o1 w1 t1 where m: "m w t = (o1, w1, t1)" by (cases "m w t")
  have c: "continue_with f Q o1 t1" by (rule safeD [OF s m])
  show "Q out t'"
  proof (cases o1)
    case (Value a)
    then have "safe (f a) t1 Q" "f a w1 t1 = (out, w', t')" using c e m by (simp_all add: bindP_def)
    then show ?thesis by (rule safeD)
  qed (use c e m in \<open>simp_all add: bindP_def\<close>)
qed

lemma bindP_assoc: "bindP (bindP m f) g = bindP m (\<lambda>a. bindP (f a) g)"
  by (simp add: bindP_def fun_eq_iff split: prod.splits outcome.splits)

lemma bindP_ret: "bindP (ret a) f = f a"
  by (simp add: bindP_def ret_def)

lemma bindP_exit: "bindP (exit r) f = exit r"
  by (simp add: bindP_def exit_def)

lemma bindP_try_value:
  "bindP (try_value m h) f = bindP m (\<lambda>r. case r of Inr x \<Rightarrow> f x | Inl e \<Rightarrow> bindP (h e) exit)"
  unfolding try_value_def bindP_assoc by (rule arg_cong [of _ _ "bindP m"]) (auto simp: bindP_ret bindP_assoc bindP_exit fun_eq_iff split: sum.split)

lemma bindP_try_call:
  "bindP (try_call m h) f = bindP m (\<lambda>r. case r of None \<Rightarrow> f () | Some e \<Rightarrow> bindP (h e) exit)"
  unfolding try_call_def bindP_assoc by (rule arg_cong [of _ _ "bindP m"]) (auto simp: bindP_ret bindP_assoc bindP_exit fun_eq_iff split: option.split)

lemma safe_seq:
  assumes "safe m t P"
    and "\<And>a t'. P (Value a) t' \<Longrightarrow> safe (f a) t' Q"
    and "\<And>r t'. P (Returned r) t' \<Longrightarrow> Q (Returned r) t'"
    and "\<And>t'. P Panicked t' \<Longrightarrow> Q Panicked t'"
  shows "safe (bindP m f) t Q"
proof (rule safe_bind, rule safe_mono [OF assms(1)])
  fix out t'
  assume "P out t'"
  then show "continue_with f Q out t'" using assms(2-4) by (cases out) auto
qed

lemma safe_observed: "(\<And>x. Q (Value x) (ev x # t)) \<Longrightarrow> safe (observed ev f) t Q"
  by (auto simp: safe_def observed_def split: prod.splits)

lemma safe_silent: "(\<And>x. Q (Value x) t) \<Longrightarrow> safe (silent f) t Q"
  by (auto simp: safe_def silent_def split: prod.splits)

fun as_value :: "(('r, 'x) outcome \<Rightarrow> 'ev list \<Rightarrow> bool) \<Rightarrow> ('x, 'x) outcome \<Rightarrow> 'ev list \<Rightarrow> bool" where
  "as_value Q (Value a) t = Q (Value a) t"
| "as_value Q (Returned a) t = Q (Value a) t"
| "as_value Q Panicked t = Q Panicked t"

lemma safe_invoke:
  fixes Q :: "('r, 'x) outcome \<Rightarrow> 'ev list \<Rightarrow> bool"
  assumes s: "safe m t (as_value Q)"
  shows "safe (invoke m) t Q"
proof (rule safeI)
  fix w w' t' and out :: "('r, 'x) outcome"
  assume e: "invoke m w t = (out, w', t')"
  obtain o1 w1 t1 where m: "m w t = (o1, w1, t1)" by (cases "m w t")
  have "as_value Q o1 t1" by (rule safeD [OF s m])
  then show "Q out t'" using e m by (cases o1) (auto simp: invoke_def)
qed

lemma safe_now_utc: "(\<And>x. Q (Value x) t) \<Longrightarrow> safe (now_utc f) t Q"
  unfolding now_utc_def by (rule safe_bind, rule safe_silent) simp

lemma safe_try_call:
  assumes "safe m t (continue_with (\<lambda>r. case r of None \<Rightarrow> ret () | Some e \<Rightarrow> bindP (h e) exit) Q)"
  shows "safe (try_call m h) t Q"
  unfolding try_call_def by (rule safe_bind [OF assms])

lemma safe_try_value:
  assumes "safe m t (continue_with (\<lambda>r. case r of Inr x \<Rightarrow> ret x | Inl e \<Rightarrow> bindP (h e) exit) Q)"
  shows "safe (try_value m h) t Q"
  unfolding try_value_def by (rule safe_bind [OF assms])

section \<open>Which events a program can add\<close>

definition only :: "('ev \<Rightarrow> bool) \<Rightarrow> ('ev, 'w, 'r, 'a) action \<Rightarrow> bool" where
  "only p m \<longleftrightarrow> (\<forall>t. safe m t (\<lambda>_ t'. \<exists>d. t' = d @ t \<and> list_all p d))"

named_theorems only_rules \<open>one rule per construct, for the events a program can add\<close>

lemma only_safe: "only p m \<Longrightarrow> safe m t (\<lambda>_ t'. \<exists>d. t' = d @ t \<and> list_all p d)"
  by (simp add: only_def)

lemma only_mono: "only p m \<Longrightarrow> (\<And>e. p e \<Longrightarrow> q e) \<Longrightarrow> only q m"
  unfolding only_def by (fastforce elim!: safe_mono simp: list_all_iff)

lemma only_ret [only_rules]: "only p (ret a)"
  by (simp add: only_def)

lemma only_exit [only_rules]: "only p (exit r)"
  by (simp add: only_def)

lemma only_panic [only_rules]: "only p panic"
  by (simp add: only_def)

lemma only_observed [only_rules]: "(\<And>x. p (ev x)) \<Longrightarrow> only p (observed ev f)"
  by (simp add: only_def safe_observed)

lemma only_silent [only_rules]: "only p (silent f)"
  by (simp add: only_def safe_silent)

lemma only_extend: "only p m \<Longrightarrow> list_all p d \<Longrightarrow> safe m (d @ t) (\<lambda>_ t'. \<exists>e. t' = e @ t \<and> list_all p e)"
  unfolding only_def by (drule spec [of _ "d @ t"], erule safe_mono) (fastforce simp: list_all_iff)

lemma only_bind [only_rules]:
  assumes "only p m" "\<And>a. only p (f a)"
  shows "only p (bindP m f)"
  unfolding only_def
proof
  fix t
  have "continue_with f (\<lambda>_ t'. \<exists>d. t' = d @ t \<and> list_all p d) out t'" if "\<exists>d. t' = d @ t \<and> list_all p d" for out t'
    using that only_extend [OF assms(2)] by (cases out) auto
  then show "safe (bindP m f) t (\<lambda>_ t'. \<exists>d. t' = d @ t \<and> list_all p d)"
    using assms(1) by (blast intro: safe_bind safe_mono only_safe)
qed

lemma only_invoke [only_rules]: "only p m \<Longrightarrow> only p (invoke m)"
  unfolding only_def
proof (intro allI safe_invoke)
  fix t
  assume "\<forall>t. safe m t (\<lambda>_ t'. \<exists>d. t' = d @ t \<and> list_all p d)"
  then have "safe m t (\<lambda>_ t'. \<exists>d. t' = d @ t \<and> list_all p d)" ..
  then show "safe m t (as_value (\<lambda>_ t'. \<exists>d. t' = d @ t \<and> list_all p d))"
  proof (rule safe_mono)
    fix out :: "('c, 'c) outcome" and t'
    assume "\<exists>d. t' = d @ t \<and> list_all p d"
    then show "as_value (\<lambda>_ t'. \<exists>d. t' = d @ t \<and> list_all p d) out t'" by (cases out) simp_all
  qed
qed

lemma only_now_utc [only_rules]: "only p (now_utc f)"
  by (simp add: only_def safe_now_utc)

lemma only_if [only_rules]: "(b \<Longrightarrow> only p m) \<Longrightarrow> (\<not> b \<Longrightarrow> only p n) \<Longrightarrow> only p (if b then m else n)"
  by simp

lemma only_case_option [only_rules]:
  "only p m \<Longrightarrow> (\<And>x. only p (f x)) \<Longrightarrow> only p (case r of None \<Rightarrow> m | Some x \<Rightarrow> f x)"
  by (cases r) auto

lemma only_case_sum [only_rules]:
  "(\<And>x. only p (f x)) \<Longrightarrow> (\<And>x. only p (g x)) \<Longrightarrow> only p (case r of Inl x \<Rightarrow> f x | Inr x \<Rightarrow> g x)"
  by (cases r) auto

lemma only_case_prod [only_rules]: "(\<And>x y. only p (f x y)) \<Longrightarrow> only p (case r of (x, y) \<Rightarrow> f x y)"
  by (cases r) auto

lemma only_case_list [only_rules]:
  "only p m \<Longrightarrow> (\<And>x xs. only p (f x xs)) \<Longrightarrow> only p (case r of [] \<Rightarrow> m | x # xs \<Rightarrow> f x xs)"
  by (cases r) auto

lemma only_let [only_rules]: "only p (f a) \<Longrightarrow> only p (let x = a in f x)"
  by simp

lemma only_try_call [only_rules]: "only p m \<Longrightarrow> (\<And>e. only p (h e)) \<Longrightarrow> only p (try_call m h)"
  unfolding try_call_def by (intro only_rules)

lemma only_try_value [only_rules]: "only p m \<Longrightarrow> (\<And>e. only p (h e)) \<Longrightarrow> only p (try_value m h)"
  unfolding try_value_def by (intro only_rules)

lemma safe_only:
  assumes "only p m" "\<And>out d. list_all p d \<Longrightarrow> Q out (d @ t)"
  shows "safe m t Q"
  by (rule safe_mono [OF only_safe [OF assms(1)]]) (use assms(2) in blast)

lemma safe_after:
  assumes "only p m" "\<And>a d. list_all p d \<Longrightarrow> safe (f a) (d @ t) Q"
    and "\<And>r d. list_all p d \<Longrightarrow> Q (Returned r) (d @ t)" "\<And>d. list_all p d \<Longrightarrow> Q Panicked (d @ t)"
  shows "safe (bindP m f) t Q"
  by (rule safe_seq [OF only_safe [OF assms(1)]]) (use assms(2-4) in blast)+

lemma safe_try_value_seq:
  assumes "safe m t P"
    and "\<And>x t'. P (Value (Inr x)) t' \<Longrightarrow> Q (Value x) t'"
    and "\<And>e t'. P (Value (Inl e)) t' \<Longrightarrow> safe (bindP (h e) exit) t' Q"
    and "\<And>r t'. P (Returned r) t' \<Longrightarrow> Q (Returned r) t'"
    and "\<And>t'. P Panicked t' \<Longrightarrow> Q Panicked t'"
  shows "safe (try_value m h) t Q"
  unfolding try_value_def
  by (rule safe_seq [OF assms(1)]) (auto split: sum.splits intro: assms(2-5))

section \<open>How many events of a kind a program can add\<close>

definition adds_at_most :: "('ev \<Rightarrow> bool) \<Rightarrow> nat \<Rightarrow> ('ev, 'w, 'r, 'a) action \<Rightarrow> bool" where
  "adds_at_most p n m \<longleftrightarrow> (\<forall>t. safe m t (\<lambda>_ t'. \<exists>d. t' = d @ t \<and> length (filter p d) \<le> n))"

lemma adds_ret: "adds_at_most p n (ret a)" and adds_exit: "adds_at_most p n (exit r)" and adds_panic: "adds_at_most p n panic"
  by (simp_all add: adds_at_most_def)

lemma adds_observed: "adds_at_most p (Suc n) (observed ev f)"
  by (simp add: adds_at_most_def safe_observed)

lemma adds_mono: "adds_at_most p n m \<Longrightarrow> n \<le> k \<Longrightarrow> adds_at_most p k m"
  unfolding adds_at_most_def by (fastforce elim!: safe_mono)

lemma adds_other: "only (\<lambda>e. \<not> p e) m \<Longrightarrow> adds_at_most p n m"
proof -
  assume m: "only (\<lambda>e. \<not> p e) m"
  have "filter p d = []" if "list_all (\<lambda>e. \<not> p e) d" for d using that by (induction d) auto
  then show ?thesis unfolding adds_at_most_def by (auto intro!: safe_only [OF m])
qed

lemma adds_extend:
  "adds_at_most p n m \<Longrightarrow> length (filter p d) \<le> k \<Longrightarrow>
     safe m (d @ t) (\<lambda>_ t'. \<exists>e. t' = e @ t \<and> length (filter p e) \<le> k + n)"
  unfolding adds_at_most_def by (drule spec [of _ "d @ t"], erule safe_mono) fastforce

lemma adds_bind:
  assumes "adds_at_most p k m" "\<And>a. adds_at_most p n (f a)" "k + n \<le> j"
  shows "adds_at_most p j (bindP m f)"
proof (rule adds_mono [OF _ assms(3)], unfold adds_at_most_def, rule allI)
  fix t
  show "safe (bindP m f) t (\<lambda>_ t'. \<exists>d. t' = d @ t \<and> length (filter p d) \<le> k + n)"
    by (rule safe_seq [OF spec [OF assms(1) [unfolded adds_at_most_def]]])
      (auto intro: adds_extend [OF assms(2)])
qed

lemma adds_invoke: "adds_at_most p n m \<Longrightarrow> adds_at_most p n (invoke m)"
  unfolding adds_at_most_def
proof (intro allI safe_invoke)
  fix t
  assume "\<forall>t. safe m t (\<lambda>_ t'. \<exists>d. t' = d @ t \<and> length (filter p d) \<le> n)"
  then have "safe m t (\<lambda>_ t'. \<exists>d. t' = d @ t \<and> length (filter p d) \<le> n)" ..
  then show "safe m t (as_value (\<lambda>_ t'. \<exists>d. t' = d @ t \<and> length (filter p d) \<le> n))"
  proof (rule safe_mono)
    fix out :: "('c, 'c) outcome" and t'
    assume "\<exists>d. t' = d @ t \<and> length (filter p d) \<le> n"
    then show "as_value (\<lambda>_ t'. \<exists>d. t' = d @ t \<and> length (filter p d) \<le> n) out t'" by (cases out) simp_all
  qed
qed

section \<open>What an early return can be\<close>

definition returns :: "('r \<Rightarrow> bool) \<Rightarrow> ('ev, 'w, 'r, 'a) action \<Rightarrow> bool" where
  "returns q m \<longleftrightarrow> (\<forall>t. safe m t (\<lambda>out _. case out of Returned r \<Rightarrow> q r | _ \<Rightarrow> True))"

named_theorems returns_rules \<open>one rule per construct, for what an early return can be\<close>

lemma returns_ret [returns_rules]: "returns q (ret a)" and returns_panic [returns_rules]: "returns q panic"
  and returns_exit [returns_rules]: "q r \<Longrightarrow> returns q (exit r)"
  by (simp_all add: returns_def)

lemma returns_observed [returns_rules]: "returns q (observed ev f)"
  by (simp add: returns_def safe_observed)

lemma returns_silent [returns_rules]: "returns q (silent f)"
  by (simp add: returns_def safe_silent)

lemma returns_now_utc [returns_rules]: "returns q (now_utc f)"
  by (simp add: returns_def safe_now_utc)

lemma returns_bind [returns_rules]: "returns q m \<Longrightarrow> (\<And>a. returns q (f a)) \<Longrightarrow> returns q (bindP m f)"
  unfolding returns_def by (intro allI, erule allE, erule safe_seq) auto

lemma returns_if [returns_rules]: "(b \<Longrightarrow> returns q m) \<Longrightarrow> (\<not> b \<Longrightarrow> returns q n) \<Longrightarrow> returns q (if b then m else n)"
  by simp

lemma returns_case_option [returns_rules]:
  "returns q m \<Longrightarrow> (\<And>x. returns q (f x)) \<Longrightarrow> returns q (case r of None \<Rightarrow> m | Some x \<Rightarrow> f x)"
  by (cases r) auto

lemma returns_case_sum [returns_rules]:
  "(\<And>x. returns q (f x)) \<Longrightarrow> (\<And>x. returns q (g x)) \<Longrightarrow> returns q (case r of Inl x \<Rightarrow> f x | Inr x \<Rightarrow> g x)"
  by (cases r) auto

lemma returns_case_prod [returns_rules]: "(\<And>x y. returns q (f x y)) \<Longrightarrow> returns q (case r of (x, y) \<Rightarrow> f x y)"
  by (cases r) auto

lemma returns_case_list [returns_rules]:
  "returns q m \<Longrightarrow> (\<And>x xs. returns q (f x xs)) \<Longrightarrow> returns q (case r of [] \<Rightarrow> m | x # xs \<Rightarrow> f x xs)"
  by (cases r) auto

lemma returns_let [returns_rules]: "returns q (f a) \<Longrightarrow> returns q (let x = a in f x)"
  by simp

lemma returns_safe: "returns q m \<Longrightarrow> safe m t (\<lambda>out _. case out of Returned r \<Rightarrow> q r | _ \<Rightarrow> True)"
  by (simp add: returns_def)

section \<open>What holds when a program ends normally\<close>

text \<open>\<open>gives m t P\<close>: where \<open>m\<close> passes a value on to the next statement,
  \<open>P\<close> holds of the value and the trace.\<close>

definition gives :: "('ev, 'w, 'r, 'a) action \<Rightarrow> 'ev list \<Rightarrow> ('a \<Rightarrow> 'ev list \<Rightarrow> bool) \<Rightarrow> bool" where
  "gives m t P \<longleftrightarrow> safe m t (\<lambda>out t'. case out of Value a \<Rightarrow> P a t' | _ \<Rightarrow> True)"

named_theorems gives_rules \<open>one rule per construct, for what holds when a program ends normally\<close>

lemma gives_ret [gives_rules]: "P a t \<Longrightarrow> gives (ret a) t P"
  by (simp add: gives_def)

lemma gives_ret_iff [simp]: "gives (ret a) t P \<longleftrightarrow> P a t"
  by (simp add: gives_def)

lemma gives_exit [gives_rules]: "gives (exit r) t P"
  by (simp add: gives_def)

lemma gives_panic [gives_rules]: "gives panic t P"
  by (simp add: gives_def)

lemma gives_bind [gives_rules]: "gives m t (\<lambda>a t'. gives (f a) t' P) \<Longrightarrow> gives (bindP m f) t P"
  unfolding gives_def by (erule safe_seq) auto

lemma gives_mono: "gives m t P \<Longrightarrow> (\<And>a t'. P a t' \<Longrightarrow> Q a t') \<Longrightarrow> gives m t Q"
  unfolding gives_def by (erule safe_mono) (auto split: outcome.splits)

lemma gives_bind_exit: "gives (bindP m exit) t P"
proof (rule gives_bind, rule gives_mono [where P = "\<lambda>_ _. True"])
  show "gives m t (\<lambda>_ _. True)" by (simp add: gives_def safe_def split: outcome.splits prod.splits)
qed (rule gives_exit)

lemma gives_observed [gives_rules]: "(\<And>x. P x (ev x # t)) \<Longrightarrow> gives (observed ev f) t P"
  by (simp add: gives_def safe_observed)

lemma gives_silent [gives_rules]: "(\<And>x. P x t) \<Longrightarrow> gives (silent f) t P"
  by (simp add: gives_def safe_silent)

lemma gives_now_utc [gives_rules]: "(\<And>x. P x t) \<Longrightarrow> gives (now_utc f) t P"
  by (simp add: gives_def safe_now_utc)

lemma gives_try_value [gives_rules]:
  assumes "gives m t (\<lambda>r t'. case r of Inr x \<Rightarrow> P x t' | Inl _ \<Rightarrow> True)"
  shows "gives (try_value m h) t P"
  unfolding try_value_def
  by (rule gives_bind, rule gives_mono [OF assms]) (auto split: sum.splits intro: gives_ret gives_bind_exit)

lemma gives_try_call [gives_rules]:
  assumes "gives m t (\<lambda>r t'. case r of None \<Rightarrow> P () t' | Some _ \<Rightarrow> True)"
  shows "gives (try_call m h) t P"
  unfolding try_call_def
  by (rule gives_bind, rule gives_mono [OF assms]) (auto split: option.splits intro: gives_ret gives_bind_exit)

lemma gives_if [gives_rules]: "(b \<Longrightarrow> gives m t P) \<Longrightarrow> (\<not> b \<Longrightarrow> gives n t P) \<Longrightarrow> gives (if b then m else n) t P"
  by simp

lemma gives_let [gives_rules]: "gives (f a) t P \<Longrightarrow> gives (let x = a in f x) t P"
  by simp

lemma gives_case_option [gives_rules]:
  "(r = None \<Longrightarrow> gives m t P) \<Longrightarrow> (\<And>x. r = Some x \<Longrightarrow> gives (f x) t P) \<Longrightarrow> gives (case r of None \<Rightarrow> m | Some x \<Rightarrow> f x) t P"
  by (cases r) auto

lemma gives_case_prod [gives_rules]:
  "(\<And>x y. r = (x, y) \<Longrightarrow> gives (f x y) t P) \<Longrightarrow> gives (case r of (x, y) \<Rightarrow> f x y) t P"
  by (cases r) auto

lemma gives_case_list [gives_rules]:
  "(r = [] \<Longrightarrow> gives m t P) \<Longrightarrow> (\<And>x xs. r = x # xs \<Longrightarrow> gives (f x xs) t P) \<Longrightarrow> gives (case r of [] \<Rightarrow> m | x # xs \<Rightarrow> f x xs) t P"
  by (cases r) auto

lemma gives_only: "only p m \<Longrightarrow> (\<And>a d. list_all p d \<Longrightarrow> P a (d @ t)) \<Longrightarrow> gives m t P"
  unfolding gives_def by (erule safe_only) (simp split: outcome.split)

lemma gives_conj: "gives m t P \<Longrightarrow> gives m t Q \<Longrightarrow> gives m t (\<lambda>a t'. P a t' \<and> Q a t')"
  unfolding gives_def by (drule (1) safe_conj, erule safe_mono) (simp split: outcome.splits)

lemma gives_grow: "only p m \<Longrightarrow> gives m t P \<Longrightarrow> gives m t (\<lambda>a t'. P a t' \<and> set t \<subseteq> set t')"
  by (rule gives_conj, assumption, erule gives_only) auto

lemma gives_added: "only p m \<Longrightarrow> gives m t P \<Longrightarrow> gives m t (\<lambda>a t'. P a t' \<and> (\<exists>d. t' = d @ t \<and> list_all p d))"
  by (rule gives_conj, assumption, erule gives_only) auto

lemma gives_invoke:
  assumes "gives m t P" "returns q m"
    and "safe m t (\<lambda>out t'. case out of Returned r \<Rightarrow> q r \<longrightarrow> P r t' | _ \<Rightarrow> True)"
  shows "gives (invoke m) t P"
  unfolding gives_def
proof (rule safe_invoke, rule safe_mono [OF safe_conj [OF assms(1) [unfolded gives_def] safe_conj [OF returns_safe [OF assms(2)] assms(3)]]])
  fix out t'
  assume "(case out of Value a \<Rightarrow> P a t' | _ \<Rightarrow> True) \<and> (case out of Returned r \<Rightarrow> q r | _ \<Rightarrow> True) \<and>
    (case out of Returned r \<Rightarrow> q r \<longrightarrow> P r t' | _ \<Rightarrow> True)"
  then show "as_value (\<lambda>out t'. case out of Value a \<Rightarrow> P a t' | _ \<Rightarrow> True) out t'" by (cases out) auto
qed

text \<open>A phase that only adds events of a kind, and what it gives, before the rest.\<close>

lemma safe_phase:
  assumes "only p m" "gives m t P"
    and "\<And>a d. list_all p d \<Longrightarrow> P a (d @ t) \<Longrightarrow> safe (f a) (d @ t) Q"
    and "\<And>r d. list_all p d \<Longrightarrow> Q (Returned r) (d @ t)" "\<And>d. list_all p d \<Longrightarrow> Q Panicked (d @ t)"
  shows "safe (bindP m f) t Q"
proof (rule safe_seq [OF safe_conj [OF only_safe [OF assms(1)] assms(2) [unfolded gives_def]]])
  show "safe (f a) t' Q"
    if "(\<exists>d. t' = d @ t \<and> list_all p d) \<and> (case Value a of Value a \<Rightarrow> P a t' | _ \<Rightarrow> True)" for a t'
  proof -
    from that obtain d where d: "t' = d @ t" "list_all p d" by blast
    from conjunct2 [OF that] have "P a (d @ t)" unfolding d(1) by (simp only: outcome.case)
    then show ?thesis unfolding d(1) by (rule assms(3) [OF d(2)])
  qed
qed (use assms(4,5) in blast)+

section \<open>Conditions on the events of a trace\<close>

text \<open>\<open>guarded C t\<close>: every event of the trace satisfies \<open>C\<close> together with the
  part of the trace before it.\<close>

primrec guarded :: "('ev \<Rightarrow> 'ev list \<Rightarrow> bool) \<Rightarrow> 'ev list \<Rightarrow> bool" where
  "guarded C [] \<longleftrightarrow> True"
| "guarded C (e # t) \<longleftrightarrow> C e t \<and> guarded C t"

lemma guarded_append: "guarded C t \<Longrightarrow> list_all (\<lambda>e. \<forall>t. C e t) d \<Longrightarrow> guarded C (d @ t)"
  by (induction d) auto

lemma guardedD: "guarded C (d @ e # t) \<Longrightarrow> C e t"
  by (induction d) auto

text \<open>A program that keeps a trace guarded, and its rules.\<close>

definition keeps :: "('ev \<Rightarrow> 'ev list \<Rightarrow> bool) \<Rightarrow> ('ev, 'w, 'r, 'a) action \<Rightarrow> bool" where
  "keeps C m \<longleftrightarrow> (\<forall>t. guarded C t \<longrightarrow> safe m t (\<lambda>_. guarded C))"

named_theorems keeps_rules \<open>one rule per construct, for programs that keep a trace guarded\<close>

lemma keepsD: "keeps C m \<Longrightarrow> guarded C t \<Longrightarrow> safe m t (\<lambda>_. guarded C)"
  by (simp add: keeps_def)

lemma keeps_only: "only (\<lambda>e. \<forall>t. C e t) m \<Longrightarrow> keeps C m"
  unfolding keeps_def by (blast intro: safe_only guarded_append)

lemma keeps_ret [keeps_rules]: "keeps C (ret a)" and keeps_exit [keeps_rules]: "keeps C (exit r)"
  and keeps_panic [keeps_rules]: "keeps C panic"
  by (simp_all add: keeps_def)

lemma keeps_bind [keeps_rules]:
  assumes "keeps C m" "\<And>a. keeps C (f a)"
  shows "keeps C (bindP m f)"
  unfolding keeps_def
proof (intro allI impI)
  fix t
  assume "guarded C t"
  then show "safe (bindP m f) t (\<lambda>_. guarded C)"
    by (rule safe_seq [OF keepsD [OF assms(1)]]) (auto intro: keepsD [OF assms(2)])
qed

text \<open>What the first statement gives may be used for the second.\<close>

lemma keeps_bind_gives:
  assumes "keeps C m" "\<And>t. gives m t P"
    and "\<And>a t. P a t \<Longrightarrow> guarded C t \<Longrightarrow> safe (f a) t (\<lambda>_. guarded C)"
  shows "keeps C (bindP m f)"
  unfolding keeps_def
proof (intro allI impI)
  fix t
  assume t: "guarded C t"
  show "safe (bindP m f) t (\<lambda>_. guarded C)"
    by (rule safe_seq [OF safe_conj [OF keepsD [OF assms(1) t] assms(2) [unfolded gives_def]]])
      (auto intro: assms(3))
qed

lemma keeps_invoke [keeps_rules]: "keeps C m \<Longrightarrow> keeps C (invoke m)"
  unfolding keeps_def
proof (intro allI impI safe_invoke)
  fix t
  assume "\<forall>t. guarded C t \<longrightarrow> safe m t (\<lambda>_. guarded C)" "guarded C t"
  then have "safe m t (\<lambda>_. guarded C)" by blast
  then show "safe m t (as_value (\<lambda>_. guarded C))"
  proof (rule safe_mono)
    fix out :: "('c, 'c) outcome" and t'
    assume "guarded C t'"
    then show "as_value (\<lambda>_. guarded C) out t'" by (cases out) simp_all
  qed
qed

lemma keeps_if [keeps_rules]: "(b \<Longrightarrow> keeps C m) \<Longrightarrow> (\<not> b \<Longrightarrow> keeps C n) \<Longrightarrow> keeps C (if b then m else n)"
  by simp

lemma keeps_case_option [keeps_rules]:
  "keeps C m \<Longrightarrow> (\<And>x. keeps C (f x)) \<Longrightarrow> keeps C (case r of None \<Rightarrow> m | Some x \<Rightarrow> f x)"
  by (cases r) auto

lemma keeps_case_sum [keeps_rules]:
  "(\<And>x. keeps C (f x)) \<Longrightarrow> (\<And>x. keeps C (g x)) \<Longrightarrow> keeps C (case r of Inl x \<Rightarrow> f x | Inr x \<Rightarrow> g x)"
  by (cases r) auto

lemma keeps_case_prod [keeps_rules]: "(\<And>x y. keeps C (f x y)) \<Longrightarrow> keeps C (case r of (x, y) \<Rightarrow> f x y)"
  by (cases r) auto

lemma keeps_let [keeps_rules]: "keeps C (f a) \<Longrightarrow> keeps C (let x = a in f x)"
  by simp

lemma keeps_try_call [keeps_rules]: "keeps C m \<Longrightarrow> (\<And>e. keeps C (h e)) \<Longrightarrow> keeps C (try_call m h)"
  unfolding try_call_def by (intro keeps_rules)

lemma keeps_try_value [keeps_rules]: "keeps C m \<Longrightarrow> (\<And>e. keeps C (h e)) \<Longrightarrow> keeps C (try_value m h)"
  unfolding try_value_def by (intro keeps_rules)

section \<open>What holds when a program ends, normally or by an early return\<close>

definition ends :: "('ev, 'w, 'r, 'a) action \<Rightarrow> 'ev list \<Rightarrow> ('r \<Rightarrow> 'ev list \<Rightarrow> bool) \<Rightarrow> ('a \<Rightarrow> 'ev list \<Rightarrow> bool) \<Rightarrow> bool" where
  "ends m t C P \<longleftrightarrow> safe m t (\<lambda>out t'. case out of Value a \<Rightarrow> P a t' | Returned r \<Rightarrow> C r t' | Panicked \<Rightarrow> True)"

named_theorems ends_rules \<open>one rule per construct, for how a program ends\<close>

lemma ends_ret_iff [simp]: "ends (ret a) t C P \<longleftrightarrow> P a t"
  by (simp add: ends_def)

lemma ends_exit_iff [simp]: "ends (exit r) t C P \<longleftrightarrow> C r t"
  by (simp add: ends_def)

lemma ends_panic [simp]: "ends panic t C P"
  by (simp add: ends_def)

lemma ends_mono: "ends m t C P \<Longrightarrow> (\<And>a t'. P a t' \<Longrightarrow> Q a t') \<Longrightarrow> ends m t C Q"
  unfolding ends_def by (erule safe_mono) (auto split: outcome.splits)

lemma ends_bind [ends_rules]: "ends m t C (\<lambda>a t'. ends (f a) t' C P) \<Longrightarrow> ends (bindP m f) t C P"
  unfolding ends_def by (erule safe_seq) auto

lemma ends_observed [ends_rules]: "(\<And>x. P x (ev x # t)) \<Longrightarrow> ends (observed ev f) t C P"
  by (simp add: ends_def safe_observed)

lemma ends_silent [ends_rules]: "(\<And>x. P x t) \<Longrightarrow> ends (silent f) t C P"
  by (simp add: ends_def safe_silent)

lemma ends_now_utc [ends_rules]: "(\<And>x. P x t) \<Longrightarrow> ends (now_utc f) t C P"
  by (simp add: ends_def safe_now_utc)

lemma ends_if [ends_rules]: "(b \<Longrightarrow> ends m t C P) \<Longrightarrow> (\<not> b \<Longrightarrow> ends n t C P) \<Longrightarrow> ends (if b then m else n) t C P"
  by simp

lemma ends_case_option [ends_rules]:
  "(r = None \<Longrightarrow> ends m t C P) \<Longrightarrow> (\<And>x. r = Some x \<Longrightarrow> ends (f x) t C P) \<Longrightarrow> ends (case r of None \<Rightarrow> m | Some x \<Rightarrow> f x) t C P"
  by (cases r) auto

lemma ends_case_sum [ends_rules]:
  "(\<And>x. r = Inl x \<Longrightarrow> ends (f x) t C P) \<Longrightarrow> (\<And>x. r = Inr x \<Longrightarrow> ends (g x) t C P)
     \<Longrightarrow> ends (case r of Inl x \<Rightarrow> f x | Inr x \<Rightarrow> g x) t C P"
  by (cases r) auto

lemma ends_case_prod [ends_rules]:
  "(\<And>x y. r = (x, y) \<Longrightarrow> ends (f x y) t C P) \<Longrightarrow> ends (case r of (x, y) \<Rightarrow> f x y) t C P"
  by (cases r) auto

lemma ends_let [ends_rules]: "ends (f a) t C P \<Longrightarrow> ends (let x = a in f x) t C P"
  by simp

text \<open>Calling a function: its result is what it returns or ends with.\<close>

lemma ends_invoke [ends_rules]:
  assumes "ends m t P P"
  shows "ends (invoke m) t C P"
  unfolding ends_def
proof (rule safe_invoke, rule safe_mono [OF assms [unfolded ends_def]])
  fix out t'
  assume "case out of Value a \<Rightarrow> P a t' | Returned r \<Rightarrow> P r t' | Panicked \<Rightarrow> True"
  then show "as_value (\<lambda>out t'. case out of Value a \<Rightarrow> P a t' | Returned r \<Rightarrow> C r t' | Panicked \<Rightarrow> True) out t'"
    by (cases out) auto
qed

lemma ends_only: "only p m \<Longrightarrow> ends m t C P \<Longrightarrow> ends m t C (\<lambda>a t'. P a t' \<and> (\<exists>d. t' = d @ t \<and> list_all p d))"
  unfolding ends_def by (drule only_safe, drule (1) safe_conj, erule safe_mono) (auto split: outcome.splits)

section \<open>A phase that cannot break a condition\<close>

lemma kept_phase:
  assumes "only p m" "gives m t P" "\<And>e t. p e \<Longrightarrow> C e t" "guarded C t"
    and "\<And>a t'. guarded C t' \<Longrightarrow> set t \<subseteq> set t' \<Longrightarrow> P a t' \<Longrightarrow> safe (f a) t' (\<lambda>_. guarded C)"
  shows "safe (bindP m f) t (\<lambda>_. guarded C)"
proof (rule safe_phase [OF assms(1,2)])
  have grown: "guarded C (d @ t)" if "list_all p d" for d
    by (rule guarded_append [OF assms(4)]) (use that assms(3) in \<open>auto simp: list_all_iff\<close>)
  then show "guarded C (d @ t)" "guarded C (d @ t)" if "list_all p d" for d using that by blast+
  show "safe (f a) (d @ t) (\<lambda>_. guarded C)" if "list_all p d" "P a (d @ t)" for a d
    by (rule assms(5) [OF grown [OF that(1)] _ that(2)]) auto
qed

lemma kept_before:
  assumes "only p m" "\<And>e t. p e \<Longrightarrow> C e t" "guarded C t"
    and "\<And>a t'. guarded C t' \<Longrightarrow> set t \<subseteq> set t' \<Longrightarrow> safe (f a) t' (\<lambda>_. guarded C)"
  shows "safe (bindP m f) t (\<lambda>_. guarded C)"
  by (rule kept_phase [OF assms(1) gives_only [OF assms(1)] assms(2,3), where P = "\<lambda>_ _. True"]) (auto intro: assms(4))

lemma kept_only: "only p m \<Longrightarrow> (\<And>e t. p e \<Longrightarrow> C e t) \<Longrightarrow> guarded C t \<Longrightarrow> safe m t (\<lambda>_. guarded C)"
  by (erule safe_only) (rule guarded_append, assumption, auto simp: list_all_iff)

lemma kept_invoke: "safe m t (\<lambda>_. guarded C) \<Longrightarrow> safe (invoke m) t (\<lambda>_. guarded C)"
proof (rule safe_invoke, erule safe_mono)
  fix out :: "('c, 'c) outcome" and t'
  assume "guarded C t'"
  then show "as_value (\<lambda>_. guarded C) out t'" by (cases out) simp_all
qed

end
