(* ===== verification/Effects.thy ===== *)
theory Effects imports Gateway Programs begin

text \<open>
  What the synchronisation service calls (record \<open>env\<close>): the store with its optional
  interfaces, the vault, the gateways, the dispatcher and the clock, and the events these calls
  leave in a trace.
\<close>

section \<open>The events\<close>

datatype event =
    EvLoad uuid "go_error + sync_bundle"
  | EvLock uuid "go_error + bool"
  | EvRelease "go_error option"
  | EvStart operation "go_error option"
  | EvStep step_record "go_error option"
  | EvFail failure_record "go_error option"
  | EvBind uuid int "go_error option"
  | EvComplete sync_bundle int "go_error option"
  | EvSupersede sync_bundle "go_error option"
  | EvConfirm resource_confirmation "go_error option"
  | EvPrices sync_bundle "go_error option"
  | EvCompleteSite sync_bundle "go_error option"
  | EvApproved managed_sync_capabilities "go_error + bool"
  | EvDecrypt credential_record
  | EvProbe "go_error + string"
  | EvRead "go_error + actual_state"
  | EvSetRatios string_map "go_error option"
  | EvSetUsers string_map "go_error option"
  | EvCreate desired_channel "go_error option"
  | EvUpdate int desired_channel "go_error option"
  | EvTest int string "go_error option"
  | EvEnable int bool "go_error option"
  | EvBasis "go_error + string"
  | EvCapabilities "go_error + managed_sync_capabilities"
  | EvManagedState "go_error + managed_sync_state"
  | EvApply managed_sync_request "go_error + managed_sync_result"
  | EvCreateOperation uuid "go_error + operation"
  | EvDispatch uuid "go_error option"

type_synonym trace = "event list"

type_synonym ('w, 'r, 'a) prog = "(event, 'w, 'r, 'a) action"

text \<open>A pure function of the model that fails with a \<open>failure\<close>.\<close>

definition pureE :: "failure + 'x \<Rightarrow> ('w, 'r, go_error + 'x) prog" where
  "pureE r = ret (case r of Inl f \<Rightarrow> Inl (ErrFailure f) | Inr x \<Rightarrow> Inr x)"

section \<open>What the service calls\<close>

type_synonym bytes = "8 word list"

text \<open>The optional interfaces of a gateway (\<open>BillingBasisReader\<close> and
  \<open>ManagedSyncGateway\<close>, found by type assertion) are options.\<close>

record 'w managed_gateway =
  gm_capabilities :: "'w \<Rightarrow> (go_error + managed_sync_capabilities) \<times> 'w"
  gm_read_state :: "'w \<Rightarrow> (go_error + managed_sync_state) \<times> 'w"
  gm_apply :: "managed_sync_request \<Rightarrow> 'w \<Rightarrow> (go_error + managed_sync_result) \<times> 'w"

record 'w gateway =
  g_probe :: "'w \<Rightarrow> (go_error + string) \<times> 'w"
  g_read :: "'w \<Rightarrow> (go_error + actual_state) \<times> 'w"
  g_set_ratios :: "string_map \<Rightarrow> 'w \<Rightarrow> go_error option \<times> 'w"
  g_set_users :: "string_map \<Rightarrow> 'w \<Rightarrow> go_error option \<times> 'w"
  g_create :: "desired_channel \<Rightarrow> bytes \<Rightarrow> 'w \<Rightarrow> go_error option \<times> 'w"
  g_update :: "int \<Rightarrow> desired_channel \<Rightarrow> bytes \<Rightarrow> 'w \<Rightarrow> go_error option \<times> 'w"
  g_test :: "int \<Rightarrow> string \<Rightarrow> bytes \<Rightarrow> 'w \<Rightarrow> go_error option \<times> 'w"
  g_enable :: "int \<Rightarrow> bool \<Rightarrow> 'w \<Rightarrow> go_error option \<times> 'w"
  g_basis :: "('w \<Rightarrow> (go_error + string) \<times> 'w) option"
  g_managed :: "'w managed_gateway option"

record 'w site_store =
  ss_supersede :: "sync_bundle \<Rightarrow> instant \<Rightarrow> 'w \<Rightarrow> go_error option \<times> 'w"
  ss_confirm :: "sync_bundle \<Rightarrow> resource_confirmation \<Rightarrow> instant \<Rightarrow> 'w \<Rightarrow> go_error option \<times> 'w"
  ss_prices :: "sync_bundle \<Rightarrow> instant \<Rightarrow> 'w \<Rightarrow> go_error option \<times> 'w"
  ss_complete :: "sync_bundle \<Rightarrow> instant \<Rightarrow> 'w \<Rightarrow> go_error option \<times> 'w"

text \<open>The fields of \<open>Service\<close>: the store with its optional interfaces, the vault, the
  gateway factory (\<open>NewForSite\<close> where it has one), the dispatcher, the clock and the
  source of identifiers.\<close>

record 'w env =
  e_create_operation :: "uuid \<Rightarrow> uuid \<Rightarrow> instant \<Rightarrow> 'w \<Rightarrow> (go_error + operation) \<times> 'w"
  e_load :: "uuid \<Rightarrow> 'w \<Rightarrow> (go_error + sync_bundle) \<times> 'w"
  e_lock :: "uuid \<Rightarrow> 'w \<Rightarrow> (go_error + bool) \<times> 'w"
  e_release :: "'w \<Rightarrow> go_error option \<times> 'w"
  e_start :: "operation \<Rightarrow> string \<Rightarrow> instant \<Rightarrow> 'w \<Rightarrow> go_error option \<times> 'w"
  e_step :: "step_record \<Rightarrow> 'w \<Rightarrow> go_error option \<times> 'w"
  e_bind :: "uuid \<Rightarrow> int \<Rightarrow> instant \<Rightarrow> 'w \<Rightarrow> go_error option \<times> 'w"
  e_complete :: "sync_bundle \<Rightarrow> int \<Rightarrow> instant \<Rightarrow> 'w \<Rightarrow> go_error option \<times> 'w"
  e_fail :: "failure_record \<Rightarrow> 'w \<Rightarrow> go_error option \<times> 'w"
  e_site_store :: "'w site_store option"
  e_approved :: "(uuid \<Rightarrow> managed_sync_capabilities \<Rightarrow> 'w \<Rightarrow> (go_error + bool) \<times> 'w) option"
  e_decrypt :: "credential_record \<Rightarrow> 'w \<Rightarrow> (go_error + bytes) \<times> 'w"
  e_gateway :: "string \<Rightarrow> bytes \<Rightarrow> 'w \<Rightarrow> (go_error + 'w gateway) \<times> 'w"
  e_site_gateway :: "(string \<Rightarrow> bytes \<Rightarrow> int \<Rightarrow> 'w \<Rightarrow> (go_error + 'w gateway) \<times> 'w) option"
  e_dispatch :: "(uuid \<Rightarrow> 'w \<Rightarrow> go_error option \<times> 'w) option"
  e_clock :: "'w \<Rightarrow> instant \<times> 'w"
  e_new_id :: "'w \<Rightarrow> uuid \<times> 'w"

text \<open>\<open>s.now().UTC()\<close>.\<close>

definition clock :: "'w env \<Rightarrow> ('w, 'r, instant) prog" where
  "clock E = now_utc (e_clock E)"

section \<open>Rules for the clock and for pure functions\<close>

lemma safe_clock: "(\<And>x. Q (Value x) t) \<Longrightarrow> safe (clock E) t Q"
  unfolding clock_def by (rule safe_now_utc)

lemma only_clock [only_rules]: "only p (clock E)"
  unfolding clock_def by (rule only_now_utc)

lemma only_pureE [only_rules]: "only p (pureE r)"
  unfolding pureE_def by (rule only_ret)

lemma gives_clock [gives_rules]: "(\<And>x. P x t) \<Longrightarrow> gives (clock E) t P"
  unfolding clock_def by (rule gives_now_utc)

lemma gives_pureE [gives_rules]:
  "(\<And>x. r = Inr x \<Longrightarrow> P (Inr x) t) \<Longrightarrow> (\<And>f. r = Inl f \<Longrightarrow> P (Inl (ErrFailure f)) t) \<Longrightarrow> gives (pureE r) t P"
  unfolding pureE_def by (cases r) (auto intro: gives_ret)

end
