(* ===== verification/Diff.thy ===== *)
theory Diff imports Gateway begin

text \<open>
  \<open>internal/application/reconciliation/diff.go\<close> and \<open>site_verify.go\<close>: finding the
  managed channel, merging the desired groups into what the gateway has, and verifying what it
  reports afterwards.

  The two merges (ratios and visible groups) share a contract, the locale \<open>group_merge\<close>:
  a merge establishes its own group and keeps every other one.  It is interpreted on both, and
  gives what a sequence of merges over the groups of a site does.
\<close>

section \<open>Finding the channel\<close>

definition locate_managed_channel ::
  "desired_channel \<Rightarrow> int option \<Rightarrow> actual_channel list \<Rightarrow> failure + actual_channel option" where
  "locate_managed_channel expected binding channels =
     (let matching_tag = filter (\<lambda>c. ac_managed_tag c = dc_managed_tag expected) channels;
          matching_id = (case binding of None \<Rightarrow> None
            | Some b \<Rightarrow> find (\<lambda>c. ac_id c = b) (rev channels)) in
      if 1 < length matching_tag then Inl (fail FailureOwnership ''managed_resource_conflict'')
      else case matching_id of
        Some c \<Rightarrow> (if ac_managed_tag c \<noteq> dc_managed_tag expected then Inl (fail FailureOwnership ''binding_mismatch'')
                   else Inr (Some c))
      | None \<Rightarrow> (case matching_tag of [c] \<Rightarrow> Inr (Some c) | _ \<Rightarrow> Inr None))"

section \<open>Merging\<close>

definition merge_group_ratios ::
  "'d libs \<Rightarrow> string_map \<Rightarrow> string \<Rightarrow> string \<Rightarrow> failure + string_map \<times> bool" where
  "merge_group_ratios L current key expected =
     (case dec_parse L expected of
        None \<Rightarrow> Inl (fail FailureConfiguration ''invalid_sale_ratio'')
      | Some e \<Rightarrow>
          if \<not> 0 < dec_value L e then Inl (fail FailureConfiguration ''invalid_sale_ratio'')
          else if list_ex (\<lambda>(k, raw). case dec_parse L raw of None \<Rightarrow> True | Some d \<Rightarrow> dec_value L d < 0) current
          then Inl (fail FailureCompatibility ''invalid_group_ratio'')
          else let merged = map (\<lambda>(k, raw). (k, dec_string L (the (dec_parse L raw)))) current;
                   normalized = dec_string L e in
            Inr (AList.update key normalized merged, go_get merged key \<noteq> normalized))"

definition merge_user_usable_groups :: "string_map \<Rightarrow> desired_group \<Rightarrow> string_map \<times> bool" where
  "merge_user_usable_groups current g =
     (if \<not> dg_visible g then (AList.delete (dg_key g) current, map_of current (dg_key g) \<noteq> None)
      else (AList.update (dg_key g) (dg_display_name g) current, go_get current (dg_key g) \<noteq> dg_display_name g))"

section \<open>Verifying\<close>

definition maps_equal :: "string_map \<Rightarrow> string_map \<Rightarrow> bool" where
  "maps_equal l r \<longleftrightarrow> length l = length r \<and> list_all (\<lambda>(k, v). go_get r k = v) l"

definition expected_mapping :: "model_route list \<Rightarrow> string_map" where
  "expected_mapping ms =
     foldl (\<lambda>m r. if mt_model r \<noteq> mt_upstream_model r then AList.update (mt_model r) (mt_upstream_model r) m else m) [] ms"

definition channel_configuration_matches :: "desired_channel \<Rightarrow> actual_channel \<Rightarrow> bool" where
  "channel_configuration_matches e a \<longleftrightarrow>
     dc_managed_tag e = ac_managed_tag a \<and> dc_name e = ac_name a \<and> dc_protocol e = ac_protocol a
     \<and> dc_base_url e = ac_base_url a \<and> dc_priority e = ac_priority a \<and> dc_weight e = ac_weight a
     \<and> sort (map mt_model (dc_models e)) = sort (ac_models a)
     \<and> maps_equal (expected_mapping (dc_models e)) (ac_model_mapping a)
     \<and> channel_group_keys e = sort (ac_groups a)"

text \<open>\<open>wantErr != nil || gotErr != nil || !want.Equal(got)\<close>, negated.\<close>

definition same_decimal :: "'d libs \<Rightarrow> string \<Rightarrow> string \<Rightarrow> bool" where
  "same_decimal L x y \<longleftrightarrow>
     (case (dec_parse L x, dec_parse L y) of (Some a, Some b) \<Rightarrow> dec_value L a = dec_value L b | _ \<Rightarrow> False)"

definition verify :: "'d libs \<Rightarrow> snapshot \<Rightarrow> actual_state \<Rightarrow> int option \<Rightarrow> failure + actual_channel" where
  "verify L expected actual binding =
     bindE (locate_managed_channel (sn_channel expected) binding (as_channels actual)) (\<lambda>located.
     case located of
       None \<Rightarrow> Inl (fail FailureCompatibility ''channel_missing'')
     | Some channel \<Rightarrow>
       if \<not> channel_configuration_matches (sn_channel expected) channel
       then Inl (fail FailureCompatibility ''channel_drift'')
       else case map_of (as_group_ratios actual) (dg_key (sn_group expected)) of
         None \<Rightarrow> Inl (fail FailureCompatibility ''group_ratio_missing'')
       | Some ratio \<Rightarrow>
         if \<not> same_decimal L (dg_sale_ratio (sn_group expected)) ratio
         then Inl (fail FailureCompatibility ''group_ratio_drift'')
         else if ac_status channel \<noteq> ChannelEnabled
         then Inl (fail FailureCompatibility ''channel_not_enabled'')
         else let shown = map_of (as_user_usable_groups actual) (dg_key (sn_group expected)) in
           if dg_visible (sn_group expected) \<and> shown \<noteq> Some (dg_display_name (sn_group expected))
           then Inl (fail FailureCompatibility ''group_visibility_drift'')
           else if \<not> dg_visible (sn_group expected) \<and> shown \<noteq> None
           then Inl (fail FailureCompatibility ''group_visibility_drift'')
           else Inr channel)"

definition verify_unmanaged_group_ratios :: "'d libs \<Rightarrow> string_map \<Rightarrow> string_map \<Rightarrow> string \<Rightarrow> failure + unit" where
  "verify_unmanaged_group_ratios L before after managed =
     check_all (\<lambda>(k, raw_before).
       if k = managed then Inr ()
       else case map_of after k of
         None \<Rightarrow> Inl (fail FailureOwnership ''unmanaged_group_removed'')
       | Some raw_after \<Rightarrow>
           guardE (\<not> same_decimal L raw_before raw_after) (fail FailureOwnership ''unmanaged_group_changed'')) before"

definition verify_unmanaged_user_groups :: "string_map \<Rightarrow> string_map \<Rightarrow> string \<Rightarrow> failure + unit" where
  "verify_unmanaged_user_groups before after managed =
     check_all (\<lambda>(k, description).
       if k = managed then Inr ()
       else case map_of after k of
         None \<Rightarrow> Inl (fail FailureOwnership ''unmanaged_user_group_removed'')
       | Some actual \<Rightarrow>
           guardE (actual \<noteq> description) (fail FailureOwnership ''unmanaged_user_group_changed'')) before"

definition verify_site_group :: "'d libs \<Rightarrow> actual_state \<Rightarrow> bool \<Rightarrow> desired_group \<Rightarrow> failure + unit" where
  "verify_site_group L actual visibility g =
     (if \<not> same_decimal L (dg_sale_ratio g) (go_get (as_group_ratios actual) (dg_key g))
      then Inl (fail FailureCompatibility ''group_ratio_drift'')
      else if visibility \<and>
        (let shown = map_of (as_user_usable_groups actual) (dg_key g) in
         dg_visible g \<noteq> (shown \<noteq> None) \<or> shown \<noteq> None \<and> the shown \<noteq> dg_display_name g)
      then Inl (fail FailureCompatibility ''group_visibility_drift'')
      else Inr ())"

definition verify_site_groups :: "'d libs \<Rightarrow> desired_group list \<Rightarrow> actual_state \<Rightarrow> bool \<Rightarrow> failure + unit" where
  "verify_site_groups L groups actual visibility = check_all (verify_site_group L actual visibility) groups"

definition verify_resource :: "actual_state \<Rightarrow> resource_bundle \<Rightarrow> failure + unit" where
  "verify_resource after r =
     (let desired = sn_channel (rb_snapshot r) in
      bindE (locate_managed_channel desired (mc_external_channel_id (rb_managed_channel r)) (as_channels after)) (\<lambda>channel.
      if dc_desired_status desired = DesiredDisabled
      then (case channel of
          Some c \<Rightarrow> guardE (ac_status c \<noteq> ChannelManuallyDisabled) (fail FailureCompatibility ''channel_not_disabled'')
        | None \<Rightarrow> Inr ())
      else (case channel of
          None \<Rightarrow> Inl (fail FailureCompatibility ''channel_drift'')
        | Some c \<Rightarrow> guardE (ac_status c \<noteq> ChannelEnabled \<or> \<not> channel_configuration_matches desired c)
            (fail FailureCompatibility ''channel_drift''))))"

text \<open>\<open>copyStringMap\<close> and the \<open>delete\<close> of every managed group.\<close>

definition without_groups :: "desired_group list \<Rightarrow> string_map \<Rightarrow> string_map" where
  "without_groups gs m = foldl (\<lambda>m g. AList.delete (dg_key g) m) m gs"

definition verify_site_state :: "'d libs \<Rightarrow> sync_bundle \<Rightarrow> actual_state \<Rightarrow> actual_state \<Rightarrow> failure + unit" where
  "verify_site_state L b before after =
     (let groups = snapshot_groups (pl_snapshot (bn_plan b)) in
      bindE (verify_site_groups L groups after True) (\<lambda>_.
      bindE (verify_unmanaged_group_ratios L (without_groups groups (as_group_ratios before)) (as_group_ratios after) []) (\<lambda>_.
      bindE (verify_unmanaged_user_groups (without_groups groups (as_user_usable_groups before)) (as_user_usable_groups after) []) (\<lambda>_.
      check_all (verify_resource after) (bn_resources b)))))"

section \<open>Facts about lookups\<close>

lemma map_of_update [simp]: "map_of (AList.update k v m) = (map_of m)(k \<mapsto> v)"
  by (rule update_conv')

lemma map_of_delete [simp]: "map_of (AList.delete k m) = (map_of m)(k := None)"
  by (rule delete_conv')

lemma map_of_map_values: "map_of (map (\<lambda>(k, v). (k, f v)) m) x = map_option f (map_of m x)"
  by (induction m) auto

lemma map_of_without: "map_of (without_groups gs m) k = (if k \<in> dg_key ` set gs then None else map_of m k)"
proof -
  have "map_of (foldl (\<lambda>m g. AList.delete (dg_key g) m) m gs) k = (if k \<in> dg_key ` set gs then None else map_of m k)"
    by (induction gs arbitrary: m) auto
  then show ?thesis by (simp add: without_groups_def)
qed

lemma map_wf_without: "map_wf m \<Longrightarrow> map_wf (without_groups gs m)"
  unfolding without_groups_def map_wf_def
  by (induction gs arbitrary: m) (auto intro: distinct_delete)

lemma same_decimal_sym: "same_decimal L x y \<Longrightarrow> same_decimal L y x"
  by (auto simp: same_decimal_def split: option.splits)

lemma same_decimal_trans: "same_decimal L x y \<Longrightarrow> same_decimal L y z \<Longrightarrow> same_decimal L x z"
  by (auto simp: same_decimal_def split: option.splits)

section \<open>The contract of a merge\<close>

text \<open>
  A merge of one group into a map of the gateway.  \<open>established g x\<close> says that the entry
  \<open>x\<close> is what the group asks for, \<open>kept x y\<close> that an entry has the same meaning
  before and after.
\<close>

locale group_merge =
  fixes merge :: "string_map \<Rightarrow> 'g \<Rightarrow> 'e + string_map"
    and gkey :: "'g \<Rightarrow> string"
    and established :: "'g \<Rightarrow> string option \<Rightarrow> bool"
    and kept :: "string option \<Rightarrow> string option \<Rightarrow> bool"
  assumes establishes: "merge m g = Inr m' \<Longrightarrow> established g (map_of m' (gkey g))"
    and frame: "merge m g = Inr m' \<Longrightarrow> k \<noteq> gkey g \<Longrightarrow> kept (map_of m k) (map_of m' k)"
    and kept_refl: "kept x x"
    and kept_trans: "kept x y \<Longrightarrow> kept y z \<Longrightarrow> kept x z"
    and kept_established: "established g x \<Longrightarrow> kept x y \<Longrightarrow> established g y"
begin

lemma keeps_others:
  "foldE merge m gs = Inr m' \<Longrightarrow> k \<notin> gkey ` set gs \<Longrightarrow> kept (map_of m k) (map_of m' k)"
proof (induction gs arbitrary: m)
  case (Cons g gs)
  then obtain n where n: "merge m g = Inr n" "foldE merge n gs = Inr m'" by auto
  have "kept (map_of m k) (map_of n k)" using frame [OF n(1)] Cons.prems(2) by auto
  moreover have "kept (map_of n k) (map_of m' k)" using Cons.IH [OF n(2)] Cons.prems(2) by auto
  ultimately show ?case by (rule kept_trans)
qed (simp add: kept_refl)

lemma establishes_all:
  "foldE merge m gs = Inr m' \<Longrightarrow> distinct (map gkey gs) \<Longrightarrow> g \<in> set gs \<Longrightarrow> established g (map_of m' (gkey g))"
proof (induction gs arbitrary: m)
  case (Cons h gs)
  then obtain n where n: "merge m h = Inr n" "foldE merge n gs = Inr m'" by auto
  show ?case
  proof (cases "g = h")
    case True
    then have "gkey g \<notin> gkey ` set gs" using Cons.prems(2) by auto
    then have "kept (map_of n (gkey g)) (map_of m' (gkey g))" by (rule keeps_others [OF n(2)])
    moreover have "established g (map_of n (gkey g))" using establishes [OF n(1)] True by simp
    ultimately show ?thesis by (blast intro: kept_established)
  next
    case False
    then show ?thesis using Cons.IH [OF n(2)] Cons.prems(2,3) by simp
  qed
qed simp

end

text \<open>The visible groups: an entry is kept as it is.\<close>

definition shown_as :: "desired_group \<Rightarrow> string option" where
  "shown_as g = (if dg_visible g then Some (dg_display_name g) else None)"

definition user_merge :: "string_map \<Rightarrow> desired_group \<Rightarrow> failure + string_map" where
  "user_merge m g = Inr (fst (merge_user_usable_groups m g))"

interpretation user_groups: group_merge user_merge dg_key "\<lambda>g x. x = shown_as g" "(=)"
  by unfold_locales (auto simp: user_merge_def merge_user_usable_groups_def shown_as_def)

text \<open>The ratios: an entry is rewritten by \<open>Decimal.String\<close>, which is documented to keep the
  number.\<close>

definition decimal_text :: "'d libs \<Rightarrow> bool" where
  "decimal_text L \<longleftrightarrow> (\<forall>d. \<exists>d'. dec_parse L (dec_string L d) = Some d' \<and> dec_value L d' = dec_value L d)"

definition ratio_merge :: "'d libs \<Rightarrow> string_map \<Rightarrow> desired_group \<Rightarrow> failure + string_map" where
  "ratio_merge L m g = bindE (merge_group_ratios L m (dg_key g) (dg_sale_ratio g)) (\<lambda>r. Inr (fst r))"

definition ratio_kept :: "'d libs \<Rightarrow> string option \<Rightarrow> string option \<Rightarrow> bool" where
  "ratio_kept L x y \<longleftrightarrow>
     (decimal_text L \<longrightarrow> x = y \<or> (\<exists>a b. x = Some a \<and> y = Some b \<and> same_decimal L a b))"

definition ratio_established :: "'d libs \<Rightarrow> desired_group \<Rightarrow> string option \<Rightarrow> bool" where
  "ratio_established L g x \<longleftrightarrow> (decimal_text L \<longrightarrow> (\<exists>a. x = Some a \<and> same_decimal L (dg_sale_ratio g) a))"

lemma decimal_text_same: "decimal_text L \<Longrightarrow> dec_parse L x = Some d \<Longrightarrow> same_decimal L x (dec_string L d)"
  unfolding decimal_text_def same_decimal_def by (metis (mono_tags, lifting) case_prod_conv option.simps(5))

definition bad_ratio :: "'d libs \<Rightarrow> string \<Rightarrow> bool" where
  "bad_ratio L raw \<longleftrightarrow> (case dec_parse L raw of None \<Rightarrow> True | Some d \<Rightarrow> dec_value L d < 0)"

definition rewrite_ratio :: "'d libs \<Rightarrow> string \<Rightarrow> string" where
  "rewrite_ratio L raw = dec_string L (the (dec_parse L raw))"

lemma merge_group_ratios_cases:
  "merge_group_ratios L m k x =
     (case dec_parse L x of
        None \<Rightarrow> Inl (fail FailureConfiguration ''invalid_sale_ratio'')
      | Some e \<Rightarrow>
          if \<not> 0 < dec_value L e then Inl (fail FailureConfiguration ''invalid_sale_ratio'')
          else if \<exists>(j, raw)\<in>set m. bad_ratio L raw then Inl (fail FailureCompatibility ''invalid_group_ratio'')
          else let merged = map (\<lambda>(j, raw). (j, rewrite_ratio L raw)) m in
            Inr (AList.update k (dec_string L e) merged, go_get merged k \<noteq> dec_string L e))"
proof -
  have "list_ex (\<lambda>(k, raw). case dec_parse L raw of None \<Rightarrow> True | Some d \<Rightarrow> dec_value L d < 0) m \<longleftrightarrow>
      (\<exists>(j, raw)\<in>set m. bad_ratio L raw)"
    unfolding list_ex_iff bad_ratio_def ..
  then show ?thesis by (simp add: merge_group_ratios_def rewrite_ratio_def Let_def split: option.split)
qed

lemma merge_group_ratios_Inr:
  assumes "merge_group_ratios L m k x = Inr (m', changed)"
  obtains e where "dec_parse L x = Some e" "0 < dec_value L e" "\<forall>(j, raw)\<in>set m. \<not> bad_ratio L raw"
    "map_of m' = (\<lambda>j. if j = k then Some (dec_string L e) else map_option (rewrite_ratio L) (map_of m j))"
    "changed \<longleftrightarrow> go_get (map (\<lambda>(j, raw). (j, rewrite_ratio L raw)) m) k \<noteq> dec_string L e"
proof (cases "dec_parse L x")
  case (Some e)
  with assms have *: "0 < dec_value L e" "\<not> (\<exists>(j, raw)\<in>set m. bad_ratio L raw)"
    "m' = AList.update k (dec_string L e) (map (\<lambda>(j, raw). (j, rewrite_ratio L raw)) m)"
    "changed \<longleftrightarrow> go_get (map (\<lambda>(j, raw). (j, rewrite_ratio L raw)) m) k \<noteq> dec_string L e"
    by (auto simp: merge_group_ratios_cases Let_def simp del: not_less split: if_split_asm)
  have "map_of m' = (\<lambda>j. if j = k then Some (dec_string L e) else map_option (rewrite_ratio L) (map_of m j))"
    unfolding *(3) by (simp add: fun_eq_iff map_of_map_values)
  with Some * that show ?thesis by auto
qed (use assms in \<open>simp add: merge_group_ratios_cases\<close>)

lemma rewrite_ratio_same: "decimal_text L \<Longrightarrow> \<not> bad_ratio L raw \<Longrightarrow> same_decimal L raw (rewrite_ratio L raw)"
  by (auto simp: bad_ratio_def rewrite_ratio_def decimal_text_same split: option.splits)

interpretation ratios: group_merge "ratio_merge L" dg_key "ratio_established L" "ratio_kept L" for L
proof unfold_locales
  fix m g m'
  assume "ratio_merge L m g = Inr m'"
  then obtain c where "merge_group_ratios L m (dg_key g) (dg_sale_ratio g) = Inr (m', c)"
    by (auto simp: ratio_merge_def)
  then obtain e where e: "dec_parse L (dg_sale_ratio g) = Some e" "\<forall>(j, raw)\<in>set m. \<not> bad_ratio L raw"
    "map_of m' = (\<lambda>j. if j = dg_key g then Some (dec_string L e) else map_option (rewrite_ratio L) (map_of m j))"
    by (rule merge_group_ratios_Inr)
  show "ratio_established L g (map_of m' (dg_key g))"
    by (simp add: e(3) ratio_established_def decimal_text_same e(1))
  show "ratio_kept L (map_of m k) (map_of m' k)" if "k \<noteq> dg_key g" for k
  proof (cases "map_of m k")
    case None
    then show ?thesis using that by (simp add: e(3) ratio_kept_def)
  next
    case (Some raw)
    then have "\<not> bad_ratio L raw" using e(2) by (auto dest: map_of_SomeD)
    then show ?thesis using that Some by (simp add: e(3) ratio_kept_def rewrite_ratio_same)
  qed
qed (auto simp: ratio_kept_def ratio_established_def intro: same_decimal_trans)

section \<open>Locating and verifying in closed form\<close>

definition tagged :: "desired_channel \<Rightarrow> actual_channel list \<Rightarrow> actual_channel list" where
  "tagged e cs = filter (\<lambda>c. ac_managed_tag c = dc_managed_tag e) cs"

lemma locate_Some:
  assumes "locate_managed_channel e binding cs = Inr (Some c)"
  shows "tagged e cs = [c]" "c \<in> set cs" "ac_managed_tag c = dc_managed_tag e"
proof -
  have len: "length (tagged e cs) \<le> 1"
    using assms by (auto simp: locate_managed_channel_def tagged_def Let_def split: if_splits)
  have c: "c \<in> set (tagged e cs)"
  proof (cases "case binding of None \<Rightarrow> None | Some b \<Rightarrow> find (\<lambda>c. ac_id c = b) (rev cs)")
    case None
    then have "tagged e cs = [c]"
      using assms by (auto simp: locate_managed_channel_def tagged_def Let_def split: if_splits list.splits)
    then show ?thesis by simp
  next
    case (Some d)
    then have "d = c" "ac_managed_tag c = dc_managed_tag e"
      using assms by (auto simp: locate_managed_channel_def Let_def split: if_splits)
    moreover have "d \<in> set cs"
      using Some by (auto simp: find_Some_iff split: option.splits) (metis nth_mem rev_nth set_rev length_rev)
    ultimately show ?thesis by (simp add: tagged_def)
  qed
  with len show "tagged e cs = [c]" by (cases "tagged e cs") auto
  from c show "c \<in> set cs" "ac_managed_tag c = dc_managed_tag e" by (simp_all add: tagged_def)
qed

lemma locate_None:
  assumes "locate_managed_channel e binding cs = Inr None"
  shows "tagged e cs = []"
  using assms by (auto simp: locate_managed_channel_def tagged_def Let_def split: if_splits option.splits list.splits)

lemma locate_cases:
  assumes "locate_managed_channel e binding cs = Inr x"
  shows "tagged e cs = (case x of None \<Rightarrow> [] | Some c \<Rightarrow> [c])"
  using assms locate_None [of e binding cs] locate_Some(1) [of e binding cs] by (cases x) simp_all

lemma verify_Inr:
  "verify L s actual binding = Inr c \<longleftrightarrow>
     locate_managed_channel (sn_channel s) binding (as_channels actual) = Inr (Some c)
     \<and> channel_configuration_matches (sn_channel s) c \<and> ac_status c = ChannelEnabled
     \<and> (\<exists>ratio. map_of (as_group_ratios actual) (dg_key (sn_group s)) = Some ratio
          \<and> same_decimal L (dg_sale_ratio (sn_group s)) ratio)
     \<and> map_of (as_user_usable_groups actual) (dg_key (sn_group s)) = shown_as (sn_group s)"
proof (cases "locate_managed_channel (sn_channel s) binding (as_channels actual)")
  case (Inr r)
  then show ?thesis
    by (cases r; cases "map_of (as_group_ratios actual) (dg_key (sn_group s))")
      (auto simp: verify_def shown_as_def Let_def)
qed (simp add: verify_def)

lemma verify_unmanaged_ratios_Inr:
  "verify_unmanaged_group_ratios L before after managed = Inr () \<longleftrightarrow>
     (\<forall>(k, x)\<in>set before. k = managed \<or> (\<exists>y. map_of after k = Some y \<and> same_decimal L x y))"
  by (fastforce simp: verify_unmanaged_group_ratios_def split: option.splits if_splits)

lemma verify_unmanaged_users_Inr:
  "verify_unmanaged_user_groups before after managed = Inr () \<longleftrightarrow>
     (\<forall>(k, x)\<in>set before. k = managed \<or> map_of after k = Some x)"
  by (fastforce simp: verify_unmanaged_user_groups_def split: option.splits if_splits)

lemma verify_site_group_Inr:
  "verify_site_group L actual vis g = Inr () \<longleftrightarrow>
     same_decimal L (dg_sale_ratio g) (go_get (as_group_ratios actual) (dg_key g))
     \<and> (vis \<longrightarrow> map_of (as_user_usable_groups actual) (dg_key g) = shown_as g)"
  by (auto simp: verify_site_group_def shown_as_def Let_def split: if_splits)

lemma verify_site_groups_Inr:
  "verify_site_groups L gs actual vis = Inr () \<longleftrightarrow>
     (\<forall>g\<in>set gs. same_decimal L (dg_sale_ratio g) (go_get (as_group_ratios actual) (dg_key g))
     \<and> (vis \<longrightarrow> map_of (as_user_usable_groups actual) (dg_key g) = shown_as g))"
  by (simp add: verify_site_groups_def verify_site_group_Inr)

section \<open>Properties\<close>

text \<open>
  Ownership: a channel is located only when it is the one channel of the gateway that carries
  the expected managed tag; two channels with the tag, or a bound channel with another tag, are an
  ownership failure, and nothing is located only when no channel carries the tag.
\<close>

theorem locate_managed_channel_sound:
  "case locate_managed_channel e binding cs of
     Inr (Some c) \<Rightarrow> filter (\<lambda>x. ac_managed_tag x = dc_managed_tag e) cs = [c]
   | Inr None \<Rightarrow> filter (\<lambda>x. ac_managed_tag x = dc_managed_tag e) cs = []
   | Inl f \<Rightarrow> fl_kind f = FailureOwnership"
proof (cases "locate_managed_channel e binding cs")
  case (Inl f)
  then show ?thesis
    by (auto simp: locate_managed_channel_def Let_def fail_def split: if_splits option.splits list.splits)
next
  case (Inr r)
  show ?thesis
  proof (cases r)
    case None
    with Inr show ?thesis
      by (auto simp: locate_managed_channel_def Let_def split: if_splits option.splits list.splits)
  next
    case (Some c)
    with Inr locate_Some [of e binding cs c] show ?thesis by (simp add: tagged_def)
  qed
qed

lemma map_of_without_Some:
  assumes "(k, x) \<in> set (without_groups gs m)" "map_wf m"
  shows "k \<notin> dg_key ` set gs" "map_of m k = Some x"
proof -
  have "map_of (without_groups gs m) k = Some x"
    using assms map_wf_without [OF assms(2)] by (simp add: map_wf_def)
  then show "k \<notin> dg_key ` set gs" "map_of m k = Some x" by (auto simp: map_of_without split: if_splits)
qed

lemma merged_ratio_values:
  assumes "foldE (ratio_merge L) m gs = Inr m'" "gs \<noteq> []" "decimal_text L"
    and "k \<notin> dg_key ` set gs" "map_of m k = Some x"
  shows "\<exists>y. map_of m' k = Some y \<and> same_decimal L x y"
proof -
  obtain g n where "ratio_merge L m g = Inr n" using assms(1,2) by (cases gs) auto
  then obtain c where "merge_group_ratios L m (dg_key g) (dg_sale_ratio g) = Inr (n, c)"
    by (auto simp: ratio_merge_def)
  then have "\<forall>(j, raw)\<in>set m. \<not> bad_ratio L raw" by (rule merge_group_ratios_Inr)
  then have "\<not> bad_ratio L x" using assms(5) by (auto dest: map_of_SomeD)
  then have "same_decimal L x x" by (auto simp: bad_ratio_def same_decimal_def split: option.splits)
  then show ?thesis
    using ratios.keeps_others [OF assms(1,4)] assms(3,5) by (cases "map_of m' k") (auto simp: ratio_kept_def)
qed

text \<open>
  Writing back the merged maps of a site does what its plan asks: when the groups have different
  keys and decimal texts keep their numbers, the merged maps pass the price and visibility check of
  the plan, and every other group of the gateway keeps its ratio and its description.
\<close>

theorem merged_groups_verify:
  assumes "foldE (ratio_merge L) (as_group_ratios before) gs = Inr m"
    and "foldE user_merge (as_user_usable_groups before) gs = Inr u"
    and "gs \<noteq> []" and "distinct (map dg_key gs)" and "decimal_text L"
    and "map_wf (as_group_ratios before)" and "map_wf (as_user_usable_groups before)"
  shows "verify_site_groups L gs (before\<lparr>as_group_ratios := m, as_user_usable_groups := u\<rparr>) True = Inr ()
    \<and> verify_unmanaged_group_ratios L (without_groups gs (as_group_ratios before)) m [] = Inr ()
    \<and> verify_unmanaged_user_groups (without_groups gs (as_user_usable_groups before)) u [] = Inr ()"
proof (intro conjI)
  show "verify_site_groups L gs (before\<lparr>as_group_ratios := m, as_user_usable_groups := u\<rparr>) True = Inr ()"
    using ratios.establishes_all [OF assms(1,4)] user_groups.establishes_all [OF assms(2,4)] assms(5)
    by (fastforce simp: verify_site_groups_Inr ratio_established_def go_get_def)
  have "\<exists>y. map_of m k = Some y \<and> same_decimal L x y"
    if "(k, x) \<in> set (without_groups gs (as_group_ratios before))" for k x
    using merged_ratio_values [OF assms(1,3,5) map_of_without_Some [OF that assms(6)]] .
  then show "verify_unmanaged_group_ratios L (without_groups gs (as_group_ratios before)) m [] = Inr ()"
    unfolding verify_unmanaged_ratios_Inr by blast
  have "map_of u k = Some x" if "(k, x) \<in> set (without_groups gs (as_user_usable_groups before))" for k x
    using user_groups.keeps_others [OF assms(2) map_of_without_Some(1) [OF that assms(7)]]
      map_of_without_Some(2) [OF that assms(7)] by simp
  then show "verify_unmanaged_user_groups (without_groups gs (as_user_usable_groups before)) u [] = Inr ()"
    unfolding verify_unmanaged_users_Inr by blast
qed

text \<open>
  C33: What the final check of a site guarantees when it passes: every group of the plan has its
  price and visibility, every other group keeps the price and the description it had before, and
  the only channel with the tag of a resource is enabled as configured, or, where the plan disables
  it, absent or manually disabled.
\<close>

theorem verify_site_state_sound:
  assumes "verify_site_state L b before after = Inr ()"
    and "map_wf (as_group_ratios before)" and "map_wf (as_user_usable_groups before)"
  defines "gs \<equiv> snapshot_groups (pl_snapshot (bn_plan b))"
  shows "(\<forall>g\<in>set gs. same_decimal L (dg_sale_ratio g) (go_get (as_group_ratios after) (dg_key g))
       \<and> map_of (as_user_usable_groups after) (dg_key g) = shown_as g)
    \<and> (\<forall>k x. k \<notin> dg_key ` set gs \<and> k \<noteq> [] \<and> map_of (as_group_ratios before) k = Some x \<longrightarrow>
         same_decimal L x (go_get (as_group_ratios after) k))
    \<and> (\<forall>k x. k \<notin> dg_key ` set gs \<and> k \<noteq> [] \<and> map_of (as_user_usable_groups before) k = Some x \<longrightarrow>
         map_of (as_user_usable_groups after) k = Some x)
    \<and> (\<forall>r\<in>set (bn_resources b). let e = sn_channel (rb_snapshot r) in
         if dc_desired_status e = DesiredDisabled
         then tagged e (as_channels after) = [] \<or>
           (\<exists>c. tagged e (as_channels after) = [c] \<and> ac_status c = ChannelManuallyDisabled)
         else \<exists>c. tagged e (as_channels after) = [c] \<and> ac_status c = ChannelEnabled
           \<and> channel_configuration_matches e c)"
proof -
  from assms(1) have v: "verify_site_groups L gs after True = Inr ()"
    "verify_unmanaged_group_ratios L (without_groups gs (as_group_ratios before)) (as_group_ratios after) [] = Inr ()"
    "verify_unmanaged_user_groups (without_groups gs (as_user_usable_groups before)) (as_user_usable_groups after) [] = Inr ()"
    "check_all (verify_resource after) (bn_resources b) = Inr ()"
    by (auto simp: verify_site_state_def Let_def gs_def)
  have entry: "(k, x) \<in> set (without_groups gs m)" if "k \<notin> dg_key ` set gs" "map_of m k = Some x" for k x m
    using that by (intro map_of_SomeD) (simp add: map_of_without)
  have res: "let e = sn_channel (rb_snapshot r) in
         if dc_desired_status e = DesiredDisabled
         then tagged e (as_channels after) = [] \<or>
           (\<exists>c. tagged e (as_channels after) = [c] \<and> ac_status c = ChannelManuallyDisabled)
         else \<exists>c. tagged e (as_channels after) = [c] \<and> ac_status c = ChannelEnabled
           \<and> channel_configuration_matches e c" if "r \<in> set (bn_resources b)" for r
  proof -
    let ?e = "sn_channel (rb_snapshot r)"
    have vr: "verify_resource after r = Inr ()" using v(4) that by simp
    then obtain x where x: "locate_managed_channel ?e (mc_external_channel_id (rb_managed_channel r)) (as_channels after) = Inr x"
      by (auto simp: verify_resource_def Let_def)
    show ?thesis
      using vr x locate_cases [OF x]
      by (auto simp: verify_resource_def Let_def split: option.splits if_splits)
  qed
  show ?thesis
  proof (intro conjI)
    show "\<forall>g\<in>set gs. same_decimal L (dg_sale_ratio g) (go_get (as_group_ratios after) (dg_key g))
       \<and> map_of (as_user_usable_groups after) (dg_key g) = shown_as g"
      using v(1) by (simp add: verify_site_groups_Inr)
    show "\<forall>k x. k \<notin> dg_key ` set gs \<and> k \<noteq> [] \<and> map_of (as_group_ratios before) k = Some x \<longrightarrow>
         same_decimal L x (go_get (as_group_ratios after) k)"
      using v(2) entry unfolding verify_unmanaged_ratios_Inr by (fastforce simp: go_get_def)
    show "\<forall>k x. k \<notin> dg_key ` set gs \<and> k \<noteq> [] \<and> map_of (as_user_usable_groups before) k = Some x \<longrightarrow>
         map_of (as_user_usable_groups after) k = Some x"
      using v(3) entry unfolding verify_unmanaged_users_Inr by fast
    show "\<forall>r\<in>set (bn_resources b). let e = sn_channel (rb_snapshot r) in
         if dc_desired_status e = DesiredDisabled
         then tagged e (as_channels after) = [] \<or>
           (\<exists>c. tagged e (as_channels after) = [c] \<and> ac_status c = ChannelManuallyDisabled)
         else \<exists>c. tagged e (as_channels after) = [c] \<and> ac_status c = ChannelEnabled
           \<and> channel_configuration_matches e c"
      using res by blast
  qed
qed

section \<open>The properties at concrete inputs\<close>

text \<open>An instance of the library in which a decimal is its text, with the length as its value, and all
  identifiers have the same text.\<close>

definition text_libs :: "string libs" where
  "text_libs =
     \<lparr>url_parse = parse_https, url_string = print_https, uuid_string = (\<lambda>_. ''id''),
      dec_parse = Some, dec_value = (\<lambda>s. of_nat (length s)), dec_exponent = (\<lambda>_. 0),
      dec_string = id, dec_add = (@), dec_div = (\<lambda>x y. x), dec_of_int = (\<lambda>_. []), dec_float = (\<lambda>_. nearest 1), to_upper = id, to_lower = id,
      sha256_hex = id, time_format = (\<lambda>_. ''t''), nfkc = id, is_punct = (\<lambda>_. False), uuid_parse = (\<lambda>_. None)\<rparr>"

definition sample_desired_group :: desired_group where
  "sample_desired_group = \<lparr>dg_key = ''g'', dg_display_name = ''G'', dg_sale_ratio = ''12'', dg_visible = True\<rparr>"

definition sample_desired_channel :: desired_channel where
  "sample_desired_channel = \<lparr>dc_id = 6, dc_managed_tag = ''tag'', dc_name = ''n'', dc_protocol = protocol_openai,
     dc_base_url = ''https://h/x'', dc_credential_id = 9, dc_credential_version = 1,
     dc_models = [\<lparr>mt_model = ''m'', mt_upstream_model = ''u''\<rparr>], dc_group_key = ''g'', dc_extra_group_keys = [],
     dc_priority = 0, dc_weight = 100, dc_desired_status = DesiredEnabled\<rparr>"

definition sample_state :: "string_map \<Rightarrow> string_map \<Rightarrow> actual_channel list \<Rightarrow> actual_state" where
  "sample_state ratios users channels =
     \<lparr>as_version = ''v'', as_group_ratios = ratios, as_user_usable_groups = users, as_channels = channels\<rparr>"

definition sample_actual_channel :: actual_channel where
  "sample_actual_channel = \<lparr>ac_id = 4, ac_managed_tag = ''tag'', ac_name = ''n'', ac_protocol = protocol_openai,
     ac_base_url = ''https://h/x'', ac_models = [''m''], ac_model_mapping = [(''m'', ''u'')], ac_groups = [''g''],
     ac_priority = 0, ac_weight = 100, ac_status = ChannelEnabled, ac_credential_version = 1\<rparr>"

definition sample_before :: actual_state where
  "sample_before = sample_state [(''g'', ''1''), (''o'', ''22'')] [(''o'', ''Other'')] []"

theorem merged_groups_verify_witness:
  "verify_site_groups text_libs [sample_desired_group]
     (sample_before\<lparr>as_group_ratios := [(''g'', ''12''), (''o'', ''22'')],
        as_user_usable_groups := [(''o'', ''Other''), (''g'', ''G'')]\<rparr>) True = Inr ()"
  using merged_groups_verify [of text_libs sample_before "[sample_desired_group]" "[(''g'', ''12''), (''o'', ''22'')]"
      "[(''o'', ''Other''), (''g'', ''G'')]"]
  by (simp add: text_libs_def sample_before_def sample_state_def sample_desired_group_def ratio_merge_def user_merge_def
      merge_group_ratios_def merge_user_usable_groups_def decimal_text_def map_wf_def Let_def)

definition sample_credential :: credential_record where
  "sample_credential = \<lparr>cr_id = 9, cr_purpose = PurposeSupplierAPIKey, cr_ciphertext = [], cr_nonce = [], cr_key_version = 1\<rparr>"

definition sample_resource :: "desired_channel \<Rightarrow> resource_bundle" where
  "sample_resource e =
     \<lparr>rb_snapshot = Snapshot 1 3 5 8 sample_desired_group e [] [] [] [] [] [],
      rb_managed_channel = \<lparr>mc_id = 6, mc_relation_id = 5, mc_managed_tag = ''tag'', mc_external_channel_id = Some 4,
        mc_last_confirmed_plan_version = None, mc_last_confirmed_credential_id = 0,
        mc_last_confirmed_credential_version = 0, mc_last_confirmed_enabled = None, mc_created_at = time_zero, mc_updated_at = time_zero\<rparr>,
      rb_supplier_credential = sample_credential, rb_credential_available = True\<rparr>"

definition sample_bundle :: "operation_status \<Rightarrow> sync_bundle" where
  "sample_bundle st =
     \<lparr>bn_operation = \<lparr>op_id = 1, op_site_id = 3, op_relation_id = 5, op_route_plan_id = 2, op_status = st, op_attempt = 1\<rparr>,
      bn_site = \<lparr>st_id = 3, st_code = ''c'', st_name = ''n'', st_base_url = ''https://h/x'', st_admin_credential_id = 7,
        st_admin_user_id = 1, st_status = SiteEnabled, st_compatibility = CompatibilityCompatible, st_version = 1,
        st_created_at = time_zero, st_updated_at = time_zero\<rparr>,
      bn_plan = \<lparr>pl_id = 2, pl_site_id = 3, pl_relation_id = 5, pl_version = 1, pl_previous_plan_id = None, pl_reason = '''',
        pl_snapshot = Snapshot 2 3 5 8 sample_desired_group sample_desired_channel
          [rb_snapshot (sample_resource sample_desired_channel)] [] [] [] [] [],
        pl_snapshot_json = '''', pl_content_hash = '''', pl_status = PlanPending, pl_created_at = time_zero,
        pl_confirmed_at = None\<rparr>,
      bn_managed_channel = rb_managed_channel (sample_resource sample_desired_channel),
      bn_admin_credential = sample_credential, bn_supplier_credential = sample_credential, bn_current_plan_id = 2,
      bn_resources = [sample_resource sample_desired_channel]\<rparr>"

definition sample_after :: actual_state where
  "sample_after = sample_state [(''g'', ''12''), (''o'', ''22'')] [(''o'', ''Other''), (''g'', ''G'')] [sample_actual_channel]"

lemmas sample_defs = text_libs_def sample_desired_group_def sample_desired_channel_def sample_state_def
  sample_actual_channel_def sample_before_def sample_credential_def sample_resource_def sample_bundle_def sample_after_def

lemmas verify_defs = verify_site_groups_def verify_site_group_def verify_resource_def locate_managed_channel_def
  channel_configuration_matches_def maps_equal_def expected_mapping_def channel_group_keys_def go_get_def
  snapshot_groups_def resource_snapshots_def site_snapshot_schema_version_def same_decimal_def
  verify_unmanaged_group_ratios_def verify_unmanaged_user_groups_def without_groups_def

lemma sample_verified_groups:
  "verify_site_groups text_libs (snapshot_groups (pl_snapshot (bn_plan (sample_bundle OperationPending)))) sample_after True = Inr ()"
  by (simp add: verify_defs sample_defs)

lemma sample_verified_resources: "check_all (verify_resource sample_after) (bn_resources (sample_bundle OperationPending)) = Inr ()"
  by (simp add: verify_defs sample_defs)

lemma sample_verified: "verify_site_state text_libs (sample_bundle OperationPending) sample_before sample_after = Inr ()"
  using sample_verified_groups sample_verified_resources by (simp add: verify_site_state_def Let_def verify_defs sample_defs)

theorem verify_site_state_sound_witness:
  "tagged sample_desired_channel (as_channels sample_after) = [sample_actual_channel]
   \<and> same_decimal text_libs ''22'' (go_get (as_group_ratios sample_after) ''o'')"
proof -
  have "map_wf (as_group_ratios sample_before)" "map_wf (as_user_usable_groups sample_before)" by code_simp+
  note p = verify_site_state_sound [OF sample_verified this]
  have d: "tagged sample_desired_channel (as_channels sample_after) = [sample_actual_channel]" by code_simp
  from p have "same_decimal text_libs ''22'' (go_get (as_group_ratios sample_after) ''o'')"
    by (simp add: sample_before_def sample_state_def sample_bundle_def snapshot_groups_def resource_snapshots_def
        site_snapshot_schema_version_def sample_resource_def sample_desired_group_def)
  with d show ?thesis by simp
qed

end
