(* ===== verification/Steps.thy ===== *)
theory Steps imports Effects Diff begin

text \<open>
  \<open>internal/application/reconciliation/steps.go\<close> and the helpers of
  \<open>site_service.go\<close> every synchronisation uses: recording a step, ending an operation with a
  failure (classification, retry schedule, persistence), opening the gateway and reading the
  billing basis.
\<close>

section \<open>Retries\<close>

text \<open>\<open>retryDelay\<close>, in nanoseconds.\<close>

definition retry_delay :: "int \<Rightarrow> int" where
  "retry_delay attempt =
     (let a = (if attempt < 1 then 1 else attempt); b = (if 6 < a then 6 else a) in
      2 ^ nat (b - 1) * 30 * nanos_per_second)"

definition classify_failure :: "go_error \<Rightarrow> failure" where
  "classify_failure e = (case as_failure e of Some f \<Rightarrow> f | None \<Rightarrow> fail FailureRetryable ''internal_error'')"

definition retried :: "failure_kind \<Rightarrow> bool" where
  "retried k \<longleftrightarrow> k = FailureRetryable \<or> k = FailureUncertain"

section \<open>Recording\<close>

definition record_success :: "'w env \<Rightarrow> uuid \<Rightarrow> string \<Rightarrow> instant \<Rightarrow> ('w, 'r, go_error option) prog" where
  "record_success E op key started =
     bindP (clock E) (\<lambda>finished.
       let r = \<lparr>sr_operation_id = op, sr_key = key, sr_status = StepSucceeded, sr_error_code = [],
                sr_started_at = started, sr_finished_at = Some finished\<rparr> in
       observed (EvStep r) (e_step E r))"

definition failed_step :: "sync_bundle \<Rightarrow> string \<Rightarrow> failure \<Rightarrow> instant \<Rightarrow> step_record" where
  "failed_step b step f now =
     \<lparr>sr_operation_id = op_id (bn_operation b), sr_key = step,
      sr_status = (if fl_kind f = FailureUncertain then StepUncertain else StepFailed),
      sr_error_code = fl_code f, sr_started_at = now, sr_finished_at = Some now\<rparr>"

definition failure_of :: "sync_bundle \<Rightarrow> string \<Rightarrow> failure \<Rightarrow> instant \<Rightarrow> failure_record" where
  "failure_of b step f now =
     \<lparr>fr_operation_id = op_id (bn_operation b), fr_site_id = op_site_id (bn_operation b),
      fr_relation_id = op_relation_id (bn_operation b), fr_route_plan_id = op_route_plan_id (bn_operation b),
      fr_kind = fl_kind f, fr_step = step, fr_code = fl_code f,
      fr_next_attempt_at = (if retried (fl_kind f)
        then Some (time_add now (retry_delay (op_attempt (bn_operation b) + 1))) else None),
      fr_occurred_at = now\<rparr>"

definition wrapped :: "string \<Rightarrow> go_error option \<Rightarrow> go_error list" where
  "wrapped m r = (case r of None \<Rightarrow> [] | Some e \<Rightarrow> [ErrWrap m e])"

definition finish_failure :: "'w env \<Rightarrow> sync_bundle \<Rightarrow> string \<Rightarrow> go_error \<Rightarrow> ('w, 'r, go_error option) prog" where
  "finish_failure E b step err =
     (let f = classify_failure err in
      bindP (clock E) (\<lambda>now.
      bindP (observed (EvStep (failed_step b step f now)) (e_step E (failed_step b step f now))) (\<lambda>record_err.
      bindP (observed (EvFail (failure_of b step f now)) (e_fail E (failure_of b step f now))) (\<lambda>persist_err.
      if record_err \<noteq> None \<or> persist_err \<noteq> None
      then ret (Some (ErrJoin (ErrFailure f # wrapped ''record synchronization failure step'' record_err
             @ wrapped ''persist synchronization failure'' persist_err)))
      else if retried (fl_kind f) then ret (Some (ErrFailure f))
      else ret None))))"

text \<open>\<open>return NewFailure(...)\<close> through \<open>finishFailure\<close>, \<open>return err\<close> and
  \<open>return fmt.Errorf("...: %w", err)\<close>.\<close>

definition give_up :: "'w env \<Rightarrow> sync_bundle \<Rightarrow> string \<Rightarrow> failure \<Rightarrow> ('w, go_error option, 'a) prog" where
  "give_up E b step f = bindP (finish_failure E b step (ErrFailure f)) exit"

definition return_error :: "go_error \<Rightarrow> ('w, 'r, go_error option) prog" where
  "return_error e = ret (Some e)"

definition return_wrapped :: "string \<Rightarrow> go_error \<Rightarrow> ('w, 'r, go_error option) prog" where
  "return_wrapped m e = ret (Some (ErrWrap m e))"

definition resource_step :: "'d libs \<Rightarrow> resource_bundle \<Rightarrow> string \<Rightarrow> string" where
  "resource_step L r action = uuid_string L (sn_relation_id (rb_snapshot r)) @ '':'' @ action"

definition finish_resource_failure ::
  "'d libs \<Rightarrow> 'w env \<Rightarrow> sync_bundle \<Rightarrow> resource_bundle \<Rightarrow> string \<Rightarrow> go_error \<Rightarrow> ('w, 'r, go_error option) prog" where
  "finish_resource_failure L E b r action e =
     finish_failure E (b\<lparr>bn_operation := (bn_operation b)\<lparr>op_relation_id := sn_relation_id (rb_snapshot r)\<rparr>\<rparr>)
       (resource_step L r action) e"

section \<open>The gateway\<close>

definition decrypt :: "'w env \<Rightarrow> credential_record \<Rightarrow> ('w, 'r, go_error + bytes) prog" where
  "decrypt E c = observed (\<lambda>_. EvDecrypt c) (e_decrypt E c)"

definition new_gateway :: "'w env \<Rightarrow> sync_bundle \<Rightarrow> bytes \<Rightarrow> ('w, 'r, go_error + 'w gateway) prog" where
  "new_gateway E b secret =
     (case e_site_gateway E of
        Some new \<Rightarrow>
          let user = (if st_admin_user_id (bn_site b) = 0 then 1 else st_admin_user_id (bn_site b)) in
          silent (new (st_base_url (bn_site b)) secret user)
      | None \<Rightarrow> silent (e_gateway E (st_base_url (bn_site b)) secret))"

definition probe :: "'w gateway \<Rightarrow> ('w, 'r, go_error + string) prog" where
  "probe G = observed EvProbe (g_probe G)"

definition read_actual :: "'w gateway \<Rightarrow> ('w, 'r, go_error + actual_state) prog" where
  "read_actual G = observed EvRead (g_read G)"

definition set_ratios :: "'w gateway \<Rightarrow> string_map \<Rightarrow> ('w, 'r, go_error option) prog" where
  "set_ratios G m = observed (EvSetRatios m) (g_set_ratios G m)"

definition set_users :: "'w gateway \<Rightarrow> string_map \<Rightarrow> ('w, 'r, go_error option) prog" where
  "set_users G m = observed (EvSetUsers m) (g_set_users G m)"

definition create_channel :: "'w gateway \<Rightarrow> desired_channel \<Rightarrow> bytes \<Rightarrow> ('w, 'r, go_error option) prog" where
  "create_channel G d secret = observed (EvCreate d) (g_create G d secret)"

definition update_channel :: "'w gateway \<Rightarrow> int \<Rightarrow> desired_channel \<Rightarrow> bytes \<Rightarrow> ('w, 'r, go_error option) prog" where
  "update_channel G i d secret = observed (EvUpdate i d) (g_update G i d secret)"

definition test_channel :: "'w gateway \<Rightarrow> int \<Rightarrow> string \<Rightarrow> bytes \<Rightarrow> ('w, 'r, go_error option) prog" where
  "test_channel G i m secret = observed (EvTest i m) (g_test G i m secret)"

definition set_enabled :: "'w gateway \<Rightarrow> int \<Rightarrow> bool \<Rightarrow> ('w, 'r, go_error option) prog" where
  "set_enabled G i b = observed (EvEnable i b) (g_enable G i b)"

definition bind_channel :: "'w env \<Rightarrow> uuid \<Rightarrow> int \<Rightarrow> ('w, 'r, go_error option) prog" where
  "bind_channel E ch i = bindP (clock E) (\<lambda>now. observed (EvBind ch i) (e_bind E ch i now))"

definition verify_billing_basis :: "'w gateway \<Rightarrow> string \<Rightarrow> ('w, 'r, go_error option) prog" where
  "verify_billing_basis G expected =
     (case g_basis G of
        None \<Rightarrow> ret (Some (ErrFailure (fail FailureCompatibility ''billing_basis_unavailable'')))
      | Some read \<Rightarrow>
          bindP (observed EvBasis read) (\<lambda>r. case r of
            Inl e \<Rightarrow> ret (Some e)
          | Inr actual \<Rightarrow>
              if actual \<noteq> expected
              then ret (Some (ErrFailure (fail FailureConfiguration ''billing_basis_changed'')))
              else ret None))"

section \<open>Which events the helpers add\<close>

text \<open>Writes to the gateway, and the bookkeeping of steps and failures.\<close>

fun gateway_write :: "event \<Rightarrow> bool" where
  "gateway_write (EvSetRatios m r) = True"
| "gateway_write (EvSetUsers m r) = True"
| "gateway_write (EvCreate d r) = True"
| "gateway_write (EvUpdate i d r) = True"
| "gateway_write (EvTest i m r) = True"
| "gateway_write (EvEnable i b r) = True"
| "gateway_write (EvApply q r) = True"
| "gateway_write e = False"

fun bookkeeping :: "event \<Rightarrow> bool" where
  "bookkeeping (EvStep s r) = True"
| "bookkeeping (EvFail f r) = True"
| "bookkeeping e = False"

lemma only_record_success:
  assumes "\<And>s r. p (EvStep s r)"
  shows "only p (record_success E op key started)"
  unfolding record_success_def by (intro only_rules assms)

lemma only_finish_failure:
  assumes "\<And>s r. p (EvStep s r)" "\<And>f r. p (EvFail f r)"
  shows "only p (finish_failure E b step e)"
  unfolding finish_failure_def by (intro only_rules assms)

lemma only_give_up:
  assumes "\<And>s r. p (EvStep s r)" "\<And>f r. p (EvFail f r)"
  shows "only p (give_up E b step f)"
  unfolding give_up_def by (intro only_rules only_finish_failure assms)

lemma only_finish_resource_failure:
  assumes "\<And>s r. p (EvStep s r)" "\<And>f r. p (EvFail f r)"
  shows "only p (finish_resource_failure L E b r action e)"
  unfolding finish_resource_failure_def by (intro only_finish_failure assms)

lemma only_verify_billing_basis:
  assumes "\<And>r. p (EvBasis r)"
  shows "only p (verify_billing_basis G expected)"
  unfolding verify_billing_basis_def by (intro only_rules assms)

lemma only_new_gateway: "only p (new_gateway E b secret)"
  unfolding new_gateway_def by (intro only_rules)

lemma only_calls:
  "(\<And>c. p (EvDecrypt c)) \<Longrightarrow> only p (decrypt E c)"
  "(\<And>r. p (EvProbe r)) \<Longrightarrow> only p (probe G)"
  "(\<And>r. p (EvRead r)) \<Longrightarrow> only p (read_actual G)"
  "(\<And>m r. p (EvSetRatios m r)) \<Longrightarrow> only p (set_ratios G m)"
  "(\<And>m r. p (EvSetUsers m r)) \<Longrightarrow> only p (set_users G m)"
  "(\<And>d r. p (EvCreate d r)) \<Longrightarrow> only p (create_channel G d s)"
  "(\<And>i d r. p (EvUpdate i d r)) \<Longrightarrow> only p (update_channel G i d s)"
  "(\<And>i m r. p (EvTest i m r)) \<Longrightarrow> only p (test_channel G i model s)"
  "(\<And>i b r. p (EvEnable i b r)) \<Longrightarrow> only p (set_enabled G i b)"
  "(\<And>i c r. p (EvBind i c r)) \<Longrightarrow> only p (bind_channel E ch i)"
  by (simp_all add: decrypt_def probe_def read_actual_def set_ratios_def set_users_def create_channel_def
      update_channel_def test_channel_def set_enabled_def bind_channel_def only_rules)

lemma only_returns: "only p (return_error e)" "only p (return_wrapped m e)"
  by (simp_all add: return_error_def return_wrapped_def only_ret)

lemmas only_steps = only_rules only_record_success only_finish_failure only_give_up only_finish_resource_failure
  only_verify_billing_basis only_new_gateway only_calls only_returns

section \<open>Properties of the retry schedule\<close>

lemma retry_delay_cases: "retry_delay a = 2 ^ nat (max 0 (min 5 (a - 1))) * 30 * nanos_per_second"
proof -
  consider "a < 1" | "1 \<le> a" "a \<le> 6" | "6 < a" by linarith
  then show ?thesis by cases (simp_all add: retry_delay_def Let_def)
qed

text \<open>
  The retry delay starts at 30 seconds, never decreases with the attempt, doubles from one
  attempt to the next until it reaches 16 minutes, and stays there.
\<close>

theorem retry_delay_schedule:
  "30 * nanos_per_second \<le> retry_delay a \<and> retry_delay a \<le> 16 * nanos_per_minute
   \<and> retry_delay a \<le> retry_delay (a + 1)
   \<and> (retry_delay (a + 1) = (if 1 \<le> a \<and> a < 6 then 2 * retry_delay a else retry_delay a))"
proof -
  consider "a < 1" | "1 \<le> a" "a < 6" | "6 \<le> a" by linarith
  then show ?thesis
  proof cases
    case 2
    then have "a = 1 \<or> a = 2 \<or> a = 3 \<or> a = 4 \<or> a = 5" by linarith
    then show ?thesis by (auto simp: retry_delay_cases nanos_per_minute_def nanos_per_second_def)
  qed (simp_all add: retry_delay_cases nanos_per_minute_def nanos_per_second_def)
qed

text \<open>All failures in the tree of an error, depth first, and the one an operation ends with: the first,
  and for an error without any a retryable internal error.\<close>

fun failures_in :: "go_error \<Rightarrow> failure list" where
  "failures_in (ErrFailure f) = [f]"
| "failures_in (ErrWrap m e) = failures_in e"
| "failures_in (ErrJoin es) = concat (map failures_in es)"
| "failures_in (ErrPlain m) = []"

definition ending_failure :: "go_error \<Rightarrow> failure" where
  "ending_failure e =
     (case failures_in e of f # _ \<Rightarrow> f | [] \<Rightarrow> fail FailureRetryable ''internal_error'')"

lemma first_failure:
  "as_failure e = (case failures_in e of [] \<Rightarrow> None | f # _ \<Rightarrow> Some f)"
  "as_failure_list es = (case concat (map failures_in es) of [] \<Rightarrow> None | f # _ \<Rightarrow> Some f)"
  by (induction e and es rule: as_failure_as_failure_list.induct) (auto split: list.splits option.splits simp del: concat_eq_Nil_conv Nil_eq_concat_conv)

lemma classify_ending: "classify_failure e = ending_failure e"
  by (simp add: classify_failure_def ending_failure_def first_failure split: list.split)

text \<open>
  C34: Ending an operation with an error records the step and the failure, in this order and nothing
  else, with the kind and code of the first failure in the error tree, depth first (an error without
  any counts as retryable).  The step is uncertain exactly for an uncertain failure; the operation gets
  a next attempt, after the delay of that attempt, exactly for the retryable and uncertain kinds; and
  the caller gets an error back, with the same first failure, exactly for those kinds or when
  recording itself failed.
\<close>

theorem finish_failure_effect:
  "safe (finish_failure E b step e) t (\<lambda>out t'.
     let f = ending_failure e; again = (fl_kind f = FailureRetryable \<or> fl_kind f = FailureUncertain);
         op = bn_operation b in
     \<exists>now s d r1 r2. t' = [EvFail d r2, EvStep s r1] @ t
       \<and> sr_operation_id s = op_id op \<and> sr_key s = step \<and> sr_error_code s = fl_code f
       \<and> sr_status s = (if fl_kind f = FailureUncertain then StepUncertain else StepFailed)
       \<and> fr_operation_id d = op_id op \<and> fr_relation_id d = op_relation_id op \<and> fr_step d = step
       \<and> fr_kind d = fl_kind f \<and> fr_code d = fl_code f \<and> fr_occurred_at d = now
       \<and> fr_next_attempt_at d = (if again then Some (time_add now (retry_delay (op_attempt op + 1))) else None)
       \<and> (\<exists>x. out = Value x \<and> (x = None \<longleftrightarrow> \<not> again \<and> r1 = None \<and> r2 = None)
            \<and> (case x of None \<Rightarrow> True | Some err \<Rightarrow> ending_failure err = f)))"
  unfolding finish_failure_def Let_def classify_ending
  by (auto intro!: safe_bind safe_clock safe_observed simp: failure_of_def failed_step_def retried_def ending_failure_def)

end
