(* ===== verification/FakeGateway.thy ===== *)
theory FakeGateway imports Steps begin

text \<open>
  A concrete environment for evaluating the synchronisation: the world is the state of a gateway
  that carries out every call, the store accepts every record and loads a given bundle, the clock
  stands still.
\<close>

definition channel_of :: "int \<Rightarrow> channel_status \<Rightarrow> desired_channel \<Rightarrow> actual_channel" where
  "channel_of i st d =
     \<lparr>ac_id = i, ac_managed_tag = dc_managed_tag d, ac_name = dc_name d, ac_protocol = dc_protocol d,
      ac_base_url = dc_base_url d, ac_models = map mt_model (dc_models d),
      ac_model_mapping = expected_mapping (dc_models d), ac_groups = channel_group_keys d,
      ac_priority = dc_priority d, ac_weight = dc_weight d, ac_status = st,
      ac_credential_version = dc_credential_version d\<rparr>"

definition set_channel :: "int \<Rightarrow> (actual_channel \<Rightarrow> actual_channel) \<Rightarrow> actual_state \<Rightarrow> actual_state" where
  "set_channel i f s = s\<lparr>as_channels := map (\<lambda>c. if ac_id c = i then f c else c) (as_channels s)\<rparr>"

definition fake_gateway :: "actual_state managed_gateway option \<Rightarrow> actual_state gateway" where
  "fake_gateway managed =
     \<lparr>g_probe = (\<lambda>s. (Inr (as_version s), s)),
      g_read = (\<lambda>s. (Inr s, s)),
      g_set_ratios = (\<lambda>m s. (None, s\<lparr>as_group_ratios := m\<rparr>)),
      g_set_users = (\<lambda>m s. (None, s\<lparr>as_user_usable_groups := m\<rparr>)),
      g_create = (\<lambda>d k s. (None, s\<lparr>as_channels := as_channels s
        @ [channel_of (4 + int (length (as_channels s))) ChannelManuallyDisabled d]\<rparr>)),
      g_update = (\<lambda>i d k s. (None, set_channel i (\<lambda>c. channel_of i (ac_status c) d) s)),
      g_test = (\<lambda>i m k s. (None, s)),
      g_enable = (\<lambda>i b s. (None, set_channel i
        (\<lambda>c. c\<lparr>ac_status := (if b then ChannelEnabled else ChannelManuallyDisabled)\<rparr>) s)),
      g_basis = Some (\<lambda>s. (Inr ''basis'', s)),
      g_managed = managed\<rparr>"

definition fake_store :: "actual_state site_store" where
  "fake_store =
     \<lparr>ss_supersede = (\<lambda>b t s. (None, s)), ss_confirm = (\<lambda>b c t s. (None, s)),
      ss_prices = (\<lambda>b t s. (None, s)), ss_complete = (\<lambda>b t s. (None, s))\<rparr>"

definition fake_env :: "sync_bundle \<Rightarrow> actual_state gateway \<Rightarrow> actual_state env" where
  "fake_env b G =
     \<lparr>e_create_operation = (\<lambda>r i t s. (Inr (bn_operation b), s)),
      e_load = (\<lambda>i s. (Inr b, s)), e_lock = (\<lambda>i s. (Inr True, s)), e_release = (\<lambda>s. (None, s)),
      e_start = (\<lambda>o1 k t s. (None, s)), e_step = (\<lambda>r s. (None, s)), e_bind = (\<lambda>c i t s. (None, s)),
      e_complete = (\<lambda>b i t s. (None, s)), e_fail = (\<lambda>f s. (None, s)),
      e_site_store = Some fake_store, e_approved = None,
      e_decrypt = (\<lambda>c s. (Inr [1, 2], s)),
      e_gateway = (\<lambda>u k s. (Inr G, s)), e_site_gateway = None, e_dispatch = None,
      e_clock = (\<lambda>s. (time_zero, s)), e_new_id = (\<lambda>s. (9, s))\<rparr>"

text \<open>The bundle of a relation (schema 1) and of a site (schema 2).\<close>

definition relation_bundle :: "operation_status \<Rightarrow> sync_bundle" where
  "relation_bundle st = (sample_bundle st)\<lparr>bn_plan := (bn_plan (sample_bundle st))
     \<lparr>pl_snapshot := rb_snapshot (sample_resource sample_desired_channel)\<rparr>,
     bn_managed_channel := (bn_managed_channel (sample_bundle st))\<lparr>mc_external_channel_id := None\<rparr>\<rparr>"

definition fresh_resource :: resource_bundle where
  "fresh_resource = (sample_resource sample_desired_channel)
     \<lparr>rb_managed_channel := (rb_managed_channel (sample_resource sample_desired_channel))\<lparr>mc_external_channel_id := None\<rparr>\<rparr>"

definition site_bundle :: "operation_status \<Rightarrow> sync_bundle" where
  "site_bundle st = (sample_bundle st)\<lparr>bn_plan := (bn_plan (sample_bundle st))
     \<lparr>pl_snapshot := Snapshot 2 3 5 8 sample_desired_group sample_desired_channel
          [rb_snapshot fresh_resource] [] [] ''basis'' [] []\<rparr>,
     bn_resources := [fresh_resource]\<rparr>"

text \<open>The managed interface of the fake gateway.\<close>

definition fake_capabilities :: managed_sync_capabilities where
  "fake_capabilities =
     \<lparr>mcap_contract_version = managed_sync_contract_version, mcap_new_api_version = ''v1'',
      mcap_database_type = ''sqlite'',
      mcap_features = \<lparr>mf_atomic_apply = True, mf_managed_channels = True, mf_multiple_groups = True,
        mf_group_ratios = True, mf_entry_visibility = True, mf_persistent_idempotency = True,
        mf_final_state_digest = True, mf_log_read = True\<rparr>,
      mcap_limits = \<lparr>ml_max_channels = 10, ml_max_groups = 10, ml_max_models = 10, ml_max_group_key_bytes = 64,
        ml_max_request_bytes = 1000\<rparr>,
      mcap_retry_policy = \<lparr>rp_retry_times = 0, rp_status_codes = []\<rparr>,
      mcap_billing_basis = [(''m'', ''1'')], mcap_billing_basis_hash = replicate 64 CHR ''a''\<rparr>"

definition fake_managed_state :: "actual_state \<Rightarrow> managed_sync_state" where
  "fake_managed_state s =
     \<lparr>mss_state_hash = ''hash'', mss_billing_basis_hash = ''basis'', mss_actual = s, mss_conflicts = []\<rparr>"

definition fake_apply :: "managed_sync_request \<Rightarrow> actual_state \<Rightarrow> actual_state" where
  "fake_apply q s =
     s\<lparr>as_group_ratios := foldl (\<lambda>m g. AList.update (dg_key g) (dg_sale_ratio g) m) (as_group_ratios s) (msr_groups q),
       as_user_usable_groups := foldl (\<lambda>m g. fst (merge_user_usable_groups m g)) (as_user_usable_groups s) (msr_groups q),
       as_channels := map (\<lambda>c. channel_of 4 ChannelEnabled (msc_desired c)) (msr_channels q)\<rparr>"

definition fake_managed :: "actual_state managed_gateway" where
  "fake_managed =
     \<lparr>gm_capabilities = (\<lambda>s. (Inr fake_capabilities, s)), gm_read_state = (\<lambda>s. (Inr (fake_managed_state s), s)),
      gm_apply = (\<lambda>q s. (Inr \<lparr>msx_replayed = False, msx_actions = [], msx_state = fake_managed_state (fake_apply q s)\<rparr>,
        fake_apply q s))\<rparr>"

section \<open>What the sample bundles consist of\<close>

lemmas fake_defs = fake_env_def fake_gateway_def fake_store_def fake_managed_def fake_managed_state_def
  fake_apply_def fake_capabilities_def channel_of_def set_channel_def

lemma site_bundle_simps [simp]:
  "bn_resources (site_bundle st) = [fresh_resource]"
  "pl_version (bn_plan (site_bundle st)) = 1"
  "op_id (bn_operation (site_bundle st)) = 1"
  "snapshot_groups (pl_snapshot (bn_plan (site_bundle st))) = [sample_desired_group]"
  "sn_billing_basis_hash (pl_snapshot (bn_plan (site_bundle st))) = ''basis''"
  "sn_resume_relation_ids (pl_snapshot (bn_plan (site_bundle st))) = []"
  "length (sn_resources (pl_snapshot (bn_plan (site_bundle st)))) = 1"
  "op_status (bn_operation (site_bundle st)) = st"
  by (simp_all add: site_bundle_def sample_bundle_def fresh_resource_def sample_resource_def snapshot_groups_def
      resource_snapshots_def site_snapshot_schema_version_def)

lemma fresh_resource_simps [simp]:
  "sn_channel (rb_snapshot fresh_resource) = sample_desired_channel"
  "rb_credential_available fresh_resource" "mc_external_channel_id (rb_managed_channel fresh_resource) = None"
  "rb_supplier_credential fresh_resource = sample_credential" "sn_relation_id (rb_snapshot fresh_resource) = 5"
  by (simp_all add: fresh_resource_def sample_resource_def)

lemma sample_desired_channel_simps [simp]:
  "dc_desired_status sample_desired_channel = DesiredEnabled" "dc_managed_tag sample_desired_channel = ''tag''"
  "channel_group_keys sample_desired_channel = [''g'']" "dc_models sample_desired_channel = [\<lparr>mt_model = ''m'', mt_upstream_model = ''u''\<rparr>]"
  "dc_credential_version sample_desired_channel = 1"
  by (simp_all add: sample_desired_channel_def channel_group_keys_def)

lemma sample_state_simps [simp]:
  "as_group_ratios sample_before = [(''g'', ''1''), (''o'', ''22'')]"
  "as_user_usable_groups sample_before = [(''o'', ''Other'')]" "as_channels sample_before = []"
  by (simp_all add: sample_before_def sample_state_def)

lemma sample_desired_group_simps [simp]:
  "dg_key sample_desired_group = ''g''" "dg_display_name sample_desired_group = ''G''"
  "dg_sale_ratio sample_desired_group = ''12''" "dg_visible sample_desired_group"
  by (simp_all add: sample_desired_group_def)

lemma text_libs_simps [simp]:
  "dec_parse text_libs = Some" "dec_value text_libs s = of_nat (length s)" "dec_string text_libs = id"
  "uuid_string text_libs u = ''id''"
  by (simp_all add: text_libs_def)

end
