(* ===== verification/ManagedSync.thy ===== *)
theory ManagedSync imports FakeGateway begin

text \<open>
  \<open>internal/application/reconciliation/site_managed_sync.go\<close>: the synchronisation of a site
  in one atomic call, where the gateway supports the managed contract.

  The properties: which capabilities are accepted, and that a completion is recorded only for a
  state that passed the verification of the whole site against what was read before.
\<close>

section \<open>Capabilities\<close>

definition all_features :: "managed_sync_features \<Rightarrow> bool" where
  "all_features f \<longleftrightarrow> mf_atomic_apply f \<and> mf_managed_channels f \<and> mf_multiple_groups f \<and> mf_group_ratios f
     \<and> mf_entry_visibility f \<and> mf_persistent_idempotency f \<and> mf_final_state_digest f \<and> mf_log_read f"

definition model_count :: "snapshot \<Rightarrow> nat" where
  "model_count s = foldl (\<lambda>n r. n + length (dc_models (sn_channel r))) 0 (sn_resources s)"

definition max_group_bytes :: "snapshot \<Rightarrow> nat" where
  "max_group_bytes s =
     foldl (\<lambda>n g. max n (length (dg_key g)))
       (foldl (\<lambda>n r. foldl (\<lambda>n g. max n (length g)) n (channel_group_keys (sn_channel r))) 0 (sn_resources s))
       (snapshot_groups s)"

definition validate_managed_sync_capabilities :: "managed_sync_capabilities \<Rightarrow> snapshot \<Rightarrow> failure + unit" where
  "validate_managed_sync_capabilities c s =
     (if mcap_contract_version c \<noteq> managed_sync_contract_version \<or> mcap_new_api_version c = []
        \<or> \<not> all_features (mcap_features c)
      then Inl (fail FailureCompatibility ''managed_sync_incompatible'')
      else if mcap_database_type c \<noteq> ''sqlite'' \<and> mcap_database_type c \<noteq> ''mysql'' \<and> mcap_database_type c \<noteq> ''postgres''
      then Inl (fail FailureCompatibility ''managed_sync_database'')
      else let limits = mcap_limits c in
      if ml_max_channels limits < int (length (sn_resources s)) \<or> ml_max_groups limits < int (length (snapshot_groups s))
        \<or> ml_max_models limits < int (model_count s) \<or> ml_max_group_key_bytes limits < int (max_group_bytes s)
        \<or> ml_max_request_bytes limits \<le> 0
      then Inl (fail FailureCompatibility ''managed_sync_limits'')
      else if length (mcap_billing_basis_hash c) \<noteq> 64 \<or> mcap_billing_basis c = []
      then Inl (fail FailureCompatibility ''managed_sync_billing_basis'')
      else Inr ())"

definition managed_sync_legacy_fallback :: "go_error \<Rightarrow> bool" where
  "managed_sync_legacy_fallback e =
     (case as_failure e of
        None \<Rightarrow> False
      | Some f \<Rightarrow> fl_kind f = FailureAuthentication \<or> fl_code f = ''gateway_http_404'' \<or> fl_code f = ''gateway_http_503'')"

section \<open>The atomic synchronisation\<close>

definition with_version :: "string \<Rightarrow> managed_sync_state \<Rightarrow> managed_sync_state" where
  "with_version v s = s\<lparr>mss_actual := (mss_actual s)\<lparr>as_version := v\<rparr>\<rparr>"

definition managed_channel_of :: "sync_bundle \<Rightarrow> resource_bundle \<Rightarrow> bytes option \<Rightarrow> managed_sync_channel" where
  "managed_channel_of b r key =
     \<lparr>msc_desired = sn_channel (rb_snapshot r), msc_api_key = key,
      msc_resume = (sn_relation_id (rb_snapshot r) \<in> set (sn_resume_relation_ids (pl_snapshot (bn_plan b))))\<rparr>"

text \<open>The loop that decrypts the keys and fills the request.\<close>

primrec request_channels ::
  "'d libs \<Rightarrow> 'w env \<Rightarrow> sync_bundle \<Rightarrow> resource_bundle list \<Rightarrow> managed_sync_channel list
   \<Rightarrow> ('w, go_error option, managed_sync_channel list) prog" where
  "request_channels L E b [] acc = ret acc"
| "request_channels L E b (r # rs) acc =
     (if dc_desired_status (sn_channel (rb_snapshot r)) = DesiredEnabled \<and> \<not> rb_credential_available r
      then bindP (finish_resource_failure L E b r ''managed_sync_credential''
             (ErrFailure (fail FailureAuthentication ''credential_unavailable''))) exit
      else if rb_credential_available r
      then bindP (try_value (decrypt E (rb_supplier_credential r)) (\<lambda>_.
             finish_resource_failure L E b r ''managed_sync_credential''
               (ErrFailure (fail FailureAuthentication ''credential_unavailable''))))
             (\<lambda>secret. request_channels L E b rs (acc @ [managed_channel_of b r (Some secret)]))
      else request_channels L E b rs (acc @ [managed_channel_of b r None]))"

text \<open>The loop that confirms the resources.\<close>

primrec confirm_resources ::
  "'d libs \<Rightarrow> 'w env \<Rightarrow> 'w site_store \<Rightarrow> sync_bundle \<Rightarrow> actual_state \<Rightarrow> actual_state \<Rightarrow> instant
   \<Rightarrow> resource_bundle list \<Rightarrow> ('w, go_error option, unit) prog" where
  "confirm_resources L E S b before after now [] = ret ()"
| "confirm_resources L E S b before after now (r # rs) =
     (let e = sn_channel (rb_snapshot r) in
      bindP (try_value (pureE (locate_managed_channel e (mc_external_channel_id (rb_managed_channel r)) (as_channels after)))
        (finish_resource_failure L E b r ''managed_sync_confirm'')) (\<lambda>channel.
      let previous = find (\<lambda>c. ac_managed_tag c = dc_managed_tag e) (rev (as_channels before));
          applied = (rb_credential_available r \<and>
            (case previous of None \<Rightarrow> True | Some c \<Rightarrow> ac_credential_version c \<noteq> dc_credential_version e));
          c = \<lparr>rc_resource = r, rc_external_channel_id = map_option ac_id channel, rc_credential_applied = applied\<rparr> in
      bindP (try_call (observed (EvConfirm c) (ss_confirm S b c now)) (return_wrapped ''confirm managed sync resource'')) (\<lambda>_.
      bindP (try_call (record_success E (op_id (bn_operation b)) (resource_step L r ''managed_batch_confirmed'') now)
        return_error) (\<lambda>_.
      confirm_resources L E S b before after now rs))))"

definition managed_request :: "sync_bundle \<Rightarrow> managed_sync_state \<Rightarrow> managed_sync_channel list \<Rightarrow> managed_sync_request" where
  "managed_request b before channels =
     \<lparr>msr_operation_id = op_id (bn_operation b), msr_route_plan_version = pl_version (bn_plan b),
      msr_expected_state_hash = mss_state_hash before, msr_channels = channels,
      msr_groups = snapshot_groups (pl_snapshot (bn_plan b))\<rparr>"

text \<open>What follows the verification of the state after the call.\<close>

definition confirm_managed ::
  "'d libs \<Rightarrow> 'w env \<Rightarrow> 'w site_store \<Rightarrow> sync_bundle \<Rightarrow> actual_state \<Rightarrow> actual_state
   \<Rightarrow> ('w, go_error option, go_error option) prog" where
  "confirm_managed L E S b before after =
     bindP (clock E) (\<lambda>now.
     bindP (confirm_resources L E S b before after now (bn_resources b)) (\<lambda>_.
     bindP (try_call (observed (EvPrices b) (ss_prices S b now)) (return_wrapped ''confirm managed sync prices'')) (\<lambda>_.
     bindP (try_call (record_success E (op_id (bn_operation b)) ''managed_batch_applied'' now) return_error) (\<lambda>_.
     bindP (try_call (observed (EvCompleteSite b) (ss_complete S b now))
       (return_wrapped ''confirm managed sync completion'')) (\<lambda>_.
     ret None)))))"

text \<open>Calling the gateway and checking the state it answers with.\<close>

definition apply_managed ::
  "'d libs \<Rightarrow> 'w env \<Rightarrow> 'w managed_gateway \<Rightarrow> string \<Rightarrow> sync_bundle \<Rightarrow> managed_sync_state
   \<Rightarrow> ('w, go_error option, actual_state) prog" where
  "apply_managed L E M version b before =
     bindP (request_channels L E b (bn_resources b) []) (\<lambda>channels.
     let q = managed_request b before channels in
     bindP (try_value (observed (EvApply q) (gm_apply M q)) (finish_failure E b ''managed_sync_apply'')) (\<lambda>result.
     let after = with_version version (msx_state result) in
     if mss_conflicts after \<noteq> []
     then give_up E b ''managed_sync_verify'' (fail FailureOwnership ''managed_resource_conflict'')
     else if mss_billing_basis_hash after \<noteq> sn_billing_basis_hash (pl_snapshot (bn_plan b))
     then give_up E b ''managed_sync_verify_basis'' (fail FailureConfiguration ''billing_basis_changed'')
     else bindP (try_value (pureE (verify_site_state L b (mss_actual before) (mss_actual after)))
       (finish_failure E b ''managed_sync_verify'')) (\<lambda>_.
     ret (mss_actual after))))"

definition run_managed_site ::
  "'d libs \<Rightarrow> 'w env \<Rightarrow> 'w site_store \<Rightarrow> 'w managed_gateway \<Rightarrow> managed_sync_capabilities \<Rightarrow> sync_bundle
   \<Rightarrow> ('w, go_error option, go_error option) prog" where
  "run_managed_site L E S M c b =
     bindP (try_value (observed EvManagedState (gm_read_state M)) (finish_failure E b ''managed_sync_read'')) (\<lambda>state.
     let before = with_version (mcap_new_api_version c) state in
     if mss_conflicts before \<noteq> []
     then give_up E b ''managed_sync_ownership'' (fail FailureOwnership ''managed_resource_conflict'')
     else if mss_billing_basis_hash before \<noteq> sn_billing_basis_hash (pl_snapshot (bn_plan b))
     then give_up E b ''managed_sync_billing_basis'' (fail FailureConfiguration ''billing_basis_changed'')
     else bindP (apply_managed L E M (mcap_new_api_version c) b before) (\<lambda>after.
       confirm_managed L E S b (mss_actual before) after))"

text \<open>\<open>tryRunManagedSite\<close>: \<open>None\<close> where the site is left to the calls of the legacy
  interface, \<open>Some\<close> with the returned error where it was handled.\<close>

definition try_run_managed_site ::
  "'d libs \<Rightarrow> 'w env \<Rightarrow> 'w site_store \<Rightarrow> 'w gateway \<Rightarrow> sync_bundle
   \<Rightarrow> ('w, 'r, go_error option option) prog" where
  "try_run_managed_site L E S G b =
     (case g_managed G of
        None \<Rightarrow> ret None
      | Some M \<Rightarrow>
          bindP (observed EvCapabilities (gm_capabilities M)) (\<lambda>r.
          case r of
            Inl e \<Rightarrow>
              if managed_sync_legacy_fallback e then ret None
              else bindP (finish_failure E b ''managed_sync_capabilities'' e) (\<lambda>x. ret (Some x))
          | Inr c \<Rightarrow> (case validate_managed_sync_capabilities c (pl_snapshot (bn_plan b)) of
              Inl f \<Rightarrow> bindP (finish_failure E b ''managed_sync_capabilities'' (ErrFailure f)) (\<lambda>x. ret (Some x))
            | Inr _ \<Rightarrow> (case e_approved E of
                None \<Rightarrow> bindP (invoke (run_managed_site L E S M c b)) (\<lambda>x. ret (Some x))
              | Some approved \<Rightarrow>
                  bindP (observed (EvApproved c) (approved (st_id (bn_site b)) c)) (\<lambda>a. case a of
                    Inl e \<Rightarrow> bindP (finish_failure E b ''managed_sync_approval'' e) (\<lambda>x. ret (Some x))
                  | Inr False \<Rightarrow> bindP (finish_failure E b ''managed_sync_approval''
                      (ErrFailure (fail FailureCompatibility ''managed_sync_unapproved''))) (\<lambda>x. ret (Some x))
                  | Inr True \<Rightarrow> bindP (invoke (run_managed_site L E S M c b)) (\<lambda>x. ret (Some x)))))))"

section \<open>What the atomic synchronisation guarantees\<close>

fun completes :: "event \<Rightarrow> bool" where
  "completes (EvComplete b i r) = True"
| "completes (EvCompleteSite b r) = True"
| "completes e = False"

lemma only_request_channels:
  assumes "\<And>c. p (EvDecrypt c)" "\<And>s r. p (EvStep s r)" "\<And>f r. p (EvFail f r)"
  shows "only p (request_channels L E b rs acc)"
  by (induction rs arbitrary: acc) (auto intro!: only_steps assms)

lemma only_confirm_resources:
  assumes "\<And>c r. p (EvConfirm c r)" "\<And>s r. p (EvStep s r)" "\<And>f r. p (EvFail f r)"
  shows "only p (confirm_resources L E S b before after now rs)"
  by (induction rs) (auto simp: Let_def intro!: only_steps assms)

text \<open>The events after the verification of the answer.\<close>

fun confirming :: "sync_bundle \<Rightarrow> event \<Rightarrow> bool" where
  "confirming b (EvConfirm c r) = True"
| "confirming b (EvStep s r) = True"
| "confirming b (EvFail f r) = True"
| "confirming b (EvPrices b' r) = (b' = b)"
| "confirming b (EvCompleteSite b' r) = (b' = b)"
| "confirming b e = False"

lemma only_confirm_managed: "only (confirming b) (confirm_managed L E S b before after)"
  unfolding confirm_managed_def by (auto intro!: only_steps only_confirm_resources)

lemma confirming_complete: "list_all (confirming b) d \<Longrightarrow> EvCompleteSite b' r \<in> set d \<Longrightarrow> b' = b"
  by (auto simp: list_all_iff)

text \<open>The state the gateway answered with was verified.\<close>

definition managed_verified ::
  "'d libs \<Rightarrow> sync_bundle \<Rightarrow> managed_sync_state \<Rightarrow> managed_sync_request \<Rightarrow> managed_sync_result \<Rightarrow> bool" where
  "managed_verified L b before q result \<longleftrightarrow>
     verify_site_state L b (mss_actual before) (mss_actual (msx_state result)) = Inr ()
     \<and> mss_conflicts before = [] \<and> mss_conflicts (msx_state result) = []
     \<and> mss_billing_basis_hash before = sn_billing_basis_hash (pl_snapshot (bn_plan b))
     \<and> mss_billing_basis_hash (msx_state result) = sn_billing_basis_hash (pl_snapshot (bn_plan b))
     \<and> msr_expected_state_hash q = mss_state_hash before
     \<and> msr_groups q = snapshot_groups (pl_snapshot (bn_plan b))"

lemma with_version_simps [simp]:
  "mss_conflicts (with_version v s) = mss_conflicts s"
  "mss_billing_basis_hash (with_version v s) = mss_billing_basis_hash s"
  "mss_state_hash (with_version v s) = mss_state_hash s"
  "as_group_ratios (mss_actual (with_version v s)) = as_group_ratios (mss_actual s)"
  "as_user_usable_groups (mss_actual (with_version v s)) = as_user_usable_groups (mss_actual s)"
  "as_channels (mss_actual (with_version v s)) = as_channels (mss_actual s)"
  by (simp_all add: with_version_def)

lemma verify_resource_channels: "as_channels x = as_channels y \<Longrightarrow> verify_resource x = verify_resource y"
  by (simp add: verify_resource_def fun_eq_iff)

lemma verify_with_version [simp]:
  "verify_site_state L b (mss_actual (with_version v s)) (mss_actual (with_version v' s'))
     = verify_site_state L b (mss_actual s) (mss_actual s')"
proof -
  have "verify_resource (mss_actual (with_version v' s')) = verify_resource (mss_actual s')"
    by (rule verify_resource_channels) simp
  moreover have "verify_site_group L (mss_actual (with_version v' s')) = verify_site_group L (mss_actual s')"
    by (simp add: verify_site_group_def fun_eq_iff)
  ultimately show ?thesis
    by (simp add: verify_site_state_def verify_site_groups_def Let_def)
qed

lemma gives_apply_managed:
  assumes "mss_conflicts before = []" "mss_billing_basis_hash before = sn_billing_basis_hash (pl_snapshot (bn_plan b))"
  shows "gives (apply_managed L E M v b before) t (\<lambda>after t'.
    \<exists>d q result. t' = EvApply q (Inr result) # d @ t \<and> list_all (\<lambda>e. \<not> completes e) d
      \<and> after = mss_actual (with_version v (msx_state result))
      \<and> verify_site_state L b (mss_actual before) after = Inr ()
      \<and> mss_conflicts (msx_state result) = []
      \<and> mss_billing_basis_hash (msx_state result) = sn_billing_basis_hash (pl_snapshot (bn_plan b))
      \<and> msr_expected_state_hash q = mss_state_hash before
      \<and> msr_groups q = snapshot_groups (pl_snapshot (bn_plan b)))"
  unfolding apply_managed_def Let_def give_up_def
proof (rule gives_bind, rule gives_only [OF only_request_channels])
  fix channels d
  assume d: "list_all (\<lambda>e. \<not> completes e) d"
  show "gives (bindP (try_value (observed (EvApply (managed_request b before channels))
      (gm_apply M (managed_request b before channels))) (finish_failure E b ''managed_sync_apply''))
     (\<lambda>result. if mss_conflicts (with_version v (msx_state result)) \<noteq> []
       then bindP (finish_failure E b ''managed_sync_verify'' (ErrFailure (fail FailureOwnership ''managed_resource_conflict''))) exit
       else if mss_billing_basis_hash (with_version v (msx_state result)) \<noteq> sn_billing_basis_hash (pl_snapshot (bn_plan b))
       then bindP (finish_failure E b ''managed_sync_verify_basis'' (ErrFailure (fail FailureConfiguration ''billing_basis_changed''))) exit
       else bindP (try_value (pureE (verify_site_state L b (mss_actual before) (mss_actual (with_version v (msx_state result)))))
         (finish_failure E b ''managed_sync_verify'')) (\<lambda>_. ret (mss_actual (with_version v (msx_state result))))))
     (d @ t) (\<lambda>after t'. \<exists>d q result. t' = EvApply q (Inr result) # d @ t \<and> list_all (\<lambda>e. \<not> completes e) d
      \<and> after = mss_actual (with_version v (msx_state result))
      \<and> verify_site_state L b (mss_actual before) after = Inr ()
      \<and> mss_conflicts (msx_state result) = []
      \<and> mss_billing_basis_hash (msx_state result) = sn_billing_basis_hash (pl_snapshot (bn_plan b))
      \<and> msr_expected_state_hash q = mss_state_hash before
      \<and> msr_groups q = snapshot_groups (pl_snapshot (bn_plan b)))"
    by (auto intro!: gives_bind_exit gives_rules split: sum.split)
      (use d in \<open>auto simp: managed_request_def\<close>)
qed simp_all

lemma only_apply_managed:
  "only (\<lambda>e. \<not> completes e) (apply_managed L E M v b before)"
  unfolding apply_managed_def Let_def by (auto intro!: only_steps only_request_channels)

lemma safe_run_managed_site:
  "safe (run_managed_site L E S M c b) t (\<lambda>out t'.
     (\<exists>d. t' = d @ t \<and> list_all (\<lambda>e. \<not> completes e) d)
     \<or> (\<exists>conf q result mid before. t' = conf @ EvApply q (Inr result) # mid @ EvManagedState (Inr before) # t
          \<and> list_all (confirming b) conf \<and> list_all (\<lambda>e. \<not> completes e) mid
          \<and> managed_verified L b before q result))"
  (is "safe _ _ ?Q")
proof -
  let ?n = "\<lambda>e. \<not> completes e"
  have none: "?Q out (d @ t)" if "list_all ?n d" for out d using that by blast
  have read: "only ?n (try_value (observed EvManagedState (gm_read_state M)) (finish_failure E b ''managed_sync_read''))"
    by (intro only_steps) simp_all
  have given: "gives (try_value (observed EvManagedState (gm_read_state M)) (finish_failure E b ''managed_sync_read'')) t
      (\<lambda>s t'. t' = EvManagedState (Inr s) # t)"
    by (auto intro!: gives_rules split: sum.split)
  have stop: "safe (give_up E b step f) (d @ t) ?Q" if "list_all ?n d" for step f d
    by (rule safe_only [OF only_give_up [where p = ?n]]) (use that none in \<open>simp_all flip: append_assoc\<close>)
  have main: "safe (bindP (apply_managed L E M v b (with_version v s))
        (\<lambda>after. confirm_managed L E S b (mss_actual (with_version v s)) after)) (EvManagedState (Inr s) # t) ?Q"
    if c: "mss_conflicts s = []" "mss_billing_basis_hash s = sn_billing_basis_hash (pl_snapshot (bn_plan b))" for s v
  proof (rule safe_phase [OF only_apply_managed gives_apply_managed])
    fix after d
    assume "\<exists>d' q result. d @ EvManagedState (Inr s) # t = EvApply q (Inr result) # d' @ EvManagedState (Inr s) # t
      \<and> list_all ?n d' \<and> after = mss_actual (with_version v (msx_state result))
      \<and> verify_site_state L b (mss_actual (with_version v s)) after = Inr ()
      \<and> mss_conflicts (msx_state result) = []
      \<and> mss_billing_basis_hash (msx_state result) = sn_billing_basis_hash (pl_snapshot (bn_plan b))
      \<and> msr_expected_state_hash q = mss_state_hash (with_version v s)
      \<and> msr_groups q = snapshot_groups (pl_snapshot (bn_plan b))"
    then obtain d' q result where r: "d @ EvManagedState (Inr s) # t = EvApply q (Inr result) # d' @ EvManagedState (Inr s) # t"
      "list_all ?n d'" "managed_verified L b s q result"
      using c by (auto simp: managed_verified_def)
    show "safe (confirm_managed L E S b (mss_actual (with_version v s)) after) (d @ EvManagedState (Inr s) # t) ?Q"
      unfolding r(1) by (rule safe_only [OF only_confirm_managed]) (use r(2,3) in blast)
  qed (use c none [of "_ @ [_]"] in \<open>simp_all\<close>)
  show ?thesis
    unfolding run_managed_site_def Let_def
  proof (rule safe_phase [OF read given])
    fix s d
    assume d: "list_all ?n d" "d @ t = EvManagedState (Inr s) # t"
    then show "safe (if mss_conflicts (with_version (mcap_new_api_version c) s) \<noteq> []
        then give_up E b ''managed_sync_ownership'' (fail FailureOwnership ''managed_resource_conflict'')
        else if mss_billing_basis_hash (with_version (mcap_new_api_version c) s) \<noteq> sn_billing_basis_hash (pl_snapshot (bn_plan b))
        then give_up E b ''managed_sync_billing_basis'' (fail FailureConfiguration ''billing_basis_changed'')
        else bindP (apply_managed L E M (mcap_new_api_version c) b (with_version (mcap_new_api_version c) s))
          (\<lambda>after. confirm_managed L E S b (mss_actual (with_version (mcap_new_api_version c) s)) after)) (d @ t) ?Q"
      using stop [of d] main [of s] by simp
  qed (use none in blast)+
qed

text \<open>
  C32: The atomic synchronisation records the completion of a site only when the state the gateway
  answered the apply call with passes the verification of the whole site against the state read
  before, has no ownership conflicts and the reviewed billing basis, and the call named the state
  hash of that read.
\<close>

theorem run_managed_site_sound:
  assumes "run_managed_site L E S M c b w [] = (out, w', t)" and "EvCompleteSite b' r \<in> set t"
  shows "b' = b \<and> (\<exists>conf q result mid before.
    t = conf @ EvApply q (Inr result) # mid @ [EvManagedState (Inr before)]
    \<and> list_all (\<lambda>e. \<not> gateway_write e) conf \<and> managed_verified L b before q result)"
proof -
  from safeD [OF safe_run_managed_site assms(1)] have "\<not> list_all (\<lambda>e. \<not> completes e) t \<Longrightarrow>
    \<exists>conf q result mid before. t = conf @ EvApply q (Inr result) # mid @ [EvManagedState (Inr before)]
      \<and> list_all (confirming b) conf \<and> list_all (\<lambda>e. \<not> completes e) mid \<and> managed_verified L b before q result"
    by auto
  moreover have "\<not> list_all (\<lambda>e. \<not> completes e) t"
    using assms(2) by (auto simp: list_all_iff intro!: bexI [of _ "EvCompleteSite b' r"])
  ultimately obtain conf q result mid before where *: "list_all (\<lambda>e. \<not> completes e) mid"
    "t = conf @ EvApply q (Inr result) # mid @ [EvManagedState (Inr before)]" "list_all (confirming b) conf"
    "managed_verified L b before q result" by blast
  have "EvCompleteSite b' r \<notin> set mid" using *(1) by (auto simp: list_all_iff)
  then have "EvCompleteSite b' r \<in> set conf" using assms(2) *(2) by simp
  then have "b' = b" by (rule confirming_complete [OF *(3)])
  moreover have "list_all (\<lambda>e. \<not> gateway_write e) conf"
    using *(3) by (induction conf) (auto elim: confirming.elims)
  ultimately show ?thesis using *(2,4) by blast
qed

lemma model_count_sum: "model_count s = sum_list (map (\<lambda>r. length (dc_models (sn_channel r))) (sn_resources s))"
proof -
  have "foldl (\<lambda>n r. n + length (dc_models (sn_channel r))) n rs = n + sum_list (map (\<lambda>r. length (dc_models (sn_channel r))) rs)"
    for n rs by (induction rs arbitrary: n) auto
  then show ?thesis by (simp add: model_count_def)
qed

lemma foldl_max_le: "foldl (\<lambda>n x. max n (f x)) n xs \<le> m \<longleftrightarrow> n \<le> m \<and> list_all (\<lambda>x. f x \<le> m) xs" for m :: nat
  by (induction xs arbitrary: n) auto

lemma max_group_bytes_le:
  "max_group_bytes s \<le> m \<longleftrightarrow>
     list_all (\<lambda>r. list_all (\<lambda>g. length g \<le> m) (channel_group_keys (sn_channel r))) (sn_resources s)
     \<and> list_all (\<lambda>g. length (dg_key g) \<le> m) (snapshot_groups s)"
proof -
  have "foldl (\<lambda>n r. foldl (\<lambda>n g. max n (length g)) n (channel_group_keys (sn_channel r))) n rs \<le> m \<longleftrightarrow>
      n \<le> m \<and> list_all (\<lambda>r. list_all (\<lambda>g. length g \<le> m) (channel_group_keys (sn_channel r))) rs" for n rs
    by (induction rs arbitrary: n) (auto simp: foldl_max_le)
  then show ?thesis by (auto simp: max_group_bytes_def foldl_max_le)
qed

text \<open>
  A gateway is synchronised through the managed contract exactly when it announces the expected
  contract with every feature, a supported database, a billing basis, and limits that the plan of
  the site keeps: channels, groups, models, and the length of every group key used by a channel or
  named by a group.
\<close>

theorem managed_capabilities_accepted:
  assumes "0 \<le> ml_max_group_key_bytes (mcap_limits c)"
  shows "validate_managed_sync_capabilities c s = Inr () \<longleftrightarrow>
    mcap_contract_version c = managed_sync_contract_version \<and> mcap_new_api_version c \<noteq> []
    \<and> all_features (mcap_features c) \<and> mcap_database_type c \<in> {''sqlite'', ''mysql'', ''postgres''}
    \<and> int (length (sn_resources s)) \<le> ml_max_channels (mcap_limits c)
    \<and> int (length (snapshot_groups s)) \<le> ml_max_groups (mcap_limits c)
    \<and> int (sum_list (map (\<lambda>r. length (dc_models (sn_channel r))) (sn_resources s))) \<le> ml_max_models (mcap_limits c)
    \<and> list_all (\<lambda>r. list_all (\<lambda>g. length g \<le> nat (ml_max_group_key_bytes (mcap_limits c)))
        (channel_group_keys (sn_channel r))) (sn_resources s)
    \<and> list_all (\<lambda>g. length (dg_key g) \<le> nat (ml_max_group_key_bytes (mcap_limits c))) (snapshot_groups s)
    \<and> 0 < ml_max_request_bytes (mcap_limits c)
    \<and> length (mcap_billing_basis_hash c) = 64 \<and> mcap_billing_basis c \<noteq> []"
proof -
  have "int (max_group_bytes s) \<le> ml_max_group_key_bytes (mcap_limits c) \<longleftrightarrow>
      max_group_bytes s \<le> nat (ml_max_group_key_bytes (mcap_limits c))"
    using assms by linarith
  then show ?thesis
    by (auto simp: validate_managed_sync_capabilities_def Let_def model_count_sum max_group_bytes_le not_less)
qed

section \<open>The properties at concrete inputs\<close>

theorem managed_capabilities_accepted_witness:
  "validate_managed_sync_capabilities fake_capabilities (pl_snapshot (bn_plan (site_bundle OperationPending))) = Inr ()"
proof -
  have "0 \<le> ml_max_group_key_bytes (mcap_limits fake_capabilities)" by code_simp
  note accepted = managed_capabilities_accepted [OF this, of "pl_snapshot (bn_plan (site_bundle OperationPending))"]
  show ?thesis unfolding accepted by code_simp
qed

definition managed_run :: "(go_error option, go_error option) outcome \<times> actual_state \<times> trace" where
  "managed_run = run_managed_site text_libs (fake_env (site_bundle OperationPending) (fake_gateway (Some fake_managed)))
     fake_store fake_managed fake_capabilities (site_bundle OperationPending) sample_before []"

lemmas run_defs = prog_defs pureE_def Let_def fake_defs record_success_def clock_def decrypt_def verify_site_state_def
  verify_site_groups_def verify_site_group_def verify_unmanaged_group_ratios_def verify_unmanaged_user_groups_def
  same_decimal_def go_get_def without_groups_def verify_resource_def locate_managed_channel_def
  channel_configuration_matches_def maps_equal_def expected_mapping_def merge_user_usable_groups_def

lemma managed_run_completes: "\<exists>r rest. snd (snd managed_run) = EvCompleteSite (site_bundle OperationPending) r # rest"
  by (simp add: managed_run_def run_managed_site_def apply_managed_def confirm_managed_def managed_request_def
      managed_channel_of_def with_version_def run_defs)

theorem run_managed_site_sound_witness:
  "\<exists>before q result. EvApply q (Inr result) \<in> set (snd (snd managed_run))
     \<and> managed_verified text_libs (site_bundle OperationPending) before q result"
proof -
  obtain out w' t where r: "managed_run = (out, w', t)" by (cases managed_run)
  obtain e rest where "snd (snd managed_run) = EvCompleteSite (site_bundle OperationPending) e # rest"
    using managed_run_completes by blast
  then have "EvCompleteSite (site_bundle OperationPending) e \<in> set t" unfolding r by simp
  from run_managed_site_sound [OF r [unfolded managed_run_def] this]
  obtain conf q result mid before where "t = conf @ EvApply q (Inr result) # mid @ [EvManagedState (Inr before)]"
    "managed_verified text_libs (site_bundle OperationPending) before q result" by blast
  then show ?thesis unfolding r by (intro exI [of _ before] exI [of _ q] exI [of _ result]) simp
qed

end
