(* ===== verification/SiteSync.thy ===== *)
theory SiteSync imports ManagedSync begin

text \<open>
  \<open>internal/application/reconciliation/site_service.go\<close> and \<open>site_resource.go\<close>: the
  synchronisation of a whole site through the calls of the legacy gateway interface - shutdowns
  first, then prices, then the channels one by one, then what users see - and the check of the
  site at the end.

  The loops over \<open>bundle.Resources\<close> work on indices, because the body writes the external
  channel id back into the slice that the following calls and the final check read.
\<close>

section \<open>One resource\<close>

definition return_inl :: "go_error \<Rightarrow> ('w, 'r, go_error + 'x) prog" where
  "return_inl e = ret (Inl e)"

definition fail_resource :: "failure_kind \<Rightarrow> string \<Rightarrow> ('w, go_error + resource_bundle, 'a) prog" where
  "fail_resource k c = exit (Inl (ErrFailure (fail k c)))"

definition with_external_id :: "int option \<Rightarrow> resource_bundle \<Rightarrow> resource_bundle" where
  "with_external_id x r = r\<lparr>rb_managed_channel := (rb_managed_channel r)\<lparr>mc_external_channel_id := x\<rparr>\<rparr>"

definition with_resource :: "nat \<Rightarrow> resource_bundle \<Rightarrow> sync_bundle \<Rightarrow> sync_bundle" where
  "with_resource i r b = b\<lparr>bn_resources := (bn_resources b)[i := r]\<rparr>"

definition locate :: "desired_channel \<Rightarrow> int option \<Rightarrow> actual_state \<Rightarrow> ('w, go_error + 'x, actual_channel option) prog" where
  "locate e binding s = try_value (pureE (locate_managed_channel e binding (as_channels s))) return_inl"

text \<open>Storing what was confirmed of a resource, and its step.\<close>

definition confirm_resource ::
  "'d libs \<Rightarrow> 'w env \<Rightarrow> 'w site_store \<Rightarrow> sync_bundle \<Rightarrow> nat \<Rightarrow> resource_confirmation \<Rightarrow> string
   \<Rightarrow> ('w, go_error + resource_bundle, go_error + resource_bundle) prog" where
  "confirm_resource L E S b i c step =
     bindP (clock E) (\<lambda>now.
     bindP (try_call (observed (EvConfirm c) (ss_confirm S (with_resource i (rc_resource c) b) c now)) return_inl) (\<lambda>_.
     bindP (clock E) (\<lambda>started.
     bindP (try_call (record_success E (op_id (bn_operation b)) (resource_step L (rc_resource c) step) started) return_inl) (\<lambda>_.
     ret (Inr (rc_resource c))))))"

text \<open>The state after \<open>SetChannelEnabled(false)\<close> must show the channel manually disabled.\<close>

definition shut_down ::
  "'w gateway \<Rightarrow> desired_channel \<Rightarrow> actual_channel \<Rightarrow> ('w, go_error + resource_bundle, unit) prog" where
  "shut_down G e c =
     bindP (if ac_status c \<noteq> ChannelManuallyDisabled then try_call (set_enabled G (ac_id c) False) return_inl else ret ()) (\<lambda>_.
     bindP (try_value (read_actual G) return_inl) (\<lambda>state.
     bindP (locate e (Some (ac_id c)) state) (\<lambda>verified.
     case verified of
       None \<Rightarrow> fail_resource FailureUncertain ''disable_unconfirmed''
     | Some v \<Rightarrow> if ac_status v \<noteq> ChannelManuallyDisabled
         then fail_resource FailureUncertain ''disable_unconfirmed'' else ret ())))"

definition disable_resource ::
  "'d libs \<Rightarrow> 'w env \<Rightarrow> 'w site_store \<Rightarrow> 'w gateway \<Rightarrow> sync_bundle \<Rightarrow> nat \<Rightarrow> resource_bundle \<Rightarrow> actual_state
   \<Rightarrow> ('w, go_error + resource_bundle, go_error + resource_bundle) prog" where
  "disable_resource L E S G b i r actual =
     (let e = sn_channel (rb_snapshot r) in
      bindP (locate e (mc_external_channel_id (rb_managed_channel r)) actual) (\<lambda>channel.
      bindP (case channel of None \<Rightarrow> ret () | Some c \<Rightarrow> shut_down G e c) (\<lambda>_.
      let r' = with_external_id (map_option ac_id channel) r in
      confirm_resource L E S b i
        \<lparr>rc_resource = r', rc_external_channel_id = map_option ac_id channel, rc_credential_applied = False\<rparr> ''disabled'')))"

definition credential_changed :: "resource_bundle \<Rightarrow> bool" where
  "credential_changed r \<longleftrightarrow>
     mc_last_confirmed_credential_id (rb_managed_channel r) \<noteq> dc_credential_id (sn_channel (rb_snapshot r))
     \<or> mc_last_confirmed_credential_version (rb_managed_channel r) \<noteq> dc_credential_version (sn_channel (rb_snapshot r))"

text \<open>The checks before a resource is written.\<close>

definition manually_locked :: "sync_bundle \<Rightarrow> resource_bundle \<Rightarrow> actual_channel option \<Rightarrow> bool" where
  "manually_locked b r channel \<longleftrightarrow>
     dc_desired_status (sn_channel (rb_snapshot r)) = DesiredEnabled
     \<and> (case channel of None \<Rightarrow> False | Some c \<Rightarrow> ac_status c = ChannelManuallyDisabled)
     \<and> mc_last_confirmed_plan_version (rb_managed_channel r) \<noteq> None
     \<and> mc_last_confirmed_enabled (rb_managed_channel r) \<noteq> Some False
     \<and> sn_relation_id (rb_snapshot r) \<notin> set (sn_resume_relation_ids (pl_snapshot (bn_plan b)))"

definition needs_write :: "resource_bundle \<Rightarrow> actual_channel option \<Rightarrow> bool" where
  "needs_write r channel \<longleftrightarrow>
     (case channel of None \<Rightarrow> True | Some c \<Rightarrow> \<not> channel_configuration_matches (sn_channel (rb_snapshot r)) c)
     \<or> credential_changed r"

text \<open>\<open>if needsWrite\<close>: creating or updating the channel, and reading it back.\<close>

definition write_resource ::
  "'w env \<Rightarrow> 'w gateway \<Rightarrow> resource_bundle \<Rightarrow> actual_channel option
   \<Rightarrow> ('w, go_error + resource_bundle, actual_channel option) prog" where
  "write_resource E G r channel =
     (let e = sn_channel (rb_snapshot r) in
      if \<not> needs_write r channel then ret channel
      else if \<not> rb_credential_available r then fail_resource FailureAuthentication ''credential_unavailable''
      else bindP (try_value (decrypt E (rb_supplier_credential r))
          (\<lambda>_. return_inl (ErrFailure (fail FailureAuthentication ''credential_unavailable'')))) (\<lambda>secret.
        bindP (case channel of
            None \<Rightarrow> try_call (create_channel G e secret) return_inl
          | Some c \<Rightarrow> try_call (update_channel G (ac_id c) e secret) return_inl) (\<lambda>_.
        bindP (try_value (read_actual G) return_inl) (\<lambda>actual.
        bindP (locate e (mc_external_channel_id (rb_managed_channel r)) actual) (\<lambda>found.
        if found = None then fail_resource FailureUncertain ''channel_create_unconfirmed'' else ret found)))))"

text \<open>Storing the external channel id where it is new.\<close>

definition bind_resource ::
  "'w env \<Rightarrow> resource_bundle \<Rightarrow> actual_channel \<Rightarrow> ('w, go_error + resource_bundle, resource_bundle) prog" where
  "bind_resource E r c =
     (if mc_external_channel_id (rb_managed_channel r) \<noteq> Some (ac_id c)
      then bindP (try_call (bind_channel E (mc_id (rb_managed_channel r)) (ac_id c)) return_inl)
             (\<lambda>_. ret (with_external_id (Some (ac_id c)) r))
      else ret r)"

text \<open>The test of the channel, and the update that makes the gateway load a new channel.\<close>

definition test_resource ::
  "'w env \<Rightarrow> 'w gateway \<Rightarrow> resource_bundle \<Rightarrow> actual_channel \<Rightarrow> bool \<Rightarrow> ('w, go_error + resource_bundle, unit) prog" where
  "test_resource E G r c wrote =
     (let e = sn_channel (rb_snapshot r);
          never_confirmed = (mc_last_confirmed_plan_version (rb_managed_channel r) = None) in
      if \<not> (wrote \<or> ac_status c \<noteq> ChannelEnabled \<or> never_confirmed) then ret ()
      else bindP (try_value (decrypt E (rb_supplier_credential r))
          (\<lambda>_. return_inl (ErrFailure (fail FailureAuthentication ''credential_unavailable'')))) (\<lambda>secret.
        case dc_models e of
          [] \<Rightarrow> panic
        | m # _ \<Rightarrow>
          bindP (try_call (test_channel G (ac_id c) (mt_model m) secret) return_inl) (\<lambda>_.
          if never_confirmed \<and> ac_status c \<noteq> ChannelEnabled
          then bindP (try_value (decrypt E (rb_supplier_credential r)) return_inl) (\<lambda>secret2.
            try_call (update_channel G (ac_id c) e secret2) return_inl)
          else ret ())))"

text \<open>The last read of the resource, its check and its confirmation.\<close>

definition settle_resource ::
  "'d libs \<Rightarrow> 'w env \<Rightarrow> 'w site_store \<Rightarrow> 'w gateway \<Rightarrow> sync_bundle \<Rightarrow> nat \<Rightarrow> resource_bundle \<Rightarrow> bool
   \<Rightarrow> ('w, go_error + resource_bundle, go_error + resource_bundle) prog" where
  "settle_resource L E S G b i r wrote =
     (let e = sn_channel (rb_snapshot r);
          expected = (if dc_desired_status e = DesiredEnabled then ChannelEnabled else ChannelManuallyDisabled) in
      bindP (try_value (read_actual G) return_inl) (\<lambda>final.
      bindP (locate e (mc_external_channel_id (rb_managed_channel r)) final) (\<lambda>verified.
      case verified of
        None \<Rightarrow> fail_resource FailureCompatibility ''channel_drift''
      | Some v \<Rightarrow>
        if ac_status v \<noteq> expected \<or> \<not> channel_configuration_matches e v
        then fail_resource FailureCompatibility ''channel_drift''
        else confirm_resource L E S b i
          \<lparr>rc_resource = r, rc_external_channel_id = Some (ac_id v), rc_credential_applied = wrote\<rparr> ''confirmed'')))"

definition apply_resource ::
  "'d libs \<Rightarrow> 'w env \<Rightarrow> 'w site_store \<Rightarrow> 'w gateway \<Rightarrow> sync_bundle \<Rightarrow> nat \<Rightarrow> resource_bundle
   \<Rightarrow> ('w, go_error + resource_bundle, go_error + resource_bundle) prog" where
  "apply_resource L E S G b i r =
     (let e = sn_channel (rb_snapshot r); target_enabled = (dc_desired_status e = DesiredEnabled) in
      bindP (try_value (read_actual G) return_inl) (\<lambda>actual.
      if target_enabled \<and> \<not> rb_credential_available r
      then fail_resource FailureAuthentication ''credential_unavailable''
      else bindP (locate e (mc_external_channel_id (rb_managed_channel r)) actual) (\<lambda>channel.
      if manually_locked b r channel then fail_resource FailureManualLock ''channel_manually_disabled''
      else let wrote = needs_write r channel in
      bindP (write_resource E G r channel) (\<lambda>written.
      case written of
        None \<Rightarrow> fail_resource FailureCompatibility ''channel_missing''
      | Some c \<Rightarrow>
        bindP (bind_resource E r c) (\<lambda>r'.
        bindP (test_resource E G r' c wrote) (\<lambda>_.
        bindP (if target_enabled \<and> ac_status c \<noteq> ChannelEnabled
               then try_call (set_enabled G (ac_id c) True) return_inl else ret ()) (\<lambda>_.
        settle_resource L E S G b i r' wrote)))))))"

section \<open>The site\<close>

text \<open>The loops over the indices of the resources.\<close>

primrec check_ownership ::
  "'d libs \<Rightarrow> 'w env \<Rightarrow> sync_bundle \<Rightarrow> actual_state \<Rightarrow> resource_bundle list \<Rightarrow> ('w, go_error option, unit) prog" where
  "check_ownership L E b actual [] = ret ()"
| "check_ownership L E b actual (r # rs) =
     bindP (try_value (pureE (locate_managed_channel (sn_channel (rb_snapshot r))
         (mc_external_channel_id (rb_managed_channel r)) (as_channels actual)))
       (finish_resource_failure L E b r ''ownership'')) (\<lambda>_.
     check_ownership L E b actual rs)"

primrec disable_resources ::
  "'d libs \<Rightarrow> 'w env \<Rightarrow> 'w site_store \<Rightarrow> 'w gateway \<Rightarrow> actual_state \<Rightarrow> nat list \<Rightarrow> sync_bundle
   \<Rightarrow> ('w, go_error option, sync_bundle) prog" where
  "disable_resources L E S G actual [] b = ret b"
| "disable_resources L E S G actual (i # is) b =
     (let r = bn_resources b ! i in
      if dc_desired_status (sn_channel (rb_snapshot r)) \<noteq> DesiredDisabled
      then disable_resources L E S G actual is b
      else bindP (try_value (invoke (disable_resource L E S G b i r actual)) (finish_resource_failure L E b r ''disable'')) (\<lambda>r'.
        disable_resources L E S G actual is (with_resource i r' b)))"

definition skipped_shutdown :: "resource_bundle \<Rightarrow> bool" where
  "skipped_shutdown r \<longleftrightarrow>
     dc_desired_status (sn_channel (rb_snapshot r)) = DesiredDisabled
     \<and> (mc_external_channel_id (rb_managed_channel r) = None \<or> \<not> credential_changed r
        \<or> mc_last_confirmed_credential_version (rb_managed_channel r) = 0
          \<and> dc_credential_version (sn_channel (rb_snapshot r)) = 1)"

primrec apply_resources ::
  "'d libs \<Rightarrow> 'w env \<Rightarrow> 'w site_store \<Rightarrow> 'w gateway \<Rightarrow> nat list \<Rightarrow> sync_bundle
   \<Rightarrow> ('w, go_error option, sync_bundle) prog" where
  "apply_resources L E S G [] b = ret b"
| "apply_resources L E S G (i # is) b =
     (let r = bn_resources b ! i in
      if skipped_shutdown r then apply_resources L E S G is b
      else bindP (try_value (invoke (apply_resource L E S G b i r)) (finish_resource_failure L E b r ''apply'')) (\<lambda>r'.
        apply_resources L E S G is (with_resource i r' b)))"

text \<open>The loops that merge the groups of the plan.\<close>

definition plan_ratios :: "'d libs \<Rightarrow> desired_group list \<Rightarrow> string_map \<Rightarrow> failure + string_map \<times> bool" where
  "plan_ratios L gs m =
     foldE (\<lambda>(m, changed) g. bindE (merge_group_ratios L m (dg_key g) (dg_sale_ratio g)) (\<lambda>(m', c). Inr (m', changed \<or> c)))
       (m, False) gs"

definition plan_users :: "desired_group list \<Rightarrow> string_map \<Rightarrow> string_map \<times> bool" where
  "plan_users gs m =
     foldl (\<lambda>(m, changed) g. case merge_user_usable_groups m g of (m', c) \<Rightarrow> (m', changed \<or> c)) (m, False) gs"

text \<open>From the reading of the baseline to the shutdowns.\<close>

definition shutdown_phase ::
  "'d libs \<Rightarrow> 'w env \<Rightarrow> 'w site_store \<Rightarrow> 'w gateway \<Rightarrow> sync_bundle \<Rightarrow> ('w, go_error option, actual_state \<times> sync_bundle) prog" where
  "shutdown_phase L E S G b =
     bindP (try_value (read_actual G) (finish_failure E b ''read_actual'')) (\<lambda>baseline.
     bindP (check_ownership L E b baseline (bn_resources b)) (\<lambda>_.
     bindP (disable_resources L E S G baseline [0..<length (bn_resources b)] b) (\<lambda>b'.
     ret (baseline, b'))))"

text \<open>The prices of the groups, up to their confirmation.\<close>

definition price_phase ::
  "'d libs \<Rightarrow> 'w env \<Rightarrow> 'w site_store \<Rightarrow> 'w gateway \<Rightarrow> sync_bundle \<Rightarrow> ('w, go_error option, unit) prog" where
  "price_phase L E S G b =
     (let s = pl_snapshot (bn_plan b); basis = sn_billing_basis_hash s in
      bindP (try_call (verify_billing_basis G basis) (finish_failure E b ''verify_billing_basis'')) (\<lambda>_.
      bindP (try_value (read_actual G) (finish_failure E b ''read_before_groups'')) (\<lambda>actual.
      bindP (try_value (pureE (plan_ratios L (snapshot_groups s) (as_group_ratios actual)))
        (finish_failure E b ''plan_group_prices'')) (\<lambda>(ratios, changed).
      bindP (if changed then try_call (set_ratios G ratios) (finish_failure E b ''set_group_prices'') else ret ()) (\<lambda>_.
      bindP (try_value (read_actual G) (finish_failure E b ''read_group_prices'')) (\<lambda>after.
      bindP (try_value (pureE (verify_site_groups L (snapshot_groups s) after False)) (finish_failure E b ''verify_group_prices'')) (\<lambda>_.
      bindP (try_call (verify_billing_basis G basis) (finish_failure E b ''verify_group_price_basis'')) (\<lambda>_.
      bindP (clock E) (\<lambda>now.
      try_call (observed (EvPrices b) (ss_prices S b now)) (return_wrapped ''confirm site prices''))))))))))"

text \<open>What users see.\<close>

definition visibility_phase :: "'w env \<Rightarrow> 'w gateway \<Rightarrow> sync_bundle \<Rightarrow> ('w, go_error option, unit) prog" where
  "visibility_phase E G b =
     bindP (try_value (read_actual G) (finish_failure E b ''read_before_visibility'')) (\<lambda>actual.
     case plan_users (snapshot_groups (pl_snapshot (bn_plan b))) (as_user_usable_groups actual) of (groups, changed) \<Rightarrow>
     if changed then try_call (set_users G groups) (finish_failure E b ''set_group_visibility'') else ret ())"

text \<open>The last read and its check against the baseline.\<close>

definition final_phase ::
  "'d libs \<Rightarrow> 'w env \<Rightarrow> 'w site_store \<Rightarrow> 'w gateway \<Rightarrow> sync_bundle \<Rightarrow> actual_state
   \<Rightarrow> ('w, go_error option, go_error option) prog" where
  "final_phase L E S G b baseline =
     bindP (try_value (read_actual G) (finish_failure E b ''final_read'')) (\<lambda>final.
     bindP (try_value (pureE (verify_site_state L b baseline final)) (finish_failure E b ''verify_site'')) (\<lambda>_.
     bindP (try_call (verify_billing_basis G (sn_billing_basis_hash (pl_snapshot (bn_plan b))))
       (finish_failure E b ''verify_final_billing_basis'')) (\<lambda>_.
     bindP (clock E) (\<lambda>now.
     bindP (try_call (observed (EvCompleteSite b) (ss_complete S b now))
       (return_wrapped ''confirm complete site synchronization'')) (\<lambda>_.
     ret None)))))"

definition sync_site ::
  "'d libs \<Rightarrow> 'w env \<Rightarrow> 'w site_store \<Rightarrow> 'w gateway \<Rightarrow> sync_bundle \<Rightarrow> ('w, go_error option, go_error option) prog" where
  "sync_site L E S G b =
     bindP (shutdown_phase L E S G b) (\<lambda>(baseline, b1).
     bindP (price_phase L E S G b1) (\<lambda>_.
     bindP (apply_resources L E S G [0..<length (bn_resources b1)] b1) (\<lambda>b2.
     bindP (visibility_phase E G b2) (\<lambda>_.
     final_phase L E S G b2 baseline))))"

definition next_attempt :: "sync_bundle \<Rightarrow> sync_bundle" where
  "next_attempt b = b\<lparr>bn_operation := (bn_operation b)\<lparr>op_attempt := op_attempt (bn_operation b) + 1\<rparr>\<rparr>"

definition run_site :: "'d libs \<Rightarrow> 'w env \<Rightarrow> sync_bundle \<Rightarrow> ('w, go_error option, go_error option) prog" where
  "run_site L E b0 =
     (case e_site_store E of
        None \<Rightarrow> exit (Some (ErrPlain ''site synchronization persistence is unavailable''))
      | Some S \<Rightarrow>
        if length (bn_resources b0) \<noteq> length (sn_resources (pl_snapshot (bn_plan b0)))
        then give_up E b0 ''load_resources'' (fail FailureConfiguration ''site_resources_missing'')
        else
        bindP (clock E) (\<lambda>now.
        bindP (try_call (observed (EvStart (bn_operation b0)) (e_start E (bn_operation b0) ''probe'' now)) return_error) (\<lambda>_.
        let b = next_attempt b0 in
        bindP (try_value (decrypt E (bn_admin_credential b)) (\<lambda>_.
          finish_failure E b ''decrypt_admin'' (ErrFailure (fail FailureAuthentication ''credential_unavailable'')))) (\<lambda>secret.
        bindP (try_value (new_gateway E b secret) (finish_failure E b ''create_gateway'')) (\<lambda>G.
        bindP (try_run_managed_site L E S G b) (\<lambda>handled.
        case handled of
          Some err \<Rightarrow> exit err
        | None \<Rightarrow> sync_site L E S G b))))))"

section \<open>Which events a site synchronisation adds\<close>

lemma only_locate: "only p (locate e binding s)"
  unfolding locate_def return_inl_def by (intro only_steps)

lemma only_inl: "only p (return_inl e)" "only p (fail_resource k c)"
  by (simp_all add: return_inl_def fail_resource_def only_rules)

lemmas only_site = only_steps only_locate only_inl

lemma only_confirm_resource:
  assumes "\<And>c r. p (EvConfirm c r)" "\<And>s r. p (EvStep s r)"
  shows "only p (confirm_resource L E S b i c step)"
  unfolding confirm_resource_def by (intro only_site assms)

lemma only_shut_down:
  assumes "\<And>i r. p (EvEnable i False r)" "\<And>r. p (EvRead r)"
  shows "only p (shut_down G e c)"
  unfolding shut_down_def set_enabled_def by (intro only_site assms)

lemma only_disable_resource:
  assumes "\<And>c r. p (EvConfirm c r)" "\<And>s r. p (EvStep s r)" "\<And>i r. p (EvEnable i False r)" "\<And>r. p (EvRead r)"
  shows "only p (disable_resource L E S G b i r actual)"
  unfolding disable_resource_def Let_def
  by (intro only_site only_confirm_resource only_shut_down assms)

lemma only_disable_resources:
  assumes "\<And>c r. p (EvConfirm c r)" "\<And>s r. p (EvStep s r)" "\<And>i r. p (EvEnable i False r)" "\<And>r. p (EvRead r)"
    and "\<And>f r. p (EvFail f r)"
  shows "only p (disable_resources L E S G actual is b)"
  by (induction "is" arbitrary: b) (auto simp: Let_def intro!: only_site only_disable_resource assms)

lemma only_check_ownership:
  assumes "\<And>s r. p (EvStep s r)" "\<And>f r. p (EvFail f r)"
  shows "only p (check_ownership L E b actual rs)"
  by (induction rs) (auto intro!: only_site assms)

lemma only_shutdown_phase:
  assumes "\<And>c r. p (EvConfirm c r)" "\<And>s r. p (EvStep s r)" "\<And>i r. p (EvEnable i False r)" "\<And>r. p (EvRead r)"
    and "\<And>f r. p (EvFail f r)"
  shows "only p (shutdown_phase L E S G b)"
  unfolding shutdown_phase_def by (intro only_site only_check_ownership only_disable_resources assms)

lemma only_price_phase:
  assumes "\<And>r. p (EvBasis r)" "\<And>r. p (EvRead r)" "\<And>m r. p (EvSetRatios m r)" "\<And>r. p (EvPrices b r)"
    and "\<And>s r. p (EvStep s r)" "\<And>f r. p (EvFail f r)"
  shows "only p (price_phase L E S G b)"
  unfolding price_phase_def Let_def by (intro only_site assms)

lemma only_write_resource:
  assumes "\<And>c. p (EvDecrypt c)" "\<And>d r. p (EvCreate d r)" "\<And>i d r. p (EvUpdate i d r)" "\<And>r. p (EvRead r)"
  shows "only p (write_resource E G r channel)"
  unfolding write_resource_def Let_def by (intro only_site assms)

lemma only_bind_resource:
  assumes "\<And>i c r. p (EvBind i c r)"
  shows "only p (bind_resource E r c)"
  unfolding bind_resource_def by (intro only_site assms)

lemma only_test_resource:
  assumes "\<And>c. p (EvDecrypt c)" "\<And>i m r. p (EvTest i m r)" "\<And>i d r. p (EvUpdate i d r)"
  shows "only p (test_resource E G r c wrote)"
  unfolding test_resource_def Let_def by (intro only_site assms)

lemma only_settle_resource:
  assumes "\<And>r. p (EvRead r)" "\<And>c r. p (EvConfirm c r)" "\<And>s r. p (EvStep s r)"
  shows "only p (settle_resource L E S G b i r wrote)"
  unfolding settle_resource_def Let_def by (intro only_site only_confirm_resource assms)

lemma only_apply_resource:
  assumes "\<And>c. p (EvDecrypt c)" "\<And>d r. p (EvCreate d r)" "\<And>i d r. p (EvUpdate i d r)" "\<And>r. p (EvRead r)"
    and "\<And>i c r. p (EvBind i c r)" "\<And>i m r. p (EvTest i m r)" "\<And>i b r. p (EvEnable i b r)"
    and "\<And>c r. p (EvConfirm c r)" "\<And>s r. p (EvStep s r)"
  shows "only p (apply_resource L E S G b i r)"
  unfolding apply_resource_def Let_def
  by (intro only_site only_write_resource only_bind_resource only_test_resource only_settle_resource assms)

lemma only_apply_resources:
  assumes "\<And>c. p (EvDecrypt c)" "\<And>d r. p (EvCreate d r)" "\<And>i d r. p (EvUpdate i d r)" "\<And>r. p (EvRead r)"
    and "\<And>i c r. p (EvBind i c r)" "\<And>i m r. p (EvTest i m r)" "\<And>i b r. p (EvEnable i b r)"
    and "\<And>c r. p (EvConfirm c r)" "\<And>s r. p (EvStep s r)" "\<And>f r. p (EvFail f r)"
  shows "only p (apply_resources L E S G is b)"
  by (induction "is" arbitrary: b) (auto simp: Let_def intro!: only_site only_apply_resource assms)

lemma only_visibility_phase:
  assumes "\<And>r. p (EvRead r)" "\<And>m r. p (EvSetUsers m r)" "\<And>s r. p (EvStep s r)" "\<And>f r. p (EvFail f r)"
  shows "only p (visibility_phase E G b)"
  unfolding visibility_phase_def by (intro only_site assms)

lemma only_final_phase:
  assumes "\<And>r. p (EvRead r)" "\<And>r. p (EvBasis r)" "\<And>r. p (EvCompleteSite b r)" "\<And>s r. p (EvStep s r)" "\<And>f r. p (EvFail f r)"
  shows "only p (final_phase L E S G b baseline)"
  unfolding final_phase_def by (intro only_site assms)

lemma only_run_managed_site:
  assumes "\<And>r. p (EvManagedState r)" "\<And>q r. p (EvApply q r)" "\<And>c. p (EvDecrypt c)" "\<And>c r. p (EvConfirm c r)"
    and "\<And>r. p (EvPrices b r)" "\<And>r. p (EvCompleteSite b r)" "\<And>s r. p (EvStep s r)" "\<And>f r. p (EvFail f r)"
  shows "only p (run_managed_site L E S M c b)"
  unfolding run_managed_site_def apply_managed_def confirm_managed_def Let_def
  by (intro only_site only_request_channels only_confirm_resources assms)

lemma only_try_run_managed_site:
  assumes "\<And>r. p (EvCapabilities r)" "\<And>c r. p (EvApproved c r)"
    and "\<And>r. p (EvManagedState r)" "\<And>q r. p (EvApply q r)" "\<And>c. p (EvDecrypt c)" "\<And>c r. p (EvConfirm c r)"
    and "\<And>r. p (EvPrices b r)" "\<And>r. p (EvCompleteSite b r)" "\<And>s r. p (EvStep s r)" "\<And>f r. p (EvFail f r)"
  shows "only p (try_run_managed_site L E S G b)"
proof -
  have *: "only p (bindP (invoke (run_managed_site L E S M c b)) (\<lambda>x. ret (Some x)))" for M c
    by (intro only_site only_run_managed_site assms)
  show ?thesis
    unfolding try_run_managed_site_def
    by (auto intro!: only_site * assms split: bool.split)
qed

end
