(* ===== verification/SiteGuards.thy ===== *)
theory SiteGuards imports SiteSync begin

text \<open>
  The order in which a synchronisation acts: conditions on an event and the events before it, and
  the proofs that the synchronisation of a site keeps them in every environment.
\<close>

section \<open>The conditions\<close>

text \<open>The states a run has seen, newest first.\<close>

fun seen :: "event \<Rightarrow> actual_state option" where
  "seen (EvRead (Inr s)) = Some s"
| "seen (EvManagedState (Inr m)) = Some (mss_actual m)"
| "seen (EvApply q (Inr x)) = Some (mss_actual (msx_state x))"
| "seen e = None"

definition states_seen :: "trace \<Rightarrow> actual_state list" where
  "states_seen t = List.map_filter seen t"

lemma states_seen_simps [simp]:
  "states_seen [] = []"
  "states_seen (e # t) = (case seen e of None \<Rightarrow> states_seen t | Some s \<Rightarrow> s # states_seen t)"
  "states_seen (d @ t) = states_seen d @ states_seen t"
  by (simp_all add: states_seen_def List.map_filter_def split: option.split)

definition settled_since :: "trace \<Rightarrow> bool" where
  "settled_since t \<longleftrightarrow> list_all (\<lambda>e. \<not> gateway_write e) (takeWhile (\<lambda>e. seen e = None) t)"

text \<open>The bundle that was loaded directly after the lock of the site was granted: its plan, the
  snapshots of its resources and its channel.\<close>

fun loaded :: "sync_bundle \<Rightarrow> event \<Rightarrow> bool" where
  "loaded b (EvLoad i (Inr b')) \<longleftrightarrow> bn_plan b' = bn_plan b \<and> bn_managed_channel b' = bn_managed_channel b
     \<and> map rb_snapshot (bn_resources b') = map rb_snapshot (bn_resources b)"
| "loaded b e \<longleftrightarrow> False"

fun holds_lock :: "trace \<Rightarrow> bool" where
  "holds_lock (EvLock s (Inr True) # t) \<longleftrightarrow> True"
| "holds_lock t \<longleftrightarrow> False"

primrec under_lock :: "sync_bundle \<Rightarrow> trace \<Rightarrow> bool" where
  "under_lock b [] \<longleftrightarrow> False"
| "under_lock b (e # t) \<longleftrightarrow> loaded b e \<and> holds_lock t \<or> under_lock b t"

lemma under_lock_append [simp]: "under_lock b t \<Longrightarrow> under_lock b (d @ t)"
  by (induction d) auto

text \<open>A channel is switched on only after it was tested successfully.  The only other call that can
  turn channels on, the atomic one, is made for the bundle loaded under the lock, to a gateway whose
  capabilities were accepted for its plan and, where capabilities are reviewed, approved; it names the
  channels of the plan, and has the key of every channel it enables.\<close>

fun tested :: "int \<Rightarrow> event \<Rightarrow> bool" where
  "tested i (EvTest j m r) \<longleftrightarrow> j = i \<and> r = None"
| "tested i e \<longleftrightarrow> False"

definition apply_accepted :: "'w env \<Rightarrow> sync_bundle \<Rightarrow> managed_sync_capabilities \<Rightarrow> trace \<Rightarrow> bool" where
  "apply_accepted E b c t \<longleftrightarrow>
     under_lock b t \<and> EvCapabilities (Inr c) \<in> set t
     \<and> validate_managed_sync_capabilities c (pl_snapshot (bn_plan b)) = Inr ()
     \<and> (e_approved E = None \<or> EvApproved c (Inr True) \<in> set t)"

definition apply_planned :: "sync_bundle \<Rightarrow> managed_sync_channel list \<Rightarrow> bool" where
  "apply_planned b channels \<longleftrightarrow>
     map msc_desired channels = map (sn_channel \<circ> rb_snapshot) (bn_resources b)
     \<and> list_all (\<lambda>c. dc_desired_status (msc_desired c) = DesiredEnabled \<longrightarrow> msc_api_key c \<noteq> None) channels"

fun enable_tested :: "'w env \<Rightarrow> event \<Rightarrow> trace \<Rightarrow> bool" where
  "enable_tested E (EvEnable i True r) t \<longleftrightarrow> list_ex (tested i) t"
| "enable_tested E (EvApply q r) t \<longleftrightarrow> (\<exists>b c. apply_accepted E b c t \<and> apply_planned b (msr_channels q))"
| "enable_tested E e t \<longleftrightarrow> True"

text \<open>A channel is shown off: in the state seen last it is disabled manually; or the plan's resource had
  no channel in the first state of the run.\<close>

definition shown_off :: "desired_channel \<Rightarrow> int \<Rightarrow> actual_state \<Rightarrow> bool" where
  "shown_off e i s \<longleftrightarrow>
     (case locate_managed_channel e (Some i) (as_channels s) of
        Inr (Some v) \<Rightarrow> ac_status v = ChannelManuallyDisabled
      | _ \<Rightarrow> False)"

definition shut_confirmed :: "resource_bundle \<Rightarrow> resource_confirmation \<Rightarrow> trace \<Rightarrow> bool" where
  "shut_confirmed r c t \<longleftrightarrow>
     rb_snapshot (rc_resource c) = rb_snapshot r \<and> states_seen t \<noteq> [] \<and>
     (case rc_external_channel_id c of
        Some i \<Rightarrow> shown_off (sn_channel (rb_snapshot r)) i (hd (states_seen t))
      | None \<Rightarrow> locate_managed_channel (sn_channel (rb_snapshot r)) (mc_external_channel_id (rb_managed_channel r))
          (as_channels (last (states_seen t))) = Inr None)"

primrec shut :: "resource_bundle \<Rightarrow> trace \<Rightarrow> bool" where
  "shut r [] \<longleftrightarrow> False"
| "shut r (e # t) \<longleftrightarrow> (case e of EvConfirm c None \<Rightarrow> shut_confirmed r c t | _ \<Rightarrow> False) \<or> shut r t"

definition shutdowns :: "sync_bundle \<Rightarrow> resource_bundle list" where
  "shutdowns b = filter (\<lambda>r. dc_desired_status (sn_channel (rb_snapshot r)) = DesiredDisabled) (bn_resources b)"

text \<open>The prices of the plan were confirmed: when they were, the state seen last had them.\<close>

primrec priced :: "'d libs \<Rightarrow> sync_bundle \<Rightarrow> trace \<Rightarrow> bool" where
  "priced L b [] \<longleftrightarrow> False"
| "priced L b (e # t) \<longleftrightarrow>
     (case e of
        EvPrices b' None \<Rightarrow> bn_plan b' = bn_plan b \<and> states_seen t \<noteq> []
          \<and> verify_site_groups L (snapshot_groups (pl_snapshot (bn_plan b))) (hd (states_seen t)) False = Inr ()
      | _ \<Rightarrow> False) \<or> priced L b t"

text \<open>Prices change only after every channel the plan disables was shut down, what users see changes
  only after the prices were confirmed, and the atomic call is the only write of its run.\<close>

fun applies :: "event \<Rightarrow> bool" where
  "applies (EvApply q r) = True"
| "applies e = False"

fun site_order :: "'d libs \<Rightarrow> sync_bundle \<Rightarrow> event \<Rightarrow> trace \<Rightarrow> bool" where
  "site_order L b (EvSetUsers m r) t \<longleftrightarrow> priced L b t \<and> list_all (\<lambda>e. \<not> applies e) t"
| "site_order L b (EvSetRatios m r) t \<longleftrightarrow> list_all (\<lambda>r. shut r t) (shutdowns b) \<and> list_all (\<lambda>e. \<not> applies e) t"
| "site_order L b (EvApply q r) t \<longleftrightarrow> list_all (\<lambda>e. \<not> gateway_write e) t"
| "site_order L b e t \<longleftrightarrow> True"

text \<open>A completion follows a state that was read after the last write and verified against the
  first state read: for a site with the whole plan, for a relation with the channel that was bound
  last.\<close>

definition site_verified :: "'d libs \<Rightarrow> sync_bundle \<Rightarrow> trace \<Rightarrow> bool" where
  "site_verified L b t \<longleftrightarrow> states_seen t \<noteq> [] \<and> settled_since t \<and> under_lock b t
     \<and> verify_site_state L b (last (states_seen t)) (hd (states_seen t)) = Inr ()"

fun bound :: "event \<Rightarrow> int option" where
  "bound (EvBind m i None) = Some i"
| "bound e = None"

definition bindings :: "trace \<Rightarrow> int list" where
  "bindings t = List.map_filter bound t"

lemma bindings_simps [simp]:
  "bindings [] = []"
  "bindings (e # t) = (case bound e of None \<Rightarrow> bindings t | Some i \<Rightarrow> i # bindings t)"
  "bindings (d @ t) = bindings d @ bindings t"
  by (simp_all add: bindings_def List.map_filter_def split: option.split)

definition current_binding :: "sync_bundle \<Rightarrow> trace \<Rightarrow> int option" where
  "current_binding b t = (case bindings t of [] \<Rightarrow> mc_external_channel_id (bn_managed_channel b) | i # _ \<Rightarrow> Some i)"

definition relation_verified :: "'d libs \<Rightarrow> sync_bundle \<Rightarrow> int \<Rightarrow> trace \<Rightarrow> bool" where
  "relation_verified L b i t \<longleftrightarrow> states_seen t \<noteq> [] \<and> settled_since t \<and> under_lock b t
     \<and> (let s = pl_snapshot (bn_plan b); before = last (states_seen t); after = hd (states_seen t) in
        verify_unmanaged_group_ratios L (as_group_ratios before) (as_group_ratios after) (dg_key (sn_group s)) = Inr ()
        \<and> verify_unmanaged_user_groups (as_user_usable_groups before) (as_user_usable_groups after) (dg_key (sn_group s)) = Inr ()
        \<and> (\<exists>c. verify L s after (current_binding b t) = Inr c \<and> ac_id c = i))"

fun completion_verified :: "'d libs \<Rightarrow> event \<Rightarrow> trace \<Rightarrow> bool" where
  "completion_verified L (EvCompleteSite b r) t \<longleftrightarrow> site_verified L b t"
| "completion_verified L (EvComplete b i r) t \<longleftrightarrow> relation_verified L b i t"
| "completion_verified L e t \<longleftrightarrow> True"

section \<open>Enabling\<close>

lemma gives_test_resource:
  "gives (test_resource E G r c wrote) t (\<lambda>_ t'. ac_status c \<noteq> ChannelEnabled \<longrightarrow> list_ex (tested (ac_id c)) t')"
  unfolding test_resource_def Let_def decrypt_def test_channel_def update_channel_def
  by (auto intro!: gives_rules split: option.split sum.split)

lemma keeps_enable_only: "only (\<lambda>e. \<forall>t. enable_tested E e t) m \<Longrightarrow> keeps (enable_tested E) m"
  by (rule keeps_only)

lemma keeps_apply_resource: "keeps (enable_tested E) (apply_resource L E S G b i r)"
proof -
  have last: "keeps (enable_tested E) (bindP (test_resource E G r' c wrote) (\<lambda>_.
        bindP (if dc_desired_status (sn_channel (rb_snapshot r)) = DesiredEnabled \<and> ac_status c \<noteq> ChannelEnabled
               then try_call (set_enabled G (ac_id c) True) return_inl else ret ()) (\<lambda>_.
        settle_resource L E S G b i r' wrote)))" for r' c wrote
  proof (rule keeps_bind_gives [OF keeps_only gives_test_resource])
    show "only (\<lambda>e. \<forall>t. enable_tested E e t) (test_resource E G r' c wrote)"
      by (rule only_test_resource) simp_all
  next
    fix a t
    assume t: "ac_status c \<noteq> ChannelEnabled \<longrightarrow> list_ex (tested (ac_id c)) t" "guarded (enable_tested E) t"
    have settle: "keeps (enable_tested E) (settle_resource L E S G b i r' wrote)"
      by (rule keeps_only, rule only_settle_resource) simp_all
    have enable: "safe (if dc_desired_status (sn_channel (rb_snapshot r)) = DesiredEnabled \<and> ac_status c \<noteq> ChannelEnabled
        then try_call (set_enabled G (ac_id c) True) return_inl else ret ()) t (\<lambda>_. guarded (enable_tested E))"
      using t unfolding set_enabled_def return_inl_def
      by (auto intro!: safe_try_call safe_observed safe_bind split: option.split)
    show "safe (bindP (if dc_desired_status (sn_channel (rb_snapshot r)) = DesiredEnabled \<and> ac_status c \<noteq> ChannelEnabled
        then try_call (set_enabled G (ac_id c) True) return_inl else ret ())
        (\<lambda>_. settle_resource L E S G b i r' wrote)) t (\<lambda>_. guarded (enable_tested E))"
      by (rule safe_seq [OF enable]) (auto intro: keepsD [OF settle])
  qed
  show ?thesis
    unfolding apply_resource_def Let_def
    by (intro keeps_rules last keeps_enable_only only_site only_write_resource only_bind_resource) simp_all
qed

lemma keeps_apply_resources: "keeps (enable_tested E) (apply_resources L E S G is b)"
proof (induction "is" arbitrary: b)
  case (Cons i "is")
  have *: "keeps (enable_tested E) (finish_resource_failure L E b r step e)" for r step e
    by (rule keeps_only, rule only_finish_resource_failure) simp_all
  show ?case by (auto simp: Let_def intro!: keeps_rules keeps_apply_resource Cons.IH *)
qed (auto intro: keeps_rules)

lemma keeps_sync_site: "keeps (enable_tested E) (sync_site L E S G b)"
proof -
  have "keeps (enable_tested E) (shutdown_phase L E S G b)" "\<And>b. keeps (enable_tested E) (price_phase L E S G b)"
    "\<And>b. keeps (enable_tested E) (visibility_phase E G b)" "\<And>b x. keeps (enable_tested E) (final_phase L E S G b x)"
    by (auto intro!: keeps_only only_shutdown_phase only_price_phase only_visibility_phase only_final_phase)
  then show ?thesis unfolding sync_site_def by (intro keeps_rules keeps_apply_resources) blast+
qed

section \<open>Functions that return early only with an error\<close>

definition errs :: "('w, go_error + 'x, 'a) prog \<Rightarrow> bool" where
  "errs m \<longleftrightarrow> (\<forall>t. safe m t (\<lambda>out _. case out of Returned (Inr x) \<Rightarrow> False | _ \<Rightarrow> True))"

named_theorems errs_rules \<open>one rule per construct, for functions that return early only with an error\<close>

lemma errs_basic [errs_rules]:
  "errs (ret a)" "errs (exit (Inl e))" "errs panic" "errs (observed ev f)" "errs (silent f)" "errs (clock E)"
  by (simp_all add: errs_def safe_observed safe_silent safe_clock)

lemma errs_bind [errs_rules]: "errs m \<Longrightarrow> (\<And>a. errs (f a)) \<Longrightarrow> errs (bindP m f)"
  unfolding errs_def
  by (intro allI, rule safe_seq [where P = "\<lambda>out _. case out of Returned (Inr x) \<Rightarrow> False | _ \<Rightarrow> True"]) auto

lemma errs_if [errs_rules]: "(b \<Longrightarrow> errs m) \<Longrightarrow> (\<not> b \<Longrightarrow> errs n) \<Longrightarrow> errs (if b then m else n)"
  by simp

lemma errs_case_option [errs_rules]:
  "errs m \<Longrightarrow> (\<And>x. errs (f x)) \<Longrightarrow> errs (case r of None \<Rightarrow> m | Some x \<Rightarrow> f x)"
  by (cases r) auto

lemma errs_case_list [errs_rules]:
  "errs m \<Longrightarrow> (\<And>x xs. errs (f x xs)) \<Longrightarrow> errs (case r of [] \<Rightarrow> m | x # xs \<Rightarrow> f x xs)"
  by (cases r) auto

lemma errs_return [errs_rules]: "errs (bindP (return_inl e) exit)"
  unfolding return_inl_def errs_def by (auto intro!: safe_bind)

lemma errs_try [errs_rules]:
  "errs m \<Longrightarrow> errs (try_call m return_inl)" "errs n \<Longrightarrow> errs (try_value n return_inl)"
  "errs n \<Longrightarrow> errs (try_value n (\<lambda>_. return_inl e))"
  unfolding try_call_def try_value_def by (auto intro!: errs_rules split: option.split sum.split)

lemma errs_parts [errs_rules]:
  "errs (locate e b s)" "errs (fail_resource k c)" "errs (record_success E op name started)" "errs (decrypt E x)"
  "errs (read_actual G)" "errs (set_enabled G i v)" "errs (create_channel G d key)" "errs (update_channel G i d key)"
  "errs (test_channel G i m key)" "errs (bind_channel E ch i)"
  unfolding locate_def fail_resource_def record_success_def decrypt_def read_actual_def set_enabled_def create_channel_def
    update_channel_def test_channel_def bind_channel_def pureE_def Let_def
  by (intro errs_rules)+

lemma gives_invoked:
  fixes m :: "('w, go_error + 'x, go_error + 'x) prog"
  assumes "errs m" "gives m t (\<lambda>x t'. case x of Inr y \<Rightarrow> P y t' | Inl _ \<Rightarrow> True)"
  shows "gives (try_value (invoke m) h) t P"
proof (rule gives_try_value, unfold gives_def, rule safe_invoke)
  from assms have "safe m t (\<lambda>out t'. (case out of Returned (Inr x) \<Rightarrow> False | _ \<Rightarrow> True)
      \<and> (case out of Value x \<Rightarrow> (case x of Inr y \<Rightarrow> P y t' | Inl _ \<Rightarrow> True) | _ \<Rightarrow> True))"
    by (auto simp: errs_def gives_def intro!: safe_conj)
  then show "safe m t (as_value (\<lambda>out t'. case out of Value r \<Rightarrow> (case r of Inr x \<Rightarrow> P x t' | Inl _ \<Rightarrow> True) | _ \<Rightarrow> True))"
  proof (rule safe_mono)
    fix t' and out :: "(go_error + 'x, go_error + 'x) outcome"
    assume "(case out of Returned (Inr x) \<Rightarrow> False | _ \<Rightarrow> True)
      \<and> (case out of Value x \<Rightarrow> (case x of Inr y \<Rightarrow> P y t' | Inl _ \<Rightarrow> True) | _ \<Rightarrow> True)"
    then show "as_value (\<lambda>out t'. case out of Value r \<Rightarrow> (case r of Inr x \<Rightarrow> P x t' | Inl _ \<Rightarrow> True) | _ \<Rightarrow> True) out t'"
      by (cases out) (auto split: sum.splits)
  qed
qed

section \<open>The resources keep their snapshots\<close>

definition same_plan :: "sync_bundle \<Rightarrow> sync_bundle \<Rightarrow> bool" where
  "same_plan b b' \<longleftrightarrow> bn_plan b' = bn_plan b \<and> bn_managed_channel b' = bn_managed_channel b \<and> map rb_snapshot (bn_resources b') = map rb_snapshot (bn_resources b)"

lemma same_plan_trans: "same_plan a b \<Longrightarrow> same_plan b c \<Longrightarrow> same_plan a c"
  by (simp add: same_plan_def)

lemma same_plan_refl [simp]: "same_plan b b"
  by (simp add: same_plan_def)

lemma same_plan_with_resource: "rb_snapshot r = rb_snapshot (bn_resources b ! i) \<Longrightarrow> same_plan b (with_resource i r b)"
  by (simp add: same_plan_def with_resource_def map_update) (metis list_update_id map_update)

lemma rb_snapshot_with_external_id [simp]: "rb_snapshot (with_external_id x r) = rb_snapshot r"
  by (simp add: with_external_id_def)

lemma gives_confirm_resource:
  "gives (confirm_resource L E S b i c step) t (\<lambda>x t'. case x of Inr r \<Rightarrow>
     r = rc_resource c \<and> (\<exists>s. t' = EvStep s None # EvConfirm c None # t) | Inl _ \<Rightarrow> True)"
  unfolding confirm_resource_def record_success_def Let_def
  by (auto intro!: gives_rules split: option.split)

lemma errs_confirm_resource [errs_rules]: "errs (confirm_resource L E S b i c step)"
  unfolding confirm_resource_def by (intro errs_rules)

lemma gives_anything: "only (\<lambda>_. True) m \<Longrightarrow> (\<And>a t'. P a t') \<Longrightarrow> gives m t P"
  by (erule gives_only) blast

lemma gives_locate: "(\<And>x t'. P x t') \<Longrightarrow> gives (locate e b s) t P"
  by (rule gives_anything) (rule only_locate)

lemma shut_append [simp]: "shut r t \<Longrightarrow> shut r (d @ t)"
  by (induction d) auto

lemma gives_located:
  "(\<And>x. locate_managed_channel e b (as_channels s) = Inr x \<Longrightarrow> P x t) \<Longrightarrow> gives (locate e b s) t P"
  unfolding locate_def return_inl_def
  by (intro gives_try_value gives_pureE) auto

lemma gives_shut_down:
  "gives (shut_down G e c) t (\<lambda>_ t'. \<exists>s d. t' = EvRead (Inr s) # d @ t \<and> shown_off e (ac_id c) s)"
proof -
  have off: "only (\<lambda>_. True) (if v then try_call (set_enabled G (ac_id c) False) return_inl else ret ())" for v
    by (intro only_site) simp_all
  show ?thesis
    unfolding shut_down_def read_actual_def fail_resource_def
    by (rule gives_bind, rule gives_only [OF off], rule gives_bind, rule gives_try_value, rule gives_observed, simp split: sum.split,
        intro allI impI, rule gives_bind, rule gives_located)
      (auto intro!: gives_rules simp: shown_off_def split: option.split)
qed

lemma gives_disable_resource:
  assumes "states_seen t \<noteq> []" "last (states_seen t) = actual"
  shows "gives (disable_resource L E S G b i r actual) t (\<lambda>x t'. case x of Inr r' \<Rightarrow>
     rb_snapshot r' = rb_snapshot r \<and> shut r t' | Inl _ \<Rightarrow> True)"
proof -
  have confirm: "gives (confirm_resource L E S b i c step) t' (\<lambda>x t''. case x of Inr r' \<Rightarrow>
     rb_snapshot r' = rb_snapshot r \<and> shut r t'' | Inl _ \<Rightarrow> True)"
    if "shut_confirmed r c t'" for c step t'
    by (rule gives_mono [OF gives_confirm_resource]) (use that in \<open>auto simp: shut_confirmed_def split: sum.splits\<close>)
  show ?thesis
    unfolding disable_resource_def Let_def
  proof (intro gives_bind gives_located gives_case_option, goal_cases)
    case (1 channel)
    then show ?case by (simp, intro confirm) (simp add: shut_confirmed_def assms)
  next
    case (2 channel c)
    show ?case
      by (rule gives_mono [OF gives_shut_down], elim exE conjE, simp, intro confirm)
        (use 2 in \<open>simp add: shut_confirmed_def\<close>)
  qed
qed

lemma errs_disable_resource: "errs (disable_resource L E S G b i r actual)"
  unfolding disable_resource_def shut_down_def Let_def by (intro errs_rules)

lemma nth_with_resource:
  "rb_snapshot r = rb_snapshot (bn_resources b ! i) \<Longrightarrow>
     rb_snapshot (bn_resources (with_resource i r b) ! j) = rb_snapshot (bn_resources b ! j)"
  by (cases "i < length (bn_resources b)"; cases "j = i") (simp_all add: with_resource_def list_update_beyond)

lemma gives_grown:
  assumes "only (\<lambda>_. True) m" "gives m t P"
  shows "gives m t (\<lambda>a t'. P a t' \<and> (\<exists>d. t' = d @ t))"
  by (rule gives_conj [OF assms(2) gives_only [OF assms(1)]]) blast

lemma only_True_disable: "only (\<lambda>_. True) (try_value (invoke (disable_resource L E S G b i r actual)) (finish_resource_failure L E b r s))"
  by (intro only_steps only_disable_resource) simp_all

lemma nth_other_resource: "i \<noteq> j \<Longrightarrow> bn_resources (with_resource i r b) ! j = bn_resources b ! j"
  by (simp add: with_resource_def)

lemma gives_disable_resources:
  "distinct is \<Longrightarrow> states_seen t \<noteq> [] \<Longrightarrow> last (states_seen t) = actual \<Longrightarrow>
   gives (disable_resources L E S G actual is b) t (\<lambda>b' t'. same_plan b b'
     \<and> (\<exists>d. t' = d @ t)
     \<and> list_all (\<lambda>i. dc_desired_status (sn_channel (rb_snapshot (bn_resources b ! i))) = DesiredDisabled
          \<longrightarrow> shut (bn_resources b ! i) t') is)"
proof (induction "is" arbitrary: b t)
  case (Cons i "is")
  let ?r = "bn_resources b ! i"
  have first: "gives (try_value (invoke (disable_resource L E S G b i ?r actual)) (finish_resource_failure L E b ?r ''disable'')) t
      (\<lambda>r' t'. (rb_snapshot r' = rb_snapshot ?r \<and> shut ?r t') \<and> (\<exists>d. t' = d @ t))"
    by (rule gives_grown [OF only_True_disable gives_invoked [OF errs_disable_resource gives_disable_resource [OF Cons.prems(2,3)]]])
  show ?case
  proof (cases "dc_desired_status (sn_channel (rb_snapshot ?r)) = DesiredDisabled")
    case False
    then show ?thesis using Cons.IH [of t b] Cons.prems by (simp add: Let_def)
  next
    case True
    have rest: "gives (disable_resources L E S G actual is (with_resource i r' b)) t' (\<lambda>b' t''. same_plan b b'
       \<and> (\<exists>d. t'' = d @ t)
       \<and> list_all (\<lambda>i. dc_desired_status (sn_channel (rb_snapshot (bn_resources b ! i))) = DesiredDisabled
          \<longrightarrow> shut (bn_resources b ! i) t'') (i # is))"
      if r: "(rb_snapshot r' = rb_snapshot ?r \<and> shut ?r t') \<and> (\<exists>d. t' = d @ t)" for r' t'
    proof (rule gives_mono [OF Cons.IH])
      show "distinct is" "states_seen t' \<noteq> []" "last (states_seen t') = actual" using Cons.prems r by auto
      fix b' t''
      assume *: "same_plan (with_resource i r' b) b' \<and> (\<exists>d. t'' = d @ t') \<and>
        list_all (\<lambda>j. dc_desired_status (sn_channel (rb_snapshot (bn_resources (with_resource i r' b) ! j))) = DesiredDisabled
          \<longrightarrow> shut (bn_resources (with_resource i r' b) ! j) t'') is"
      have "same_plan b b'" using * same_plan_with_resource same_plan_trans r by blast
      moreover have "shut ?r t''" "\<exists>d. t'' = d @ t" using * r by auto
      moreover have "list_all (\<lambda>j. dc_desired_status (sn_channel (rb_snapshot (bn_resources b ! j))) = DesiredDisabled
          \<longrightarrow> shut (bn_resources b ! j) t'') is"
        unfolding list_all_iff
      proof (intro ballI impI)
        fix j
        assume j: "j \<in> set is" "dc_desired_status (sn_channel (rb_snapshot (bn_resources b ! j))) = DesiredDisabled"
        then have "i \<noteq> j" using Cons.prems(1) by auto
        then show "shut (bn_resources b ! j) t''" using * j by (auto simp: list_all_iff nth_other_resource)
      qed
      ultimately show "same_plan b b' \<and> (\<exists>d. t'' = d @ t) \<and>
        list_all (\<lambda>i. dc_desired_status (sn_channel (rb_snapshot (bn_resources b ! i))) = DesiredDisabled
          \<longrightarrow> shut (bn_resources b ! i) t'') (i # is)" by simp
    qed
    have "disable_resources L E S G actual (i # is) b =
        bindP (try_value (invoke (disable_resource L E S G b i ?r actual)) (finish_resource_failure L E b ?r ''disable''))
          (\<lambda>r'. disable_resources L E S G actual is (with_resource i r' b))"
      using True by (simp add: Let_def)
    then show ?thesis by (simp only:) (rule gives_bind, rule gives_mono [OF first], rule rest)
  qed
qed (auto intro: gives_ret)

section \<open>The order of the phases\<close>

lemma gives_shutdown_phase:
  assumes "states_seen t = []"
  shows "gives (shutdown_phase L E S G b) t (\<lambda>x t'. same_plan b (snd x)
     \<and> (\<exists>d. t' = d @ EvRead (Inr (fst x)) # t)
     \<and> list_all (\<lambda>r. shut r t') (shutdowns b))"
proof -
  have owned: "only (\<lambda>_. True) (check_ownership L E b x rs)" for x rs
    by (rule only_check_ownership) simp_all
  have all: "list_all (\<lambda>r. shut r t') (shutdowns b)"
    if "list_all (\<lambda>i. dc_desired_status (sn_channel (rb_snapshot (bn_resources b ! i))) = DesiredDisabled
      \<longrightarrow> shut (bn_resources b ! i) t') [0..<length (bn_resources b)]" for t'
    using that by (auto simp: shutdowns_def list_all_iff in_set_conv_nth)
  have "gives (disable_resources L E S G x [0..<length (bn_resources b)] b) (d @ EvRead (Inr x) # t) (\<lambda>b' t'.
      gives (ret (x, b')) t' (\<lambda>x t'. same_plan b (snd x) \<and> (\<exists>d. t' = d @ EvRead (Inr (fst x)) # t)
        \<and> list_all (\<lambda>r. shut r t') (shutdowns b)))" for x d
    by (rule gives_mono [OF gives_disable_resources]) (use assms in \<open>auto intro!: gives_ret all\<close>)
  then show ?thesis
    unfolding shutdown_phase_def read_actual_def
    by (auto intro!: gives_rules gives_only [OF owned] split: sum.split)
qed

fun sets_users :: "event \<Rightarrow> bool" where
  "sets_users (EvSetUsers m r) = True"
| "sets_users e = False"

lemma shut_mono: "list_all (\<lambda>r. shut r t) rs \<Longrightarrow> list_all (\<lambda>r. shut r (d @ t)) rs"
  by (auto simp: list_all_iff)

lemma priced_append [simp]: "priced L b t \<Longrightarrow> priced L b (d @ t)"
  by (induction d) auto

text \<open>While nothing is applied atomically, an event keeps the order.\<close>

lemma guarded_after:
  assumes "guarded (site_order L b) t" "list_all (\<lambda>r. shut r t) (shutdowns b)" "list_all (\<lambda>e. \<not> applies e) t"
    and "list_all (\<lambda>e. \<not> applies e) d" "list_all (\<lambda>e. \<not> sets_users e) d \<or> priced L b t"
  shows "guarded (site_order L b) (d @ t)"
  using assms(4,5)
proof (induction d)
  case (Cons e d)
  then have e: "\<not> sets_users e \<or> priced L b t" "\<not> applies e" "list_all (\<lambda>e. \<not> applies e) (d @ t)" using assms(3) by auto
  then have "site_order L b e (d @ t)" using shut_mono [OF assms(2), of d] by (cases e) auto
  with Cons show ?case by auto
qed (simp add: assms(1))

lemma gives_verify_billing_basis:
  "gives (verify_billing_basis G h) t (\<lambda>r t'. case r of None \<Rightarrow> \<exists>x. t' = EvBasis x # t | Some _ \<Rightarrow> True)"
  unfolding verify_billing_basis_def by (auto intro!: gives_rules split: option.split sum.split)

lemma gives_price_phase:
  assumes "bn_plan b1 = bn_plan b"
  shows "gives (price_phase L E S G b1) t (\<lambda>_ t'. priced L b t')"
proof -
  have basis: "gives (try_call (verify_billing_basis G h) f) t (\<lambda>_ t'. \<exists>x. t' = EvBasis x # t)" for h f t
    by (rule gives_try_call, rule gives_mono [OF gives_verify_billing_basis]) (auto split: option.splits)
  show ?thesis
    unfolding price_phase_def Let_def read_actual_def set_ratios_def
    by (auto intro!: gives_rules gives_mono [OF basis] split: sum.split option.split prod.split simp: assms)
qed

definition after_shutdown ::
  "'d libs \<Rightarrow> 'w env \<Rightarrow> 'w site_store \<Rightarrow> 'w gateway \<Rightarrow> sync_bundle \<Rightarrow> actual_state \<Rightarrow> ('w, go_error option, go_error option) prog" where
  "after_shutdown L E S G b baseline =
     bindP (price_phase L E S G b) (\<lambda>_.
     bindP (apply_resources L E S G [0..<length (bn_resources b)] b) (\<lambda>b2.
     bindP (visibility_phase E G b2) (\<lambda>_.
     final_phase L E S G b2 baseline)))"

lemma sync_site_phases:
  "sync_site L E S G b = bindP (shutdown_phase L E S G b) (\<lambda>x. after_shutdown L E S G (snd x) (fst x))"
  by (simp add: sync_site_def after_shutdown_def case_prod_beta')

text \<open>The phases of a site write nothing atomically.\<close>

lemma only_phases:
  "only (\<lambda>e. \<not> applies e \<and> \<not> sets_users e) (price_phase L E S G b)"
  "only (\<lambda>e. \<not> applies e) (apply_resources L E S G is b)"
  "only (\<lambda>e. \<not> applies e) (visibility_phase E G b)"
  "only (\<lambda>e. \<not> applies e) (final_phase L E S G b baseline)"
  by (rule only_price_phase only_apply_resources only_visibility_phase only_final_phase; simp)+

lemma safe_after_shutdown:
  assumes "guarded (site_order L b) t" "list_all (\<lambda>r. shut r t) (shutdowns b)" "list_all (\<lambda>e. \<not> applies e) t" "bn_plan b1 = bn_plan b"
  shows "safe (after_shutdown L E S G b1 baseline) t (\<lambda>_. guarded (site_order L b))"
proof -
  have grown: "guarded (site_order L b) (d @ t)" if "list_all (\<lambda>e. \<not> applies e \<and> \<not> sets_users e) d" for d
    by (rule guarded_after [OF assms(1-3)]) (use that in \<open>auto simp: list_all_iff\<close>)
  show ?thesis
    unfolding after_shutdown_def
  proof (rule safe_phase [OF only_phases(1) gives_price_phase [OF assms(4)]])
    fix a d
    assume d: "list_all (\<lambda>e. \<not> applies e \<and> \<not> sets_users e) d" and p: "priced L b (d @ t)"
    have "only (\<lambda>e. \<not> applies e) (bindP (apply_resources L E S G [0..<length (bn_resources b1)] b1) (\<lambda>b2.
        bindP (visibility_phase E G b2) (\<lambda>_. final_phase L E S G b2 baseline)))"
      by (intro only_rules only_phases)
    then show "safe (bindP (apply_resources L E S G [0..<length (bn_resources b1)] b1) (\<lambda>b2.
        bindP (visibility_phase E G b2) (\<lambda>_. final_phase L E S G b2 baseline))) (d @ t) (\<lambda>_. guarded (site_order L b))"
    proof (rule safe_only, goal_cases)
      case (1 out e)
      show ?case
        by (rule guarded_after [OF grown [OF d] shut_mono [OF assms(2)] _ 1])
          (use d p assms(3) in \<open>auto simp: list_all_iff\<close>)
    qed
  qed (use grown in blast)+
qed

lemma safe_sync_site_order:
  assumes "guarded (site_order L b) t" "states_seen t = []" "list_all (\<lambda>e. \<not> gateway_write e) t"
  shows "safe (sync_site L E S G b) t (\<lambda>_. guarded (site_order L b))"
  unfolding sync_site_phases
proof (rule safe_phase [OF _ gives_shutdown_phase [OF assms(2)]])
  have quiet: "applies e \<Longrightarrow> gateway_write e" for e by (cases e) simp_all
  show "only (\<lambda>e. \<not> applies e \<and> (\<forall>t. site_order L b e t)) (shutdown_phase L E S G b)"
    by (rule only_shutdown_phase) simp_all
  fix x :: "actual_state \<times> sync_bundle" and d
  assume "list_all (\<lambda>e. \<not> applies e \<and> (\<forall>t. site_order L b e t)) d"
    and x: "same_plan b (snd x) \<and> (\<exists>e. d @ t = e @ EvRead (Inr (fst x)) # t)
       \<and> list_all (\<lambda>r. shut r (d @ t)) (shutdowns b)"
  then show "safe (after_shutdown L E S G (snd x) (fst x)) (d @ t) (\<lambda>_. guarded (site_order L b))"
    using assms(1,3) quiet by (intro safe_after_shutdown guarded_append) (auto simp: list_all_iff same_plan_def)
qed (use assms(1) in \<open>auto intro!: guarded_append simp: list_all_iff\<close>)

section \<open>Completion\<close>

lemma settled_since_Cons [simp]:
  "settled_since (e # t) \<longleftrightarrow> (case seen e of None \<Rightarrow> \<not> gateway_write e \<and> settled_since t | Some s \<Rightarrow> True)"
  by (simp add: settled_since_def split: option.split)

lemma same_plan_loaded: "same_plan b b' \<Longrightarrow> loaded b e \<longleftrightarrow> loaded b' e"
  by (cases "(b, e)" rule: loaded.cases) (auto simp: same_plan_def)

lemma same_plan_under_lock: "same_plan b b' \<Longrightarrow> under_lock b t \<Longrightarrow> under_lock b' t"
  by (induction t) (auto dest: same_plan_loaded)

lemma gives_settle_resource:
  "gives (settle_resource L E S G b i r wrote) t (\<lambda>x t'. case x of Inr r' \<Rightarrow> r' = r | Inl _ \<Rightarrow> True)"
proof -
  have *: "gives (confirm_resource L E S b i \<lparr>rc_resource = r, rc_external_channel_id = x, rc_credential_applied = wrote\<rparr> step) t
      (\<lambda>x t'. case x of Inr r' \<Rightarrow> r' = r | Inl _ \<Rightarrow> True)" for x step t
    by (rule gives_mono [OF gives_confirm_resource]) (auto split: sum.splits)
  show ?thesis
    unfolding settle_resource_def Let_def read_actual_def fail_resource_def
    by (auto intro!: gives_rules gives_locate * split: sum.split option.split)
qed

lemma gives_bind_resource: "gives (bind_resource E r c) t (\<lambda>r' _. rb_snapshot r' = rb_snapshot r)"
  unfolding bind_resource_def bind_channel_def by (auto intro!: gives_rules split: option.split)

lemma gives_apply_resource:
  "gives (apply_resource L E S G b i r) t (\<lambda>x _. case x of Inr r' \<Rightarrow> rb_snapshot r' = rb_snapshot r | Inl _ \<Rightarrow> True)"
proof -
  have tail: "gives (bindP (test_resource E G r' c wrote) (\<lambda>_.
        bindP (if v then try_call (set_enabled G (ac_id c) True) return_inl else ret ()) (\<lambda>_.
        settle_resource L E S G b i r' wrote))) t (\<lambda>x _. case x of Inr r' \<Rightarrow> rb_snapshot r' = rb_snapshot r | Inl _ \<Rightarrow> True)"
    if "rb_snapshot r' = rb_snapshot r" for r' c v wrote t
    by (intro gives_bind gives_anything [OF only_test_resource] gives_if gives_try_call gives_anything [OF only_calls(9)]
        gives_mono [OF gives_settle_resource])
      (use that in \<open>auto split: sum.splits option.splits intro!: gives_ret gives_mono [OF gives_settle_resource]\<close>)
  have wr: "only (\<lambda>_. True) (write_resource E G r channel)" for channel
    by (rule only_write_resource) simp_all
  show ?thesis
    unfolding apply_resource_def Let_def read_actual_def fail_resource_def
    by (auto intro!: gives_rules gives_locate gives_anything [OF wr] gives_mono [OF gives_bind_resource] tail
        split: sum.split option.split)
qed

lemma errs_apply_resource: "errs (apply_resource L E S G b i r)"
  unfolding apply_resource_def write_resource_def bind_resource_def test_resource_def settle_resource_def Let_def
  by (intro errs_rules)

lemma gives_apply_resources: "gives (apply_resources L E S G is b) t (\<lambda>b' _. same_plan b b')"
proof (induction "is" arbitrary: b t)
  case (Cons i "is")
  let ?r = "bn_resources b ! i"
  have first: "gives (try_value (invoke (apply_resource L E S G b i ?r)) (finish_resource_failure L E b ?r ''apply'')) t
      (\<lambda>r' _. rb_snapshot r' = rb_snapshot ?r)"
    by (rule gives_invoked [OF errs_apply_resource gives_apply_resource])
  have "gives (apply_resources L E S G is (with_resource i r' b)) t' (\<lambda>b' _. same_plan b b')"
    if "rb_snapshot r' = rb_snapshot ?r" for r' t'
    by (rule gives_mono [OF Cons.IH]) (blast intro: same_plan_trans same_plan_with_resource that)
  then have "gives (bindP (try_value (invoke (apply_resource L E S G b i ?r)) (finish_resource_failure L E b ?r ''apply''))
      (\<lambda>r'. apply_resources L E S G is (with_resource i r' b))) t (\<lambda>b' _. same_plan b b')"
    by (blast intro: gives_bind gives_mono [OF first])
  then show ?case using Cons.IH [of b t] by (simp add: Let_def)
qed (auto intro: gives_ret)

lemma quiet_completion: "\<not> completes e \<Longrightarrow> \<forall>t. completion_verified L e t"
  by (cases e) auto

lemma guarded_completion:
  "guarded (completion_verified L) t \<Longrightarrow> list_all (\<lambda>e. \<not> completes e) d \<Longrightarrow> guarded (completion_verified L) (d @ t)"
  by (rule guarded_append) (auto simp: list_all_iff dest: quiet_completion)

text \<open>What a completed read and check leave for the completion.\<close>

lemma safe_complete:
  assumes "guarded C t" "\<And>r. C (EvCompleteSite b r) t"
  shows "safe (bindP (clock E) (\<lambda>now. bindP (try_call (observed (EvCompleteSite b) (ss_complete S b now))
      (return_wrapped m)) (\<lambda>_. ret None))) t (\<lambda>_. guarded C)"
  using assms unfolding return_wrapped_def try_call_def
  by (auto intro!: safe_bind safe_clock safe_observed split: option.split)

lemma safe_final_phase:
  assumes g: "guarded (completion_verified L) t" and l: "under_lock b t"
    and s: "states_seen t \<noteq> []" "last (states_seen t) = baseline"
  shows "safe (final_phase L E S G b baseline) t (\<lambda>_. guarded (completion_verified L))"
proof -
  let ?n = "\<lambda>e. \<not> completes e"
  let ?h = "sn_billing_basis_hash (pl_snapshot (bn_plan b))"
  have quiet: "guarded (completion_verified L) (d @ t)" if "list_all ?n d" for d by (rule guarded_completion [OF g that])
  have read: "gives (try_value (read_actual G) (finish_failure E b ''final_read'')) t (\<lambda>x t'. t' = EvRead (Inr x) # t)"
    unfolding read_actual_def by (auto intro!: gives_rules split: sum.split)
  have verified: "gives (try_value (pureE (verify_site_state L b baseline x)) (finish_failure E b ''verify_site'')) t'
      (\<lambda>_ t''. t'' = t' \<and> verify_site_state L b baseline x = Inr ())" for x t'
    by (auto intro!: gives_rules)
  have basis: "gives (try_call (verify_billing_basis G ?h) (finish_failure E b ''verify_final_billing_basis'')) t'
      (\<lambda>_ t''. \<exists>x. t'' = EvBasis x # t')" for t'
    by (rule gives_try_call, rule gives_mono [OF gives_verify_billing_basis]) (auto split: option.splits)
  have last_step: "safe (bindP (try_call (verify_billing_basis G ?h) (finish_failure E b ''verify_final_billing_basis'')) (\<lambda>_.
     bindP (clock E) (\<lambda>now. bindP (try_call (observed (EvCompleteSite b) (ss_complete S b now))
       (return_wrapped ''confirm complete site synchronization'')) (\<lambda>_. ret (None :: go_error option))))) (EvRead (Inr x) # t)
     (\<lambda>_. guarded (completion_verified L))" if v: "verify_site_state L b baseline x = Inr ()" for x
  proof (rule safe_phase [where p = ?n, OF _ basis])
    show "only ?n (try_call (verify_billing_basis G ?h) (finish_failure E b ''verify_final_billing_basis''))"
      by (intro only_steps) simp_all
    fix a d
    assume d: "list_all ?n d" "\<exists>y. d @ EvRead (Inr x) # t = EvBasis y # EvRead (Inr x) # t"
    then obtain y where y: "d @ EvRead (Inr x) # t = EvBasis y # EvRead (Inr x) # t" by blast
    show "safe (bindP (clock E) (\<lambda>now. bindP (try_call (observed (EvCompleteSite b) (ss_complete S b now))
       (return_wrapped ''confirm complete site synchronization'')) (\<lambda>_. ret (None :: go_error option)))) (d @ EvRead (Inr x) # t)
       (\<lambda>_. guarded (completion_verified L))"
      unfolding y by (rule safe_complete) (use g s v l in \<open>simp_all add: site_verified_def\<close>)
  qed (use guarded_completion [of L "EvRead (Inr x) # t"] g in simp_all)
  show ?thesis
    unfolding final_phase_def
  proof (rule safe_phase [where p = ?n, OF _ read])
    show "only ?n (try_value (read_actual G) (finish_failure E b ''final_read''))" by (intro only_steps) simp_all
    fix x d
    assume d: "list_all ?n d" "d @ t = EvRead (Inr x) # t"
    show "safe (bindP (try_value (pureE (verify_site_state L b baseline x)) (finish_failure E b ''verify_site'')) (\<lambda>_.
       bindP (try_call (verify_billing_basis G ?h) (finish_failure E b ''verify_final_billing_basis'')) (\<lambda>_.
       bindP (clock E) (\<lambda>now. bindP (try_call (observed (EvCompleteSite b) (ss_complete S b now))
         (return_wrapped ''confirm complete site synchronization'')) (\<lambda>_. ret (None :: go_error option)))))) (d @ t)
       (\<lambda>_. guarded (completion_verified L))"
      unfolding d(2)
    proof (rule safe_phase [where p = ?n, OF _ verified])
      show "only ?n (try_value (pureE (verify_site_state L b baseline x)) (finish_failure E b ''verify_site''))"
        by (intro only_steps) simp_all
      fix u e
      assume "list_all ?n e" "e @ EvRead (Inr x) # t = EvRead (Inr x) # t \<and> verify_site_state L b baseline x = Inr ()"
      then show "safe (bindP (try_call (verify_billing_basis G ?h) (finish_failure E b ''verify_final_billing_basis'')) (\<lambda>_.
         bindP (clock E) (\<lambda>now. bindP (try_call (observed (EvCompleteSite b) (ss_complete S b now))
         (return_wrapped ''confirm complete site synchronization'')) (\<lambda>_. ret (None :: go_error option))))) (e @ EvRead (Inr x) # t)
         (\<lambda>_. guarded (completion_verified L))"
        using last_step by simp
    qed (use guarded_completion [of L "EvRead (Inr x) # t"] g in simp_all)
  qed (use quiet in blast)+
qed

lemma safe_sync_site_completion:
  assumes g: "guarded (completion_verified L) t" and l: "under_lock b t" and s: "states_seen t = []"
  shows "safe (sync_site L E S G b) t (\<lambda>_. guarded (completion_verified L))"
proof -
  let ?n = "\<lambda>e. \<not> completes e"
  have quiet: "guarded (completion_verified L) (d @ t)" if "list_all ?n d" for d by (rule guarded_completion [OF g that])
  have o: "only ?n (price_phase L E S G b1)" "only ?n (visibility_phase E G b1)"
    "only ?n (apply_resources L E S G is b1)" for b1 "is"
    by (auto intro!: only_price_phase only_visibility_phase only_apply_resources)
  have split: "after_shutdown L E S G b1 baseline =
      bindP (bindP (price_phase L E S G b1) (\<lambda>_. bindP (apply_resources L E S G [0..<length (bn_resources b1)] b1)
        (\<lambda>b2. bindP (visibility_phase E G b2) (\<lambda>_. ret b2)))) (\<lambda>b2. final_phase L E S G b2 baseline)" for b1 baseline
    by (simp add: after_shutdown_def bindP_assoc bindP_ret)
  have mid: "gives (bindP (price_phase L E S G b1) (\<lambda>_. bindP (apply_resources L E S G [0..<length (bn_resources b1)] b1)
        (\<lambda>b2. bindP (visibility_phase E G b2) (\<lambda>_. ret b2)))) t' (\<lambda>b2 _. same_plan b1 b2)" for b1 t'
    by (intro gives_bind gives_anything [OF only_price_phase] gives_mono [OF gives_apply_resources]
        gives_anything [OF only_visibility_phase] gives_ret) simp_all
  show ?thesis
    unfolding sync_site_phases
  proof (rule safe_phase [where p = ?n, OF _ gives_shutdown_phase [OF s]])
    show "only ?n (shutdown_phase L E S G b)" by (rule only_shutdown_phase) simp_all
    fix x :: "actual_state \<times> sync_bundle" and d
    assume d: "list_all ?n d"
      and x: "same_plan b (snd x) \<and> (\<exists>e. d @ t = e @ EvRead (Inr (fst x)) # t) \<and> list_all (\<lambda>r. shut r (d @ t)) (shutdowns b)"
    show "safe (after_shutdown L E S G (snd x) (fst x)) (d @ t) (\<lambda>_. guarded (completion_verified L))"
      unfolding split
    proof (rule safe_phase [where p = ?n, OF _ mid])
      show "only ?n (bindP (price_phase L E S G (snd x)) (\<lambda>_. bindP (apply_resources L E S G [0..<length (bn_resources (snd x))] (snd x))
        (\<lambda>b2. bindP (visibility_phase E G b2) (\<lambda>_. ret b2))))"
        by (intro only_rules o)
      fix b2 e
      assume e: "list_all ?n e" "same_plan (snd x) b2"
      obtain f where f: "d @ t = f @ EvRead (Inr (fst x)) # t" using x by blast
      have "same_plan b b2" using x e(2) same_plan_trans by blast
      then have "under_lock b2 (e @ d @ t)" using l same_plan_under_lock by (simp flip: append_assoc)
      moreover have "guarded (completion_verified L) (e @ d @ t)" by (intro guarded_completion g d e(1))
      ultimately show "safe (final_phase L E S G b2 (fst x)) (e @ d @ t) (\<lambda>_. guarded (completion_verified L))"
        using s by (intro safe_final_phase) (simp_all add: f)
    qed (use d g in \<open>simp_all add: guarded_completion\<close>)
  qed (use quiet in blast)+
qed

section \<open>The whole synchronisation of a site\<close>

lemma confirming_quiet: "list_all (confirming b) d \<Longrightarrow> states_seen d = [] \<and> list_all (\<lambda>e. seen e = None \<and> \<not> gateway_write e) d"
  by (induction d) (auto elim: confirming.elims)

lemma settled_since_append:
  "list_all (\<lambda>e. seen e = None \<and> \<not> gateway_write e) d \<Longrightarrow> settled_since (d @ t) \<longleftrightarrow> settled_since t"
  by (induction d) auto

lemma guarded_confirming:
  assumes "list_all (confirming b) d" "guarded (completion_verified L) t" "under_lock b t"
    and "states_seen t \<noteq> []" "settled_since t"
    and "verify_site_state L b (last (states_seen t)) (hd (states_seen t)) = Inr ()"
  shows "guarded (completion_verified L) (d @ t)"
  using assms(1)
proof (induction d)
  case (Cons e d)
  then have q: "states_seen d = []" "settled_since (d @ t)"
    using confirming_quiet [of b d] settled_since_append [of d t] assms(5) by auto
  have "completion_verified L e (d @ t)"
    using Cons.prems q assms(3,4,6) by (cases "(b, e)" rule: confirming.cases) (auto simp: site_verified_def)
  with Cons show ?case by simp
qed (simp add: assms(2))

lemma safe_managed_completion:
  assumes g: "guarded (completion_verified L) t" and l: "under_lock b t" and s: "states_seen t = []"
  shows "safe (run_managed_site L E S M c b) t (\<lambda>_. guarded (completion_verified L))"
proof (rule safe_mono [OF safe_run_managed_site], elim disjE exE conjE)
  fix out t' conf q result mid before
  assume t': "t' = conf @ EvApply q (Inr result) # mid @ EvManagedState (Inr before) # t"
    and c: "list_all (confirming b) conf" "list_all (\<lambda>e. \<not> completes e) mid" "managed_verified L b before q result"
  show "guarded (completion_verified L) t'"
    unfolding t' using c g l s
    by (intro guarded_confirming) (auto simp: managed_verified_def intro!: guarded_completion)
qed (use g guarded_completion in blast)

lemma same_plan_next_attempt [simp]: "same_plan b (next_attempt b)"
  by (simp add: same_plan_def next_attempt_def)

lemma under_lock_next_attempt [simp]: "under_lock (next_attempt b) = under_lock b"
proof -
  have "same_plan (next_attempt b) b" by (simp add: same_plan_def next_attempt_def)
  then show ?thesis using same_plan_under_lock [of b "next_attempt b"] same_plan_under_lock [of "next_attempt b" b]
    by (auto simp: fun_eq_iff)
qed

lemma site_order_next_attempt [simp]: "site_order L (next_attempt b) = site_order L b"
proof (intro ext)
  fix e t
  have plan: "bn_plan (next_attempt b) = bn_plan b" by (simp add: next_attempt_def)
  have "shutdowns (next_attempt b) = shutdowns b" by (simp add: shutdowns_def next_attempt_def)
  moreover have "priced L (next_attempt b) t = priced L b t" for t
    by (induction t) (simp_all only: priced.simps plan)
  ultimately show "site_order L (next_attempt b) e t = site_order L b e t" by (cases e) simp_all
qed

lemma gives_try_run_managed:
  "gives (try_run_managed_site L E S G b) t (\<lambda>h t'. h = None \<longrightarrow> t' = t \<or> (\<exists>r. t' = EvCapabilities r # t))"
proof -
  have *: "gives (bindP (m :: ('w, 'r, go_error option) prog) (\<lambda>x. ret (Some x))) t
      (\<lambda>h t'. h = None \<longrightarrow> t' = t0 \<or> (\<exists>r. t' = EvCapabilities r # t0))" for m :: "('w, 'r, go_error option) prog" and t t0
  proof (rule gives_bind, rule gives_mono [where P = "\<lambda>_ _. True"])
    show "gives m t (\<lambda>_ _. True)" by (simp add: gives_def safe_def split: outcome.splits prod.splits)
  qed (simp add: gives_ret)
  show ?thesis
    unfolding try_run_managed_site_def
    by (auto intro!: gives_rules * split: option.split sum.split bool.split)
qed

lemma keeps_try_run_managed:
  assumes "\<And>M c. keeps C (run_managed_site L E S M c b)"
    and "\<And>r t. C (EvCapabilities r) t" "\<And>c r t. C (EvApproved c r) t" "\<And>s r t. C (EvStep s r) t" "\<And>f r t. C (EvFail f r) t"
  shows "keeps C (try_run_managed_site L E S G b)"
proof -
  have obs: "keeps C (observed ev f)" if "\<And>x t. C (ev x) t" for ev f
    by (rule keeps_only) (auto intro!: only_rules that)
  have ff: "keeps C (finish_failure E b step e)" for step e
    by (rule keeps_only, rule only_finish_failure) (simp_all add: assms)
  show ?thesis
    unfolding try_run_managed_site_def
    by (auto intro!: keeps_rules obs ff assms split: bool.split)
qed

section \<open>When the atomic call is made\<close>

lemma apply_accepted_mono: "apply_accepted E b c t \<Longrightarrow> apply_accepted E b c (d @ t)"
  by (auto simp: apply_accepted_def)

lemma gives_request_channels:
  "gives (request_channels L E b rs acc) t (\<lambda>channels _.
     map msc_desired channels = map msc_desired acc @ map (sn_channel \<circ> rb_snapshot) rs
     \<and> (list_all (\<lambda>c. dc_desired_status (msc_desired c) = DesiredEnabled \<longrightarrow> msc_api_key c \<noteq> None) acc
        \<longrightarrow> list_all (\<lambda>c. dc_desired_status (msc_desired c) = DesiredEnabled \<longrightarrow> msc_api_key c \<noteq> None) channels))"
proof (induction rs arbitrary: acc t)
  case (Cons r rs)
  have failure: "only (\<lambda>_. True) (finish_resource_failure L E b r s e)" for s e
    by (intro only_steps) simp_all
  have key: "gives (try_value (decrypt E x) (\<lambda>_. finish_resource_failure L E b r s e)) t P"
    if "\<And>k t'. P k t'" for x s e P t
    by (rule gives_only [where p = "\<lambda>_. True"], intro only_steps failure) (simp_all add: that)
  show ?case
    unfolding request_channels.simps
    by (intro gives_if gives_bind_exit gives_bind key gives_mono [OF Cons.IH])
      (auto simp: managed_channel_of_def)
qed (simp add: gives_ret)

text \<open>A condition that only writes can break is kept by the atomic synchronisation, when the call
  that applies the plan keeps it.\<close>

lemma kept_apply_managed:
  assumes g: "guarded C t" and quiet: "\<And>e t. \<not> gateway_write e \<Longrightarrow> C e t"
    and apply_call: "\<And>channels r d. list_all (\<lambda>e. \<not> gateway_write e) d \<Longrightarrow> apply_planned b channels
      \<Longrightarrow> C (EvApply (managed_request b before channels) r) (d @ t)"
  shows "safe (apply_managed L E M v b before) t (\<lambda>_. guarded C)"
proof -
  let ?q = "\<lambda>e. \<not> gateway_write e"
  have grown: "guarded C (d @ t)" if "list_all ?q d" for d
    by (rule guarded_append [OF g]) (use that quiet in \<open>auto simp: list_all_iff\<close>)
  show ?thesis
    unfolding apply_managed_def Let_def bindP_try_value
  proof (rule safe_phase [where p = ?q, OF _ gives_request_channels])
    show "only ?q (request_channels L E b (bn_resources b) [])" by (rule only_request_channels) simp_all
    fix channels :: "managed_sync_channel list" and d
    assume d: "list_all ?q d" and ch: "map msc_desired channels = map msc_desired [] @ map (sn_channel \<circ> rb_snapshot) (bn_resources b)
       \<and> (list_all (\<lambda>c. dc_desired_status (msc_desired c) = DesiredEnabled \<longrightarrow> msc_api_key c \<noteq> None) []
          \<longrightarrow> list_all (\<lambda>c. dc_desired_status (msc_desired c) = DesiredEnabled \<longrightarrow> msc_api_key c \<noteq> None) channels)"
    have "apply_planned b channels" using ch by (simp add: apply_planned_def)
    then have g: "guarded C (EvApply (managed_request b before channels) r # d @ t)" for r
      using grown [OF d] apply_call [OF d] by simp
    show "safe (bindP (observed (EvApply (managed_request b before channels)) (gm_apply M (managed_request b before channels)))
        (\<lambda>r. case r of
           Inl e \<Rightarrow> bindP (finish_failure E b ''managed_sync_apply'' e) exit
         | Inr result \<Rightarrow>
             if mss_conflicts (with_version v (msx_state result)) \<noteq> []
             then give_up E b ''managed_sync_verify'' (fail FailureOwnership ''managed_resource_conflict'')
             else if mss_billing_basis_hash (with_version v (msx_state result)) \<noteq> sn_billing_basis_hash (pl_snapshot (bn_plan b))
             then give_up E b ''managed_sync_verify_basis'' (fail FailureConfiguration ''billing_basis_changed'')
             else bindP (pureE (verify_site_state L b (mss_actual before) (mss_actual (with_version v (msx_state result)))))
               (\<lambda>r. case r of
                  Inl e \<Rightarrow> bindP (finish_failure E b ''managed_sync_verify'' e) exit
                | Inr _ \<Rightarrow> ret (mss_actual (with_version v (msx_state result)))))) (d @ t) (\<lambda>_. guarded C)"
      by (rule safe_bind, rule safe_observed, simp only: continue_with.simps, rule kept_only [where p = ?q, OF _ quiet g],
          intro only_steps) simp_all
  qed (use grown in blast)+
qed

lemma kept_managed:
  assumes g: "guarded C t" and quiet: "\<And>e t. \<not> gateway_write e \<Longrightarrow> C e t"
    and apply_call: "\<And>before channels r d. list_all (\<lambda>e. \<not> gateway_write e) d \<Longrightarrow> apply_planned b channels
      \<Longrightarrow> C (EvApply (managed_request b before channels) r) (d @ t)"
  shows "safe (run_managed_site L E S M c b) t (\<lambda>_. guarded C)"
proof -
  let ?q = "\<lambda>e. \<not> gateway_write e"
  have confirm: "safe (confirm_managed L E S b before after) t' (\<lambda>_. guarded C)" if "guarded C t'" for before after t'
  proof (rule kept_only [where p = ?q, OF _ quiet that])
    show "only ?q (confirm_managed L E S b before after)"
      by (rule only_mono [OF only_confirm_managed]) (auto elim: confirming.elims)
  qed
  have stop: "safe (give_up E b step f) t' (\<lambda>_. guarded C)" if "guarded C t'" for step f t'
    by (rule kept_only [where p = ?q, OF only_give_up quiet that]) simp_all
  show ?thesis
    unfolding run_managed_site_def Let_def
  proof (rule safe_after [where p = ?q])
    show "only ?q (try_value (observed EvManagedState (gm_read_state M)) (finish_failure E b ''managed_sync_read''))"
      by (intro only_steps) simp_all
    fix state d
    assume d: "list_all ?q d"
    have gd: "guarded C (d @ t)"
      by (rule guarded_append [OF g]) (use d quiet in \<open>auto simp: list_all_iff\<close>)
    have call: "C (EvApply (managed_request b before channels) r) (e @ d @ t)"
      if "list_all ?q e" "apply_planned b channels" for before channels r e
      using apply_call [of "e @ d" channels before r] that d by simp
    have applying: "safe (bindP (apply_managed L E M v b before) f) (d @ t) (\<lambda>_. guarded C)"
      if "\<And>a t'. guarded C t' \<Longrightarrow> safe (f a) t' (\<lambda>_. guarded C)" for v before f
      by (rule safe_seq [OF kept_apply_managed [OF gd quiet call]]) (auto intro: that)
    show "safe (if mss_conflicts (with_version (mcap_new_api_version c) state) \<noteq> []
       then give_up E b ''managed_sync_ownership'' (fail FailureOwnership ''managed_resource_conflict'')
       else if mss_billing_basis_hash (with_version (mcap_new_api_version c) state) \<noteq> sn_billing_basis_hash (pl_snapshot (bn_plan b))
       then give_up E b ''managed_sync_billing_basis'' (fail FailureConfiguration ''billing_basis_changed'')
       else bindP (apply_managed L E M (mcap_new_api_version c) b (with_version (mcap_new_api_version c) state))
         (\<lambda>after. confirm_managed L E S b (mss_actual (with_version (mcap_new_api_version c) state)) after)) (d @ t)
       (\<lambda>_. guarded C)"
      by (auto intro!: stop [OF gd] applying confirm)
  qed (rule guarded_append [OF g], auto simp: list_all_iff intro: quiet)+
qed

lemma managed_request_channels [simp]: "msr_channels (managed_request b before channels) = channels"
  by (simp add: managed_request_def)

lemma quiet_tested: "\<not> gateway_write e \<Longrightarrow> enable_tested E e t"
  by (cases "(E, e, t)" rule: enable_tested.cases) auto

lemma quiet_order: "\<not> gateway_write e \<Longrightarrow> site_order L b e t"
  by (cases e) simp_all

lemma safe_managed_tested:
  assumes "guarded (enable_tested E) t" "apply_accepted E b c t"
  shows "safe (run_managed_site L E S M c b) t (\<lambda>_. guarded (enable_tested E))"
  by (rule kept_managed [OF assms(1) quiet_tested]) (use apply_accepted_mono [OF assms(2)] in auto)

lemma safe_managed_order:
  assumes "guarded (site_order L b) t" "list_all (\<lambda>e. \<not> gateway_write e) t"
  shows "safe (run_managed_site L E S M c b) t (\<lambda>_. guarded (site_order L b))"
  by (rule kept_managed [OF assms(1) quiet_order]) (use assms(2) in auto)

end
