(* ===== verification/Sync.thy ===== *)
theory Sync imports SiteGuards begin

text \<open>
  \<open>internal/application/reconciliation/service.go\<close>: requesting a synchronisation, and
  \<open>Run\<close>, which loads the operation, takes the lock of the site, and synchronises either the
  whole site or the channel of one relation.

  \<open>Run\<close> is cut into the phases its body goes through; each phase is a
  definition, and \<open>run_relation\<close> composes them.
\<close>

section \<open>Requests\<close>

definition request_sync :: "'w env \<Rightarrow> uuid \<Rightarrow> ('w, go_error + operation, go_error + operation) prog" where
  "request_sync E relation =
     bindP (silent (e_new_id E)) (\<lambda>i.
     bindP (clock E) (\<lambda>now.
     bindP (observed (EvCreateOperation i) (e_create_operation E relation i now)) (\<lambda>r. case r of
       Inl e \<Rightarrow> ret (Inl (ErrWrap ''create synchronization operation'' e))
     | Inr op \<Rightarrow>
         if op_status op = OperationSucceeded \<or> op_status op = OperationManualRequired then ret (Inr op)
         else (case e_dispatch E of
             None \<Rightarrow> ret (Inr op)
           | Some dispatch \<Rightarrow>
               bindP (observed (EvDispatch (op_id op)) (dispatch (op_id op))) (\<lambda>r. case r of
                 Some e \<Rightarrow> ret (Inl (ErrWrap ''dispatch synchronization operation'' e))
               | None \<Rightarrow> ret (Inr op))))))"

section \<open>The channel of one relation\<close>

text \<open>The start of the operation, the keys, the gateway and the probe.\<close>

definition open_relation ::
  "'w env \<Rightarrow> uuid \<Rightarrow> sync_bundle \<Rightarrow> ('w, go_error option, sync_bundle \<times> bytes \<times> 'w gateway) prog" where
  "open_relation E oid b0 =
     bindP (clock E) (\<lambda>started.
     bindP (try_call (observed (EvStart (bn_operation b0)) (e_start E (bn_operation b0) ''probe'' started))
       (return_wrapped ''start synchronization operation'')) (\<lambda>_.
     let b = next_attempt b0;
         unavailable = (\<lambda>_. finish_failure E b ''decrypt_credentials''
           (ErrFailure (fail FailureAuthentication ''credential_unavailable''))) in
     bindP (try_value (decrypt E (bn_admin_credential b)) unavailable) (\<lambda>admin.
     bindP (try_value (decrypt E (bn_supplier_credential b)) unavailable) (\<lambda>supplier.
     bindP (try_value (new_gateway E b admin) (\<lambda>_. finish_failure E b ''create_gateway''
       (ErrFailure (fail FailureConfiguration ''gateway_configuration'')))) (\<lambda>G.
     bindP (try_value (probe G) (finish_failure E b ''probe'')) (\<lambda>_.
     bindP (try_call (record_success E oid ''probe'' started) return_error) (\<lambda>_.
     ret (b, supplier, G))))))))"

text \<open>The first state, the channel in it, and the manual lock.\<close>

definition locate_relation ::
  "'w env \<Rightarrow> uuid \<Rightarrow> sync_bundle \<Rightarrow> 'w gateway \<Rightarrow> ('w, go_error option, actual_state \<times> actual_channel option) prog" where
  "locate_relation E oid b G =
     bindP (try_value (read_actual G) (finish_failure E b ''read_actual'')) (\<lambda>actual.
     bindP (clock E) (\<lambda>read_at.
     bindP (try_call (record_success E oid ''read_actual'' read_at) return_error) (\<lambda>_.
     bindP (try_value (pureE (locate_managed_channel (sn_channel (pl_snapshot (bn_plan b)))
         (mc_external_channel_id (bn_managed_channel b)) (as_channels actual))) (finish_failure E b ''locate_channel'')) (\<lambda>channel.
     if (case channel of None \<Rightarrow> False | Some c \<Rightarrow> ac_status c = ChannelManuallyDisabled)
       \<and> mc_last_confirmed_plan_version (bn_managed_channel b) \<noteq> None
     then give_up E b ''manual_lock'' (fail FailureManualLock ''channel_manually_disabled'')
     else ret (actual, channel)))))"

text \<open>The group: its price and whether users see it.\<close>

definition write_group ::
  "'d libs \<Rightarrow> 'w env \<Rightarrow> uuid \<Rightarrow> sync_bundle \<Rightarrow> 'w gateway \<Rightarrow> actual_state \<Rightarrow> ('w, go_error option, unit) prog" where
  "write_group L E oid b G actual =
     (let g = sn_group (pl_snapshot (bn_plan b)) in
      bindP (try_value (pureE (merge_group_ratios L (as_group_ratios actual) (dg_key g) (dg_sale_ratio g)))
        (finish_failure E b ''merge_group_ratio'')) (\<lambda>(ratios, changed).
      bindP (if changed then
          bindP (clock E) (\<lambda>started.
          bindP (try_call (set_ratios G ratios) (finish_failure E b ''set_group_ratio'')) (\<lambda>_.
          try_call (record_success E oid ''set_group_ratio'' started) return_error))
        else ret ()) (\<lambda>_.
      case merge_user_usable_groups (as_user_usable_groups actual) g of (users, shown_changed) \<Rightarrow>
      if shown_changed then
          bindP (clock E) (\<lambda>started.
          bindP (try_call (set_users G users) (finish_failure E b ''set_group_visibility'')) (\<lambda>_.
          try_call (record_success E oid ''set_group_visibility'' started) return_error))
        else ret ())))"

text \<open>Reading back a channel that was written.\<close>

definition read_back :: "'w env \<Rightarrow> sync_bundle \<Rightarrow> 'w gateway \<Rightarrow> ('w, go_error option, actual_channel) prog" where
  "read_back E b G =
     bindP (try_value (read_actual G) (finish_failure E b ''read_after_channel_write'')) (\<lambda>actual.
     bindP (try_value (pureE (locate_managed_channel (sn_channel (pl_snapshot (bn_plan b)))
         (mc_external_channel_id (bn_managed_channel b)) (as_channels actual)))
       (finish_failure E b ''locate_channel_after_write'')) (\<lambda>found. case found of
       None \<Rightarrow> give_up E b ''locate_channel_after_write'' (fail FailureUncertain ''channel_create_unconfirmed'')
     | Some c \<Rightarrow> ret c))"

text \<open>The channel: created, updated or left alone, and read back after a write.  The result is
  the channel and whether an existing one was updated.\<close>

definition write_channel ::
  "'w env \<Rightarrow> uuid \<Rightarrow> sync_bundle \<Rightarrow> 'w gateway \<Rightarrow> bytes \<Rightarrow> actual_channel option
   \<Rightarrow> ('w, go_error option, actual_channel \<times> bool) prog" where
  "write_channel E oid b G secret channel =
     (let e = sn_channel (pl_snapshot (bn_plan b)) in
      case channel of
        None \<Rightarrow>
          bindP (clock E) (\<lambda>started.
          bindP (try_call (create_channel G e secret) (finish_failure E b ''create_channel'')) (\<lambda>_.
          bindP (try_call (record_success E oid ''create_channel'' started) return_error) (\<lambda>_.
          bindP (read_back E b G) (\<lambda>c. ret (c, False)))))
      | Some c \<Rightarrow>
          if channel_configuration_matches e c then ret (c, False)
          else
          bindP (clock E) (\<lambda>started.
          bindP (try_call (update_channel G (ac_id c) e secret) (finish_failure E b ''update_channel'')) (\<lambda>_.
          bindP (try_call (record_success E oid ''update_channel'' started) return_error) (\<lambda>_.
          bindP (read_back E b G) (\<lambda>c. ret (c, True))))))"

text \<open>Storing the id of the channel; the result is the binding.\<close>

definition bind_relation :: "'w env \<Rightarrow> sync_bundle \<Rightarrow> actual_channel \<Rightarrow> ('w, go_error option, int option) prog" where
  "bind_relation E b c =
     (if mc_external_channel_id (bn_managed_channel b) \<noteq> Some (ac_id c)
      then bindP (try_call (bind_channel E (mc_id (bn_managed_channel b)) (ac_id c))
             (return_wrapped ''save New API channel binding'')) (\<lambda>_. ret (Some (ac_id c)))
      else ret (mc_external_channel_id (bn_managed_channel b)))"

text \<open>The test with a real call, and the update that makes the gateway load a new channel.\<close>

definition test_relation ::
  "'w env \<Rightarrow> uuid \<Rightarrow> sync_bundle \<Rightarrow> 'w gateway \<Rightarrow> bytes \<Rightarrow> actual_channel \<Rightarrow> bool \<Rightarrow> ('w, go_error option, unit) prog" where
  "test_relation E oid b G secret c updated =
     (let e = sn_channel (pl_snapshot (bn_plan b)) in
      case dc_models e of
        [] \<Rightarrow> panic
      | m # _ \<Rightarrow>
        bindP (clock E) (\<lambda>test_started.
        bindP (try_call (test_channel G (ac_id c) (mt_model m) secret) (finish_failure E b ''test_channel'')) (\<lambda>_.
        bindP (try_call (record_success E oid ''test_channel'' test_started) return_error) (\<lambda>_.
        if mc_last_confirmed_plan_version (bn_managed_channel b) = None \<and> ac_status c \<noteq> ChannelEnabled \<and> \<not> updated
        then bindP (clock E) (\<lambda>started.
          bindP (try_call (update_channel G (ac_id c) e secret) (finish_failure E b ''prepare_channel_activation'')) (\<lambda>_.
          try_call (record_success E oid ''prepare_channel_activation'' started) return_error))
        else ret ()))))"

definition enable_relation :: "'w env \<Rightarrow> uuid \<Rightarrow> sync_bundle \<Rightarrow> 'w gateway \<Rightarrow> actual_channel \<Rightarrow> ('w, go_error option, unit) prog" where
  "enable_relation E oid b G c =
     (if ac_status c \<noteq> ChannelEnabled
      then bindP (clock E) (\<lambda>started.
        bindP (try_call (set_enabled G (ac_id c) True) (finish_failure E b ''enable_channel'')) (\<lambda>_.
        try_call (record_success E oid ''enable_channel'' started) return_error))
      else ret ())"

text \<open>The last read, its check against the first one, and the completion.\<close>

definition finish_relation ::
  "'d libs \<Rightarrow> 'w env \<Rightarrow> uuid \<Rightarrow> sync_bundle \<Rightarrow> 'w gateway \<Rightarrow> actual_state \<Rightarrow> int option
   \<Rightarrow> ('w, go_error option, go_error option) prog" where
  "finish_relation L E oid b G before binding =
     (let s = pl_snapshot (bn_plan b); key = dg_key (sn_group s) in
      bindP (try_value (read_actual G) (finish_failure E b ''final_read'')) (\<lambda>final.
      bindP (try_value (pureE (verify_unmanaged_group_ratios L (as_group_ratios before) (as_group_ratios final) key))
        (finish_failure E b ''verify_unmanaged_groups'')) (\<lambda>_.
      bindP (try_value (pureE (verify_unmanaged_user_groups (as_user_usable_groups before) (as_user_usable_groups final) key))
        (finish_failure E b ''verify_unmanaged_user_groups'')) (\<lambda>_.
      bindP (try_value (pureE (verify L s final binding)) (finish_failure E b ''verify'')) (\<lambda>channel.
      bindP (clock E) (\<lambda>started.
      bindP (try_call (record_success E oid ''verify'' started) return_error) (\<lambda>_.
      bindP (clock E) (\<lambda>now.
      bindP (try_call (observed (EvComplete b (ac_id channel)) (e_complete E b (ac_id channel) now))
        (return_wrapped ''complete synchronization operation'')) (\<lambda>_.
      ret None)))))))))"

definition activate_relation ::
  "'w env \<Rightarrow> uuid \<Rightarrow> sync_bundle \<Rightarrow> 'w gateway \<Rightarrow> bytes \<Rightarrow> actual_channel \<Rightarrow> bool \<Rightarrow> ('w, go_error option, unit) prog" where
  "activate_relation E oid b G secret c updated =
     bindP (test_relation E oid b G secret c updated) (\<lambda>_. enable_relation E oid b G c)"

definition run_relation ::
  "'d libs \<Rightarrow> 'w env \<Rightarrow> uuid \<Rightarrow> sync_bundle \<Rightarrow> ('w, go_error option, go_error option) prog" where
  "run_relation L E oid b0 =
     bindP (open_relation E oid b0) (\<lambda>(b, secret, G).
     bindP (locate_relation E oid b G) (\<lambda>(actual, channel).
     bindP (write_group L E oid b G actual) (\<lambda>_.
     bindP (write_channel E oid b G secret channel) (\<lambda>(c, updated).
     bindP (bind_relation E b c) (\<lambda>binding.
     bindP (activate_relation E oid b G secret c updated) (\<lambda>_.
     finish_relation L E oid b G actual binding))))))"

section \<open>Run\<close>

definition run_locked :: "'d libs \<Rightarrow> 'w env \<Rightarrow> uuid \<Rightarrow> ('w, go_error option, go_error option) prog" where
  "run_locked L E oid =
     bindP (try_value (observed (EvLoad oid) (e_load E oid))
       (return_wrapped ''reload synchronization operation under site lock'')) (\<lambda>b.
     if bn_current_plan_id b \<noteq> uuid_nil \<and> bn_current_plan_id b \<noteq> pl_id (bn_plan b)
     then (case e_site_store E of
         Some S \<Rightarrow> bindP (clock E) (\<lambda>now. observed (EvSupersede b) (ss_supersede S b now))
       | None \<Rightarrow> ret (Some (ErrPlain ''cannot record superseded synchronization operation'')))
     else if operation_settled (op_status (bn_operation b)) then ret None
     else (case can_sync (bn_site b) of
         Inl _ \<Rightarrow>
           let kind = (if st_compatibility (bn_site b) = CompatibilityIncompatible then FailureCompatibility
                       else FailureConfiguration) in
           finish_failure E b ''validate_site'' (ErrFailure (fail kind ''site_not_writable''))
       | Inr _ \<Rightarrow>
           if sn_schema_version (pl_snapshot (bn_plan b)) = site_snapshot_schema_version then run_site L E b
           else run_relation L E oid b))"

definition join_release :: "go_error option \<Rightarrow> go_error \<Rightarrow> go_error option" where
  "join_release r e =
     Some (ErrJoin ((case r of None \<Rightarrow> [] | Some x \<Rightarrow> [x]) @ [ErrWrap ''release site synchronization lock'' e]))"

definition run :: "'d libs \<Rightarrow> 'w env \<Rightarrow> uuid \<Rightarrow> ('w, go_error option, go_error option) prog" where
  "run L E oid =
     bindP (try_value (observed (EvLoad oid) (e_load E oid)) (return_wrapped ''load synchronization operation'')) (\<lambda>b.
     if operation_settled (op_status (bn_operation b)) then ret None
     else bindP (try_value (observed (EvLock (st_id (bn_site b))) (e_lock E (st_id (bn_site b))))
       (return_wrapped ''acquire site synchronization lock'')) (\<lambda>acquired.
     if \<not> acquired then ret (Some (ErrFailure (fail FailureRetryable ''site_sync_busy'')))
     else deferred (run_locked L E oid) (observed EvRelease (e_release E)) join_release))"

section \<open>Which events the phases add\<close>

lemma only_open_relation:
  assumes "\<And>o1 r. p (EvStart o1 r)" "\<And>c. p (EvDecrypt c)" "\<And>r. p (EvProbe r)" "\<And>s r. p (EvStep s r)" "\<And>f r. p (EvFail f r)"
  shows "only p (open_relation E oid b)"
  unfolding open_relation_def Let_def by (intro only_steps assms)

lemma only_locate_relation:
  assumes "\<And>r. p (EvRead r)" "\<And>s r. p (EvStep s r)" "\<And>f r. p (EvFail f r)"
  shows "only p (locate_relation E oid b G)"
  unfolding locate_relation_def by (intro only_steps assms)

lemma only_write_group:
  assumes "\<And>m r. p (EvSetRatios m r)" "\<And>m r. p (EvSetUsers m r)" "\<And>s r. p (EvStep s r)" "\<And>f r. p (EvFail f r)"
  shows "only p (write_group L E oid b G actual)"
  unfolding write_group_def Let_def by (intro only_steps assms)

lemma only_write_channel:
  assumes "\<And>d r. p (EvCreate d r)" "\<And>i d r. p (EvUpdate i d r)" "\<And>r. p (EvRead r)"
    and "\<And>s r. p (EvStep s r)" "\<And>f r. p (EvFail f r)"
  shows "only p (write_channel E oid b G secret channel)"
  unfolding write_channel_def read_back_def Let_def by (intro only_steps assms)

lemma only_bind_relation:
  assumes "\<And>i c r. p (EvBind i c r)"
  shows "only p (bind_relation E b c)"
  unfolding bind_relation_def by (intro only_steps assms)

lemma only_test_relation:
  assumes "\<And>i m r. p (EvTest i m r)" "\<And>i d r. p (EvUpdate i d r)" "\<And>s r. p (EvStep s r)" "\<And>f r. p (EvFail f r)"
  shows "only p (test_relation E oid b G secret c updated)"
  unfolding test_relation_def Let_def by (intro only_steps assms)

lemma only_enable_relation:
  assumes "\<And>r. p (EvEnable (ac_id c) True r)" "\<And>s r. p (EvStep s r)" "\<And>f r. p (EvFail f r)"
  shows "only p (enable_relation E oid b G c)"
  unfolding enable_relation_def set_enabled_def by (intro only_steps assms)

lemma only_activate_relation:
  assumes "\<And>i m r. p (EvTest i m r)" "\<And>i d r. p (EvUpdate i d r)" "\<And>i v r. p (EvEnable i v r)"
    and "\<And>s r. p (EvStep s r)" "\<And>f r. p (EvFail f r)"
  shows "only p (activate_relation E oid b G secret c updated)"
  unfolding activate_relation_def by (intro only_steps only_test_relation only_enable_relation assms)

lemma only_finish_relation:
  assumes "\<And>r. p (EvRead r)" "\<And>i r. p (EvComplete b i r)" "\<And>s r. p (EvStep s r)" "\<And>f r. p (EvFail f r)"
  shows "only p (finish_relation L E oid b G before binding)"
  unfolding finish_relation_def Let_def by (intro only_steps assms)

section \<open>Testing before enabling\<close>

lemma gives_test_relation:
  "gives (test_relation E oid b G secret c updated) t (\<lambda>_ t'. list_ex (tested (ac_id c)) t')"
  unfolding test_relation_def Let_def test_channel_def update_channel_def record_success_def
  by (auto intro!: gives_rules split: option.split)

lemma keeps_activate_relation: "keeps (enable_tested E) (activate_relation E oid b G secret c updated)"
  unfolding activate_relation_def
proof (rule keeps_bind_gives [OF keeps_only gives_test_relation])
  show "only (\<lambda>e. \<forall>t. enable_tested E e t) (test_relation E oid b G secret c updated)"
    by (rule only_test_relation) simp_all
  fix t
  assume t: "list_ex (tested (ac_id c)) t" "guarded (enable_tested E) t"
  have g: "guarded (enable_tested E) (d @ t)" if "list_all (\<lambda>e. bookkeeping e \<or> (\<exists>r. e = EvEnable (ac_id c) True r)) d" for d
    using that by (induction d) (auto simp: t elim: bookkeeping.elims)
  show "safe (enable_relation E oid b G c) t (\<lambda>_. guarded (enable_tested E))"
  proof (rule safe_only)
    show "only (\<lambda>e. bookkeeping e \<or> (\<exists>r. e = EvEnable (ac_id c) True r)) (enable_relation E oid b G c)"
      by (rule only_enable_relation) simp_all
  qed (rule g)
qed

lemma keeps_run_relation: "keeps (enable_tested E) (run_relation L E oid b)"
  unfolding run_relation_def
  by (intro keeps_rules keeps_activate_relation
      keeps_only [OF only_open_relation] keeps_only [OF only_locate_relation] keeps_only [OF only_write_group]
      keeps_only [OF only_write_channel] keeps_only [OF only_bind_relation] keeps_only [OF only_finish_relation]) simp_all

section \<open>The lock\<close>

text \<open>Running \<open>g\<close> at the end adds its event, whatever the way the body ended.\<close>

lemma safe_deferred:
  assumes "safe m t P"
    and "\<And>out t' x r. P out t' \<Longrightarrow> Q (Value r) (ev x # t')"
    and "\<And>out t' x. P out t' \<Longrightarrow> Q Panicked (ev x # t')"
  shows "safe (deferred m (observed ev f) join) t Q"
proof (rule safeI)
  fix w out w' t'
  assume d: "deferred m (observed ev f) join w t = (out, w', t')"
  obtain o1 w1 t1 where m: "m w t = (o1, w1, t1)" by (cases "m w t")
  have p: "P o1 t1" by (rule safeD [OF assms(1) m])
  obtain x w2 where "f w1 = (x, w2)" by (cases "f w1")
  then show "Q out t'"
    using d m p assms(2,3) by (cases o1) (auto simp: deferred_def bindP_def observed_def ret_def panic_def)
qed

fun locking :: "event \<Rightarrow> bool" where
  "locking (EvLock s r) = True"
| "locking (EvRelease r) = True"
| "locking e = False"

lemma only_run_site:
  assumes "\<And>e. \<not> locking e \<Longrightarrow> p e"
  shows "only p (run_site L E b)"
proof -
  have p: "p e" if "\<not> locking e" for e using that assms by blast
  have "only p (sync_site L E S G b)" for S G b
    unfolding sync_site_def
    by (intro only_rules only_shutdown_phase only_price_phase only_apply_resources only_visibility_phase only_final_phase p) simp_all
  moreover have "only p (try_run_managed_site L E S G b)" for S G b
    by (rule only_try_run_managed_site) (simp_all add: p)
  ultimately show ?thesis
    unfolding run_site_def Let_def by (auto intro!: only_steps p split: option.split)
qed

lemma only_run_relation:
  assumes "\<And>e. \<not> locking e \<Longrightarrow> p e"
  shows "only p (run_relation L E oid b)"
proof -
  have p: "p e" if "\<not> locking e" for e using that assms by blast
  show ?thesis
    unfolding run_relation_def
    by (intro only_rules only_open_relation only_locate_relation only_write_group only_write_channel only_bind_relation
        only_activate_relation only_finish_relation p) simp_all
qed

lemma only_run_locked: "only (\<lambda>e. \<not> locking e) (run_locked L E oid)"
  unfolding run_locked_def Let_def
  by (intro only_steps only_run_site only_run_relation) simp_all

text \<open>The traces of a run: only loads and a refused lock, or a run between lock and release.\<close>

definition lock_discipline :: "uuid \<Rightarrow> trace \<Rightarrow> bool" where
  "lock_discipline oid t \<longleftrightarrow>
     (\<exists>x. t = [EvLoad oid x])
     \<or> (\<exists>b r. t = [EvLock (st_id (bn_site b)) r, EvLoad oid (Inr b)] \<and> r \<noteq> Inr True)
     \<or> (\<exists>b r body. t = EvRelease r # body @ [EvLock (st_id (bn_site b)) (Inr True), EvLoad oid (Inr b)]
          \<and> list_all (\<lambda>e. \<not> locking e) body)"

lemma safe_run_lock: "safe (run L E oid) [] (\<lambda>_. lock_discipline oid)"
proof -
  have held: "safe (deferred (run_locked L E oid) (observed EvRelease (e_release E)) join_release)
      [EvLock (st_id (bn_site b)) (Inr True), EvLoad oid (Inr b)] (\<lambda>_. lock_discipline oid)" for b
    by (rule safe_deferred [OF only_safe [OF only_run_locked]]) (auto simp: lock_discipline_def)
  have locked: "safe (bindP (try_value (observed (EvLock (st_id (bn_site b))) (e_lock E (st_id (bn_site b))))
       (return_wrapped ''acquire site synchronization lock'')) (\<lambda>acquired.
     if \<not> acquired then ret (Some (ErrFailure (fail FailureRetryable ''site_sync_busy'')))
     else deferred (run_locked L E oid) (observed EvRelease (e_release E)) join_release)) [EvLoad oid (Inr b)]
     (\<lambda>_. lock_discipline oid)" for b
    unfolding try_value_def return_wrapped_def
    by (auto intro!: safe_bind safe_observed held split: sum.split bool.split) (auto simp: lock_discipline_def)
  show ?thesis
    unfolding run_def
    by (auto intro!: safe_bind safe_try_value safe_observed locked split: sum.split simp: return_wrapped_def)
      (auto simp: lock_discipline_def)
qed

text \<open>
  C16: Locking: whatever the environment answers, and also when the run panics, a run that gets the
  lock of the site releases it exactly once, as its last act; everything between the loading of the
  operation and the release happens under the lock of the site of that operation, and a run that
  does not get the lock does nothing.
\<close>

theorem run_lock_discipline:
  assumes "run L E oid w [] = (out, w', t)"
  shows "lock_discipline oid t"
  by (rule safeD [OF safe_run_lock assms])

text \<open>
  A run of an operation that is settled (succeeded, manual action required, superseded) reads
  the operation and does nothing else, and reports no error.
\<close>

theorem run_settled_noop:
  assumes "e_load E oid w = (Inr b, w1)" and "operation_settled (op_status (bn_operation b))"
  shows "run L E oid w t = (Value None, w1, EvLoad oid (Inr b) # t)"
  using assms by (simp add: run_def prog_defs)

section \<open>Completion\<close>

text \<open>One rule per statement, for a condition on the trace alone.\<close>

lemma safe_stop: "safe h t (\<lambda>_. Q) \<Longrightarrow> safe (bindP h exit) t (\<lambda>_. Q)"
  by (erule safe_seq) simp_all

lemma step_observed:
  "(\<And>x. safe (f x) (ev x # t) (\<lambda>_. Q)) \<Longrightarrow> safe (bindP (observed ev g) f) t (\<lambda>_. Q)"
  by (rule safe_bind, rule safe_observed) simp

lemma step_clock: "(\<And>x. safe (f x) t (\<lambda>_. Q)) \<Longrightarrow> safe (bindP (clock E) f) t (\<lambda>_. Q)"
  by (rule safe_bind, rule safe_clock) simp

lemma step_value:
  assumes "\<And>x. safe (f x) (ev (Inr x) # t) (\<lambda>_. Q)" "\<And>e. safe (h e) (ev (Inl e) # t) (\<lambda>_. Q)"
  shows "safe (bindP (try_value (observed ev g) h) f) t (\<lambda>_. Q)"
  unfolding try_value_def bindP_assoc
  by (rule step_observed) (auto split: sum.split simp: bindP_ret bindP_assoc bindP_exit intro: assms(1) intro!: safe_seq [OF assms(2)])

lemma step_pure:
  assumes "\<And>x. r = Inr x \<Longrightarrow> safe (f x) t (\<lambda>_. Q)" "\<And>e. r = Inl e \<Longrightarrow> safe (h (ErrFailure e)) t (\<lambda>_. Q)"
  shows "safe (bindP (try_value (pureE r) h) f) t (\<lambda>_. Q)"
proof (cases r)
  case (Inl e)
  show ?thesis unfolding Inl try_value_def pureE_def bindP_assoc bindP_ret
    by (simp add: bindP_assoc bindP_exit) (rule safe_stop [OF assms(2) [OF Inl]])
next
  case (Inr x)
  show ?thesis unfolding Inr try_value_def pureE_def bindP_assoc bindP_ret by (simp add: bindP_ret assms(1) [OF Inr])
qed

lemma step_call:
  assumes "safe (f ()) (ev None # t) (\<lambda>_. Q)" "\<And>e. safe (h e) (ev (Some e) # t) (\<lambda>_. Q)"
  shows "safe (bindP (try_call (observed ev g) h) f) t (\<lambda>_. Q)"
  unfolding try_call_def bindP_assoc
  by (rule step_observed) (auto split: option.split simp: bindP_ret bindP_assoc bindP_exit intro: assms(1) intro!: safe_seq [OF assms(2)])

lemma step_record:
  assumes "\<And>r. safe (f ()) (EvStep r None # t) (\<lambda>_. Q)" "\<And>r e. safe (h e) (EvStep r (Some e) # t) (\<lambda>_. Q)"
  shows "safe (bindP (try_call (record_success E i key started) h) f) t (\<lambda>_. Q)"
  unfolding try_call_def bindP_assoc record_success_def Let_def
  by (rule step_clock, rule step_observed)
    (auto split: option.split simp: bindP_ret bindP_assoc bindP_exit intro: assms(1) intro!: safe_seq [OF assms(2)])

lemma bookkeeping_quiet: "bookkeeping e \<Longrightarrow> \<not> completes e"
  by (auto elim: bookkeeping.elims)

lemma safe_quiet:
  assumes "only bookkeeping m" "guarded (completion_verified L) t"
  shows "safe m t (\<lambda>_. guarded (completion_verified L))"
proof (rule safe_only [OF assms(1)])
  fix out d
  assume "list_all bookkeeping d"
  then have "list_all (\<lambda>e. \<not> completes e) d" using bookkeeping_quiet by (induction d) auto
  then show "guarded (completion_verified L) (d @ t)" by (rule guarded_completion [OF assms(2)])
qed

lemma safe_finish_relation:
  assumes g: "guarded (completion_verified L) t" and l: "under_lock b t"
    and s: "states_seen t \<noteq> []" "last (states_seen t) = before" and c: "current_binding b t = binding"
  shows "safe (finish_relation L E oid b G before binding) t (\<lambda>_. guarded (completion_verified L))"
proof -
  have stop: "safe (finish_failure E b step e) t' (\<lambda>_. guarded (completion_verified L))"
    if "guarded (completion_verified L) t'" for step e t'
    by (rule safe_quiet [OF only_finish_failure that]) simp_all
  show ?thesis
    unfolding finish_relation_def Let_def read_actual_def return_error_def return_wrapped_def
    by (intro step_value step_pure step_clock step_record step_call stop)
      (use g l s c in \<open>auto simp: relation_verified_def Let_def current_binding_def\<close>)
qed

lemma gives_open_relation: "gives (open_relation E oid b0) t (\<lambda>x _. fst x = next_attempt b0)"
  unfolding open_relation_def Let_def probe_def decrypt_def new_gateway_def record_success_def
  by (auto intro!: gives_rules split: sum.split option.split)

definition relation_locked :: "sync_bundle \<Rightarrow> actual_state \<Rightarrow> bool" where
  "relation_locked b s \<longleftrightarrow> mc_last_confirmed_plan_version (bn_managed_channel b) \<noteq> None
     \<and> (case locate_managed_channel (sn_channel (pl_snapshot (bn_plan b))) (mc_external_channel_id (bn_managed_channel b)) (as_channels s) of
         Inr (Some c) \<Rightarrow> ac_status c = ChannelManuallyDisabled
       | _ \<Rightarrow> False)"

lemma gives_locate_relation:
  "gives (locate_relation E oid b G) t (\<lambda>x t'. (\<exists>d. t' = d @ EvRead (Inr (fst x)) # t) \<and> \<not> relation_locked b (fst x))"
proof -
  have stop: "gives (give_up E b step f) t P" for step f t P
    unfolding give_up_def by (rule gives_bind_exit)
  show ?thesis
    unfolding locate_relation_def read_actual_def record_success_def
    by (auto intro!: gives_rules stop split: sum.split option.split simp: relation_locked_def)
qed

lemma relation_locked_next [simp]: "relation_locked (next_attempt b) = relation_locked b"
  by (simp add: relation_locked_def next_attempt_def fun_eq_iff)

text \<open>The phases between the first read and the last.\<close>

definition write_relation ::
  "'d libs \<Rightarrow> 'w env \<Rightarrow> uuid \<Rightarrow> sync_bundle \<Rightarrow> bytes \<Rightarrow> 'w gateway \<Rightarrow> actual_state \<Rightarrow> actual_channel option
   \<Rightarrow> ('w, go_error option, int option) prog" where
  "write_relation L E oid b secret G actual channel =
     bindP (write_group L E oid b G actual) (\<lambda>_.
     bindP (write_channel E oid b G secret channel) (\<lambda>x.
     bindP (bind_relation E b (fst x)) (\<lambda>binding.
     bindP (activate_relation E oid b G secret (fst x) (snd x)) (\<lambda>_. ret binding))))"

lemma run_relation_phases:
  "run_relation L E oid b0 =
     bindP (open_relation E oid b0) (\<lambda>x.
     bindP (locate_relation E oid (fst x) (snd (snd x))) (\<lambda>y.
     bindP (write_relation L E oid (fst x) (fst (snd x)) (snd (snd x)) (fst y) (snd y)) (\<lambda>binding.
     finish_relation L E oid (fst x) (snd (snd x)) (fst y) binding)))"
  by (simp add: run_relation_def write_relation_def case_prod_beta' bindP_assoc bindP_ret)

lemma only_write_relation:
  assumes "\<And>e. \<not> completes e \<Longrightarrow> p e"
  shows "only p (write_relation L E oid b secret G actual channel)"
  unfolding write_relation_def
  by (intro only_rules only_write_group only_write_channel only_bind_relation only_activate_relation assms) simp_all

lemma no_bindings: "list_all (\<lambda>e. bound e = None) d \<Longrightarrow> bindings d = []"
  by (induction d) auto

lemma gives_bind_relation:
  assumes "bindings t = []"
  shows "gives (bind_relation E b c) t (\<lambda>binding t'. current_binding b t' = binding)"
  unfolding bind_relation_def bind_channel_def
  using assms by (auto intro!: gives_rules split: option.split simp: current_binding_def)

lemma gives_write_relation:
  assumes t: "bindings t = []"
  shows "gives (write_relation L E oid b secret G actual channel) t (\<lambda>binding t'. current_binding b t' = binding)"
  unfolding write_relation_def
proof (rule gives_bind, rule gives_only [where p = "\<lambda>e. bound e = None"])
  show "only (\<lambda>e. bound e = None) (write_group L E oid b G actual)" by (rule only_write_group) simp_all
  fix d
  assume d: "list_all (\<lambda>e. bound e = None) d"
  show "gives (bindP (write_channel E oid b G secret channel) (\<lambda>x. bindP (bind_relation E b (fst x)) (\<lambda>binding.
      bindP (activate_relation E oid b G secret (fst x) (snd x)) (\<lambda>_. ret binding)))) (d @ t)
      (\<lambda>binding t'. current_binding b t' = binding)"
  proof (rule gives_bind, rule gives_only [where p = "\<lambda>e. bound e = None"])
    show "only (\<lambda>e. bound e = None) (write_channel E oid b G secret channel)" by (rule only_write_channel) simp_all
    fix x :: "actual_channel \<times> bool" and e
    assume e: "list_all (\<lambda>e. bound e = None) e"
    have "bindings (e @ d @ t) = []" using d e t by (simp add: no_bindings)
    then show "gives (bindP (bind_relation E b (fst x)) (\<lambda>binding.
      bindP (activate_relation E oid b G secret (fst x) (snd x)) (\<lambda>_. ret binding))) (e @ d @ t)
      (\<lambda>binding t'. current_binding b t' = binding)"
    proof (rule gives_bind [OF gives_mono [OF gives_bind_relation]])
      fix binding t'
      assume b: "current_binding b t' = binding"
      show "gives (bindP (activate_relation E oid b G secret (fst x) (snd x)) (\<lambda>_. ret binding)) t'
        (\<lambda>binding t'. current_binding b t' = binding)"
      proof (rule gives_bind, rule gives_only [where p = "\<lambda>e. bound e = None"])
        show "only (\<lambda>e. bound e = None) (activate_relation E oid b G secret (fst x) (snd x))"
          by (rule only_activate_relation) simp_all
      qed (use b in \<open>auto simp: current_binding_def no_bindings intro!: gives_ret\<close>)
    qed
  qed
qed

text \<open>A run for a relation, for a condition that opening it cannot break, that the first read
  makes the rest keep, and that the end of the run keeps.\<close>

lemma safe_run_relation:
  fixes E :: "'w env"
  assumes t: "guarded C t" "states_seen t = []" "bindings t = []"
    and quiet: "\<And>e t. \<not> completes e \<Longrightarrow> \<not> gateway_write e \<Longrightarrow> C e t"
    and writes: "\<And>e t. gateway_write e \<Longrightarrow> states_seen t \<noteq> [] \<Longrightarrow> \<not> relation_locked b0 (last (states_seen t)) \<Longrightarrow> C e t"
    and finish: "\<And>b G before binding d. guarded C (d @ t) \<Longrightarrow> b = next_attempt b0 \<Longrightarrow> states_seen (d @ t) \<noteq> []
      \<Longrightarrow> last (states_seen (d @ t)) = before \<Longrightarrow> current_binding b (d @ t) = binding
      \<Longrightarrow> safe (finish_relation L E oid b G before binding) (d @ t) (\<lambda>_. guarded C)"
  shows "safe (run_relation L E oid b0) t (\<lambda>_. guarded C)"
proof -
  let ?q = "\<lambda>e. \<not> completes e \<and> \<not> gateway_write e \<and> bound e = None \<and> seen e = None"
  let ?r = "\<lambda>e. \<not> completes e \<and> \<not> gateway_write e \<and> bound e = None"
  have calm: "guarded C (d @ t')" if "list_all ?r d" "guarded C t'" for d t'
    by (rule guarded_append [OF that(2)]) (use that(1) quiet in \<open>auto simp: list_all_iff\<close>)
  have q: "list_all ?q d \<Longrightarrow> list_all ?r d" "list_all ?q d \<Longrightarrow> states_seen d = []" for d
    by (induction d) auto
  have nb: "list_all ?r d \<Longrightarrow> bindings d = []" for d by (induction d) auto
  show ?thesis
    unfolding run_relation_phases
  proof (rule safe_phase [where p = ?q, OF _ gives_open_relation])
    show "only ?q (open_relation E oid b0)" by (rule only_open_relation) simp_all
    fix x :: "sync_bundle \<times> bytes \<times> 'w gateway" and d
    assume d: "list_all ?q d" and b: "fst x = next_attempt b0"
    have td: "guarded C (d @ t)" "states_seen (d @ t) = []" using t q [OF d] by (simp_all add: calm)
    show "safe (bindP (locate_relation E oid (fst x) (snd (snd x))) (\<lambda>y.
       bindP (write_relation L E oid (fst x) (fst (snd x)) (snd (snd x)) (fst y) (snd y)) (\<lambda>binding.
       finish_relation L E oid (fst x) (snd (snd x)) (fst y) binding))) (d @ t) (\<lambda>_. guarded C)"
    proof (rule safe_phase [where p = ?r, OF _ gives_locate_relation])
      show "only ?r (locate_relation E oid (fst x) (snd (snd x)))" by (rule only_locate_relation) simp_all
      fix y :: "actual_state \<times> actual_channel option" and e
      assume e: "list_all ?r e" and y: "(\<exists>f. e @ d @ t = f @ EvRead (Inr (fst y)) # d @ t) \<and> \<not> relation_locked (fst x) (fst y)"
      obtain f where f: "e @ d @ t = f @ EvRead (Inr (fst y)) # d @ t" using y by blast
      have te: "guarded C (e @ d @ t)" by (rule calm [OF e td(1)])
      have be: "bindings (e @ d @ t) = []" using nb [OF e] nb [OF q(1) [OF d]] t(3) by simp
      have s: "states_seen (g @ e @ d @ t) \<noteq> []" "last (states_seen (g @ e @ d @ t)) = fst y" for g
        using td(2) by (simp_all add: f)
      have tg: "guarded C (g @ e @ d @ t)" if "list_all (\<lambda>e. \<not> completes e) g" for g
        using that
      proof (induction g)
        case (Cons a g)
        then have "C a (g @ e @ d @ t)"
          using writes [OF _ s(1) [of g]] s(2) [of g] quiet [of a] y b by (cases "gateway_write a") auto
        with Cons show ?case by simp
      qed (simp add: te)
      show "safe (bindP (write_relation L E oid (fst x) (fst (snd x)) (snd (snd x)) (fst y) (snd y)) (\<lambda>binding.
         finish_relation L E oid (fst x) (snd (snd x)) (fst y) binding)) (e @ d @ t) (\<lambda>_. guarded C)"
      proof (rule safe_phase [where p = "\<lambda>e. \<not> completes e", OF _ gives_write_relation [OF be]])
        show "only (\<lambda>e. \<not> completes e) (write_relation L E oid (fst x) (fst (snd x)) (snd (snd x)) (fst y) (snd y))"
          by (rule only_write_relation)
        fix a g
        assume "list_all (\<lambda>e. \<not> completes e) g" "current_binding (fst x) (g @ e @ d @ t) = a"
        then show "safe (finish_relation L E oid (fst x) (snd (snd x)) (fst y) a) (g @ e @ d @ t) (\<lambda>_. guarded C)"
          using finish [of "g @ e @ d" "fst x" "fst y" a] tg [of g] s [of g] b by simp
      qed (use tg in blast)+
    qed (use calm td in blast)+
  qed (use calm t q in blast)+
qed

lemma safe_run_relation_completion:
  assumes "guarded (completion_verified L) t" "under_lock b t" "states_seen t = []" "bindings t = []"
  shows "safe (run_relation L E oid b) t (\<lambda>_. guarded (completion_verified L))"
proof (rule safe_run_relation [OF assms(1,3,4)])
  show "completion_verified L e t" if "\<not> completes e" for e t using quiet_completion that by blast
  then show "completion_verified L e t" if "gateway_write e" for e t
    using that by (cases e) simp_all
  show "safe (finish_relation L E oid b' G before binding) (d @ t) (\<lambda>_. guarded (completion_verified L))"
    if "guarded (completion_verified L) (d @ t)" "b' = next_attempt b" "states_seen (d @ t) \<noteq> []"
      "last (states_seen (d @ t)) = before" "current_binding b' (d @ t) = binding" for b' G before binding d
    using that assms(2) by (intro safe_finish_relation) simp_all
qed

text \<open>Manual lock: nothing is written to a gateway whose first state shows the lock.\<close>

fun respects_lock :: "sync_bundle \<Rightarrow> event \<Rightarrow> trace \<Rightarrow> bool" where
  "respects_lock b e t \<longleftrightarrow>
     \<not> gateway_write e \<or> states_seen t \<noteq> [] \<and> \<not> relation_locked b (last (states_seen t))"

text \<open>
  Manual lock: when the first state read in the run of a relation that was confirmed before
  shows its channel manually disabled, the run writes nothing to the gateway: no price, no
  visibility, no channel is created, updated, tested or enabled; and nothing at all is written
  before a first state was read.
\<close>

theorem run_relation_respects_lock:
  assumes "run_relation L E oid b w [] = (out, w', t)"
  shows "guarded (respects_lock b) t"
proof (rule safeD [OF safe_run_relation assms])
  show "safe (finish_relation L E oid b' G before binding) (d @ []) (\<lambda>_. guarded (respects_lock b))"
    if "guarded (respects_lock b) (d @ [])" for b' G before binding d
  proof (rule safe_only)
    show "only (\<lambda>e. \<not> gateway_write e) (finish_relation L E oid b' G before binding)"
      by (rule only_finish_relation) simp_all
  next
    fix out and e :: trace
    assume "list_all (\<lambda>e. \<not> gateway_write e) e"
    then show "guarded (respects_lock b) (e @ d @ [])"
      by (intro guarded_append [OF that]) (auto simp: list_all_iff)
  qed
qed simp_all

section \<open>Sites\<close>

lemma gives_new_gateway: "gives (new_gateway E b s) t (\<lambda>_ t'. t' = t)"
  unfolding new_gateway_def by (auto intro!: gives_rules split: option.split)

lemma safe_continue_exit: "safe m t (\<lambda>_. Q) \<Longrightarrow> safe m t (continue_with exit (\<lambda>_. Q))"
proof (erule safe_mono)
  fix out t'
  assume "Q t'"
  then show "continue_with exit (\<lambda>_. Q) out t'" by (cases out) simp_all
qed

lemma safe_ignore: "safe m t (\<lambda>_. Q) \<Longrightarrow> safe (bindP m (\<lambda>x. ret (f x))) t (\<lambda>_. Q)"
  by (erule safe_seq) simp_all

lemma safe_invoke_trace: "safe m t (\<lambda>_. Q) \<Longrightarrow> safe (invoke m) t (\<lambda>_. Q)"
proof (rule safe_invoke, erule safe_mono)
  fix out t'
  assume "Q t'"
  then show "as_value (\<lambda>_. Q) out t'" by (cases out) simp_all
qed

text \<open>Opening a site reads no state and writes nothing.\<close>

fun opens_site :: "event \<Rightarrow> bool" where
  "opens_site (EvStart o1 r) = True"
| "opens_site (EvDecrypt c) = True"
| "opens_site (EvCapabilities r) = True"
| "opens_site (EvApproved c r) = True"
| "opens_site e = False"

lemma opening_quiet:
  assumes "list_all opens_site d"
  shows "states_seen d = []" "list_all (\<lambda>e. \<not> gateway_write e) d"
proof -
  have "opens_site e \<Longrightarrow> seen e = None \<and> \<not> gateway_write e" for e by (cases e) simp_all
  then show "states_seen d = []" "list_all (\<lambda>e. \<not> gateway_write e) d"
    using assms by (induction d) auto
qed

text \<open>The condition must not look at what opening the site adds.\<close>

lemma safe_run_site:
  fixes E :: "'w env"
  assumes t: "guarded C t"
    and quiet: "\<And>e t. bookkeeping e \<or> opens_site e \<Longrightarrow> C e t"
    and managed: "\<And>S M c d. guarded C (d @ t) \<Longrightarrow> list_all opens_site d \<Longrightarrow> EvCapabilities (Inr c) \<in> set d
      \<Longrightarrow> validate_managed_sync_capabilities c (pl_snapshot (bn_plan b0)) = Inr ()
      \<Longrightarrow> e_approved E = None \<or> EvApproved c (Inr True) \<in> set d \<Longrightarrow>
      safe (run_managed_site L E S M c (next_attempt b0)) (d @ t) (\<lambda>_. guarded C)"
    and legacy: "\<And>S G d. guarded C (d @ t) \<Longrightarrow> list_all opens_site d \<Longrightarrow>
      safe (sync_site L E S G (next_attempt b0)) (d @ t) (\<lambda>_. guarded C)"
  shows "safe (run_site L E b0) t (\<lambda>_. guarded C)"
proof -
  have grow: "guarded C (e # t')" if "guarded C t'" "bookkeeping e \<or> opens_site e" for e t'
    using that quiet by simp
  have failed: "safe (finish_failure E b step e) t' (\<lambda>_. guarded C)" if "guarded C t'" for b step e t'
  proof (rule safe_only [where p = bookkeeping])
    show "only bookkeeping (finish_failure E b step e)" by (rule only_finish_failure) simp_all
  qed (use that quiet in \<open>auto intro!: guarded_append simp: list_all_iff\<close>)
  have keep: "safe (try_run_managed_site L E S G (next_attempt b0)) (d @ t) (\<lambda>_. guarded C)"
    if d: "guarded C (d @ t)" "list_all opens_site d" for S G d
  proof -
    have m: "safe (invoke (run_managed_site L E S M c (next_attempt b0))) (EvCapabilities (Inr c) # d @ t) (\<lambda>_. guarded C)"
      if "validate_managed_sync_capabilities c (pl_snapshot (bn_plan b0)) = Inr ()" "e_approved E = None" for M c
      using managed [of "EvCapabilities (Inr c) # d" c S M] that d quiet by (auto intro!: safe_invoke_trace)
    have m2: "safe (invoke (run_managed_site L E S M c (next_attempt b0)))
        (EvApproved c (Inr True) # EvCapabilities (Inr c) # d @ t) (\<lambda>_. guarded C)"
      if "validate_managed_sync_capabilities c (pl_snapshot (bn_plan b0)) = Inr ()" for M c
      using managed [of "EvApproved c (Inr True) # EvCapabilities (Inr c) # d" c S M] that d quiet by (auto intro!: safe_invoke_trace)
    have plan: "bn_plan (next_attempt b0) = bn_plan b0" by (simp add: next_attempt_def)
    show ?thesis
      unfolding try_run_managed_site_def plan
      by (auto intro!: step_observed m m2 safe_ignore failed quiet simp: d split: option.split sum.split bool.split)
  qed
  have go: "safe (bindP (try_run_managed_site L E S G (next_attempt b0)) (\<lambda>handled. case handled of
      Some err \<Rightarrow> exit err | None \<Rightarrow> sync_site L E S G (next_attempt b0))) (d @ t) (\<lambda>_. guarded C)"
    if d: "guarded C (d @ t)" "list_all opens_site d" for S G d
  proof (rule safe_seq [OF safe_conj [OF keep [OF d] gives_try_run_managed [unfolded gives_def]]])
    fix t' and a :: "go_error option option"
    assume a: "guarded C t' \<and> (case Value a of Value h \<Rightarrow> h = None \<longrightarrow> t' = d @ t \<or> (\<exists>r. t' = EvCapabilities r # d @ t) | _ \<Rightarrow> True)"
    show "safe (case a of Some err \<Rightarrow> exit err | None \<Rightarrow> sync_site L E S G (next_attempt b0)) t' (\<lambda>_. guarded C)"
    proof (cases a)
      case None
      with a obtain g where "t' = g @ d @ t" "list_all opens_site g"
        by (fastforce intro: that [of "[]"] that [of "[EvCapabilities _]"])
      then show ?thesis using legacy [of "g @ d" S G] a d None by simp
    qed (use a in simp)
  qed auto
  have gateway: "safe (bindP (try_value (new_gateway E (next_attempt b0) k) h) f) t' (\<lambda>_. guarded C)"
    if "\<And>G. safe (f G) t' (\<lambda>_. guarded C)" "\<And>e. safe (h e) t' (\<lambda>_. guarded C)"
    for k h f and t' :: trace
    using that unfolding new_gateway_def try_value_def bindP_assoc Let_def
    by (auto intro!: safe_bind safe_silent safe_continue_exit split: option.split sum.split simp: bindP_ret bindP_assoc bindP_exit)
  have d: "guarded C ([EvDecrypt c, EvStart o1 r] @ t)" "list_all opens_site [EvDecrypt c, EvStart o1 r]" for c o1 r
    using t quiet by simp_all
  show ?thesis
    unfolding run_site_def Let_def decrypt_def give_up_def return_error_def
    using go [OF d] d
    by (auto intro!: step_clock step_call step_value gateway safe_stop failed t split: option.split)
qed

lemma safe_run_site_completion:
  assumes g: "guarded (completion_verified L) t" and l: "under_lock b t" and s: "states_seen t = []"
  shows "safe (run_site L E b) t (\<lambda>_. guarded (completion_verified L))"
proof (rule safe_run_site [OF g])
  have q: "completion_verified L e t" if "\<not> completes e" for e t using quiet_completion that by blast
  show "completion_verified L e t" if "bookkeeping e \<or> opens_site e" for e t
    by (rule q) (use that in \<open>cases e; simp\<close>)
  have l2: "under_lock (next_attempt b) (d @ t)" for d using l by simp
  show "safe (run_managed_site L E S M c (next_attempt b)) (d @ t) (\<lambda>_. guarded (completion_verified L))"
    if "guarded (completion_verified L) (d @ t)" "list_all opens_site d" for S M c d
    using safe_managed_completion [OF that(1) l2] opening_quiet [OF that(2)] s by simp
  show "safe (sync_site L E S G (next_attempt b)) (d @ t) (\<lambda>_. guarded (completion_verified L))"
    if "guarded (completion_verified L) (d @ t)" "list_all opens_site d" for S G d
    using safe_sync_site_completion [OF that(1) l2] opening_quiet [OF that(2)] s by simp
qed

lemma safe_run_site_tested:
  assumes g: "guarded (enable_tested E) t" and l: "under_lock b t"
  shows "safe (run_site L E b) t (\<lambda>_. guarded (enable_tested E))"
proof (rule safe_run_site [OF g])
  show "enable_tested E e t" if "bookkeeping e \<or> opens_site e" for e t
    by (rule quiet_tested) (use that in \<open>cases e; simp\<close>)
  show "safe (run_managed_site L E S M c (next_attempt b)) (d @ t) (\<lambda>_. guarded (enable_tested E))"
    if "guarded (enable_tested E) (d @ t)" "EvCapabilities (Inr c) \<in> set d"
      "validate_managed_sync_capabilities c (pl_snapshot (bn_plan b)) = Inr ()"
      "e_approved E = None \<or> EvApproved c (Inr True) \<in> set d" for S M c d
  proof (rule safe_managed_tested [OF that(1)])
    show "apply_accepted E (next_attempt b) c (d @ t)"
    proof -
      have "bn_plan (next_attempt b) = bn_plan b" by (simp add: next_attempt_def)
      then show ?thesis using that(2-) l by (auto simp: apply_accepted_def)
    qed
  qed
qed (rule keepsD [OF keeps_sync_site])

text \<open>Under the lock: what a run of the loaded bundle keeps, the whole run keeps.\<close>

lemma safe_run_locked:
  assumes g: "guarded C t" and lock: "holds_lock t"
    and quiet: "\<And>e t. bookkeeping e \<or> (\<exists>i x. e = EvLoad i x) \<or> (\<exists>b x. e = EvSupersede b x) \<Longrightarrow> C e t"
    and site: "\<And>b. guarded C (EvLoad oid (Inr b) # t) \<Longrightarrow> under_lock b (EvLoad oid (Inr b) # t)
      \<Longrightarrow> safe (run_site L E b) (EvLoad oid (Inr b) # t) (\<lambda>_. guarded C)"
    and relation: "\<And>b. guarded C (EvLoad oid (Inr b) # t) \<Longrightarrow> under_lock b (EvLoad oid (Inr b) # t)
      \<Longrightarrow> safe (run_relation L E oid b) (EvLoad oid (Inr b) # t) (\<lambda>_. guarded C)"
  shows "safe (run_locked L E oid) t (\<lambda>_. guarded C)"
proof -
  have failed: "safe (finish_failure E b step e) t' (\<lambda>_. guarded C)" if "guarded C t'" for b step e t'
  proof (rule kept_only [where p = bookkeeping, OF _ _ that])
    show "only bookkeeping (finish_failure E b step e)" by (rule only_finish_failure) simp_all
  qed (simp add: quiet)
  have loading: "guarded C (EvLoad oid r # t)" for r using g quiet by simp
  have obs: "safe (observed ev f) t' Q" if "\<And>x. Q (Value x) (ev x # t')" for ev f t' Q
    using that by (rule safe_observed)
  show ?thesis
    unfolding run_locked_def Let_def return_wrapped_def
    by (auto intro!: step_value step_clock obs failed site relation loading quiet g simp: lock split: option.split sum.split)
qed

lemma safe_run:
  assumes "\<And>t. guarded C t \<Longrightarrow> holds_lock t \<Longrightarrow> states_seen t = [] \<Longrightarrow> bindings t = []
      \<Longrightarrow> safe (run_locked L E oid) t (\<lambda>_. guarded C)"
    and quiet: "\<And>e t. (\<exists>i x. e = EvLoad i x) \<or> locking e \<Longrightarrow> C e t"
  shows "safe (run L E oid) [] (\<lambda>_. guarded C)"
proof -
  have held: "safe (deferred (run_locked L E oid) (observed EvRelease (e_release E)) join_release) t (\<lambda>_. guarded C)"
    if "guarded C t" "holds_lock t" "states_seen t = []" "bindings t = []" for t
    by (rule safe_deferred [OF assms(1) [OF that]]) (simp_all add: quiet)
  show ?thesis
    unfolding run_def return_wrapped_def
    by (auto intro!: step_value held simp: quiet)
qed

text \<open>
  C14: Completion: in every run and every environment, a synchronisation is recorded as complete only
  when the last state seen - read after the last write to the gateway - passes the verification of
  the plan that was loaded directly after the lock of the site was granted, against the first state
  of the run: for a site the whole plan, for a relation the channel that was bound last, its price
  and visibility and every group it does not manage.
\<close>

theorem run_completes_verified:
  assumes "run L E oid w [] = (out, w', t)"
  shows "guarded (completion_verified L) t"
  by (rule safeD [OF safe_run assms]; (rule safe_run_locked)?)
    (auto intro: quiet_completion [THEN spec] safe_run_site_completion safe_run_relation_completion elim: bookkeeping.elims locking.elims)

text \<open>
  C15: Never enable an untested channel: in every run, for a relation or a whole site, and whatever
  the environment answers, the call that enables a channel is made only after a test call on the
  same channel succeeded earlier in this run.  The only other call that can turn channels on, the
  atomic one, is not preceded by tests; it is made only for the plan loaded directly after the lock
  was granted, to a gateway whose announced capabilities were accepted for that plan and, where
  capabilities are reviewed, approved; it asks for exactly the channels of that plan, and carries the
  key of every channel it enables.
\<close>

theorem run_enable_tested:
  assumes "run L E oid w [] = (out, w', t)"
  shows "guarded (enable_tested E) t"
  by (rule safeD [OF safe_run assms]; (rule safe_run_locked)?)
    (auto intro: quiet_tested safe_run_site_tested keepsD [OF keeps_run_relation] elim: bookkeeping.elims locking.elims)

text \<open>
  C17: The order of a site synchronisation: prices are written only after every channel the plan
  disables was shut down, that is confirmed while the state read last showed it manually disabled, or
  while the first state of the run had no such channel; what users see is written only after the
  prices were confirmed while the state read last had the prices of the plan.  Where the site is
  synchronised by the atomic call, that call is the first write of the run, and neither prices nor
  visibility are written after it.
\<close>

theorem run_site_order:
  assumes "run_site L E b w [] = (out, w', t)"
  shows "guarded (site_order L b) t"
proof (rule safeD [OF safe_run_site assms])
  show "site_order L b e t" if "bookkeeping e \<or> opens_site e" for e t
    by (rule quiet_order) (use that in \<open>cases e; simp\<close>)
  show "safe (run_managed_site L E S M c (next_attempt b)) (d @ []) (\<lambda>_. guarded (site_order L b))"
    if "guarded (site_order L b) (d @ [])" "list_all opens_site d" for S M c d
    using safe_managed_order [of L "next_attempt b" "d @ []" E S M c] that opening_quiet [OF that(2)] by simp
  show "safe (sync_site L E S G (next_attempt b)) (d @ []) (\<lambda>_. guarded (site_order L b))"
    if "guarded (site_order L b) (d @ [])" "list_all opens_site d" for S G d
    using safe_sync_site_order [of L "next_attempt b" "d @ []" E S G] that opening_quiet [OF that(2)] by simp
qed simp

section \<open>The properties at concrete inputs\<close>

definition relation_run :: "operation_status \<Rightarrow> (go_error option, go_error option) outcome \<times> actual_state \<times> trace" where
  "relation_run st = run text_libs (fake_env (relation_bundle st) (fake_gateway None)) 1 sample_before []"

definition legacy_run :: "(go_error option, go_error option) outcome \<times> actual_state \<times> trace" where
  "legacy_run = run_site text_libs (fake_env (site_bundle OperationPending) (fake_gateway None)) (site_bundle OperationPending) sample_before []"

lemma relation_bundle_simps [simp]:
  "pl_snapshot (bn_plan (relation_bundle st)) = rb_snapshot (sample_resource sample_desired_channel)"
  "op_status (bn_operation (relation_bundle st)) = st" "bn_current_plan_id (relation_bundle st) = 2"
  "pl_id (bn_plan (relation_bundle st)) = 2" "can_sync (bn_site (relation_bundle st)) = Inr ()"
  "mc_external_channel_id (bn_managed_channel (relation_bundle st)) = None"
  "mc_last_confirmed_plan_version (bn_managed_channel (relation_bundle st)) = None"
  by (simp_all add: relation_bundle_def sample_bundle_def sample_resource_def can_sync_def)

lemma next_attempt_simps [simp]:
  "bn_plan (next_attempt b) = bn_plan b" "bn_managed_channel (next_attempt b) = bn_managed_channel b"
  "bn_resources (next_attempt b) = bn_resources b" "op_id (bn_operation (next_attempt b)) = op_id (bn_operation b)"
  by (simp_all add: next_attempt_def)

lemma sample_resource_simps [simp]:
  "sn_channel (rb_snapshot (sample_resource e)) = e" "sn_group (rb_snapshot (sample_resource e)) = sample_desired_group"
  "sn_schema_version (rb_snapshot (sample_resource e)) = 1"
  by (simp_all add: sample_resource_def)

lemmas relation_run_defs = relation_run_def run_def run_locked_def run_relation_def open_relation_def locate_relation_def
  write_group_def write_channel_def read_back_def bind_relation_def activate_relation_def test_relation_def
  enable_relation_def finish_relation_def run_defs operation_settled_def give_up_def new_gateway_def
  read_actual_def probe_def set_ratios_def set_users_def create_channel_def update_channel_def test_channel_def
  set_enabled_def bind_channel_def merge_group_ratios_def verify_def site_snapshot_schema_version_def

lemma relation_run_completes:
  "\<exists>e i r rest. snd (snd (relation_run OperationPending)) = e # EvComplete (next_attempt (relation_bundle OperationPending)) i r # rest"
  by (simp add: relation_run_defs)

fun enables :: "event \<Rightarrow> bool" where
  "enables (EvEnable i b r) = b"
| "enables e = False"

lemma relation_run_enables: "list_ex enables (snd (snd (relation_run OperationPending)))"
  by (simp add: relation_run_defs)

lemma legacy_run_shows: "list_ex sets_users (snd (snd legacy_run))"
  by (simp add: legacy_run_def run_site_def sync_site_def shutdown_phase_def price_phase_def visibility_phase_def final_phase_def
      skipped_shutdown_def apply_resource_def write_resource_def bind_resource_def test_resource_def settle_resource_def
      confirm_resource_def locate_def return_inl_def manually_locked_def needs_write_def try_run_managed_site_def
      verify_billing_basis_def plan_ratios_def plan_users_def with_resource_def with_external_id_def relation_run_defs)

theorem run_lock_discipline_witness:
  "lock_discipline 1 (snd (snd (relation_run OperationPending)))"
  by (rule run_lock_discipline [of text_libs "fake_env (relation_bundle OperationPending) (fake_gateway None)" 1 sample_before
        "fst (relation_run OperationPending)" "fst (snd (relation_run OperationPending))"])
    (simp add: relation_run_def)

theorem run_settled_noop_witness:
  "relation_run OperationSucceeded = (Value None, sample_before, [EvLoad 1 (Inr (relation_bundle OperationSucceeded))])"
  unfolding relation_run_def by (rule run_settled_noop) (simp_all add: fake_env_def operation_settled_def)

theorem run_enable_tested_witness:
  "list_ex enables (snd (snd (relation_run OperationPending))) \<and> guarded (enable_tested (fake_env (relation_bundle OperationPending) (fake_gateway None))) (snd (snd (relation_run OperationPending)))"
  using run_enable_tested [of text_libs "fake_env (relation_bundle OperationPending) (fake_gateway None)" 1 sample_before
      "fst (relation_run OperationPending)" "fst (snd (relation_run OperationPending))" "snd (snd (relation_run OperationPending))"]
    relation_run_enables by (simp add: relation_run_def)

theorem run_completes_verified_witness:
  "\<exists>i t. relation_verified text_libs (next_attempt (relation_bundle OperationPending)) i t"
proof -
  have "guarded (completion_verified text_libs) (snd (snd (relation_run OperationPending)))"
    by (rule run_completes_verified [of text_libs "fake_env (relation_bundle OperationPending) (fake_gateway None)" 1 sample_before
          "fst (relation_run OperationPending)" "fst (snd (relation_run OperationPending))"])
      (simp add: relation_run_def)
  moreover obtain e i r rest where
    "snd (snd (relation_run OperationPending)) = e # EvComplete (next_attempt (relation_bundle OperationPending)) i r # rest"
    using relation_run_completes by blast
  ultimately show ?thesis by auto
qed

theorem run_site_order_witness:
  "list_ex sets_users (snd (snd legacy_run)) \<and> guarded (site_order text_libs (site_bundle OperationPending)) (snd (snd legacy_run))"
  using run_site_order [of text_libs "fake_env (site_bundle OperationPending) (fake_gateway None)" "site_bundle OperationPending"
      sample_before "fst legacy_run" "fst (snd legacy_run)" "snd (snd legacy_run)"]
    legacy_run_shows by (simp add: legacy_run_def)

text \<open>A relation that was confirmed before, and whose channel is manually disabled now.\<close>

definition locked_bundle :: sync_bundle where
  "locked_bundle = (relation_bundle OperationPending)
     \<lparr>bn_managed_channel := (bn_managed_channel (relation_bundle OperationPending))\<lparr>mc_last_confirmed_plan_version := Some 1\<rparr>\<rparr>"

definition locked_state :: actual_state where
  "locked_state = sample_state [] [] [sample_actual_channel\<lparr>ac_status := ChannelManuallyDisabled\<rparr>]"

lemma locked_state_locked: "relation_locked locked_bundle locked_state"
  by (simp add: relation_locked_def locked_bundle_def locked_state_def locate_managed_channel_def sample_state_def
      sample_actual_channel_def)

definition locked_run :: "(go_error option, go_error option) outcome \<times> actual_state \<times> trace" where
  "locked_run = run_relation text_libs (fake_env locked_bundle (fake_gateway None)) 1 locked_bundle locked_state []"

theorem run_relation_respects_lock_witness:
  "relation_locked locked_bundle locked_state \<and> guarded (respects_lock locked_bundle) (snd (snd locked_run))"
  using run_relation_respects_lock [of text_libs "fake_env locked_bundle (fake_gateway None)" 1 locked_bundle locked_state
      "fst locked_run" "fst (snd locked_run)" "snd (snd locked_run)"]
    locked_state_locked by (simp add: locked_run_def)

end
