(* ===== verification/Texts.thy ===== *)
theory Texts imports Externals begin

text \<open>
  Go's view of a string as a sequence of runes, and the functions of \<open>strings\<close> and
  \<open>strconv\<close> the measurements and evaluations use.

  A rune is kept as the bytes that encode it (a \<open>glyph\<close>); a byte that starts no well-formed
  UTF-8 sequence is a glyph of its own, which is how \<open>range\<close>, \<open>[]rune\<close> and the
  package \<open>regexp\<close> read it.  \<open>utf8\<close> writes the literals of the source that are not
  ASCII.
\<close>

section \<open>Runes\<close>

type_synonym glyph = string

function glyphs :: "string \<Rightarrow> glyph list" where
  "glyphs s = (if s = [] then [] else take (rune_size s) s # glyphs (drop (rune_size s) s))"
  by pat_completeness auto
termination
  by (relation "measure length") auto

declare glyphs.simps [simp del]

lemma glyphs_Nil [simp]: "glyphs [] = []"
  by (simp add: glyphs.simps)

lemma glyphs_Cons: "s \<noteq> [] \<Longrightarrow> glyphs s = take (rune_size s) s # glyphs (drop (rune_size s) s)"
  by (simp add: glyphs.simps [of s])

lemma concat_glyphs [simp]: "concat (glyphs s) = s"
proof (induction s rule: glyphs.induct)
  case (1 s)
  then show ?case by (cases "s = []") (simp_all add: glyphs_Cons [of s])
qed

lemma length_glyphs: "length (glyphs s) = rune_count s"
proof (induction s rule: glyphs.induct)
  case (1 s)
  show ?case
  proof (cases "s = []")
    case False
    have "length (glyphs s) = Suc (length (glyphs (drop (rune_size s) s)))" by (simp only: glyphs_Cons [OF False] list.size)
    also have "\<dots> = rune_count s" unfolding 1 [OF False] using False by (simp only: rune_count.simps [of s] if_False)
    finally show ?thesis .
  qed simp
qed

lemma glyph_nonempty: "g \<in> set (glyphs s) \<Longrightarrow> g \<noteq> []"
proof (induction s rule: glyphs.induct)
  case (1 s)
  show ?case
  proof (cases "s = []")
    case False
    with 1(2) have "g = take (rune_size s) s \<or> g \<in> set (glyphs (drop (rune_size s) s))" by (simp add: glyphs_Cons [of s])
    moreover have "take (rune_size s) s \<noteq> []" using rune_size_pos [of s] False by (metis less_numeral_extra(3) take_eq_Nil)
    ultimately show ?thesis using 1(1) False by metis
  qed (use 1(2) in simp)
qed

text \<open>Cutting a string between two of its runes does not change the runes that are left.\<close>

definition two_bytes :: "nat \<Rightarrow> nat \<Rightarrow> bool" where
  "two_bytes a b \<longleftrightarrow> 0xC2 \<le> a \<and> a \<le> 0xDF \<and> cont b"

definition three_bytes :: "nat \<Rightarrow> nat \<Rightarrow> nat \<Rightarrow> bool" where
  "three_bytes a b c \<longleftrightarrow>
     a = 0xE0 \<and> 0xA0 \<le> b \<and> b \<le> 0xBF \<and> cont c \<or> a = 0xED \<and> 0x80 \<le> b \<and> b \<le> 0x9F \<and> cont c \<or>
     0xE1 \<le> a \<and> a \<le> 0xEF \<and> a \<noteq> 0xED \<and> cont b \<and> cont c"

definition four_bytes :: "nat \<Rightarrow> nat \<Rightarrow> nat \<Rightarrow> nat \<Rightarrow> bool" where
  "four_bytes a b c d \<longleftrightarrow>
     a = 0xF0 \<and> 0x90 \<le> b \<and> b \<le> 0xBF \<and> cont c \<and> cont d \<or>
     0xF1 \<le> a \<and> a \<le> 0xF3 \<and> cont b \<and> cont c \<and> cont d \<or>
     a = 0xF4 \<and> 0x80 \<le> b \<and> b \<le> 0x8F \<and> cont c \<and> cont d"

lemma rune_size_bytes:
  "rune_size s =
     (if two_bytes (byte s 0) (byte s 1) then 2 else if three_bytes (byte s 0) (byte s 1) (byte s 2) then 3
      else if four_bytes (byte s 0) (byte s 1) (byte s 2) (byte s 3) then 4 else 1)"
proof -
  have m: "(if p then x else if q then x else y) = (if p \<or> q then x else y)" for p q and x y :: nat by simp
  show ?thesis unfolding rune_size_def Let_def two_bytes_def three_bytes_def four_bytes_def m by (simp only: disj_assoc)
qed

lemma encoded_bytes:
  "two_bytes a b \<Longrightarrow> b \<noteq> 256" "three_bytes a b c \<Longrightarrow> b \<noteq> 256 \<and> c \<noteq> 256"
  "four_bytes a b c d \<Longrightarrow> b \<noteq> 256 \<and> c \<noteq> 256 \<and> d \<noteq> 256"
  by (auto simp: two_bytes_def three_bytes_def four_bytes_def cont_def)

lemma byte_end: "byte s i \<noteq> 256 \<Longrightarrow> i < length s"
  by (simp add: byte_def split: if_splits)

lemma rune_size_le: "s \<noteq> [] \<Longrightarrow> rune_size s \<le> length s"
  using encoded_bytes(1) [of "byte s 0" "byte s 1"] encoded_bytes(2) [of "byte s 0" "byte s 1" "byte s 2"]
    encoded_bytes(3) [of "byte s 0" "byte s 1" "byte s 2" "byte s 3"]
    byte_end [of s 1] byte_end [of s 2] byte_end [of s 3]
  by (cases s) (auto simp: rune_size_bytes Suc_le_eq)

lemma rune_size_take:
  assumes "rune_size s \<le> n"
  shows "rune_size (take n s) = rune_size s"
proof -
  have b: "byte (take n s) i = (if i < n then byte s i else 256)" for n i by (simp add: byte_def)
  have w: "\<not> two_bytes a 256" "\<not> three_bytes a x 256" "\<not> four_bytes a x y 256" "\<not> three_bytes a 256 256"
    "\<not> four_bytes a x 256 256" "\<not> four_bytes a 256 256 256" for a x y
    using encoded_bytes by metis+
  have "0 < n" using assms rune_size_pos [of s] by linarith
  then consider "n = 1" | "n = 2" | "n = 3" | "3 < n" by linarith
  then show ?thesis using assms by cases (simp_all add: rune_size_bytes b w split: if_splits)
qed

lemma glyphs_prefix: "glyphs (concat (take k (glyphs s))) = take k (glyphs s)"
proof (induction k arbitrary: s)
  case (Suc k)
  show ?case
  proof (cases "s = []")
    case False
    let ?r = "drop (rune_size s) s"
    let ?p = "take (rune_size s) s @ concat (take k (glyphs ?r))"
    have e: "concat (take (Suc k) (glyphs s)) = ?p" by (simp add: glyphs_Cons [OF False])
    obtain m where m: "?p = take m s" "rune_size s \<le> m"
    proof -
      have "take (rune_size s) s @ ?r = concat (take (Suc k) (glyphs s)) @ concat (drop (Suc k) (glyphs s))"
        by (metis append_take_drop_id concat_append concat_glyphs)
      then have "?p = take (length ?p) s" unfolding e by (metis append_eq_conv_conj append_take_drop_id)
      moreover have "rune_size s \<le> length ?p" using rune_size_le [OF False] by simp
      ultimately show thesis by (rule that)
    qed
    have z: "rune_size ?p = rune_size s" unfolding m(1) by (rule rune_size_take [OF m(2)])
    have ne: "?p \<noteq> []" using False rune_size_pos [of s] by (metis append_is_Nil_conv less_numeral_extra(3) take_eq_Nil)
    have l: "length (take (rune_size s) s) = rune_size s" using rune_size_le [OF False] by simp
    have "glyphs ?p = take (rune_size s) s # glyphs (concat (take k (glyphs ?r)))"
      unfolding glyphs_Cons [OF ne] z using l by simp
    then show ?thesis unfolding e Suc.IH by (simp add: glyphs_Cons [OF False])
  qed simp
qed simp

text \<open>ASCII text: one glyph per character.\<close>

definition is_ascii :: "char \<Rightarrow> bool" where
  "is_ascii c \<longleftrightarrow> of_char c < (0x80 :: nat)"

lemma rune_size_ascii: "is_ascii c \<Longrightarrow> rune_size (c # s) = 1"
  by (simp add: rune_size_def Let_def byte_def is_ascii_def)

lemma glyphs_ascii_Cons: "is_ascii c \<Longrightarrow> glyphs (c # s) = [c] # glyphs s"
  by (simp add: glyphs_Cons rune_size_ascii)

lemma glyphs_ascii: "list_all is_ascii s \<Longrightarrow> glyphs s = map (\<lambda>c. [c]) s"
  by (induction s) (simp_all add: glyphs_ascii_Cons)

definition encode_rune :: "nat \<Rightarrow> glyph" where
  "encode_rune n =
     map char_of
       (if n < 0x80 then [n]
        else if n < 0x800 then [0xC0 + n div 64, 0x80 + n mod 64]
        else if n < 0x10000 then [0xE0 + n div 4096, 0x80 + n div 64 mod 64, 0x80 + n mod 64]
        else [0xF0 + n div 262144, 0x80 + n div 4096 mod 64, 0x80 + n div 64 mod 64, 0x80 + n mod 64])"

definition utf8 :: "nat list \<Rightarrow> string" where
  "utf8 ns = concat (map encode_rune ns)"

definition replacement_glyph :: glyph where
  "replacement_glyph = encode_rune 0xFFFD"

text \<open>\<open>unicode.IsSpace\<close>, \<open>unicode.IsControl\<close>, and a byte that is no rune.\<close>

definition is_space :: "glyph \<Rightarrow> bool" where
  "is_space g \<longleftrightarrow> space_head g \<noteq> 0"

definition is_control :: "glyph \<Rightarrow> bool" where
  "is_control g \<longleftrightarrow>
     byte g 0 < 0x20 \<or> byte g 0 = 0x7F \<or> byte g 0 = 0xC2 \<and> 0x80 \<le> byte g 1 \<and> byte g 1 \<le> 0x9F"

definition is_broken :: "glyph \<Rightarrow> bool" where
  "is_broken g \<longleftrightarrow> length g = 1 \<and> 0x80 \<le> byte g 0"

section \<open>Functions of \<open>strings\<close>\<close>

text \<open>\<open>strings.Fields\<close>, on glyphs, and \<open>strings.Join\<close>.\<close>

function split_fields :: "glyph list \<Rightarrow> glyph list list" where
  "split_fields gs =
     (let hs = dropWhile is_space gs in
      if hs = [] then []
      else takeWhile (\<lambda>g. \<not> is_space g) hs # split_fields (dropWhile (\<lambda>g. \<not> is_space g) hs))"
  by pat_completeness auto
termination
proof (relation "measure length", simp, goal_cases)
  case (1 gs hs)
  then have "\<not> is_space (hd hs)" using hd_dropWhile [of is_space gs] by simp
  then have "length (dropWhile (\<lambda>g. \<not> is_space g) hs) < length hs"
    using 1(2) by (cases hs) (simp_all add: length_dropWhile_le le_imp_less_Suc)
  also have "\<dots> \<le> length gs" unfolding 1(1) by (rule length_dropWhile_le)
  finally show ?case by simp
qed

declare split_fields.simps [simp del]

fun join_with :: "string \<Rightarrow> string list \<Rightarrow> string" where
  "join_with sep [] = []"
| "join_with sep [x] = x"
| "join_with sep (x # y # xs) = x @ sep @ join_with sep (y # xs)"

definition collapse_spaces :: "glyph list \<Rightarrow> string" where
  "collapse_spaces gs = join_with '' '' (map concat (split_fields gs))"

fun contains :: "string \<Rightarrow> string \<Rightarrow> bool" where
  "contains [] t \<longleftrightarrow> t = []"
| "contains (c # s) t \<longleftrightarrow> take (length t) (c # s) = t \<or> contains s t"

section \<open>Decimal numbers\<close>

definition digit_char :: "nat \<Rightarrow> char" where
  "digit_char d = char_of (48 + d)"

fun format_nat :: "nat \<Rightarrow> string" where
  "format_nat n = (if n < 10 then [digit_char n] else format_nat (n div 10) @ [digit_char (n mod 10)])"

declare format_nat.simps [simp del]

definition format_int :: "int \<Rightarrow> string" where
  "format_int i = (if i < 0 then CHR ''-'' # format_nat (nat (- i)) else format_nat (nat i))"

definition digit_value :: "char \<Rightarrow> nat" where
  "digit_value c = of_char c - 48"

definition decimal_value :: "string \<Rightarrow> nat" where
  "decimal_value s = foldl (\<lambda>n c. 10 * n + digit_value c) 0 s"

lemma digit_value_char [simp]: "d < 10 \<Longrightarrow> digit_value (digit_char d) = d"
  by (simp add: digit_value_def digit_char_def)

lemma decimal_format [simp]: "decimal_value (format_nat n) = n"
proof (induction n rule: format_nat.induct)
  case (1 n)
  then show ?case by (subst format_nat.simps) (auto simp: decimal_value_def)
qed

lemma format_nat_inject [simp]: "format_nat m = format_nat n \<longleftrightarrow> m = n"
  by (metis decimal_format)

lemma format_nat_digits: "c \<in> set (format_nat n) \<Longrightarrow> \<exists>d<10. c = digit_char d"
proof (induction n rule: format_nat.induct)
  case (1 n)
  then show ?case
    by (subst (asm) (2) format_nat.simps) (auto split: if_splits intro: exI [of _ n] exI [of _ "n mod 10"])
qed

lemma format_int_inject [simp]: "format_int i = format_int j \<longleftrightarrow> i = j"
proof -
  have m: "digit_char d \<noteq> CHR ''-''" if "d < 10" for d
  proof -
    have "of_char (digit_char d) \<noteq> (of_char (CHR ''-'') :: nat)" using that by (simp add: digit_char_def)
    then show ?thesis by metis
  qed
  then have "CHR ''-'' \<notin> set (format_nat n)" for n using format_nat_digits by metis
  then have "format_nat n \<noteq> CHR ''-'' # s" for n s by (metis list.set_intros(1))
  then show ?thesis by (auto simp: format_int_def dest: sym)
qed

section \<open>A sequence of strings as one string\<close>

text \<open>\<open>stableHash\<close> writes the length of every part before the part, eight bytes in big-endian
  order, so that different sequences are never hashed as the same text.\<close>

definition big_endian :: "nat \<Rightarrow> nat \<Rightarrow> string" where
  "big_endian k n = map (\<lambda>i. char_of (n div 256 ^ i mod 256)) (rev [0..<k])"

definition be64 :: "nat \<Rightarrow> string" where
  "be64 n = big_endian 8 n"

definition frame :: "string list \<Rightarrow> string" where
  "frame parts = concat (map (\<lambda>p. be64 (length p) @ p) parts)"

lemma length_be64 [simp]: "length (be64 n) = 8"
  by (simp add: be64_def big_endian_def)

lemma be64_nonempty [simp]: "be64 n \<noteq> []"
  using length_be64 [of n] by (metis list.size(3) zero_neq_numeral)

lemma big_endian_Suc: "big_endian (Suc k) n = big_endian k (n div 256) @ [char_of (n mod 256)]"
proof -
  have "rev [0..<Suc k] = map Suc (rev [0..<k]) @ [0]"
    by (simp add: rev_map [symmetric] map_Suc_upt upt_conv_Cons del: upt_Suc)
  then show ?thesis by (simp add: big_endian_def div_mult2_eq)
qed

lemma big_endian_value: "foldl (\<lambda>v c. 256 * v + of_char c) 0 (big_endian k n) = n mod 256 ^ k"
proof (induction k arbitrary: n)
  case (Suc k)
  then show ?case by (simp add: big_endian_Suc mod_mult2_eq)
qed (simp add: big_endian_def)

lemma be64_value: "n < 2 ^ 64 \<Longrightarrow> foldl (\<lambda>v c. 256 * v + of_char c) 0 (be64 n) = n"
  unfolding be64_def by (simp only: big_endian_value) simp

lemma be64_inject: "m < 2 ^ 64 \<Longrightarrow> n < 2 ^ 64 \<Longrightarrow> be64 m = be64 n \<Longrightarrow> m = n"
  by (metis be64_value)

lemma frame_inject:
  "list_all (\<lambda>p. length p < 2 ^ 64) xs \<Longrightarrow> list_all (\<lambda>p. length p < 2 ^ 64) ys \<Longrightarrow> frame xs = frame ys \<Longrightarrow> xs = ys"
proof (induction xs arbitrary: ys)
  case Nil
  show ?case
  proof (cases ys)
    case ys: (Cons y zs)
    then have "length (frame ys) \<ge> 8" by (simp add: frame_def)
    moreover have "frame ys = []" using Nil.prems(3) by (simp add: frame_def [of "[]"])
    ultimately show ?thesis by simp
  qed simp
next
  case (Cons x xs)
  have "length (frame (x # xs)) \<ge> 8" by (simp add: frame_def)
  then obtain y zs where ys: "ys = y # zs" using Cons.prems(3) by (cases ys) (simp_all add: frame_def)
  have e: "be64 (length x) @ (x @ frame xs) = be64 (length y) @ (y @ frame zs)"
    using Cons.prems(3) by (simp add: ys frame_def)
  then have "be64 (length x) = be64 (length y)" and r: "x @ frame xs = y @ frame zs"
    by (simp_all add: append_eq_append_conv)
  then have "length x = length y" using Cons.prems(1,2) by (intro be64_inject) (simp_all add: ys)
  then have "x = y" "frame xs = frame zs" using r by (simp_all add: append_eq_append_conv)
  then show ?case using Cons.IH [of zs] Cons.prems(1,2) by (simp add: ys)
qed

end
