(* ===== verification/ErrorFacts.thy ===== *)
theory ErrorFacts imports Texts begin

text \<open>
  \<open>internal/domain/measurement/errors.go\<close>: the classification of an error by its code,
  HTTP status and text, and the sanitised summary that is stored.

  The regular expressions are matched on glyphs: each matcher gets whether the glyph before is a
  word character (for \<open>\b\<close>) and the rest of the text, and answers how many glyphs the
  match takes and what replaces them; \<open>replace_all\<close> is \<open>ReplaceAllString\<close>.  Under
  \<open>(?i)\<close> the letters k and s also match the Kelvin sign and the long s.
\<close>

section \<open>Types\<close>

datatype error_class = ClassNone | ClassRateLimited | ClassAuthentication | ClassBalanceExhausted
  | ClassTimeout | ClassInvalidRequest | ClassUpstreamUnavailable | ClassStreamIncomplete
  | ClassCancelled | ClassRejected | ClassUnknown | ClassOther string

datatype error_responsibility = ResponsibilityUser | ResponsibilitySupplier | ResponsibilitySite
  | ResponsibilityUnknown | ResponsibilityOther string

record error_fact =
  ef_class :: error_class
  ef_responsibility :: error_responsibility
  ef_stable_code :: string
  ef_summary :: string
  ef_rule_version :: string

text \<open>The zero value \<open>ErrorFact{}\<close>.\<close>

definition no_error :: error_fact where
  "no_error = \<lparr>ef_class = ClassOther [], ef_responsibility = ResponsibilityOther [], ef_stable_code = [],
     ef_summary = [], ef_rule_version = []\<rparr>"

definition classification_rule_version :: string where
  "classification_rule_version = ''error-classification-v2''"

section \<open>Regular expressions\<close>

definition ascii_between :: "char \<Rightarrow> char \<Rightarrow> char \<Rightarrow> bool" where
  "ascii_between a b c \<longleftrightarrow> a \<le> c \<and> c \<le> b"

definition upper_ascii :: "char \<Rightarrow> char" where
  "upper_ascii c = (if ascii_between (CHR ''a'') (CHR ''z'') c then char_of ((of_char c :: nat) - 32) else c)"

text \<open>A character of a pattern under \<open>(?i)\<close>, and a literal at the start of a text.\<close>

definition letter_matches :: "char \<Rightarrow> glyph \<Rightarrow> bool" where
  "letter_matches c g \<longleftrightarrow>
     g = [c] \<or> g = [upper_ascii c] \<or> c = CHR ''k'' \<and> g = encode_rune 0x212A \<or> c = CHR ''s'' \<and> g = encode_rune 0x17F"

definition literal_matches :: "string \<Rightarrow> glyph list \<Rightarrow> bool" where
  "literal_matches s gs \<longleftrightarrow> list_all2 letter_matches s (take (length s) gs)"

definition is_word :: "glyph \<Rightarrow> bool" where
  "is_word g \<longleftrightarrow>
     (case g of [c] \<Rightarrow> ascii_between (CHR ''a'') (CHR ''z'') c \<or> ascii_between (CHR ''A'') (CHR ''Z'') c
         \<or> ascii_between (CHR ''0'') (CHR ''9'') c \<or> c = CHR ''_''
      | _ \<Rightarrow> False)"

definition boundary :: "bool \<Rightarrow> glyph list \<Rightarrow> bool" where
  "boundary prev gs \<longleftrightarrow> prev \<noteq> (case gs of [] \<Rightarrow> False | g # _ \<Rightarrow> is_word g)"

text \<open>\<open>\s\<close>, \<open>[^\s,;]\<close> and \<open>[a-z0-9_-]\<close>.\<close>

definition pattern_space :: "glyph \<Rightarrow> bool" where
  "pattern_space g \<longleftrightarrow> g \<in> set [[CHR 0x09], [nl], [CHR 0x0C], [cr], '' '']"

definition token_glyph :: "glyph \<Rightarrow> bool" where
  "token_glyph g \<longleftrightarrow> \<not> pattern_space g \<and> g \<noteq> '','' \<and> g \<noteq> '';''"

definition key_glyph :: "glyph \<Rightarrow> bool" where
  "key_glyph g \<longleftrightarrow> is_word g \<or> g = ''-'' \<or> g = encode_rune 0x212A \<or> g = encode_rune 0x17F"

definition span_length :: "('a \<Rightarrow> bool) \<Rightarrow> 'a list \<Rightarrow> nat" where
  "span_length p xs = length (takeWhile p xs)"

definition ascii_glyphs :: "string \<Rightarrow> glyph list" where
  "ascii_glyphs s = map (\<lambda>c. [c]) s"

type_synonym matcher = "bool \<Rightarrow> glyph list \<Rightarrow> (nat \<times> glyph list) option"

text \<open>\<open>\bbearer\s+[^\s,;]+\<close>\<close>

definition match_bearer :: matcher where
  "match_bearer prev gs =
     (if boundary prev gs \<and> literal_matches ''bearer'' gs
      then let spaces = span_length pattern_space (drop 6 gs);
               secret = span_length token_glyph (drop (6 + spaces) gs) in
           if spaces = 0 \<or> secret = 0 then None
           else Some (6 + spaces + secret, ascii_glyphs ''Bearer [redacted]'')
      else None)"

text \<open>\<open>\b(api[_-]?key|access[_-]?token|authorization|secret|password)\s*[:=]\s*[^\s,;]+\<close>\<close>

definition secret_names :: "string list" where
  "secret_names = [''api_key'', ''api-key'', ''apikey'', ''access_token'', ''access-token'', ''accesstoken'',
     ''authorization'', ''secret'', ''password'']"

definition match_secret :: matcher where
  "match_secret prev gs =
     (if boundary prev gs
      then case find (\<lambda>n. literal_matches n gs) secret_names of
          None \<Rightarrow> None
        | Some name \<Rightarrow>
            let n = length name; before = span_length pattern_space (drop n gs); rest = drop (n + before) gs in
            if rest = [] \<or> hd rest \<notin> set ['':'', ''='' ] then None
            else let after = span_length pattern_space (tl rest); secret = span_length token_glyph (drop after (tl rest)) in
              if secret = 0 then None
              else Some (n + before + 1 + after + secret, take n gs @ ascii_glyphs ''=[redacted]'')
      else None)"

text \<open>\<open>\bsk-[a-z0-9_-]{6,}\<close>\<close>

definition match_sk_key :: matcher where
  "match_sk_key prev gs =
     (if boundary prev gs \<and> literal_matches ''sk-'' gs
      then let n = span_length key_glyph (drop 3 gs) in
           if n < 6 then None else Some (3 + n, ascii_glyphs ''[redacted]'')
      else None)"

function replace_all :: "matcher \<Rightarrow> bool \<Rightarrow> glyph list \<Rightarrow> glyph list" where
  "replace_all m prev [] = []"
| "replace_all m prev (g # gs) =
     (case m prev (g # gs) of
        None \<Rightarrow> g # replace_all m (is_word g) gs
      | Some (n, out) \<Rightarrow> out @ replace_all m (is_word ((g # gs) ! (n - 1))) (drop (n - 1) gs))"
  by pat_completeness auto
termination
  by (relation "measure (\<lambda>(m, prev, gs). length gs)") auto

declare replace_all.simps [simp del]

section \<open>Sanitising\<close>

definition max_error_summary_runes :: nat where "max_error_summary_runes = 240"

definition plain_glyph :: "glyph \<Rightarrow> glyph" where
  "plain_glyph g = (if is_control g then '' '' else if is_broken g then replacement_glyph else g)"

definition sanitize_error_text :: "string \<Rightarrow> string" where
  "sanitize_error_text text =
     (let redacted = replace_all match_sk_key False (replace_all match_secret False
            (replace_all match_bearer False (glyphs text)));
          clean = collapse_spaces (map plain_glyph redacted);
          runes = glyphs clean in
      if max_error_summary_runes < length runes then concat (take max_error_summary_runes runes) else clean)"

section \<open>Classifying\<close>

text \<open>\<open>^[a-z0-9][a-z0-9_.:-]{0,79}$\<close>\<close>

definition stable_code_alnum :: "char \<Rightarrow> bool" where
  "stable_code_alnum c \<longleftrightarrow> ascii_between (CHR ''a'') (CHR ''z'') c \<or> ascii_between (CHR ''0'') (CHR ''9'') c"

definition stable_code_pattern :: "string \<Rightarrow> bool" where
  "stable_code_pattern s \<longleftrightarrow>
     (case s of [] \<Rightarrow> False
      | c # rest \<Rightarrow> stable_code_alnum c \<and> length rest \<le> 79
          \<and> list_all (\<lambda>x. stable_code_alnum x \<or> x \<in> set ''_.:-'') rest)"

definition normalize_stable_code :: "'d libs \<Rightarrow> string \<Rightarrow> string" where
  "normalize_stable_code L code =
     (let normalized = to_lower L (trim_space code) in if stable_code_pattern normalized then normalized else [])"

definition error_class_from_code :: "string \<Rightarrow> error_class option" where
  "error_class_from_code code =
     (if code \<in> set [''rate_limit'', ''rate_limited'', ''too_many_requests'', ''insufficient_quota_rate_limit''] then Some ClassRateLimited
      else if code \<in> set [''authentication_error'', ''invalid_api_key'', ''unauthorized''] then Some ClassAuthentication
      else if code \<in> set [''insufficient_balance'', ''insufficient_quota'', ''insufficient_user_quota'', ''quota_exhausted''] then Some ClassBalanceExhausted
      else if code \<in> set [''timeout'', ''request_timeout'', ''context_deadline_exceeded'', ''upstream_timeout''] then Some ClassTimeout
      else if code \<in> set [''invalid_request'', ''bad_request'', ''invalid_parameter''] then Some ClassInvalidRequest
      else if code \<in> set [''model_not_found'', ''upstream_unavailable'', ''service_unavailable'', ''bad_gateway'', ''gateway_timeout'', ''connection_error''] then Some ClassUpstreamUnavailable
      else if code \<in> set [''stream_incomplete'', ''stream_interrupted''] then Some ClassStreamIncomplete
      else if code \<in> set [''client_cancelled'', ''client_canceled'', ''context_canceled'', ''user_cancelled'', ''user_canceled''] then Some ClassCancelled
      else if code \<in> set [''content_filter'', ''content_policy_violation'', ''moderation_blocked'', ''safety_rejected''] then Some ClassRejected
      else None)"

definition error_class_from_http :: "int \<Rightarrow> error_class option" where
  "error_class_from_http status =
     (if status = 401 then Some ClassAuthentication
      else if status = 402 then Some ClassBalanceExhausted
      else if status = 408 \<or> status = 504 then Some ClassTimeout
      else if status = 429 then Some ClassRateLimited
      else if status = 404 then Some ClassUpstreamUnavailable
      else if 500 \<le> status \<and> status < 600 then Some ClassUpstreamUnavailable
      else None)"

definition error_terms :: "(error_class \<times> string list) list" where
  "error_terms =
     [(ClassRateLimited, [''rate limit'', ''too many requests'', utf8 [0x9650, 0x6D41], utf8 [0x8BF7, 0x6C42, 0x8FC7, 0x4E8E, 0x9891, 0x7E41]]),
      (ClassAuthentication, [''unauthorized'', ''invalid api key'', utf8 [0x9274, 0x6743, 0x5931, 0x8D25], utf8 [0x8BA4, 0x8BC1, 0x5931, 0x8D25], utf8 [0x5BC6, 0x94A5, 0x65E0, 0x6548]]),
      (ClassBalanceExhausted, [''insufficient balance'', ''insufficient quota'', utf8 [0x4F59, 0x989D, 0x4E0D, 0x8DB3], utf8 [0x989D, 0x5EA6, 0x4E0D, 0x8DB3]]),
      (ClassTimeout, [''timeout'', ''timed out'', ''deadline exceeded'', utf8 [0x8D85, 0x65F6]]),
      (ClassStreamIncomplete, [''stream interrupted'', ''stream incomplete'', utf8 [0x6D41, 0x5F0F, 0x54CD, 0x5E94, 0x4E2D, 0x65AD]]),
      (ClassCancelled, [''client cancelled'', ''client canceled'', ''user cancelled'', ''user canceled'', utf8 [0x7528, 0x6237, 0x53D6, 0x6D88]]),
      (ClassRejected, [''content filter'', ''content policy'', ''moderation blocked'', utf8 [0x5185, 0x5BB9, 0x62D2, 0x7EDD], utf8 [0x5185, 0x5BB9, 0x7B56, 0x7565]]),
      (ClassUpstreamUnavailable, [''connection refused'', ''connection reset'', ''service unavailable'', ''bad gateway'', utf8 [0x4E0A, 0x6E38, 0x4E0D, 0x53EF, 0x7528]]),
      (ClassInvalidRequest, [''invalid request'', ''bad request'', utf8 [0x53C2, 0x6570, 0x65E0, 0x6548]])]"

definition error_class_from_text :: "'d libs \<Rightarrow> string \<Rightarrow> error_class option" where
  "error_class_from_text L text =
     (let lower = to_lower L text in
      map_option fst (find (\<lambda>(class, terms). list_ex (contains lower) terms) error_terms))"

fun default_responsibility :: "error_class \<Rightarrow> error_responsibility" where
  "default_responsibility ClassInvalidRequest = ResponsibilityUser"
| "default_responsibility ClassCancelled = ResponsibilityUser"
| "default_responsibility ClassRejected = ResponsibilityUser"
| "default_responsibility ClassRateLimited = ResponsibilitySupplier"
| "default_responsibility ClassAuthentication = ResponsibilitySupplier"
| "default_responsibility ClassBalanceExhausted = ResponsibilitySupplier"
| "default_responsibility ClassTimeout = ResponsibilitySupplier"
| "default_responsibility ClassUpstreamUnavailable = ResponsibilitySupplier"
| "default_responsibility ClassStreamIncomplete = ResponsibilitySupplier"
| "default_responsibility _ = ResponsibilityUnknown"

fun valid_responsibility :: "error_responsibility \<Rightarrow> bool" where
  "valid_responsibility (ResponsibilityOther s) = False"
| "valid_responsibility _ = True"

definition resolved_responsibility :: "error_fact \<Rightarrow> error_responsibility" where
  "resolved_responsibility f =
     (if valid_responsibility (ef_responsibility f) then ef_responsibility f else default_responsibility (ef_class f))"

text \<open>The code decides before the HTTP status, and the status before the text.\<close>

definition decided_class :: "'d libs \<Rightarrow> string \<Rightarrow> int \<Rightarrow> string \<Rightarrow> error_class" where
  "decided_class L code status summary =
     (case error_class_from_code code of
        Some class \<Rightarrow> class
      | None \<Rightarrow> (case error_class_from_http status of
          Some class \<Rightarrow> class
        | None \<Rightarrow> (case error_class_from_text L summary of Some class \<Rightarrow> class | None \<Rightarrow> ClassUnknown)))"

definition classify_error :: "'d libs \<Rightarrow> string \<Rightarrow> int \<Rightarrow> string \<Rightarrow> error_fact" where
  "classify_error L stable_code status text =
     (let code = normalize_stable_code L stable_code;
          summary = sanitize_error_text text;
          class = decided_class L code status summary in
      \<lparr>ef_class = class, ef_responsibility = default_responsibility class, ef_stable_code = code,
       ef_summary = (if summary = [] then ''upstream request failed'' else summary),
       ef_rule_version = classification_rule_version\<rparr>)"

section \<open>What is stored of an error\<close>

text \<open>A summary has at most 240 runes.\<close>

lemma sanitize_length: "rune_count (sanitize_error_text text) \<le> 240"
proof -
  have cut: "rune_count (if 240 < length (glyphs c) then concat (take 240 (glyphs c)) else c) \<le> 240" for c
    by (simp add: length_glyphs [symmetric] glyphs_prefix)
  show ?thesis unfolding sanitize_error_text_def Let_def max_error_summary_runes_def by (rule cut)
qed

lemma normalized_code: "normalize_stable_code L code = [] \<or> stable_code_pattern (normalize_stable_code L code)"
  by (simp add: normalize_stable_code_def Let_def)

lemma code_classes: "error_class_from_code code = Some class \<Longrightarrow> class \<notin> {ClassNone, ClassOther s}"
  by (auto simp: error_class_from_code_def split: if_splits)

lemma http_classes: "error_class_from_http status = Some class \<Longrightarrow> class \<notin> {ClassNone, ClassOther s}"
  by (auto simp: error_class_from_http_def split: if_splits)

lemma text_classes: "error_class_from_text L text = Some class \<Longrightarrow> class \<notin> {ClassNone, ClassOther s}"
proof -
  assume "error_class_from_text L text = Some class"
  then obtain terms where "(class, terms) \<in> set error_terms"
    by (auto simp: error_class_from_text_def Let_def find_Some_iff dest: nth_mem)
  then show ?thesis by (auto simp: error_terms_def)
qed

lemma decided_classes: "decided_class L code status summary \<notin> {ClassNone, ClassOther s}"
  unfolding decided_class_def
  by (simp split: option.split) (use code_classes http_classes text_classes in blast)

lemma default_responsibility_valid: "valid_responsibility (default_responsibility c)"
  by (cases c) simp_all

text \<open>The default summary is clean.\<close>

lemma default_summary_clean: "sanitize_error_text ''upstream request failed'' = ''upstream request failed''"
  by code_simp

lemma default_summary_length: "rune_count ''upstream request failed'' \<le> 240"
  using sanitize_length [of "''upstream request failed''"] by (simp only: default_summary_clean)

text \<open>Sanitising is not idempotent: cutting at 240 runes can leave a trailing space, and a secret
  after a control character is only recognised once the control character has become a space.\<close>

definition long_text :: "string \<Rightarrow> string" where
  "long_text s = replicate 239 (CHR ''x'') @ s"

lemma literal_Cons: "literal_matches (c # s) (g # gs) \<longleftrightarrow> letter_matches c g \<and> literal_matches s gs"
  by (simp add: literal_matches_def)

lemma first_letters:
  "\<not> letter_matches (CHR ''b'') ''x''" "\<not> letter_matches (CHR ''a'') ''x''" "\<not> letter_matches (CHR ''s'') ''x''"
  "\<not> letter_matches (CHR ''p'') ''x''"
  by code_simp+

lemma no_match_x: "match_bearer p (''x'' # gs) = None" "match_secret p (''x'' # gs) = None" "match_sk_key p (''x'' # gs) = None"
  by (simp_all add: match_bearer_def match_secret_def match_sk_key_def literal_Cons secret_names_def first_letters)

lemma replace_all_x:
  assumes "\<And>p gs. m p (''x'' # gs) = None" "0 < n"
  shows "replace_all m p (replicate n ''x'' @ gs) = replicate n ''x'' @ replace_all m True gs"
  using assms(2)
proof (induction n arbitrary: p)
  case (Suc n)
  have "is_word ''x''" by code_simp
  then show ?case using Suc.IH [of True] by (cases "n = 0") (simp_all add: assms(1) replace_all.simps)
qed simp

lemma no_match_tail:
  "replace_all match_bearer True ['' '', ''b''] = ['' '', ''b'']" "replace_all match_secret True ['' '', ''b''] = ['' '', ''b'']"
  "replace_all match_sk_key True ['' '', ''b''] = ['' '', ''b'']" "replace_all match_bearer True ['' ''] = ['' '']"
  "replace_all match_secret True ['' ''] = ['' '']" "replace_all match_sk_key True ['' ''] = ['' '']"
  by code_simp+

lemma concat_replicate_single: "concat (replicate n [c]) = replicate n c"
  by (induction n) simp_all

lemma sample_glyph_kinds:
  "\<not> is_space ''x''" "is_space '' ''" "\<not> is_space ''b''" "plain_glyph ''x'' = ''x''" "plain_glyph '' '' = '' ''"
  "plain_glyph ''b'' = ''b''" "is_ascii (CHR ''x'')" "is_ascii (CHR ''b'')" "is_ascii (CHR '' '')"
  by code_simp+

lemma span_x:
  "takeWhile (\<lambda>g. \<not> is_space g) (replicate n ''x'' @ '' '' # gs) = replicate n ''x''"
  "dropWhile (\<lambda>g. \<not> is_space g) (replicate n ''x'' @ '' '' # gs) = '' '' # gs"
  by (induction n) (simp_all add: sample_glyph_kinds)

lemma fields_x:
  "split_fields (replicate 239 ''x'' @ ['' '']) = [replicate 239 ''x'']"
  "split_fields (replicate 239 ''x'' @ ['' '', ''b'']) = [replicate 239 ''x'', [''b'']]"
proof -
  have d: "dropWhile is_space (replicate 239 ''x'' @ gs) = replicate 239 ''x'' @ gs" for gs
    by (rule dropWhile_eq_self_iff [THEN iffD2]) (simp add: sample_glyph_kinds hd_append)
  have "split_fields [] = []" by (subst split_fields.simps) simp
  moreover have "split_fields ['' ''] = []" by (subst split_fields.simps) (simp add: sample_glyph_kinds)
  moreover have "split_fields ['' '', ''b''] = [[''b'']]" by (subst split_fields.simps) (simp add: sample_glyph_kinds calculation)
  ultimately show "split_fields (replicate 239 ''x'' @ ['' '']) = [replicate 239 ''x'']"
    "split_fields (replicate 239 ''x'' @ ['' '', ''b'']) = [replicate 239 ''x'', [''b'']]"
    by (subst split_fields.simps; simp add: d span_x)+
qed

lemma glyphs_long: "list_all is_ascii s \<Longrightarrow> glyphs (long_text s) = replicate 239 ''x'' @ map (\<lambda>c. [c]) s"
  by (subst glyphs_ascii) (simp_all add: long_text_def sample_glyph_kinds list_all_iff ball_Un set_replicate_conv_if)

lemma long_text_summary: "sanitize_error_text (long_text '' b'') = long_text '' ''"
proof -
  have "collapse_spaces (replicate 239 ''x'' @ ['' '', ''b'']) = long_text '' b''"
    by (simp add: collapse_spaces_def fields_x long_text_def concat_replicate_single)
  then show ?thesis
    by (simp add: sanitize_error_text_def glyphs_long sample_glyph_kinds replace_all_x no_match_x no_match_tail
        max_error_summary_runes_def Let_def) (simp add: long_text_def concat_replicate_single)
qed

lemma long_summary_again: "sanitize_error_text (long_text '' '') = long_text []"
  by (simp add: sanitize_error_text_def glyphs_long sample_glyph_kinds replace_all_x no_match_x no_match_tail
      max_error_summary_runes_def Let_def collapse_spaces_def fields_x)
    (simp add: long_text_def glyphs_ascii sample_glyph_kinds list_all_iff set_replicate_conv_if concat_replicate_single)

definition hidden_secret :: string where
  "hidden_secret = ''Bearer'' @ [nul] @ ''abcdef''"

lemma hidden_secret_kept: "sanitize_error_text hidden_secret = ''Bearer abcdef''"
  by code_simp

lemma hidden_secret_again: "sanitize_error_text ''Bearer abcdef'' = ''Bearer [redacted]''"
  by code_simp

end
