(* ===== verification/Facts.thy ===== *)
theory Facts imports ErrorFacts "HOL-Library.Product_Lexorder" begin

text \<open>
  \<open>internal/domain/measurement\<close>: \<open>types.go\<close> and \<open>validation.go\<close> - the
  facts a measurement is stored as and the checks a batch of them passes.

  A Go map that is only looked up is a function or an association list; where the code ranges over
  the map of a batch's requests the model visits them in the order of the batch (the order decides
  only which of several errors is reported).
\<close>

section \<open>Types\<close>

definition measurement_rule_version :: string where "measurement_rule_version = ''measurement-v1''"

definition resolution_millisecond :: int where "resolution_millisecond = 1"
definition resolution_second :: int where "resolution_second = 1000"

datatype source = SourceRealTraffic | SourceDirectProbe | SourceSiteProbe | SourceOther string

fun source_text :: "source \<Rightarrow> string" where
  "source_text SourceRealTraffic = ''real_traffic''"
| "source_text SourceDirectProbe = ''direct_probe''"
| "source_text SourceSiteProbe = ''site_probe''"
| "source_text (SourceOther s) = s"

datatype final_result = FinalSucceeded | FinalFailed | FinalCancelled | FinalRejected | FinalIncomplete
  | FinalOther string

fun final_result_text :: "final_result \<Rightarrow> string" where
  "final_result_text FinalSucceeded = ''succeeded''"
| "final_result_text FinalFailed = ''failed''"
| "final_result_text FinalCancelled = ''cancelled''"
| "final_result_text FinalRejected = ''rejected''"
| "final_result_text FinalIncomplete = ''incomplete''"
| "final_result_text (FinalOther s) = s"

datatype attempt_result = AttemptSucceeded | AttemptFailed | AttemptCancelled | AttemptRejected
  | AttemptIncomplete | AttemptOther string

datatype stream_completion = StreamUnknown | StreamCompleted | StreamIncomplete | StreamOther string

datatype attribution_status = AttributionMapped | AttributionPending | AttributionOther string

record attribution =
  at_status :: attribution_status
  at_relation_id :: uuid
  at_supplier_id :: uuid

definition pending_attribution :: attribution where
  "pending_attribution = \<lparr>at_status = AttributionPending, at_relation_id = uuid_nil, at_supplier_id = uuid_nil\<rparr>"

record cursor =
  cu_occurred_at :: instant
  cu_source_id :: string

definition cursor_is_zero :: "cursor \<Rightarrow> bool" where
  "cursor_is_zero c \<longleftrightarrow> is_zero_time (cu_occurred_at c) \<and> cu_source_id c = []"

definition cursor_compare :: "cursor \<Rightarrow> cursor \<Rightarrow> int" where
  "cursor_compare a b =
     (if time_before (cu_occurred_at a) (cu_occurred_at b) then - 1
      else if time_after (cu_occurred_at a) (cu_occurred_at b) then 1
      else if cu_source_id a < cu_source_id b then - 1
      else if cu_source_id b < cu_source_id a then 1
      else 0)"

record request_fact =
  rf_source_hash :: string
  rf_request_hash :: string
  rf_rule_version :: string
  rf_source :: source
  rf_site_id :: uuid
  rf_request_id :: string
  rf_terminal_cursor :: cursor
  rf_model :: string
  rf_group :: string
  rf_result :: final_result
  rf_http_status :: int
  rf_is_stream :: bool
  rf_stream_completion :: stream_completion
  rf_final_channel_id :: int
  rf_attribution :: attribution
  rf_first_token_millis :: "int option"
  rf_total_millis :: "int option"
  rf_duration_resolution :: int
  rf_prompt_tokens :: int
  rf_completion_tokens :: int
  rf_total_tokens :: int
  rf_attempt_count :: int
  rf_occurred_at :: instant
  rf_error :: error_fact

record attempt_fact =
  af_source_hash :: string
  af_request_hash :: string
  af_rule_version :: string
  af_source :: source
  af_site_id :: uuid
  af_request_id :: string
  af_ordinal :: int
  af_channel_id :: int
  af_model :: string
  af_attribution :: attribution
  af_result :: attempt_result
  af_http_status :: int
  af_is_final :: bool
  af_is_stream :: bool
  af_produced_visible_output :: bool
  af_stream_completion :: stream_completion
  af_first_token_millis :: "int option"
  af_total_millis :: "int option"
  af_duration_resolution :: int
  af_occurred_at :: instant
  af_error :: error_fact

record quarantine_fact =
  qf_source_hash :: string
  qf_source :: source
  qf_site_id :: uuid
  qf_cursor :: cursor
  qf_reason_code :: string

record batch =
  ba_source :: source
  ba_site_id :: uuid
  ba_from :: cursor
  ba_next :: cursor
  ba_requests :: "request_fact list"
  ba_attempts :: "attempt_fact list"
  ba_quarantines :: "quarantine_fact list"

text \<open>The errors of the package, one per message.\<close>

datatype fact_error = ErrCursorInvalid | ErrCursorForm | ErrMappedIdentity | ErrPendingIdentity | ErrAttributionStatus
  | ErrSuccessWithError | ErrUnclassified | ErrNoResponsibility | ErrEvidenceLimit
  | ErrFactIdentity | ErrFactSource | ErrTerminalCursor | ErrFactModel | ErrFactResult | ErrFactCompletion
  | ErrNonStream | ErrNegativeDuration | ErrFirstTokenLate | ErrDurationResolution | ErrTokenUsage | ErrFactTime
  | ErrQuarantineIdentity | ErrQuarantineReason
  | ErrBatchScope | ErrCursorBackwards | ErrForeignRequest | ErrForeignAttempt | ErrDuplicateOrdinal
  | ErrDuplicateAttempt | ErrAttemptCount string | ErrAttemptGap | ErrFinalMismatch | ErrSecondFinal
  | ErrForeignQuarantine | ErrProbeIdentity | ErrProbeSource | ErrProbeAttribution | ErrConversionScope

section \<open>The checks\<close>

text \<open>\<open>^[0-9a-f]{64}$\<close>\<close>

definition hash_pattern :: "string \<Rightarrow> bool" where
  "hash_pattern s \<longleftrightarrow>
     length s = 64 \<and> list_all (\<lambda>c. ascii_between (CHR ''0'') (CHR ''9'') c \<or> ascii_between (CHR ''a'') (CHR ''f'') c) s"

fun valid_source :: "source \<Rightarrow> bool" where
  "valid_source (SourceOther s) = False"
| "valid_source _ = True"

definition validate_cursor :: "cursor \<Rightarrow> fact_error + unit" where
  "validate_cursor c =
     (if is_zero_time (cu_occurred_at c) \<or> trim_space (cu_source_id c) = [] \<or> 256 < length (cu_source_id c)
      then Inl ErrCursorInvalid
      else if \<not> t_utc (cu_occurred_at c) \<or> has_control (cu_source_id c) then Inl ErrCursorForm
      else Inr ())"

definition validate_attribution :: "attribution \<Rightarrow> source \<Rightarrow> fact_error + unit" where
  "validate_attribution a src =
     (case at_status a of
        AttributionMapped \<Rightarrow>
          if at_supplier_id a = uuid_nil \<or> src \<noteq> SourceDirectProbe \<and> at_relation_id a = uuid_nil
          then Inl ErrMappedIdentity else Inr ()
      | AttributionPending \<Rightarrow>
          if at_relation_id a \<noteq> uuid_nil \<or> at_supplier_id a \<noteq> uuid_nil then Inl ErrPendingIdentity else Inr ()
      | AttributionOther s \<Rightarrow> Inl ErrAttributionStatus)"

fun valid_error_class :: "error_class \<Rightarrow> bool" where
  "valid_error_class (ClassOther s) = False"
| "valid_error_class _ = True"

definition validate_error :: "error_fact \<Rightarrow> bool \<Rightarrow> fact_error + unit" where
  "validate_error f required =
     (if \<not> required
      then if f \<noteq> no_error \<and> (ef_class f \<noteq> ClassNone \<or> ef_stable_code f \<noteq> [] \<or> ef_summary f \<noteq> [] \<or> ef_rule_version f \<noteq> [])
        then Inl ErrSuccessWithError else Inr ()
      else if \<not> valid_error_class (ef_class f) \<or> ef_class f = ClassNone \<or> ef_rule_version f \<noteq> classification_rule_version
      then Inl ErrUnclassified
      else if \<not> valid_responsibility (resolved_responsibility f) then Inl ErrNoResponsibility
      else if ef_stable_code f \<noteq> [] \<and> \<not> stable_code_pattern (ef_stable_code f)
        \<or> max_error_summary_runes < rune_count (ef_summary f) \<or> sanitize_error_text (ef_summary f) \<noteq> ef_summary f
      then Inl ErrEvidenceLimit
      else Inr ())"

definition valid_scope :: "source \<Rightarrow> uuid \<Rightarrow> bool" where
  "valid_scope src site \<longleftrightarrow> valid_source src \<and> (src = SourceDirectProbe \<or> site \<noteq> uuid_nil)"

definition validate_durations :: "int option \<Rightarrow> int option \<Rightarrow> fact_error + unit" where
  "validate_durations first_token elapsed =
     (if (case first_token of Some f \<Rightarrow> f < 0 | None \<Rightarrow> False) \<or> (case elapsed of Some t \<Rightarrow> t < 0 | None \<Rightarrow> False)
      then Inl ErrNegativeDuration
      else case (first_token, elapsed) of
          (Some f, Some t) \<Rightarrow> if t < f then Inl ErrFirstTokenLate else Inr ()
        | _ \<Rightarrow> Inr ())"

definition valid_duration_resolution :: "int option \<Rightarrow> int \<Rightarrow> bool" where
  "valid_duration_resolution elapsed resolution \<longleftrightarrow>
     (case elapsed of None \<Rightarrow> resolution = 0
      | Some _ \<Rightarrow> resolution = resolution_millisecond \<or> resolution = resolution_second)"

fun valid_stream_completion :: "stream_completion \<Rightarrow> bool" where
  "valid_stream_completion (StreamOther s) = False"
| "valid_stream_completion _ = True"

definition valid_http_status :: "int \<Rightarrow> bool" where
  "valid_http_status status \<longleftrightarrow> status = 0 \<or> 100 \<le> status \<and> status \<le> 599"

fun valid_final_result :: "final_result \<Rightarrow> bool" where
  "valid_final_result (FinalOther s) = False"
| "valid_final_result _ = True"

fun valid_attempt_result :: "attempt_result \<Rightarrow> bool" where
  "valid_attempt_result (AttemptOther s) = False"
| "valid_attempt_result _ = True"

definition results_match :: "final_result \<Rightarrow> attempt_result \<Rightarrow> bool" where
  "results_match request attempt \<longleftrightarrow>
     (case request of
        FinalSucceeded \<Rightarrow> attempt = AttemptSucceeded
      | FinalCancelled \<Rightarrow> attempt = AttemptCancelled
      | FinalRejected \<Rightarrow> attempt = AttemptRejected
      | FinalIncomplete \<Rightarrow> attempt = AttemptIncomplete
      | FinalFailed \<Rightarrow> attempt = AttemptFailed
      | FinalOther s \<Rightarrow> False)"

definition validate_request :: "request_fact \<Rightarrow> fact_error + unit" where
  "validate_request f =
     (if \<not> hash_pattern (rf_source_hash f) \<or> \<not> hash_pattern (rf_request_hash f)
        \<or> rf_rule_version f \<noteq> measurement_rule_version then Inl ErrFactIdentity
      else if \<not> valid_scope (rf_source f) (rf_site_id f) \<or> trim_space (rf_request_id f) = []
        \<or> 128 < length (rf_request_id f) \<or> has_control (rf_request_id f) then Inl ErrFactSource
      else if validate_cursor (rf_terminal_cursor f) \<noteq> Inr ()
        \<or> time_before (cu_occurred_at (rf_terminal_cursor f)) (rf_occurred_at f) then Inl ErrTerminalCursor
      else if trim_space (rf_model f) = [] \<or> 191 < length (rf_model f) \<or> 64 < length (rf_group f)
        \<or> has_control (rf_model f @ rf_group f) then Inl ErrFactModel
      else if \<not> valid_final_result (rf_result f) then Inl ErrFactResult
      else if \<not> valid_http_status (rf_http_status f) \<or> \<not> valid_stream_completion (rf_stream_completion f)
        \<or> rf_final_channel_id f < 0 \<or> rf_attempt_count f < 1 then Inl ErrFactCompletion
      else if \<not> rf_is_stream f \<and> rf_stream_completion f \<noteq> StreamUnknown then Inl ErrNonStream
      else bindE (validate_attribution (rf_attribution f) (rf_source f)) (\<lambda>_.
        bindE (validate_durations (rf_first_token_millis f) (rf_total_millis f)) (\<lambda>_.
        if \<not> valid_duration_resolution (rf_total_millis f) (rf_duration_resolution f) then Inl ErrDurationResolution
        else if rf_prompt_tokens f < 0 \<or> rf_completion_tokens f < 0
          \<or> max_int64 - rf_completion_tokens f < rf_prompt_tokens f
          \<or> rf_total_tokens f \<noteq> rf_prompt_tokens f + rf_completion_tokens f then Inl ErrTokenUsage
        else if is_zero_time (rf_occurred_at f) \<or> \<not> t_utc (rf_occurred_at f) then Inl ErrFactTime
        else validate_error (rf_error f) (rf_result f \<noteq> FinalSucceeded))))"

definition validate_attempt :: "attempt_fact \<Rightarrow> fact_error + unit" where
  "validate_attempt f =
     (if \<not> hash_pattern (af_source_hash f) \<or> \<not> hash_pattern (af_request_hash f)
        \<or> af_rule_version f \<noteq> measurement_rule_version then Inl ErrFactIdentity
      else if \<not> valid_scope (af_source f) (af_site_id f) \<or> trim_space (af_request_id f) = []
        \<or> has_control (af_request_id f) \<or> af_ordinal f < 1 \<or> af_channel_id f < 0 then Inl ErrFactSource
      else if trim_space (af_model f) = [] \<or> 191 < length (af_model f) \<or> has_control (af_model f) then Inl ErrFactModel
      else if \<not> valid_attempt_result (af_result f) \<or> \<not> valid_http_status (af_http_status f)
        \<or> \<not> valid_stream_completion (af_stream_completion f) then Inl ErrFactResult
      else if \<not> af_is_stream f \<and> af_stream_completion f \<noteq> StreamUnknown
        \<or> af_produced_visible_output f \<noteq> (af_first_token_millis f \<noteq> None) then Inl ErrFactCompletion
      else bindE (validate_attribution (af_attribution f) (af_source f)) (\<lambda>_.
        bindE (validate_durations (af_first_token_millis f) (af_total_millis f)) (\<lambda>_.
        if \<not> valid_duration_resolution (af_total_millis f) (af_duration_resolution f) then Inl ErrDurationResolution
        else if is_zero_time (af_occurred_at f) \<or> \<not> t_utc (af_occurred_at f) then Inl ErrFactTime
        else validate_error (af_error f) (af_result f \<noteq> AttemptSucceeded))))"

definition validate_quarantine :: "quarantine_fact \<Rightarrow> fact_error + unit" where
  "validate_quarantine f =
     (if \<not> hash_pattern (qf_source_hash f) \<or> qf_source f \<noteq> SourceRealTraffic \<and> qf_source f \<noteq> SourceSiteProbe
        \<or> qf_site_id f = uuid_nil then Inl ErrQuarantineIdentity
      else bindE (validate_cursor (qf_cursor f)) (\<lambda>_.
        if \<not> stable_code_pattern (qf_reason_code f) then Inl ErrQuarantineReason else Inr ()))"

section \<open>Checking a batch\<close>

text \<open>The three loops of \<open>Batch.Validate\<close> and their local maps.  The attempts of a request
  are an association list from ordinals, newest first.\<close>

definition request_seen :: "(string \<rightharpoonup> request_fact) \<Rightarrow> string \<Rightarrow> bool" where
  "request_seen m h \<longleftrightarrow> (case m h of Some r \<Rightarrow> rf_request_hash r \<noteq> [] | None \<Rightarrow> False)"

definition request_step :: "batch \<Rightarrow> (string \<rightharpoonup> request_fact) \<Rightarrow> request_fact \<Rightarrow> fact_error + (string \<rightharpoonup> request_fact)" where
  "request_step b m r =
     bindE (validate_request r) (\<lambda>_.
     if rf_source r \<noteq> ba_source b \<or> rf_site_id r \<noteq> ba_site_id b \<or> request_seen m (rf_request_hash r)
     then Inl ErrForeignRequest
     else Inr (m(rf_request_hash r \<mapsto> r)))"

record attempt_scan =
  asc_ordinals :: "string \<Rightarrow> (int \<times> attempt_fact) list"
  asc_sources :: "string set"

definition attempt_step :: "batch \<Rightarrow> (string \<rightharpoonup> request_fact) \<Rightarrow> attempt_scan \<Rightarrow> attempt_fact \<Rightarrow> fact_error + attempt_scan" where
  "attempt_step b m s a =
     bindE (validate_attempt a) (\<lambda>_.
     let h = af_request_hash a in
     case m h of
       None \<Rightarrow> Inl ErrForeignAttempt
     | Some r \<Rightarrow>
         if af_source a \<noteq> ba_source b \<or> af_site_id a \<noteq> ba_site_id b \<or> af_request_id a \<noteq> rf_request_id r
         then Inl ErrForeignAttempt
         else if map_of (asc_ordinals s h) (af_ordinal a) \<noteq> None then Inl ErrDuplicateOrdinal
         else if af_source_hash a \<in> asc_sources s then Inl ErrDuplicateAttempt
         else Inr (s\<lparr>asc_ordinals := (asc_ordinals s)(h := (af_ordinal a, a) # asc_ordinals s h),
                     asc_sources := insert (af_source_hash a) (asc_sources s)\<rparr>))"

definition final_matches :: "request_fact \<Rightarrow> attempt_fact \<Rightarrow> bool" where
  "final_matches r a \<longleftrightarrow>
     af_channel_id a = rf_final_channel_id r \<and> af_http_status a = rf_http_status r \<and> af_is_stream a = rf_is_stream r
     \<and> af_is_final a \<and> results_match (rf_result r) (af_result a)"

definition sequence_check :: "(string \<Rightarrow> (int \<times> attempt_fact) list) \<Rightarrow> request_fact \<Rightarrow> fact_error + unit" where
  "sequence_check ordinals r =
     (let attempts = ordinals (rf_request_hash r); n = rf_attempt_count r in
      if int (length attempts) \<noteq> n then Inl (ErrAttemptCount (rf_request_hash r))
      else if \<not> list_all (\<lambda>k. map_of attempts k \<noteq> None) [1..n] then Inl ErrAttemptGap
      else if (case map_of attempts n of Some a \<Rightarrow> \<not> final_matches r a | None \<Rightarrow> True) then Inl ErrFinalMismatch
      else if list_ex (\<lambda>k. case map_of attempts k of Some a \<Rightarrow> af_is_final a | None \<Rightarrow> False) [1..n - 1]
      then Inl ErrSecondFinal
      else Inr ())"

definition quarantine_step :: "batch \<Rightarrow> string set \<Rightarrow> quarantine_fact \<Rightarrow> fact_error + string set" where
  "quarantine_step b seen q =
     bindE (validate_quarantine q) (\<lambda>_.
     if qf_source q \<noteq> ba_source b \<or> qf_site_id q \<noteq> ba_site_id b \<or> qf_source_hash q \<in> seen
     then Inl ErrForeignQuarantine
     else Inr (insert (qf_source_hash q) seen))"

definition no_attempts :: attempt_scan where
  "no_attempts = \<lparr>asc_ordinals = (\<lambda>_. []), asc_sources = {}\<rparr>"

definition validate_batch_cursors :: "batch \<Rightarrow> fact_error + unit" where
  "validate_batch_cursors b =
     bindE (if cursor_is_zero (ba_from b) then Inr () else validate_cursor (ba_from b)) (\<lambda>_.
     bindE (if cursor_is_zero (ba_next b) then Inr () else validate_cursor (ba_next b)) (\<lambda>_.
     guardE (\<not> cursor_is_zero (ba_from b) \<and> \<not> cursor_is_zero (ba_next b) \<and> cursor_compare (ba_next b) (ba_from b) < 0)
       ErrCursorBackwards))"

definition validate_batch :: "batch \<Rightarrow> fact_error + unit" where
  "validate_batch b =
     (if \<not> valid_scope (ba_source b) (ba_site_id b) then Inl ErrBatchScope
      else bindE (validate_batch_cursors b) (\<lambda>_.
        bindE (foldE (request_step b) Map.empty (ba_requests b)) (\<lambda>m.
        bindE (foldE (attempt_step b m) no_attempts (ba_attempts b)) (\<lambda>s.
        bindE (check_all (sequence_check (asc_ordinals s)) (ba_requests b)) (\<lambda>_.
        bindE (foldE (quarantine_step b) {} (ba_quarantines b)) (\<lambda>_. Inr ()))))))"

section \<open>The order of cursors\<close>

text \<open>\<open>Compare\<close> orders cursors by time and then by source: it is the comparison of a pair in a
  linear order, so sorting by it is well defined.\<close>

definition cursor_key :: "cursor \<Rightarrow> int \<times> string" where
  "cursor_key c = (t_ns (cu_occurred_at c), cu_source_id c)"

lemma cursor_compare_less: "cursor_compare a b < 0 \<longleftrightarrow> cursor_key a < cursor_key b"
  by (auto simp: cursor_compare_def cursor_key_def time_before_def time_after_def less_prod_def not_less)

lemma cursor_compare_greater: "0 < cursor_compare a b \<longleftrightarrow> cursor_key b < cursor_key a"
  by (auto simp: cursor_compare_def cursor_key_def time_before_def time_after_def less_prod_def not_less)

lemma cursor_compare_eq: "cursor_compare a b = 0 \<longleftrightarrow> cursor_key a = cursor_key b"
  by (auto simp: cursor_compare_def cursor_key_def time_before_def time_after_def not_less)

section \<open>What a checked batch looks like\<close>

definition attempts_of :: "batch \<Rightarrow> request_fact \<Rightarrow> attempt_fact list" where
  "attempts_of b r = filter (\<lambda>a. af_request_hash a = rf_request_hash r) (ba_attempts b)"

lemma foldE_snoc: "foldE f s (xs @ [x]) = Inr t \<longleftrightarrow> (\<exists>u. foldE f s xs = Inr u \<and> f u x = Inr t)"
  by (simp add: foldE_append)

lemma attempt_scan_sound:
  "foldE (attempt_step b m) no_attempts xs = Inr s \<Longrightarrow>
     asc_ordinals s h = rev (map (\<lambda>a. (af_ordinal a, a)) (filter (\<lambda>a. af_request_hash a = h) xs))
     \<and> distinct (map fst (asc_ordinals s h)) \<and> asc_sources s = set (map af_source_hash xs)
     \<and> distinct (map af_source_hash xs) \<and> list_all (\<lambda>a. validate_attempt a = Inr ()) xs"
proof (induction xs arbitrary: s h rule: rev_induct)
  case (snoc a xs)
  then obtain u where u: "foldE (attempt_step b m) no_attempts xs = Inr u" "attempt_step b m u a = Inr s"
    by (auto simp: foldE_snoc)
  from u(2) have v: "validate_attempt a = Inr ()" "map_of (asc_ordinals u (af_request_hash a)) (af_ordinal a) = None"
      "af_source_hash a \<notin> asc_sources u"
    and s: "s = u\<lparr>asc_ordinals := (asc_ordinals u)
        (af_request_hash a := (af_ordinal a, a) # asc_ordinals u (af_request_hash a)),
      asc_sources := insert (af_source_hash a) (asc_sources u)\<rparr>"
    by (auto simp: attempt_step_def Let_def split: option.splits if_splits)
  from v(2) have "af_ordinal a \<notin> fst ` set (asc_ordinals u (af_request_hash a))" by (simp add: map_of_eq_None_iff)
  then show ?case using snoc.IH [OF u(1), of h] snoc.IH [OF u(1), of "af_request_hash a"] v(1,3) by (auto simp: s)
qed (auto simp: no_attempts_def)

lemma valid_request_hash: "validate_request r = Inr () \<Longrightarrow> hash_pattern (rf_request_hash r)"
  by (rule ccontr) (simp add: validate_request_def)

lemma request_scan_sound:
  "foldE (request_step b) Map.empty rs = Inr m \<Longrightarrow>
     distinct (map rf_request_hash rs) \<and> list_all (\<lambda>r. validate_request r = Inr ()) rs
     \<and> (\<forall>h. m h = map_of (map (\<lambda>r. (rf_request_hash r, r)) rs) h)"
proof (induction rs arbitrary: m rule: rev_induct)
  case (snoc r rs)
  then obtain u where u: "foldE (request_step b) Map.empty rs = Inr u" "request_step b u r = Inr m"
    by (auto simp: foldE_snoc)
  note ih = snoc.IH [OF u(1)]
  from u(2) have v: "validate_request r = Inr ()" "\<not> request_seen u (rf_request_hash r)" "m = u(rf_request_hash r \<mapsto> r)"
    by (auto simp: request_step_def split: if_splits)
  have fresh: "rf_request_hash r \<notin> rf_request_hash ` set rs"
  proof
    assume "rf_request_hash r \<in> rf_request_hash ` set rs"
    then obtain x where x: "map_of (map (\<lambda>r. (rf_request_hash r, r)) rs) (rf_request_hash r) = Some x"
      by (cases "map_of (map (\<lambda>r. (rf_request_hash r, r)) rs) (rf_request_hash r)")
        (auto simp: map_of_eq_None_iff image_image)
    then have "x \<in> set rs" "rf_request_hash x = rf_request_hash r" by (auto dest!: map_of_SomeD)
    moreover from this have "hash_pattern (rf_request_hash x)"
      using ih by (intro valid_request_hash) (simp add: list_all_iff)
    moreover have "u (rf_request_hash r) = Some x" using ih x by simp
    ultimately show False using v(2) by (auto simp: request_seen_def hash_pattern_def)
  qed
  then have n: "map_of (map (\<lambda>r. (rf_request_hash r, r)) rs) (rf_request_hash r) = None"
    by (auto simp: map_of_eq_None_iff)
  show ?case using ih v(1) n fresh by (auto simp: v(3) map_add_def split: option.splits)
qed simp

lemma fst_ordinals: "map fst (rev (map (\<lambda>a. (af_ordinal a, a)) as)) = rev (map af_ordinal as)"
  by (simp add: rev_map o_def)

lemma map_of_ordinals:
  "distinct (map af_ordinal as) \<Longrightarrow> a \<in> set as \<Longrightarrow> map_of (rev (map (\<lambda>a. (af_ordinal a, a)) as)) (af_ordinal a) = Some a"
  by (rule map_of_is_SomeI) (simp_all only: fst_ordinals distinct_rev, auto)

text \<open>C21: What an accepted batch of measurements promises, for every request in it: its attempts are
  numbered exactly from 1 to the request's attempt count, each number once; exactly the last one is
  final; and that one carries the request's channel, HTTP status, stream flag and result.\<close>
theorem accepted_batch_attempts:
  assumes "validate_batch b = Inr ()" "r \<in> set (ba_requests b)"
  shows "distinct (map af_ordinal (attempts_of b r))
    \<and> set (map af_ordinal (attempts_of b r)) = {1..rf_attempt_count r}
    \<and> (\<forall>a. a \<in> set (attempts_of b r) \<longrightarrow> (af_is_final a \<longleftrightarrow> af_ordinal a = rf_attempt_count r))
    \<and> (\<exists>a. a \<in> set (attempts_of b r) \<and> af_ordinal a = rf_attempt_count r \<and> final_matches r a)"
proof -
  from assms(1) obtain m s where m: "foldE (request_step b) Map.empty (ba_requests b) = Inr m"
    and s: "foldE (attempt_step b m) no_attempts (ba_attempts b) = Inr s"
    and c: "check_all (sequence_check (asc_ordinals s)) (ba_requests b) = Inr ()"
    by (auto simp: validate_batch_def split: if_splits)
  let ?as = "attempts_of b r" and ?n = "rf_attempt_count r"
  have o: "asc_ordinals s (rf_request_hash r) = rev (map (\<lambda>a. (af_ordinal a, a)) ?as)"
    and "distinct (map fst (asc_ordinals s (rf_request_hash r)))"
    using attempt_scan_sound [OF s, of "rf_request_hash r"] unfolding attempts_of_def by blast+
  then have d: "distinct (map af_ordinal ?as)" by (simp only: fst_ordinals distinct_rev)
  from c assms(2) have q: "sequence_check (asc_ordinals s) r = Inr ()" by simp
  then have l: "int (length ?as) = ?n"
    and g: "list_all (\<lambda>k. map_of (rev (map (\<lambda>a. (af_ordinal a, a)) ?as)) k \<noteq> None) [1..?n]"
    and f: "case map_of (rev (map (\<lambda>a. (af_ordinal a, a)) ?as)) ?n of Some a \<Rightarrow> final_matches r a | None \<Rightarrow> False"
    and e: "\<not> list_ex (\<lambda>k. case map_of (rev (map (\<lambda>a. (af_ordinal a, a)) ?as)) k of Some a \<Rightarrow> af_is_final a | None \<Rightarrow> False) [1..?n - 1]"
    by (auto simp: sequence_check_def Let_def o split: if_splits option.splits)
  have "{1..?n} \<subseteq> set (map af_ordinal ?as)"
  proof
    fix k
    assume "k \<in> {1..?n}"
    then have "map_of (rev (map (\<lambda>a. (af_ordinal a, a)) ?as)) k \<noteq> None" using g by (simp add: list_all_iff)
    then show "k \<in> set (map af_ordinal ?as)" by (auto dest!: map_of_SomeD)
  qed
  moreover have "card (set (map af_ordinal ?as)) = card {1..?n}"
    using distinct_card [OF d] l by simp
  ultimately have eq: "set (map af_ordinal ?as) = {1..?n}" by (metis List.finite_set card_subset_eq)
  have look: "map_of (rev (map (\<lambda>a. (af_ordinal a, a)) ?as)) (af_ordinal a) = Some a" if "a \<in> set ?as" for a
    by (rule map_of_ordinals [OF d that])
  from f obtain z where z: "map_of (rev (map (\<lambda>a. (af_ordinal a, a)) ?as)) ?n = Some z" "final_matches r z"
    by (auto split: option.splits)
  then have zin: "z \<in> set ?as" "af_ordinal z = ?n" by (auto dest!: map_of_SomeD)
  have "af_is_final a \<longleftrightarrow> af_ordinal a = ?n" if a: "a \<in> set ?as" for a
  proof
    assume "af_is_final a"
    then have "af_ordinal a \<notin> set [1..?n - 1]"
      using e look [OF a] by (auto simp: list_ex_iff dest!: bspec [of _ _ "af_ordinal a"])
    moreover have "af_ordinal a \<in> {1..?n}" using eq a by auto
    ultimately show "af_ordinal a = ?n" by auto
  next
    assume "af_ordinal a = ?n"
    then have "a = z" using look [OF a] z(1) by simp
    then show "af_is_final a" using z(2) by (simp add: final_matches_def)
  qed
  then show ?thesis using d eq zin z(2) by blast
qed

section \<open>Which classified errors can be stored\<close>

lemma classified_fields:
  "valid_error_class (ef_class (classify_error L code status text))"
  "ef_class (classify_error L code status text) \<noteq> ClassNone"
  "ef_rule_version (classify_error L code status text) = classification_rule_version"
  "valid_responsibility (ef_responsibility (classify_error L code status text))"
  "ef_stable_code (classify_error L code status text) = [] \<or> stable_code_pattern (ef_stable_code (classify_error L code status text))"
  "rune_count (ef_summary (classify_error L code status text)) \<le> 240"
  "ef_summary (classify_error L code status text) \<noteq> []"
proof -
  have "decided_class L c st sm \<noteq> ClassNone" "\<And>s. decided_class L c st sm \<noteq> ClassOther s" for c st sm
    using decided_classes [of L c st sm] by blast+
  then show "valid_error_class (ef_class (classify_error L code status text))"
    "ef_class (classify_error L code status text) \<noteq> ClassNone"
    by (simp_all add: classify_error_def Let_def) (metis valid_error_class.elims(3))
  show "rune_count (ef_summary (classify_error L code status text)) \<le> 240"
    using sanitize_length [of "text"] default_summary_length by (simp add: classify_error_def Let_def)
  show "ef_stable_code (classify_error L code status text) = [] \<or> stable_code_pattern (ef_stable_code (classify_error L code status text))"
    using normalized_code by (simp add: classify_error_def Let_def)
qed (simp_all add: classify_error_def Let_def default_responsibility_valid)

lemma classified_summary:
  "ef_summary (classify_error L code status text) =
     (if sanitize_error_text text = [] then ''upstream request failed'' else sanitize_error_text text)"
  by (simp add: classify_error_def Let_def)

text \<open>Every error the classifier produces passes the check of stored errors, with exactly one
  exception: a summary that sanitising would change again.\<close>
theorem classified_error_stored:
  "validate_error (classify_error L code status text) True
     = (if sanitize_error_text (sanitize_error_text text) = sanitize_error_text text then Inr () else Inl ErrEvidenceLimit)"
proof -
  let ?f = "classify_error L code status text"
  have r: "valid_responsibility (resolved_responsibility ?f)"
    using classified_fields(4) [of L code status "text"] by (simp add: resolved_responsibility_def)
  have e: "sanitize_error_text [] = []" by code_simp
  have "sanitize_error_text (ef_summary ?f) = ef_summary ?f \<longleftrightarrow> sanitize_error_text (sanitize_error_text text) = sanitize_error_text text"
    by (simp add: classified_summary default_summary_clean e)
  then show ?thesis
    using classified_fields [of L code status "text"] r
    by (auto simp: validate_error_def max_error_summary_runes_def not_less)
qed

lemma refused_errors:
  "validate_error (classify_error L code status (long_text '' b'')) True = Inl ErrEvidenceLimit"
  "validate_error (classify_error L code status hidden_secret) True = Inl ErrEvidenceLimit"
  "ef_summary (classify_error L code status hidden_secret) = ''Bearer abcdef''"
proof -
  have "long_text [] \<noteq> long_text '' ''" by (simp add: long_text_def)
  moreover have "long_text '' '' \<noteq> []" by (simp add: long_text_def)
  ultimately show "validate_error (classify_error L code status (long_text '' b'')) True = Inl ErrEvidenceLimit"
    unfolding validate_error_def using classified_fields [of L code status "long_text '' b''"]
    by (simp add: classified_summary long_text_summary long_summary_again resolved_responsibility_def)
  show "validate_error (classify_error L code status hidden_secret) True = Inl ErrEvidenceLimit"
    unfolding validate_error_def using classified_fields [of L code status hidden_secret]
    by (simp add: classified_summary hidden_secret_kept hidden_secret_again resolved_responsibility_def)
  show "ef_summary (classify_error L code status hidden_secret) = ''Bearer abcdef''"
    by (simp add: classified_summary hidden_secret_kept)
qed

text \<open>C37: Whatever the code, the HTTP status and the text, the classifier gives a known class other than
  none, a known responsibility, an empty or well-formed code and a summary of 1 to 240 runes; the fact
  passes the check of stored errors exactly when sanitising the text twice gives what sanitising it
  once gives, and is otherwise refused for its summary.  One text that is refused is \<open>Bearer\<close>, a
  NUL and \<open>abcdef\<close>, whose summary still has the secret.\<close>
theorem classified_error_storable:
  "valid_error_class (ef_class (classify_error L code status text))
   \<and> ef_class (classify_error L code status text) \<noteq> ClassNone
   \<and> valid_responsibility (ef_responsibility (classify_error L code status text))
   \<and> (ef_stable_code (classify_error L code status text) = [] \<or> stable_code_pattern (ef_stable_code (classify_error L code status text)))
   \<and> rune_count (ef_summary (classify_error L code status text)) \<in> {1..240}
   \<and> validate_error (classify_error L code status text) True
       = (if sanitize_error_text (sanitize_error_text text) = sanitize_error_text text then Inr () else Inl ErrEvidenceLimit)
   \<and> validate_error (classify_error L code status hidden_secret) True = Inl ErrEvidenceLimit
   \<and> ef_summary (classify_error L code status hidden_secret) = ''Bearer abcdef''"
proof -
  have "rune_count (ef_summary (classify_error L code status text)) \<noteq> 0"
    using classified_fields(7) [of L code status "text"] by (simp add: length_glyphs [symmetric] glyphs_Cons)
  then show ?thesis
    using classified_fields [of L code status "text"] classified_error_stored [of L code status "text"]
      refused_errors(2,3) [of L code status] by simp
qed

end
