(* ===== verification/Conversion.thy ===== *)
theory Conversion imports Facts begin

text \<open>
  \<open>internal/domain/measurement\<close>: \<open>newapi.go\<close> and \<open>probe.go\<close> - turning the
  logs of a site into a batch of facts, and one probe into its two facts.

  The logs are put in the order of their cursors, repeated ones dropped, malformed ones set aside,
  and the rest grouped by request; each group becomes a request with the sequence of channels it
  tried.  Fields of the log that no code reads are left out.
\<close>

section \<open>Types\<close>

record channel_attribution =
  ca_relation_id :: uuid
  ca_supplier_id :: uuid

type_synonym resolver = "int \<Rightarrow> instant \<Rightarrow> attribution"

record log_input =
  ni_cursor :: cursor
  ni_request_id :: string
  ni_result :: final_result
  ni_model :: string
  ni_group :: string
  ni_current_channel_id :: int
  ni_use_channel_ids :: "int list"
  ni_stable_error_code :: string
  ni_http_status :: int
  ni_error_text :: string
  ni_is_stream :: bool
  ni_stream_completed :: "bool option"
  ni_first_token_millis :: "int option"
  ni_total_millis :: "int option"
  ni_duration_resolution :: int
  ni_prompt_tokens :: int
  ni_completion_tokens :: int

section \<open>Hashes\<close>

definition stable_hash :: "'d libs \<Rightarrow> string list \<Rightarrow> string" where
  "stable_hash L parts = sha256_hex L (frame parts)"

definition format_bool :: "bool \<Rightarrow> string" where
  "format_bool b = (if b then ''true'' else ''false'')"

definition bool_pointer_value :: "bool option \<Rightarrow> string" where
  "bool_pointer_value v = (case v of None \<Rightarrow> ''unknown'' | Some b \<Rightarrow> format_bool b)"

definition int64_pointer_value :: "int option \<Rightarrow> string" where
  "int64_pointer_value v = (case v of None \<Rightarrow> ''unknown'' | Some i \<Rightarrow> format_int i)"

definition log_parts :: "'d libs \<Rightarrow> source \<Rightarrow> uuid \<Rightarrow> log_input \<Rightarrow> string list" where
  "log_parts L src site i =
     [''new_api_log'', source_text src, uuid_string L site, time_format L (cu_occurred_at (ni_cursor i)),
      cu_source_id (ni_cursor i), ni_request_id i, final_result_text (ni_result i), ni_model i, ni_group i,
      format_int (ni_current_channel_id i), join_with '','' (map format_int (ni_use_channel_ids i)),
      ni_stable_error_code i, format_int (ni_http_status i), format_bool (ni_is_stream i),
      bool_pointer_value (ni_stream_completed i), int64_pointer_value (ni_first_token_millis i),
      int64_pointer_value (ni_total_millis i), format_int (ni_duration_resolution i),
      format_int (ni_prompt_tokens i), format_int (ni_completion_tokens i)]"

definition log_source_hash :: "'d libs \<Rightarrow> source \<Rightarrow> uuid \<Rightarrow> log_input \<Rightarrow> string" where
  "log_source_hash L src site i = stable_hash L (log_parts L src site i)"

definition request_revision_hash :: "'d libs \<Rightarrow> string \<Rightarrow> attempt_fact list \<Rightarrow> string" where
  "request_revision_hash L terminal_hash attempts =
     stable_hash L (''new_api_request_revision'' # terminal_hash # map af_source_hash attempts)"

section \<open>Small conversions\<close>

definition normalize_cursor :: "cursor \<Rightarrow> cursor" where
  "normalize_cursor c =
     (if is_zero_time (cu_occurred_at c) then c else c\<lparr>cu_occurred_at := to_utc (cu_occurred_at c)\<rparr>)"

definition stream_completion_of :: "bool \<Rightarrow> bool option \<Rightarrow> stream_completion" where
  "stream_completion_of is_stream completed =
     (if \<not> is_stream then StreamUnknown
      else case completed of None \<Rightarrow> StreamUnknown
        | Some c \<Rightarrow> if c then StreamCompleted else StreamIncomplete)"

definition final_result_from_error :: "error_fact \<Rightarrow> final_result" where
  "final_result_from_error f =
     (case ef_class f of ClassCancelled \<Rightarrow> FinalCancelled | ClassRejected \<Rightarrow> FinalRejected
      | ClassStreamIncomplete \<Rightarrow> FinalIncomplete | _ \<Rightarrow> FinalFailed)"

definition attempt_result_from_final :: "final_result \<Rightarrow> attempt_result" where
  "attempt_result_from_final r =
     (case r of FinalCancelled \<Rightarrow> AttemptCancelled | FinalRejected \<Rightarrow> AttemptRejected
      | FinalIncomplete \<Rightarrow> AttemptIncomplete | _ \<Rightarrow> AttemptFailed)"

definition attempt_result_from_error :: "error_fact \<Rightarrow> attempt_result" where
  "attempt_result_from_error f = attempt_result_from_final (final_result_from_error f)"

definition attribution_for :: "int \<Rightarrow> instant \<Rightarrow> resolver option \<Rightarrow> attribution" where
  "attribution_for channel moment resolve =
     (case resolve of
        None \<Rightarrow> pending_attribution
      | Some f \<Rightarrow>
          if channel < 1 \<or> is_zero_time moment then pending_attribution
          else let v = f channel (to_utc moment) in
            if at_status v \<noteq> AttributionMapped \<or> at_relation_id v = uuid_nil \<or> at_supplier_id v = uuid_nil
            then pending_attribution else v)"

definition classify_input_error :: "'d libs \<Rightarrow> log_input \<Rightarrow> stream_completion \<Rightarrow> error_fact" where
  "classify_input_error L i stream =
     (let f = classify_error L (ni_stable_error_code i) (ni_http_status i) (ni_error_text i) in
      if ef_class f = ClassUnknown \<and> stream = StreamIncomplete then f\<lparr>ef_class := ClassStreamIncomplete\<rparr> else f)"

definition invalid_log_reason :: "log_input \<Rightarrow> string option" where
  "invalid_log_reason i =
     (if trim_space (ni_request_id i) = [] \<or> 128 < length (ni_request_id i) \<or> has_control (ni_request_id i)
      then Some ''invalid_request_id''
      else if ni_result i \<noteq> FinalSucceeded \<and> ni_result i \<noteq> FinalFailed then Some ''invalid_result''
      else if trim_space (ni_model i) = [] \<or> 191 < length (ni_model i) \<or> 64 < length (ni_group i)
        \<or> has_control (ni_model i @ ni_group i) then Some ''invalid_model_or_group''
      else if ni_current_channel_id i < 0 \<or> ni_result i = FinalSucceeded \<and> ni_current_channel_id i = 0
      then Some ''invalid_channel''
      else if list_ex (\<lambda>c. c < 1) (ni_use_channel_ids i) then Some ''invalid_channel_sequence''
      else if ni_http_status i \<noteq> 0 \<and> (ni_http_status i < 100 \<or> 599 < ni_http_status i) then Some ''invalid_http_status''
      else if ni_prompt_tokens i < 0 \<or> ni_completion_tokens i < 0
        \<or> max_int64 - ni_completion_tokens i < ni_prompt_tokens i then Some ''invalid_token_usage''
      else if validate_durations (ni_first_token_millis i) (ni_total_millis i) \<noteq> Inr () then Some ''invalid_duration''
      else None)"

definition new_quarantine_fact :: "'d libs \<Rightarrow> source \<Rightarrow> uuid \<Rightarrow> cursor \<Rightarrow> string \<Rightarrow> fact_error + quarantine_fact" where
  "new_quarantine_fact L src site c0 reason =
     (let c = normalize_cursor c0;
          f = \<lparr>qf_source_hash = stable_hash L [''quarantine'', source_text src, uuid_string L site,
                 time_format L (cu_occurred_at c), cu_source_id c],
               qf_source = src, qf_site_id = site, qf_cursor = c, qf_reason_code = reason\<rparr> in
      bindE (validate_quarantine f) (\<lambda>_. Inr f))"

section \<open>One request and its attempts\<close>

text \<open>The channels tried: the last of the longest sequences the records name, ended by the channel
  of the last record.\<close>

definition channel_sequence :: "log_input list \<Rightarrow> int list" where
  "channel_sequence records =
     (let s = foldl (\<lambda>s r. if length s \<le> length (ni_use_channel_ids r) then ni_use_channel_ids r else s) [] records;
          last_channel = ni_current_channel_id (last records) in
      if s = [] \<or> last s \<noteq> last_channel then s @ [last_channel] else s)"

text \<open>The first unused failure of a channel, and the failures left unused.\<close>

fun take_failure :: "int \<Rightarrow> log_input list \<Rightarrow> (log_input \<times> log_input list) option" where
  "take_failure channel [] = None"
| "take_failure channel (r # rs) =
     (if ni_current_channel_id r = channel then Some (r, rs)
      else map_option (\<lambda>(x, left). (x, r # left)) (take_failure channel rs))"

text \<open>The local variables of \<open>convertNewAPIRequest\<close> the loop over the channels reads.\<close>

record conversion =
  cv_source :: source
  cv_site_id :: uuid
  cv_resolve :: "resolver option"
  cv_terminal :: log_input
  cv_terminal_hash :: string
  cv_request_hash :: string
  cv_stream :: stream_completion
  cv_result :: final_result
  cv_sequence :: "int list"

definition attempt_hash :: "'d libs \<Rightarrow> string \<Rightarrow> int \<Rightarrow> int \<Rightarrow> string" where
  "attempt_hash L base ordinal channel = stable_hash L [base, ''attempt'', format_int ordinal, format_int channel]"

definition unobserved_error :: error_fact where
  "unobserved_error = no_error\<lparr>ef_class := ClassUnknown, ef_summary := ''channel failed before retry'',
     ef_rule_version := classification_rule_version\<rparr>"

text \<open>The attempt on one channel: the one that succeeded, one with a failed record of its own, or
  one of which nothing was recorded.\<close>

definition succeeded_attempt :: "'d libs \<Rightarrow> conversion \<Rightarrow> int \<Rightarrow> int \<Rightarrow> attempt_fact" where
  "succeeded_attempt L v ordinal channel =
     (let t = cv_terminal v; moment = cu_occurred_at (ni_cursor t) in
      \<lparr>af_source_hash = attempt_hash L (cv_terminal_hash v) ordinal channel, af_request_hash = cv_request_hash v,
       af_rule_version = measurement_rule_version, af_source = cv_source v, af_site_id = cv_site_id v,
       af_request_id = ni_request_id t, af_ordinal = ordinal, af_channel_id = channel, af_model = ni_model t,
       af_attribution = attribution_for channel moment (cv_resolve v), af_result = AttemptSucceeded,
       af_http_status = ni_http_status t, af_is_final = (ordinal = int (length (cv_sequence v))),
       af_is_stream = ni_is_stream t, af_produced_visible_output = (ni_first_token_millis t \<noteq> None),
       af_stream_completion = cv_stream v, af_first_token_millis = ni_first_token_millis t,
       af_total_millis = ni_total_millis t, af_duration_resolution = ni_duration_resolution t,
       af_occurred_at = moment, af_error = no_error\<rparr>)"

definition failed_attempt :: "'d libs \<Rightarrow> conversion \<Rightarrow> int \<Rightarrow> int \<Rightarrow> log_input \<Rightarrow> attempt_fact" where
  "failed_attempt L v ordinal channel observed =
     (let stream = stream_completion_of (ni_is_stream observed) (ni_stream_completed observed);
          e = classify_input_error L observed stream; moment = cu_occurred_at (ni_cursor observed) in
      \<lparr>af_source_hash = attempt_hash L (log_source_hash L (cv_source v) (cv_site_id v) observed) ordinal channel,
       af_request_hash = cv_request_hash v, af_rule_version = measurement_rule_version, af_source = cv_source v,
       af_site_id = cv_site_id v, af_request_id = ni_request_id (cv_terminal v), af_ordinal = ordinal,
       af_channel_id = channel, af_model = ni_model observed,
       af_attribution = attribution_for channel moment (cv_resolve v), af_result = attempt_result_from_error e,
       af_http_status = ni_http_status observed, af_is_final = (ordinal = int (length (cv_sequence v))),
       af_is_stream = ni_is_stream observed, af_produced_visible_output = (ni_first_token_millis observed \<noteq> None),
       af_stream_completion = stream, af_first_token_millis = ni_first_token_millis observed,
       af_total_millis = ni_total_millis observed, af_duration_resolution = ni_duration_resolution observed,
       af_occurred_at = moment, af_error = e\<rparr>)"

definition unobserved_attempt :: "'d libs \<Rightarrow> conversion \<Rightarrow> int \<Rightarrow> int \<Rightarrow> attempt_fact" where
  "unobserved_attempt L v ordinal channel =
     \<lparr>af_source_hash = attempt_hash L (cv_terminal_hash v) ordinal channel, af_request_hash = cv_request_hash v,
      af_rule_version = measurement_rule_version, af_source = cv_source v, af_site_id = cv_site_id v,
      af_request_id = ni_request_id (cv_terminal v), af_ordinal = ordinal, af_channel_id = channel,
      af_model = ni_model (cv_terminal v), af_attribution = pending_attribution, af_result = AttemptFailed,
      af_http_status = 0, af_is_final = (ordinal = int (length (cv_sequence v))), af_is_stream = False,
      af_produced_visible_output = False, af_stream_completion = StreamUnknown, af_first_token_millis = None,
      af_total_millis = None, af_duration_resolution = 0,
      af_occurred_at = cu_occurred_at (ni_cursor (cv_terminal v)), af_error = unobserved_error\<rparr>"

fun attempts_from :: "'d libs \<Rightarrow> conversion \<Rightarrow> int \<Rightarrow> int list \<Rightarrow> log_input list \<Rightarrow> attempt_fact list" where
  "attempts_from L v ordinal [] failures = []"
| "attempts_from L v ordinal (channel # channels) failures =
     (if ordinal = int (length (cv_sequence v))
      then (if cv_result v = FinalSucceeded then succeeded_attempt L v ordinal channel
            else failed_attempt L v ordinal channel (cv_terminal v))
           # attempts_from L v (ordinal + 1) channels failures
      else case take_failure channel failures of
          Some (observed, left) \<Rightarrow>
            failed_attempt L v ordinal channel observed # attempts_from L v (ordinal + 1) channels left
        | None \<Rightarrow> unobserved_attempt L v ordinal channel # attempts_from L v (ordinal + 1) channels failures)"

text \<open>A last record that reports success with an incomplete stream counts as failed.\<close>

definition broken_stream :: "log_input \<Rightarrow> bool" where
  "broken_stream i \<longleftrightarrow>
     ni_result i = FinalSucceeded \<and> stream_completion_of (ni_is_stream i) (ni_stream_completed i) = StreamIncomplete"

definition terminal_record :: "log_input \<Rightarrow> log_input" where
  "terminal_record i =
     (if broken_stream i
      then i\<lparr>ni_stable_error_code := ''stream_incomplete'', ni_error_text := ''stream incomplete''\<rparr> else i)"

definition terminal_error :: "'d libs \<Rightarrow> log_input \<Rightarrow> error_fact" where
  "terminal_error L i =
     (if broken_stream i \<or> ni_result i = FinalFailed
      then classify_input_error L (terminal_record i) (stream_completion_of (ni_is_stream i) (ni_stream_completed i))
      else no_error)"

definition terminal_result :: "'d libs \<Rightarrow> log_input \<Rightarrow> final_result" where
  "terminal_result L i =
     (if broken_stream i \<or> ni_result i = FinalFailed then final_result_from_error (terminal_error L i) else ni_result i)"

definition conversion_of :: "'d libs \<Rightarrow> source \<Rightarrow> uuid \<Rightarrow> log_input list \<Rightarrow> resolver option \<Rightarrow> conversion" where
  "conversion_of L src site records resolve =
     (let t = last records in
      \<lparr>cv_source = src, cv_site_id = site, cv_resolve = resolve, cv_terminal = terminal_record t,
       cv_terminal_hash = log_source_hash L src site t,
       cv_request_hash = stable_hash L [''request'', source_text src, uuid_string L site, ni_request_id t],
       cv_stream = stream_completion_of (ni_is_stream t) (ni_stream_completed t),
       cv_result = terminal_result L t, cv_sequence = channel_sequence records\<rparr>)"

definition failed_records :: "log_input list \<Rightarrow> log_input list" where
  "failed_records records = filter (\<lambda>r. ni_result r = FinalFailed) (butlast records)"

definition convert_request ::
  "'d libs \<Rightarrow> source \<Rightarrow> uuid \<Rightarrow> log_input list \<Rightarrow> resolver option \<Rightarrow> request_fact \<times> attempt_fact list" where
  "convert_request L src site records resolve =
     (let v = conversion_of L src site records resolve; t = cv_terminal v;
          attempts = attempts_from L v 1 (cv_sequence v) (failed_records records) in
      (\<lparr>rf_source_hash = request_revision_hash L (cv_terminal_hash v) attempts, rf_request_hash = cv_request_hash v,
        rf_rule_version = measurement_rule_version, rf_source = src, rf_site_id = site,
        rf_request_id = ni_request_id t, rf_terminal_cursor = ni_cursor t, rf_model = ni_model t,
        rf_group = ni_group t, rf_result = cv_result v, rf_http_status = ni_http_status t,
        rf_is_stream = ni_is_stream t, rf_stream_completion = cv_stream v,
        rf_final_channel_id = ni_current_channel_id t,
        rf_attribution = attribution_for (ni_current_channel_id t) (cu_occurred_at (ni_cursor t)) resolve,
        rf_first_token_millis = ni_first_token_millis t, rf_total_millis = ni_total_millis t,
        rf_duration_resolution = ni_duration_resolution t, rf_prompt_tokens = ni_prompt_tokens t,
        rf_completion_tokens = ni_completion_tokens t,
        rf_total_tokens = wrap_int64 (ni_prompt_tokens t + ni_completion_tokens t),
        rf_attempt_count = int (length (cv_sequence v)),
        rf_occurred_at = cu_occurred_at (ni_cursor (hd records)), rf_error = terminal_error L (last records)\<rparr>,
       attempts))"

section \<open>A page of logs\<close>

text \<open>The local variables of the loop over the sorted records; the groups are kept in the order of
  their first record.\<close>

record grouping =
  gr_seen :: "string set"
  gr_groups :: "(string \<times> log_input list) list"
  gr_quarantines :: "quarantine_fact list"
  gr_next :: cursor

definition advance_cursor :: "cursor \<Rightarrow> cursor \<Rightarrow> cursor" where
  "advance_cursor next c = (if cursor_is_zero next \<or> 0 < cursor_compare c next then c else next)"

fun add_to_group :: "string \<Rightarrow> 'x \<Rightarrow> (string \<times> 'x list) list \<Rightarrow> (string \<times> 'x list) list" where
  "add_to_group k x [] = [(k, [x])]"
| "add_to_group k x ((j, xs) # groups) = (if j = k then (j, xs @ [x]) # groups else (j, xs) # add_to_group k x groups)"

definition group_step :: "'d libs \<Rightarrow> source \<Rightarrow> uuid \<Rightarrow> grouping \<Rightarrow> log_input \<Rightarrow> fact_error + grouping" where
  "group_step L src site g r =
     (let h = log_source_hash L src site r in
      if h \<in> gr_seen g then Inr g
      else case invalid_log_reason r of
          Some reason \<Rightarrow>
            bindE (new_quarantine_fact L src site (ni_cursor r) reason) (\<lambda>q.
            Inr (g\<lparr>gr_seen := insert h (gr_seen g), gr_quarantines := gr_quarantines g @ [q],
                   gr_next := advance_cursor (gr_next g) (ni_cursor r)\<rparr>))
        | None \<Rightarrow>
            Inr (g\<lparr>gr_seen := insert h (gr_seen g), gr_groups := add_to_group (ni_request_id r) r (gr_groups g),
                   gr_next := advance_cursor (gr_next g) (ni_cursor r)\<rparr>))"

definition normalized :: "log_input \<Rightarrow> log_input" where
  "normalized r = r\<lparr>ni_cursor := normalize_cursor (ni_cursor r)\<rparr>"

definition sorted_records :: "log_input list \<Rightarrow> log_input list" where
  "sorted_records records = sort_key (\<lambda>r. cursor_key (ni_cursor r)) records"

definition convert_logs_with_resolver ::
  "'d libs \<Rightarrow> source \<Rightarrow> uuid \<Rightarrow> cursor \<Rightarrow> log_input list \<Rightarrow> resolver option \<Rightarrow> fact_error + batch" where
  "convert_logs_with_resolver L src site from0 inputs resolve =
     (let from = normalize_cursor from0 in
      if src \<noteq> SourceRealTraffic \<and> src \<noteq> SourceSiteProbe \<or> site = uuid_nil then Inl ErrConversionScope
      else bindE (if cursor_is_zero from then Inr () else validate_cursor from) (\<lambda>_.
        let records = map normalized inputs in
        bindE (check_all (\<lambda>r. validate_cursor (ni_cursor r)) records) (\<lambda>_.
        bindE (foldE (group_step L src site)
            \<lparr>gr_seen = {}, gr_groups = [], gr_quarantines = [], gr_next = from\<rparr> (sorted_records records)) (\<lambda>g.
        let converted = map (\<lambda>(k, rs). convert_request L src site rs resolve) (gr_groups g);
            b = \<lparr>ba_source = src, ba_site_id = site, ba_from = from, ba_next = gr_next g,
                 ba_requests = map fst converted, ba_attempts = concat (map snd converted),
                 ba_quarantines = gr_quarantines g\<rparr> in
        bindE (validate_batch b) (\<lambda>_. Inr b)))))"

definition convert_logs ::
  "'d libs \<Rightarrow> source \<Rightarrow> uuid \<Rightarrow> cursor \<Rightarrow> log_input list \<Rightarrow> (int \<rightharpoonup> channel_attribution) \<Rightarrow> fact_error + batch" where
  "convert_logs L src site from inputs channels =
     convert_logs_with_resolver L src site from inputs (Some (\<lambda>channel moment.
       case channels channel of
         None \<Rightarrow> pending_attribution
       | Some v \<Rightarrow> if ca_relation_id v = uuid_nil \<or> ca_supplier_id v = uuid_nil then pending_attribution
           else \<lparr>at_status = AttributionMapped, at_relation_id = ca_relation_id v, at_supplier_id = ca_supplier_id v\<rparr>))"

section \<open>One probe\<close>

record probe_input =
  pi_run_id :: uuid
  pi_sample_key :: string
  pi_source :: source
  pi_site_id :: uuid
  pi_relation_id :: uuid
  pi_supplier_id :: uuid
  pi_model :: string
  pi_succeeded :: bool
  pi_http_status :: int
  pi_stable_error_code :: string
  pi_error_text :: string
  pi_is_stream :: bool
  pi_stream_completed :: "bool option"
  pi_first_token_millis :: "int option"
  pi_total_millis :: "int option"
  pi_prompt_tokens :: int
  pi_completion_tokens :: int
  pi_occurred_at :: instant

definition duration_resolution :: "int option \<Rightarrow> int \<Rightarrow> int" where
  "duration_resolution elapsed resolution = (case elapsed of None \<Rightarrow> 0 | Some _ \<Rightarrow> resolution)"

definition probe_error :: "'d libs \<Rightarrow> probe_input \<Rightarrow> error_fact" where
  "probe_error L i =
     (if pi_succeeded i then no_error
      else classify_error L (pi_stable_error_code i) (pi_http_status i) (pi_error_text i))"

definition probe_request :: "'d libs \<Rightarrow> probe_input \<Rightarrow> request_fact" where
  "probe_request L i =
     (let source_hash = stable_hash L [''probe'', uuid_string L (pi_run_id i), pi_sample_key i];
          request_hash = stable_hash L [''probe_request'', uuid_string L (pi_run_id i), pi_sample_key i] in
      \<lparr>rf_source_hash = source_hash, rf_request_hash = request_hash, rf_rule_version = measurement_rule_version,
       rf_source = pi_source i, rf_site_id = pi_site_id i, rf_request_id = ''probe:'' @ take 32 request_hash,
       rf_terminal_cursor = \<lparr>cu_occurred_at = to_utc (pi_occurred_at i), cu_source_id = source_hash\<rparr>,
       rf_model = pi_model i, rf_group = [],
       rf_result = (if pi_succeeded i then FinalSucceeded else final_result_from_error (probe_error L i)),
       rf_http_status = pi_http_status i, rf_is_stream = pi_is_stream i,
       rf_stream_completion = stream_completion_of (pi_is_stream i) (pi_stream_completed i),
       rf_final_channel_id = 0,
       rf_attribution = \<lparr>at_status = AttributionMapped, at_relation_id = pi_relation_id i, at_supplier_id = pi_supplier_id i\<rparr>,
       rf_first_token_millis = pi_first_token_millis i, rf_total_millis = pi_total_millis i,
       rf_duration_resolution = duration_resolution (pi_total_millis i) resolution_millisecond,
       rf_prompt_tokens = pi_prompt_tokens i, rf_completion_tokens = pi_completion_tokens i,
       rf_total_tokens = wrap_int64 (pi_prompt_tokens i + pi_completion_tokens i), rf_attempt_count = 1,
       rf_occurred_at = to_utc (pi_occurred_at i), rf_error = probe_error L i\<rparr>)"

definition probe_attempt :: "'d libs \<Rightarrow> probe_input \<Rightarrow> attempt_fact" where
  "probe_attempt L i =
     (let r = probe_request L i in
      \<lparr>af_source_hash = stable_hash L [rf_source_hash r, ''attempt'', ''1''], af_request_hash = rf_request_hash r,
       af_rule_version = measurement_rule_version, af_source = pi_source i, af_site_id = pi_site_id i,
       af_request_id = rf_request_id r, af_ordinal = 1, af_channel_id = 0, af_model = pi_model i,
       af_attribution = rf_attribution r,
       af_result = (if pi_succeeded i then AttemptSucceeded else attempt_result_from_error (probe_error L i)),
       af_http_status = pi_http_status i, af_is_final = True, af_is_stream = pi_is_stream i,
       af_produced_visible_output = (pi_first_token_millis i \<noteq> None), af_stream_completion = rf_stream_completion r,
       af_first_token_millis = pi_first_token_millis i, af_total_millis = pi_total_millis i,
       af_duration_resolution = duration_resolution (pi_total_millis i) resolution_millisecond,
       af_occurred_at = to_utc (pi_occurred_at i), af_error = probe_error L i\<rparr>)"

definition new_probe_facts :: "'d libs \<Rightarrow> probe_input \<Rightarrow> fact_error + request_fact \<times> attempt_fact" where
  "new_probe_facts L i =
     (if pi_run_id i = uuid_nil \<or> trim_space (pi_sample_key i) = [] \<or> 160 < length (pi_sample_key i)
      then Inl ErrProbeIdentity
      else if pi_source i \<noteq> SourceDirectProbe \<and> pi_source i \<noteq> SourceSiteProbe then Inl ErrProbeSource
      else if pi_supplier_id i = uuid_nil
        \<or> pi_source i = SourceSiteProbe \<and> (pi_site_id i = uuid_nil \<or> pi_relation_id i = uuid_nil)
      then Inl ErrProbeAttribution
      else bindE (validate_request (probe_request L i)) (\<lambda>_.
        bindE (validate_attempt (probe_attempt L i)) (\<lambda>_. Inr (probe_request L i, probe_attempt L i))))"

section \<open>A converted request agrees with its attempts\<close>

lemmas attempt_defs = succeeded_attempt_def failed_attempt_def unobserved_attempt_def

lemma attempt_identity:
  "af_ordinal (succeeded_attempt L v k c) = k" "af_ordinal (failed_attempt L v k c i) = k"
  "af_ordinal (unobserved_attempt L v k c) = k"
  "af_channel_id (succeeded_attempt L v k c) = c" "af_channel_id (failed_attempt L v k c i) = c"
  "af_channel_id (unobserved_attempt L v k c) = c"
  "af_is_final (succeeded_attempt L v k c) \<longleftrightarrow> k = int (length (cv_sequence v))"
  "af_is_final (failed_attempt L v k c i) \<longleftrightarrow> k = int (length (cv_sequence v))"
  "af_is_final (unobserved_attempt L v k c) \<longleftrightarrow> k = int (length (cv_sequence v))"
  "af_request_hash (succeeded_attempt L v k c) = cv_request_hash v" "af_request_hash (failed_attempt L v k c i) = cv_request_hash v"
  "af_request_hash (unobserved_attempt L v k c) = cv_request_hash v"
  by (simp_all add: attempt_defs Let_def)

lemma attempts_from_shape:
  "map af_channel_id (attempts_from L v k cs fs) = cs"
  "map af_ordinal (attempts_from L v k cs fs) = map (\<lambda>i. k + int i) [0..<length cs]"
  "list_all (\<lambda>a. af_request_hash a = cv_request_hash v
      \<and> (af_is_final a \<longleftrightarrow> af_ordinal a = int (length (cv_sequence v)))) (attempts_from L v k cs fs)"
proof (induction L v k cs fs rule: attempts_from.induct)
  case (2 L v k c cs fs)
  have m: "map (\<lambda>i. k + int i) [0..<Suc n] = k # map (\<lambda>i. (k + 1) + int i) [0..<n]" for n
    by (simp add: upt_conv_Cons map_Suc_upt [symmetric] del: upt_Suc)
  {
    case 1
    show ?case using 2 by (simp add: attempt_identity split: option.splits)
  next
    case 2
    show ?case using "2.IH" by (simp add: attempt_identity m del: upt_Suc split: option.splits)
  next
    case 3
    show ?case using "2.IH" by (simp add: attempt_identity split: option.splits)
  }
qed simp_all

lemma attempts_from_last:
  "cs \<noteq> [] \<Longrightarrow> k + int (length cs) = int (length (cv_sequence v)) + 1 \<Longrightarrow>
     last (attempts_from L v k cs fs) =
       (if cv_result v = FinalSucceeded then succeeded_attempt L v (int (length (cv_sequence v))) (last cs)
        else failed_attempt L v (int (length (cv_sequence v))) (last cs) (cv_terminal v))"
proof (induction L v k cs fs rule: attempts_from.induct)
  case (2 L v k c cs fs)
  show ?case
  proof (cases "cs = []")
    case True
    then show ?thesis using 2(5) by simp
  next
    case False
    have ne: "attempts_from L v (k + 1) cs gs \<noteq> []" for gs
      using False arg_cong [OF attempts_from_shape(1) [of L v "k + 1" cs gs], of length] by auto
    have "k \<noteq> int (length (cv_sequence v))" using 2(5) False by (cases cs) auto
    then show ?thesis using 2(2,3) 2(5) False ne by (simp split: option.splits)
  qed
qed simp

lemma results_from_error: "results_match (final_result_from_error e) (attempt_result_from_error e)"
  by (simp add: results_match_def final_result_from_error_def attempt_result_from_error_def attempt_result_from_final_def
      split: error_class.split)

lemma final_result_cases: "final_result_from_error e \<noteq> FinalSucceeded" "final_result_from_error e \<noteq> FinalOther s"
  by (simp_all add: final_result_from_error_def split: error_class.split)

lemma terminal_record_fields [simp]:
  "ni_cursor (terminal_record i) = ni_cursor i" "ni_request_id (terminal_record i) = ni_request_id i"
  "ni_current_channel_id (terminal_record i) = ni_current_channel_id i" "ni_is_stream (terminal_record i) = ni_is_stream i"
  "ni_stream_completed (terminal_record i) = ni_stream_completed i" "ni_http_status (terminal_record i) = ni_http_status i"
  by (simp_all add: terminal_record_def)

lemma channel_sequence_last: "channel_sequence rs \<noteq> []" "last (channel_sequence rs) = ni_current_channel_id (last rs)"
  by (auto simp: channel_sequence_def Let_def)

text \<open>C23: Whatever the logs of a request say, the request fact built from them and its attempts
  agree: the attempts are numbered from 1 to the attempt count, on the channels the records name,
  only the last is final, and it carries the request's channel, status, stream flag and result.\<close>
theorem converted_request_consistent:
  assumes "convert_request L src site records resolve = (r, as)"
    and "ni_result (last records) = FinalSucceeded \<or> ni_result (last records) = FinalFailed"
  shows "map af_ordinal as = [1..rf_attempt_count r] \<and> map af_channel_id as = channel_sequence records
    \<and> list_all (\<lambda>a. af_request_hash a = rf_request_hash r \<and> (af_is_final a \<longleftrightarrow> af_ordinal a = rf_attempt_count r)) as
    \<and> as \<noteq> [] \<and> final_matches r (last as)"
proof -
  let ?v = "conversion_of L src site records resolve" and ?t = "last records"
  let ?n = "int (length (cv_sequence ?v))"
  have as: "as = attempts_from L ?v 1 (cv_sequence ?v) (failed_records records)"
    and r: "rf_attempt_count r = ?n" "rf_request_hash r = cv_request_hash ?v" "rf_result r = cv_result ?v"
      "rf_final_channel_id r = ni_current_channel_id ?t" "rf_http_status r = ni_http_status ?t"
      "rf_is_stream r = ni_is_stream ?t"
    using assms(1) by (auto simp: convert_request_def Let_def conversion_of_def)
  have q: "cv_sequence ?v = channel_sequence records" by (simp add: conversion_of_def Let_def)
  have u: "map (\<lambda>i. 1 + int i) [0..<m] = [1..int m]" for m
    by (rule nth_equalityI) (simp_all add: nth_upto)
  have o: "map af_ordinal as = [1..rf_attempt_count r]"
    unfolding as r(1) attempts_from_shape(2) by (rule u)
  have c: "map af_channel_id as = channel_sequence records" unfolding as attempts_from_shape(1) by (rule q)
  have ne: "as \<noteq> []" using c channel_sequence_last(1) [of records] by auto
  have l: "last as = (if cv_result ?v = FinalSucceeded then succeeded_attempt L ?v ?n (last (cv_sequence ?v))
      else failed_attempt L ?v ?n (last (cv_sequence ?v)) (cv_terminal ?v))"
    unfolding as by (rule attempts_from_last) (simp_all add: q channel_sequence_last)
  have m: "final_matches r (last as)"
  proof (cases "cv_result ?v = FinalSucceeded")
    case True
    then show ?thesis unfolding l
      by (simp add: final_matches_def attempt_identity r q channel_sequence_last results_match_def)
        (simp add: succeeded_attempt_def conversion_of_def Let_def)
  next
    case False
    have e: "cv_result ?v = final_result_from_error (terminal_error L ?t)"
      using False assms(2) by (auto simp: conversion_of_def Let_def terminal_result_def)
    have b: "broken_stream ?t \<or> ni_result ?t = FinalFailed"
      using False assms(2) by (auto simp: conversion_of_def Let_def terminal_result_def split: if_splits)
    then have "af_result (last as) = attempt_result_from_error (terminal_error L ?t)"
      using False unfolding l by (simp add: failed_attempt_def Let_def terminal_error_def conversion_of_def)
    then have "results_match (rf_result r) (af_result (last as))"
      unfolding r(3) e by (simp add: results_from_error)
    then show ?thesis using False unfolding l
      by (simp add: final_matches_def attempt_identity r q channel_sequence_last)
        (simp add: failed_attempt_def conversion_of_def Let_def)
  qed
  show ?thesis
    using attempts_from_shape(3)
      [where L = L and v = ?v and k = 1 and cs = "cv_sequence ?v" and fs = "failed_records records"] o c ne m
    unfolding as [symmetric] r(1,2) by blast
qed

section \<open>No log of a page is lost\<close>

lemma normalized_fields [simp]:
  "ni_cursor (normalized r) = normalize_cursor (ni_cursor r)" "ni_request_id (normalized r) = ni_request_id r"
  by (simp_all add: normalized_def)

lemma normalize_cursor_idem [simp]: "normalize_cursor (normalize_cursor c) = normalize_cursor c"
  by (simp add: normalize_cursor_def)

lemma add_to_group_mem: "\<exists>xs. (k, xs) \<in> set (add_to_group k x gs) \<and> x \<in> set xs"
proof (induction k x gs rule: add_to_group.induct)
  case (2 k x j xs groups)
  then show ?case by (cases "j = k") auto
qed simp

lemma add_to_group_keeps:
  "(j, ys) \<in> set gs \<Longrightarrow> \<exists>zs. (j, zs) \<in> set (add_to_group k x gs) \<and> set ys \<subseteq> set zs"
  by (induction k x gs rule: add_to_group.induct) (auto split: if_splits)

text \<open>Where a record of the loop has gone: into the group of its request or into quarantine, and the
  cursor has reached it.\<close>

definition kept :: "grouping \<Rightarrow> log_input \<Rightarrow> bool" where
  "kept g r \<longleftrightarrow>
     ((\<exists>rs. (ni_request_id r, rs) \<in> set (gr_groups g) \<and> r \<in> set rs)
      \<or> invalid_log_reason r \<noteq> None \<and> (\<exists>q. q \<in> set (gr_quarantines g) \<and> qf_cursor q = normalize_cursor (ni_cursor r)))
     \<and> \<not> cursor_is_zero (gr_next g) \<and> cursor_compare (ni_cursor r) (gr_next g) \<le> 0"

lemma cursor_compare_le: "cursor_compare a b \<le> 0 \<longleftrightarrow> cursor_key a \<le> cursor_key b"
  using cursor_compare_greater [of a b] by (metis linorder_not_less)

lemma advance_cursor_reaches:
  "\<not> cursor_is_zero c \<Longrightarrow> \<not> cursor_is_zero (advance_cursor n c) \<and> cursor_compare c (advance_cursor n c) \<le> 0"
  by (auto simp: advance_cursor_def cursor_compare_le cursor_compare_greater)

lemma advance_cursor_mono:
  assumes "\<not> cursor_is_zero n" "cursor_compare c n \<le> 0" "\<not> cursor_is_zero d"
  shows "\<not> cursor_is_zero (advance_cursor n d) \<and> cursor_compare c (advance_cursor n d) \<le> 0"
  using assms by (auto simp: advance_cursor_def cursor_compare_le cursor_compare_greater)

lemma kept_add:
  assumes "kept g r" "\<not> cursor_is_zero c"
  shows "kept (g\<lparr>gr_seen := s, gr_groups := add_to_group k x (gr_groups g), gr_next := advance_cursor (gr_next g) c\<rparr>) r"
    "kept (g\<lparr>gr_seen := s, gr_quarantines := gr_quarantines g @ [q], gr_next := advance_cursor (gr_next g) c\<rparr>) r"
  using assms add_to_group_keeps [of "ni_request_id r" _ "gr_groups g" k x] advance_cursor_mono [of "gr_next g" "ni_cursor r" c]
  by (fastforce simp: kept_def)+

definition well_grouped :: "grouping \<Rightarrow> bool" where
  "well_grouped g \<longleftrightarrow> (\<forall>k rs. (k, rs) \<in> set (gr_groups g) \<longrightarrow>
     rs \<noteq> [] \<and> (\<forall>r. r \<in> set rs \<longrightarrow> ni_request_id r = k \<and> invalid_log_reason r = None))"

lemma add_to_group_from:
  "(j, zs) \<in> set (add_to_group k x gs) \<Longrightarrow> (j, zs) \<in> set gs \<or> j = k \<and> zs \<noteq> [] \<and> (\<forall>z. z \<in> set zs \<longrightarrow> z = x \<or> (\<exists>ys. (k, ys) \<in> set gs \<and> z \<in> set ys))"
  by (induction k x gs rule: add_to_group.induct) (auto split: if_splits)

lemma quarantine_cursor: "new_quarantine_fact L src site c reason = Inr q \<Longrightarrow> qf_cursor q = normalize_cursor c"
  by (auto simp: new_quarantine_fact_def Let_def)

lemma grouping_sound:
  assumes "foldE (group_step L src site) \<lparr>gr_seen = {}, gr_groups = [], gr_quarantines = [], gr_next = from0\<rparr> xs = Inr g"
    and "\<forall>x. x \<in> set xs \<longrightarrow> \<not> cursor_is_zero (ni_cursor x)"
  shows "gr_seen g = log_source_hash L src site ` set xs \<and> well_grouped g
    \<and> (\<forall>x. x \<in> set xs \<longrightarrow> (\<exists>y. y \<in> set xs \<and> log_source_hash L src site y = log_source_hash L src site x \<and> kept g y))"
  using assms
proof (induction xs arbitrary: g rule: rev_induct)
  case Nil
  then show ?case by (auto simp: well_grouped_def)
next
  case (snoc r xs)
  then obtain u where u: "foldE (group_step L src site) \<lparr>gr_seen = {}, gr_groups = [], gr_quarantines = [], gr_next = from0\<rparr> xs = Inr u"
    "group_step L src site u r = Inr g" by (auto simp: foldE_snoc)
  have z: "\<forall>x. x \<in> set xs \<longrightarrow> \<not> cursor_is_zero (ni_cursor x)" "\<not> cursor_is_zero (ni_cursor r)" using snoc.prems(2) by auto
  note ih = snoc.IH [OF u(1) z(1)]
  let ?h = "log_source_hash L src site r"
  consider (seen) "?h \<in> gr_seen u" "g = u"
    | (bad) reason q where "?h \<notin> gr_seen u" "invalid_log_reason r = Some reason" "qf_cursor q = normalize_cursor (ni_cursor r)"
      "g = u\<lparr>gr_seen := insert ?h (gr_seen u), gr_quarantines := gr_quarantines u @ [q],
             gr_next := advance_cursor (gr_next u) (ni_cursor r)\<rparr>"
    | (good) "?h \<notin> gr_seen u" "invalid_log_reason r = None"
      "g = u\<lparr>gr_seen := insert ?h (gr_seen u), gr_groups := add_to_group (ni_request_id r) r (gr_groups u),
             gr_next := advance_cursor (gr_next u) (ni_cursor r)\<rparr>"
    using u(2) quarantine_cursor by (fastforce simp: group_step_def Let_def split: if_splits option.splits)
  then show ?case
  proof cases
    case seen
    then show ?thesis using ih by (auto; metis)
  next
    case bad
    have k: "kept g r" using bad(2,3) advance_cursor_reaches [OF z(2)] by (auto simp: kept_def bad(4))
    have "well_grouped g" using ih by (simp add: well_grouped_def bad(4))
    moreover have "kept g y" if "kept u y" for y unfolding bad(4) by (rule kept_add(2) [OF that z(2)])
    moreover have "gr_seen g = log_source_hash L src site ` set (xs @ [r])" using ih by (simp add: bad(4))
    ultimately show ?thesis using ih k by (auto; metis)
  next
    case good
    have k: "kept g r"
      using add_to_group_mem [of "ni_request_id r" r "gr_groups u"] advance_cursor_reaches [OF z(2)]
      by (auto simp: kept_def good(3))
    have "well_grouped g" using ih good(2)
      by (auto simp: well_grouped_def good(3) dest!: add_to_group_from)
    moreover have "kept g y" if "kept u y" for y unfolding good(3) by (rule kept_add(1) [OF that z(2)])
    moreover have "gr_seen g = log_source_hash L src site ` set (xs @ [r])" using ih by (simp add: good(3))
    ultimately show ?thesis using ih k by (auto; metis)
  qed
qed

lemma validated_cursor_nonzero: "validate_cursor c = Inr () \<Longrightarrow> \<not> cursor_is_zero c"
  by (auto simp: validate_cursor_def cursor_is_zero_def split: if_splits)

lemma converted_groups:
  assumes "convert_logs_with_resolver L src site from0 inputs resolve = Inr b"
  obtains g where "foldE (group_step L src site) \<lparr>gr_seen = {}, gr_groups = [], gr_quarantines = [], gr_next = normalize_cursor from0\<rparr>
        (sorted_records (map normalized inputs)) = Inr g"
    "\<forall>x. x \<in> set (sorted_records (map normalized inputs)) \<longrightarrow> \<not> cursor_is_zero (ni_cursor x)"
    "ba_requests b = map (\<lambda>(k, rs). fst (convert_request L src site rs resolve)) (gr_groups g)"
    "ba_quarantines b = gr_quarantines g" "ba_next b = gr_next g" "validate_batch b = Inr ()"
proof -
  from assms obtain g where
    g: "foldE (group_step L src site) \<lparr>gr_seen = {}, gr_groups = [], gr_quarantines = [], gr_next = normalize_cursor from0\<rparr>
        (sorted_records (map normalized inputs)) = Inr g"
    and c: "\<forall>x. x \<in> set inputs \<longrightarrow> validate_cursor (normalize_cursor (ni_cursor x)) = Inr ()"
    and b: "ba_requests b = map fst (map (\<lambda>(k, rs). convert_request L src site rs resolve) (gr_groups g))"
      "ba_quarantines b = gr_quarantines g" "ba_next b = gr_next g" "validate_batch b = Inr ()"
    by (auto simp: convert_logs_with_resolver_def Let_def split: if_splits)
  show thesis
  proof (rule that [OF g])
    show "\<forall>x. x \<in> set (sorted_records (map normalized inputs)) \<longrightarrow> \<not> cursor_is_zero (ni_cursor x)"
      using c validated_cursor_nonzero by (auto simp: sorted_records_def)
    show "ba_requests b = map (\<lambda>(k, rs). fst (convert_request L src site rs resolve)) (gr_groups g)"
      unfolding b(1) by (simp add: case_prod_unfold)
  qed (rule b)+
qed

lemma converted_request_id: "rf_request_id (fst (convert_request L src site rs resolve)) = ni_request_id (last rs)"
  by (simp add: convert_request_def conversion_of_def Let_def)

text \<open>C22: When a page of logs is converted, the batch passes the batch check and no log is lost: each
  one (or one with the same source hash, of which it is a repetition) belongs to a request of the
  batch or is quarantined under its cursor, and the batch's next cursor has reached it.\<close>
theorem converted_logs_account:
  assumes "convert_logs_with_resolver L src site from0 inputs resolve = Inr b" "i \<in> set inputs"
  shows "validate_batch b = Inr () \<and> (\<exists>j. j \<in> set inputs
    \<and> log_source_hash L src site (normalized j) = log_source_hash L src site (normalized i)
    \<and> cursor_compare (normalize_cursor (ni_cursor j)) (ba_next b) \<le> 0
    \<and> ((\<exists>r. r \<in> set (ba_requests b) \<and> rf_request_id r = ni_request_id j)
       \<or> (\<exists>q. q \<in> set (ba_quarantines b) \<and> qf_cursor q = normalize_cursor (ni_cursor j))))"
proof (rule converted_groups [OF assms(1)])
  fix g
  assume g: "foldE (group_step L src site) \<lparr>gr_seen = {}, gr_groups = [], gr_quarantines = [], gr_next = normalize_cursor from0\<rparr>
        (sorted_records (map normalized inputs)) = Inr g"
    and z: "\<forall>x. x \<in> set (sorted_records (map normalized inputs)) \<longrightarrow> \<not> cursor_is_zero (ni_cursor x)"
    and b: "ba_requests b = map (\<lambda>(k, rs). fst (convert_request L src site rs resolve)) (gr_groups g)"
    "ba_quarantines b = gr_quarantines g" "ba_next b = gr_next g" "validate_batch b = Inr ()"
  have s: "set (sorted_records (map normalized inputs)) = normalized ` set inputs" by (simp add: sorted_records_def)
  note sound = grouping_sound [OF g z, unfolded s]
  then obtain j where j: "j \<in> set inputs" "log_source_hash L src site (normalized j) = log_source_hash L src site (normalized i)"
    "kept g (normalized j)" using assms(2) by blast
  have "(\<exists>r. r \<in> set (ba_requests b) \<and> rf_request_id r = ni_request_id j)" if "(ni_request_id j, rs) \<in> set (gr_groups g)" for rs
  proof -
    have "last rs \<in> set rs" using sound that by (auto simp: well_grouped_def)
    then have "ni_request_id (last rs) = ni_request_id j" using sound that by (auto simp: well_grouped_def)
    then have "rf_request_id (fst (convert_request L src site rs resolve)) = ni_request_id j" by (simp add: converted_request_id)
    then show ?thesis unfolding b(1) using that by force
  qed
  then show ?thesis using j b by (auto simp: kept_def)
qed

lemma validated_request_error: "validate_request r = Inr () \<Longrightarrow> validate_error (rf_error r) (rf_result r \<noteq> FinalSucceeded) = Inr ()"
  by (auto simp: validate_request_def split: if_splits)

lemma batch_requests_valid: "validate_batch b = Inr () \<Longrightarrow> r \<in> set (ba_requests b) \<Longrightarrow> validate_request r = Inr ()"
  using request_scan_sound by (auto simp: validate_batch_def list_all_iff split: if_splits)

lemma input_error_refused:
  assumes "ni_error_text i = long_text '' b''"
  shows "validate_error (classify_input_error L i stream) True \<noteq> Inr ()"
proof -
  have "ef_summary (classify_input_error L i stream) = long_text '' ''"
    using assms by (simp add: classify_input_error_def Let_def classified_summary long_text_summary) (simp add: long_text_def)
  then show ?thesis by (simp add: validate_error_def long_summary_again) (simp add: long_text_def)
qed

lemma invalid_normalized: "invalid_log_reason (normalized i) = invalid_log_reason i"
  by (simp add: invalid_log_reason_def normalized_def)

text \<open>One log with an unlucky error text cannot be converted, and it is not set aside either:
  when a failed, otherwise well-formed log has a message with a space as its 240th rune, the
  conversion of the page that holds it ends with an error.\<close>
theorem unlucky_log_refused:
  assumes "ni_result i = FinalFailed" "ni_error_text i = long_text '' b''" "invalid_log_reason i = None"
  shows "convert_logs_with_resolver L src site from0 [i] resolve \<noteq> Inr b"
proof
  assume "convert_logs_with_resolver L src site from0 [i] resolve = Inr b"
  then show False
  proof (rule converted_groups)
    fix g
    assume g: "foldE (group_step L src site) \<lparr>gr_seen = {}, gr_groups = [], gr_quarantines = [], gr_next = normalize_cursor from0\<rparr>
        (sorted_records (map normalized [i])) = Inr g"
      and b: "ba_requests b = map (\<lambda>(k, rs). fst (convert_request L src site rs resolve)) (gr_groups g)"
        "validate_batch b = Inr ()"
    let ?i = "normalized i"
    have n: "invalid_log_reason ?i = None" "ni_result ?i = FinalFailed" "ni_error_text ?i = long_text '' b''"
      using assms by (simp_all add: invalid_normalized) (simp_all add: normalized_def)
    have "gr_groups g = [(ni_request_id i, [?i])]"
      using g n(1) by (auto simp: sorted_records_def group_step_def Let_def)
    then have r: "fst (convert_request L src site [?i] resolve) \<in> set (ba_requests b)" by (simp add: b(1))
    have f: "\<not> broken_stream ?i" "terminal_record ?i = ?i" using n(2) by (simp_all add: broken_stream_def terminal_record_def)
    have "rf_error (fst (convert_request L src site [?i] resolve))
        = classify_input_error L ?i (stream_completion_of (ni_is_stream ?i) (ni_stream_completed ?i))"
      "rf_result (fst (convert_request L src site [?i] resolve)) \<noteq> FinalSucceeded"
      using n(2) f by (simp_all add: convert_request_def conversion_of_def Let_def terminal_error_def terminal_result_def final_result_cases)
    then show False
      using validated_request_error [OF batch_requests_valid [OF b(2) r]] input_error_refused [OF n(3), of L] by simp
  qed
qed

subsection \<open>Concrete logs\<close>

text \<open>Digests for the examples: always the same 64 hexadecimal characters, so that they need not
  be evaluated; the examples hold a single request with a single attempt.\<close>

definition zero_hash :: string where "zero_hash = replicate 64 (CHR ''0'')"

definition hash_libs :: "rat libs" where
  "hash_libs = sample_libs\<lparr>sha256_hex := (\<lambda>s. zero_hash)\<rparr>"

lemma hash_libs_hash [simp]: "stable_hash hash_libs parts = zero_hash"
  by (simp add: stable_hash_def hash_libs_def)

lemma zero_hash_ok: "hash_pattern zero_hash" "trim_space zero_hash = zero_hash" "length zero_hash = 64" "zero_hash \<noteq> []"
  "\<not> has_control zero_hash"
  by code_simp+

definition sample_log :: log_input where
  "sample_log =
     \<lparr>ni_cursor = \<lparr>cu_occurred_at = \<lparr>t_ns = 5, t_utc = True\<rparr>, cu_source_id = ''1:7''\<rparr>, ni_request_id = ''r'',
      ni_result = FinalFailed, ni_model = ''m'', ni_group = ''g'', ni_current_channel_id = 4,
      ni_use_channel_ids = [4], ni_stable_error_code = ''timeout'', ni_http_status = 504,
      ni_error_text = [], ni_is_stream = False, ni_stream_completed = None, ni_first_token_millis = None,
      ni_total_millis = Some 2000, ni_duration_resolution = 1000, ni_prompt_tokens = 1, ni_completion_tokens = 0\<rparr>"

lemma sample_log_well_formed: "invalid_log_reason sample_log = None"
  by code_simp

lemma invalid_error_text: "invalid_log_reason (i\<lparr>ni_error_text := t\<rparr>) = invalid_log_reason i"
  by (simp add: invalid_log_reason_def)

theorem unlucky_log_refused_witness:
  "\<forall>b. convert_logs_with_resolver hash_libs SourceRealTraffic 3 \<lparr>cu_occurred_at = time_zero, cu_source_id = []\<rparr>
     [sample_log\<lparr>ni_error_text := long_text '' b''\<rparr>] None \<noteq> Inr b"
  by (intro allI unlucky_log_refused) (simp_all add: invalid_error_text sample_log_well_formed, simp_all add: sample_log_def)

lemma sample_log_fields:
  "normalized sample_log = sample_log" "validate_cursor (ni_cursor sample_log) = Inr ()" "\<not> cursor_is_zero (ni_cursor sample_log)"
  "validate_cursor \<lparr>cu_occurred_at = \<lparr>t_ns = 5, t_utc = True\<rparr>, cu_source_id = ''1:7''\<rparr> = Inr ()"
  "cursor_is_zero \<lparr>cu_occurred_at = time_zero, cu_source_id = []\<rparr>"
  by code_simp+

lemma sample_error: "classify_error hash_libs ''timeout'' 504 [] =
    \<lparr>ef_class = ClassTimeout, ef_responsibility = ResponsibilitySupplier, ef_stable_code = ''timeout'',
     ef_summary = ''upstream request failed'', ef_rule_version = classification_rule_version\<rparr>"
  by code_simp

definition sample_stored_error :: error_fact where
  "sample_stored_error =
    \<lparr>ef_class = ClassTimeout, ef_responsibility = ResponsibilitySupplier, ef_stable_code = ''timeout'',
     ef_summary = ''upstream request failed'', ef_rule_version = classification_rule_version\<rparr>"

definition sample_request_fact :: request_fact where
  "sample_request_fact =
     \<lparr>rf_source_hash = zero_hash, rf_request_hash = zero_hash, rf_rule_version = measurement_rule_version,
      rf_source = SourceRealTraffic, rf_site_id = 3, rf_request_id = ''r'', rf_terminal_cursor = ni_cursor sample_log,
      rf_model = ''m'', rf_group = ''g'', rf_result = FinalFailed, rf_http_status = 504, rf_is_stream = False,
      rf_stream_completion = StreamUnknown, rf_final_channel_id = 4, rf_attribution = pending_attribution,
      rf_first_token_millis = None, rf_total_millis = Some 2000, rf_duration_resolution = 1000,
      rf_prompt_tokens = 1, rf_completion_tokens = 0, rf_total_tokens = 1, rf_attempt_count = 1,
      rf_occurred_at = cu_occurred_at (ni_cursor sample_log), rf_error = sample_stored_error\<rparr>"

definition sample_attempt_fact :: attempt_fact where
  "sample_attempt_fact =
     \<lparr>af_source_hash = zero_hash, af_request_hash = zero_hash, af_rule_version = measurement_rule_version,
      af_source = SourceRealTraffic, af_site_id = 3, af_request_id = ''r'', af_ordinal = 1, af_channel_id = 4,
      af_model = ''m'', af_attribution = pending_attribution, af_result = AttemptFailed, af_http_status = 504,
      af_is_final = True, af_is_stream = False, af_produced_visible_output = False,
      af_stream_completion = StreamUnknown, af_first_token_millis = None, af_total_millis = Some 2000,
      af_duration_resolution = 1000, af_occurred_at = cu_occurred_at (ni_cursor sample_log), af_error = sample_stored_error\<rparr>"

lemma sample_converted:
  "convert_request hash_libs SourceRealTraffic 3 [sample_log] None = (sample_request_fact, [sample_attempt_fact])"
proof -
  have b: "\<not> broken_stream sample_log" "terminal_record sample_log = sample_log"
    by (simp_all add: terminal_record_def broken_stream_def sample_log_def)
  have e: "classify_input_error hash_libs sample_log StreamUnknown = sample_stored_error"
    by (simp add: classify_input_error_def sample_log_def sample_error sample_stored_error_def)
  have s: "stream_completion_of (ni_is_stream sample_log) (ni_stream_completed sample_log) = StreamUnknown"
    by (simp add: stream_completion_of_def sample_log_def)
  have r: "terminal_error hash_libs sample_log = sample_stored_error" "terminal_result hash_libs sample_log = FinalFailed"
    using b e s by (simp_all add: terminal_error_def terminal_result_def sample_log_def final_result_from_error_def sample_stored_error_def)
  have q: "channel_sequence [sample_log] = [4]" by (simp add: channel_sequence_def sample_log_def)
  let ?v = "conversion_of hash_libs SourceRealTraffic 3 [sample_log] None"
  have "attempts_from hash_libs ?v 1 [4] [] = [failed_attempt hash_libs ?v 1 4 sample_log]"
    by (simp add: conversion_of_def Let_def q r b)
  also have "\<dots> = [sample_attempt_fact]"
    by (simp add: failed_attempt_def s e Let_def attempt_hash_def log_source_hash_def sample_attempt_fact_def
        attribution_for_def conversion_of_def q b r attempt_result_from_error_def attempt_result_from_final_def
        final_result_from_error_def sample_stored_error_def)
      (simp add: sample_log_def)
  finally show ?thesis
    by (simp add: convert_request_def failed_records_def conversion_of_def Let_def q r b s request_revision_hash_def
        sample_request_fact_def attribution_for_def)
      (simp add: sample_log_def wrap_int64_def)
qed

definition sample_batch :: batch where
  "sample_batch =
     \<lparr>ba_source = SourceRealTraffic, ba_site_id = 3, ba_from = \<lparr>cu_occurred_at = time_zero, cu_source_id = []\<rparr>,
      ba_next = ni_cursor sample_log, ba_requests = [sample_request_fact], ba_attempts = [sample_attempt_fact],
      ba_quarantines = []\<rparr>"

lemma sample_batch_valid: "validate_batch sample_batch = Inr ()"
  by code_simp

lemma sample_conversion:
  "convert_logs_with_resolver hash_libs SourceRealTraffic 3 \<lparr>cu_occurred_at = time_zero, cu_source_id = []\<rparr>
     [sample_log] None = Inr sample_batch"
proof -
  have g: "group_step hash_libs SourceRealTraffic 3
      \<lparr>gr_seen = {}, gr_groups = [], gr_quarantines = [], gr_next = \<lparr>cu_occurred_at = time_zero, cu_source_id = []\<rparr>\<rparr> sample_log
    = Inr \<lparr>gr_seen = {zero_hash}, gr_groups = [(''r'', [sample_log])], gr_quarantines = [], gr_next = ni_cursor sample_log\<rparr>"
    by (simp add: group_step_def log_source_hash_def sample_log_well_formed advance_cursor_def sample_log_fields)
      (simp add: sample_log_def)
  have z: "normalize_cursor \<lparr>cu_occurred_at = time_zero, cu_source_id = []\<rparr> = \<lparr>cu_occurred_at = time_zero, cu_source_id = []\<rparr>"
    by (simp add: normalize_cursor_def time_zero_def is_zero_time_def)
  show ?thesis
    using sample_batch_valid
    by (simp add: convert_logs_with_resolver_def z sample_log_fields sorted_records_def g sample_converted sample_batch_def Let_def)
qed

theorem accepted_batch_attempts_witness:
  "\<exists>a. a \<in> set (attempts_of sample_batch sample_request_fact) \<and> af_ordinal a = 1 \<and> final_matches sample_request_fact a"
  using accepted_batch_attempts [OF sample_batch_valid, of sample_request_fact]
  by (simp add: sample_batch_def sample_request_fact_def)

theorem converted_request_consistent_witness:
  "final_matches sample_request_fact sample_attempt_fact"
  using converted_request_consistent [OF sample_converted] by (simp add: sample_log_def)

theorem converted_logs_account_witness:
  "\<exists>r. r \<in> set (ba_requests sample_batch) \<and> rf_request_id r = ''r''"
  using converted_logs_account [OF sample_conversion, of sample_log] by (auto simp: sample_batch_def sample_log_def)

section \<open>The facts of a probe form a batch\<close>

text \<open>The two facts of a probe always fit together: a batch of just this request and this attempt
  passes the batch check.\<close>
theorem probe_facts_form_batch:
  assumes "new_probe_facts L i = Inr (r, a)"
  shows "validate_batch \<lparr>ba_source = pi_source i, ba_site_id = pi_site_id i,
     ba_from = \<lparr>cu_occurred_at = time_zero, cu_source_id = []\<rparr>, ba_next = \<lparr>cu_occurred_at = time_zero, cu_source_id = []\<rparr>,
     ba_requests = [r], ba_attempts = [a], ba_quarantines = []\<rparr> = Inr ()"
proof -
  have e: "r = probe_request L i" "a = probe_attempt L i" and v: "validate_request r = Inr ()" "validate_attempt a = Inr ()"
    using assms by (auto simp: new_probe_facts_def split: if_splits)
  have s: "valid_scope (rf_source r) (rf_site_id r)" using v(1) by (rule_tac ccontr) (simp add: validate_request_def split: if_splits)
  have f: "rf_source r = pi_source i" "rf_site_id r = pi_site_id i" "rf_attempt_count r = 1" "af_source a = pi_source i"
    "af_site_id a = pi_site_id i" "af_request_id a = rf_request_id r" "af_request_hash a = rf_request_hash r" "af_ordinal a = 1"
    by (simp_all add: e probe_request_def probe_attempt_def Let_def)
  have "results_match (rf_result r) (af_result a)"
    by (simp add: e probe_request_def probe_attempt_def Let_def results_from_error) (simp add: results_match_def)
  then have m: "final_matches r a"
    by (simp add: final_matches_def e probe_request_def probe_attempt_def Let_def)
  have z: "cursor_is_zero \<lparr>cu_occurred_at = time_zero, cu_source_id = []\<rparr>" by (simp add: cursor_is_zero_def time_defs)
  show ?thesis
    using s v m by (simp add: validate_batch_def validate_batch_cursors_def z request_step_def request_seen_def attempt_step_def f
        no_attempts_def sequence_check_def upto.simps)
qed

definition sample_probe :: probe_input where
  "sample_probe =
     \<lparr>pi_run_id = 1, pi_sample_key = ''k:0'', pi_source = SourceDirectProbe, pi_site_id = 0, pi_relation_id = 0,
      pi_supplier_id = 2, pi_model = ''m'', pi_succeeded = True, pi_http_status = 200, pi_stable_error_code = [],
      pi_error_text = [], pi_is_stream = False, pi_stream_completed = None, pi_first_token_millis = None,
      pi_total_millis = Some 3, pi_prompt_tokens = 1, pi_completion_tokens = 1,
      pi_occurred_at = \<lparr>t_ns = 5, t_utc = True\<rparr>\<rparr>"

definition sample_probe_request :: request_fact where
  "sample_probe_request =
     \<lparr>rf_source_hash = zero_hash, rf_request_hash = zero_hash, rf_rule_version = measurement_rule_version,
      rf_source = SourceDirectProbe, rf_site_id = 0, rf_request_id = ''probe:'' @ take 32 zero_hash,
      rf_terminal_cursor = \<lparr>cu_occurred_at = \<lparr>t_ns = 5, t_utc = True\<rparr>, cu_source_id = zero_hash\<rparr>,
      rf_model = ''m'', rf_group = [], rf_result = FinalSucceeded, rf_http_status = 200, rf_is_stream = False,
      rf_stream_completion = StreamUnknown, rf_final_channel_id = 0,
      rf_attribution = \<lparr>at_status = AttributionMapped, at_relation_id = 0, at_supplier_id = 2\<rparr>,
      rf_first_token_millis = None, rf_total_millis = Some 3, rf_duration_resolution = 1,
      rf_prompt_tokens = 1, rf_completion_tokens = 1, rf_total_tokens = 2, rf_attempt_count = 1,
      rf_occurred_at = \<lparr>t_ns = 5, t_utc = True\<rparr>, rf_error = no_error\<rparr>"

definition sample_probe_attempt :: attempt_fact where
  "sample_probe_attempt =
     \<lparr>af_source_hash = zero_hash, af_request_hash = zero_hash, af_rule_version = measurement_rule_version,
      af_source = SourceDirectProbe, af_site_id = 0, af_request_id = ''probe:'' @ take 32 zero_hash, af_ordinal = 1,
      af_channel_id = 0, af_model = ''m'',
      af_attribution = \<lparr>at_status = AttributionMapped, at_relation_id = 0, at_supplier_id = 2\<rparr>,
      af_result = AttemptSucceeded, af_http_status = 200, af_is_final = True, af_is_stream = False,
      af_produced_visible_output = False, af_stream_completion = StreamUnknown, af_first_token_millis = None,
      af_total_millis = Some 3, af_duration_resolution = 1, af_occurred_at = \<lparr>t_ns = 5, t_utc = True\<rparr>,
      af_error = no_error\<rparr>"

lemma sample_probe_built:
  "probe_request hash_libs sample_probe = sample_probe_request" "probe_attempt hash_libs sample_probe = sample_probe_attempt"
  by (simp_all add: probe_attempt_def probe_request_def sample_probe_request_def sample_probe_attempt_def Let_def
      sample_probe_def probe_error_def duration_resolution_def resolution_millisecond_def stream_completion_of_def
      wrap_int64_def to_utc_def)

lemma sample_probe_valid: "validate_request sample_probe_request = Inr ()" "validate_attempt sample_probe_attempt = Inr ()"
  by code_simp+

lemma sample_probe_facts: "new_probe_facts hash_libs sample_probe = Inr (sample_probe_request, sample_probe_attempt)"
proof -
  have "trim_space ''k:0'' \<noteq> []" by code_simp
  then show ?thesis
    by (simp add: new_probe_facts_def sample_probe_built sample_probe_valid) (simp add: sample_probe_def)
qed

theorem probe_facts_form_batch_witness:
  "\<exists>r a. new_probe_facts hash_libs sample_probe = Inr (r, a) \<and> validate_batch
     \<lparr>ba_source = SourceDirectProbe, ba_site_id = 0,
      ba_from = \<lparr>cu_occurred_at = time_zero, cu_source_id = []\<rparr>, ba_next = \<lparr>cu_occurred_at = time_zero, cu_source_id = []\<rparr>,
      ba_requests = [r], ba_attempts = [a], ba_quarantines = []\<rparr> = Inr ()"
  using sample_probe_facts probe_facts_form_batch [OF sample_probe_facts] by (auto simp: sample_probe_def)

end
