(* ===== verification/LogParser.thy ===== *)
theory LogParser imports Conversion Gateway begin

text \<open>
  \<open>internal/application/collection/newapi_parser.go\<close>: reading one log of a remote site - its
  cursor, result, durations and the metadata in its JSON field.

  The JSON decoder and the conversion of a decimal text to a float are fields of
  \<open>parsers\<close>; a decoded object is an association list.  The conversion of a float outside the
  range of \<open>int64\<close> gives the smallest one, as on amd64.
\<close>

section \<open>What is read\<close>

datatype json = JNull | JBool bool | JNumber string | JString string | JArray "json list" | JObject "(string \<times> json) list"

type_synonym json_object = "(string \<times> json) list"

record parsers =
  ps_json :: "string \<Rightarrow> json_object option"
  ps_float :: "string \<Rightarrow> f64 option"

definition consume_log_type :: int where "consume_log_type = 2"
definition error_log_type :: int where "error_log_type = 5"

record remote_log =
  rl_id :: int
  rl_created_at :: int
  rl_type :: int
  rl_model :: string
  rl_input_tokens :: int
  rl_output_tokens :: int
  rl_duration_seconds :: int
  rl_stream :: bool
  rl_channel_id :: int
  rl_group :: string
  rl_request_id :: string
  rl_error_text :: string
  rl_other :: string

definition log_order :: "int \<Rightarrow> int" where
  "log_order log_type = (if log_type = error_log_type then 0 else 1)"

section \<open>Unix times\<close>

definition unix_epoch_seconds :: int where "unix_epoch_seconds = 62135596800"

definition unix_time :: "int \<Rightarrow> instant" where
  "unix_time s = \<lparr>t_ns = (s + unix_epoch_seconds) * nanos_per_second, t_utc = True\<rparr>"

definition unix_seconds :: "instant \<Rightarrow> int" where
  "unix_seconds t = t_ns t div nanos_per_second - unix_epoch_seconds"

definition truncate_seconds :: "instant \<Rightarrow> instant" where
  "truncate_seconds t = t\<lparr>t_ns := t_ns t div nanos_per_second * nanos_per_second\<rparr>"

lemma unix_seconds_time [simp]: "unix_seconds (unix_time s) = s"
  by (simp add: unix_seconds_def unix_time_def nanos_per_second_def)

lemma unix_seconds_truncate [simp]: "unix_seconds (truncate_seconds t) = unix_seconds t"
  by (simp add: unix_seconds_def truncate_seconds_def nanos_per_second_def)

section \<open>Numbers\<close>

text \<open>\<open>strconv.ParseInt(s, 10, 64)\<close>\<close>

definition is_digit :: "char \<Rightarrow> bool" where
  "is_digit c \<longleftrightarrow> ascii_between (CHR ''0'') (CHR ''9'') c"

definition parse_int64 :: "string \<Rightarrow> int option" where
  "parse_int64 s =
     (let digits = (if s \<noteq> [] \<and> (hd s = CHR ''-'' \<or> hd s = CHR ''+'') then tl s else s);
          magnitude = int (decimal_value digits);
          v = (if s \<noteq> [] \<and> hd s = CHR ''-'' then - magnitude else magnitude) in
      if digits = [] \<or> \<not> list_all is_digit digits \<or> \<not> is_int64 v then None else Some v)"

text \<open>\<open>math.Round\<close> and the conversion to \<open>int64\<close>, for a finite number.\<close>

fun round_to_int64 :: "f64 \<Rightarrow> int" where
  "round_to_int64 (Fin q) =
     (let i = (if 0 \<le> q then \<lfloor>q + 1 / 2\<rfloor> else - \<lfloor>- q + 1 / 2\<rfloor>) in if is_int64 i then i else min_int64)"
| "round_to_int64 _ = min_int64"

section \<open>Reading the metadata\<close>

definition object_at :: "json_object \<Rightarrow> string \<Rightarrow> json_object option" where
  "object_at values key = (case map_of values key of Some (JObject obj) \<Rightarrow> Some obj | _ \<Rightarrow> None)"

definition string_at :: "json_object \<Rightarrow> string \<Rightarrow> string" where
  "string_at values key = (case map_of values key of Some (JString s) \<Rightarrow> trim_space s | _ \<Rightarrow> [])"

definition number_at :: "parsers \<Rightarrow> json_object \<Rightarrow> string \<Rightarrow> rat option" where
  "number_at P values key =
     (case map_of values key of
        Some (JNumber t) \<Rightarrow> (case ps_float P t of Some (Fin q) \<Rightarrow> Some q | _ \<Rightarrow> None)
      | _ \<Rightarrow> None)"

definition int_at :: "parsers \<Rightarrow> json_object \<Rightarrow> string \<Rightarrow> int" where
  "int_at P values key =
     (case number_at P values key of
        Some q \<Rightarrow> if q < 100 \<or> 599 < q \<or> of_int \<lfloor>q\<rfloor> \<noteq> q then 0 else \<lfloor>q\<rfloor>
      | None \<Rightarrow> 0)"

definition int64_item :: "json \<Rightarrow> int option" where
  "int64_item item =
     (case item of
        JNumber t \<Rightarrow> parse_int64 t
      | JString t \<Rightarrow> parse_int64 (trim_space t)
      | _ \<Rightarrow> None)"

definition int64_slice_at :: "json_object \<Rightarrow> string \<Rightarrow> int list" where
  "int64_slice_at values key =
     (case map_of values key of
        Some (JArray items) \<Rightarrow> filter (\<lambda>v. 0 < v) (List.map_filter int64_item items)
      | _ \<Rightarrow> [])"

definition stream_completion_status :: "'d libs \<Rightarrow> string \<Rightarrow> string \<Rightarrow> bool option" where
  "stream_completion_status L status end_reason =
     (let s = to_lower L (trim_space status); e = to_lower L (trim_space end_reason) in
      if s \<in> set [''ok'', ''completed'', ''done''] then Some True
      else if s \<in> set [''error'', ''failed'', ''incomplete''] then Some False
      else if e \<in> set [''done'', ''eof'', ''handler_stop''] then Some True
      else if e \<in> set [''timeout'', ''client_gone'', ''scanner_error'', ''panic'', ''ping_fail''] then Some False
      else None)"

record log_metadata =
  lm_use_channel_ids :: "int list"
  lm_error_code :: string
  lm_http_status :: int
  lm_first_token_millis :: "int option"
  lm_stream_completed :: "bool option"

definition no_metadata :: log_metadata where
  "no_metadata = \<lparr>lm_use_channel_ids = [], lm_error_code = [], lm_http_status = 0, lm_first_token_millis = None,
     lm_stream_completed = None\<rparr>"

definition parse_log_metadata :: "'d libs \<Rightarrow> parsers \<Rightarrow> string \<Rightarrow> log_metadata" where
  "parse_log_metadata L P raw =
     (if trim_space raw = [] then no_metadata
      else case ps_json P raw of
        None \<Rightarrow> no_metadata
      | Some data \<Rightarrow>
          let first_token = (case number_at P data ''frt'' of
                Some q \<Rightarrow> if 0 \<le> q then Some (round_to_int64 (Fin q)) else None | None \<Rightarrow> None);
              code = string_at data ''error_code'';
              upstream = int_at P data ''upstream_status_code'';
              status = (if upstream = 0 then int_at P data ''status_code'' else upstream);
              admin = object_at data ''admin_info'';
              stream = object_at data ''stream_status'' in
          \<lparr>lm_use_channel_ids = (case admin of Some a \<Rightarrow> int64_slice_at a ''use_channel'' | None \<Rightarrow> []),
           lm_error_code = (case admin of Some a \<Rightarrow> if code = [] then string_at a ''error_code'' else code | None \<Rightarrow> code),
           lm_http_status = (case admin of Some a \<Rightarrow> if status = 0 then int_at P a ''upstream_status_code'' else status
                             | None \<Rightarrow> status),
           lm_first_token_millis = first_token,
           lm_stream_completed = (case stream of
               Some s \<Rightarrow> stream_completion_status L (string_at s ''status'') (string_at s ''end_reason'')
             | None \<Rightarrow> None)\<rparr>)"

section \<open>Reading a log\<close>

datatype log_error = LogIdentity | LogInvalid string

definition pad20 :: "nat \<Rightarrow> string" where
  "pad20 n = replicate (20 - length (format_nat n)) (CHR ''0'') @ format_nat n"

definition log_source_id :: "remote_log \<Rightarrow> string" where
  "log_source_id l = format_int (log_order (rl_type l)) @ '':'' @ pad20 (nat (rl_id l))"

definition log_cursor :: "remote_log \<Rightarrow> log_error + cursor" where
  "log_cursor l =
     (if rl_id l < 0 \<or> rl_created_at l \<le> 0 then Inl LogIdentity
      else Inr \<lparr>cu_occurred_at = unix_time (rl_created_at l), cu_source_id = log_source_id l\<rparr>)"

definition measurement_input :: "'d libs \<Rightarrow> parsers \<Rightarrow> remote_log \<Rightarrow> cursor \<Rightarrow> log_error + log_input" where
  "measurement_input L P l c =
     (if rl_duration_seconds l < 0 \<or> max_int64 div 1000 < rl_duration_seconds l then Inl (LogInvalid ''invalid_duration'')
      else if rl_type l \<noteq> error_log_type \<and> rl_type l \<noteq> consume_log_type then Inl (LogInvalid ''unsupported_log_type'')
      else let m = parse_log_metadata L P (rl_other l);
               reported = (if rl_type l = error_log_type then FinalFailed else FinalSucceeded);
               broken = (reported = FinalSucceeded \<and> lm_stream_completed m = Some False) in
        Inr \<lparr>ni_cursor = c, ni_request_id = rl_request_id l, ni_result = (if broken then FinalFailed else reported),
             ni_model = rl_model l, ni_group = rl_group l, ni_current_channel_id = rl_channel_id l,
             ni_use_channel_ids = lm_use_channel_ids m,
             ni_stable_error_code = (if broken \<and> lm_error_code m = [] then ''stream_incomplete'' else lm_error_code m),
             ni_http_status = lm_http_status m,
             ni_error_text = (if broken \<and> trim_space (rl_error_text l) = [] then ''stream incomplete'' else rl_error_text l),
             ni_is_stream = rl_stream l, ni_stream_completed = lm_stream_completed m,
             ni_first_token_millis = lm_first_token_millis m, ni_total_millis = Some (rl_duration_seconds l * 1000),
             ni_duration_resolution = resolution_second, ni_prompt_tokens = rl_input_tokens l,
             ni_completion_tokens = rl_output_tokens l\<rparr>)"

text \<open>The loop over a page: the inputs, the quarantined logs and the latest time.\<close>

definition input_step ::
  "'d libs \<Rightarrow> parsers \<Rightarrow> uuid \<Rightarrow> log_input list \<times> quarantine_fact list \<times> instant \<Rightarrow> remote_log
   \<Rightarrow> go_error + (log_input list \<times> quarantine_fact list \<times> instant)" where
  "input_step L P site = (\<lambda>(inputs, quarantines, latest) l.
     case log_cursor l of
       Inl _ \<Rightarrow> Inl (ErrPlain ''log identity'')
     | Inr c \<Rightarrow>
         let latest' = (if time_after (cu_occurred_at c) latest then cu_occurred_at c else latest) in
         case measurement_input L P l c of
           Inr i \<Rightarrow> Inr (inputs @ [i], quarantines, latest')
         | Inl LogIdentity \<Rightarrow> Inl (ErrPlain ''log identity'')
         | Inl (LogInvalid reason) \<Rightarrow>
             (case new_quarantine_fact L SourceRealTraffic site c reason of
                Inl _ \<Rightarrow> Inl (ErrPlain ''quarantine'')
              | Inr q \<Rightarrow> Inr (inputs, quarantines @ [q], latest')))"

definition measurement_inputs ::
  "'d libs \<Rightarrow> parsers \<Rightarrow> uuid \<Rightarrow> remote_log list \<Rightarrow> go_error + (log_input list \<times> quarantine_fact list \<times> instant)" where
  "measurement_inputs L P site logs = foldE (input_step L P site) ([], [], time_zero) logs"

end
