(* ===== verification/Collection.thy ===== *)
theory Collection imports LogParser Programs begin

text \<open>
  \<open>internal/application/collection/service.go\<close> and \<open>types.go\<close>: collecting the logs of
  a site window by window.

  A scan covers the seconds after the last committed one up to now.  A window whose logs exceed the
  page limit is split in two; each window that can be read whole is converted, checked and saved in
  one call together with the position the scan has reached.  The closure over local variables that
  the code passes to \<open>walkLogWindows\<close> is a program over a record of these variables
  (\<open>scan_state\<close>).
\<close>

section \<open>Types\<close>

record site_access =
  sa_id :: uuid
  sa_name :: string
  sa_base_url :: string
  sa_admin_user_id :: int
  sa_credential :: credential_record

record cursor_state =
  cs_cursor :: cursor
  cs_scanned_through :: instant
  cs_overlap :: int
  cs_source_latest :: instant
  cs_data_gap :: bool

record channel_binding =
  cb_channel_id :: int
  cb_relation_id :: uuid
  cb_supplier_id :: uuid
  cb_valid_from :: instant
  cb_valid_to :: "instant option"

definition active_at :: "channel_binding \<Rightarrow> instant \<Rightarrow> bool" where
  "active_at b t \<longleftrightarrow>
     \<not> time_before t (cb_valid_from b) \<and> (case cb_valid_to b of None \<Rightarrow> True | Some e \<Rightarrow> time_before t e)"

record remote_page =
  rp_items :: "remote_log list"
  rp_count :: int

record collection_result =
  cl_site_id :: uuid
  cl_site_name :: string
  cl_read_records :: int
  cl_saved_requests :: int
  cl_saved_attempts :: int
  cl_cursor_time :: "instant option"
  cl_scanned_through :: "instant option"
  cl_source_latest :: "instant option"
  cl_data_gap :: bool
  cl_error_code :: string

text \<open>The calls of the service and their replies.\<close>

datatype collection_event =
    CoSites "go_error + site_access list"
  | CoSite uuid "go_error + site_access"
  | CoCursor uuid "go_error + cursor_state"
  | CoDecrypt credential_record
  | CoReader string
  | CoRead int int int int "go_error + remote_page"
  | CoBindings uuid instant instant "go_error + channel_binding list"
  | CoSave batch instant instant instant "go_error + int \<times> int"
  | CoMark uuid string "go_error option"

type_synonym ('w, 'r, 'a) collecting = "(collection_event, 'w, 'r, 'a) action"

text \<open>\<open>Read\<close> of a log reader: type, first and last second, page number and page size.\<close>

type_synonym 'w log_reader = "int \<Rightarrow> int \<Rightarrow> int \<Rightarrow> int \<Rightarrow> int \<Rightarrow> 'w \<Rightarrow> (go_error + remote_page) \<times> 'w"

record 'w collection_env =
  co_list_sites :: "'w \<Rightarrow> (go_error + site_access list) \<times> 'w"
  co_get_site :: "uuid \<Rightarrow> 'w \<Rightarrow> (go_error + site_access) \<times> 'w"
  co_cursor :: "uuid \<Rightarrow> 'w \<Rightarrow> (go_error + cursor_state) \<times> 'w"
  co_decrypt :: "credential_record \<Rightarrow> 'w \<Rightarrow> (go_error + 8 word list) \<times> 'w"
  co_reader :: "string \<Rightarrow> 8 word list \<Rightarrow> int \<Rightarrow> 'w \<Rightarrow> (go_error + 'w log_reader) \<times> 'w"
  co_bindings :: "uuid \<Rightarrow> instant \<Rightarrow> instant \<Rightarrow> 'w \<Rightarrow> (go_error + channel_binding list) \<times> 'w"
  co_save :: "batch \<Rightarrow> instant \<Rightarrow> instant \<Rightarrow> instant \<Rightarrow> instant \<Rightarrow> 'w \<Rightarrow> (go_error + int \<times> int) \<times> 'w"
  co_mark :: "uuid \<Rightarrow> string \<Rightarrow> instant \<Rightarrow> 'w \<Rightarrow> go_error option \<times> 'w"
  co_now :: "'w \<Rightarrow> instant \<times> 'w"

definition default_initial_lookback :: int where "default_initial_lookback = 24 * 60 * nanos_per_minute"
definition default_overlap :: int where "default_overlap = 10 * nanos_per_minute"
definition log_page_size :: int where "log_page_size = 100"
definition max_log_pages :: int where "max_log_pages = 100"

section \<open>Reading a window\<close>

definition log_key :: "remote_log \<Rightarrow> int \<times> int \<times> int" where
  "log_key l = (rl_created_at l, log_order (rl_type l), rl_id l)"

type_synonym window_logs = "go_error + remote_log list \<times> bool"

definition read_page :: "'w log_reader \<Rightarrow> int \<Rightarrow> int \<Rightarrow> int \<Rightarrow> int \<Rightarrow> ('w, 'r, go_error + remote_page) collecting" where
  "read_page R log_type start stop page = observed (CoRead log_type start stop page) (R log_type start stop page log_page_size)"

text \<open>The pages after the first.\<close>

function read_pages :: "'w log_reader \<Rightarrow> int \<Rightarrow> int \<Rightarrow> int \<Rightarrow> int \<Rightarrow> int \<Rightarrow> remote_log list
    \<Rightarrow> ('w, window_logs, remote_log list) collecting" where
  "read_pages R log_type start stop amount page logs =
     (if (page - 1) * log_page_size < amount
      then bindP (read_page R log_type start stop page) (\<lambda>reply.
        case reply of
          Inl e \<Rightarrow> exit (Inl e)
        | Inr p \<Rightarrow>
            if max_log_pages * log_page_size < rp_count p then exit (Inr ([], True))
            else if rp_items p = [] \<or> rp_count p \<le> page * log_page_size then ret (logs @ rp_items p)
            else read_pages R log_type start stop amount (page + 1) (logs @ rp_items p))
      else ret logs)"
  by pat_completeness auto
termination
  by (relation "measure (\<lambda>(R, log_type, start, stop, amount, page, logs). nat (amount - (page - 1) * log_page_size))")
    (auto simp: log_page_size_def)

declare read_pages.simps [simp del]

definition read_log_type :: "'w log_reader \<Rightarrow> int \<Rightarrow> int \<Rightarrow> int \<Rightarrow> ('w, window_logs, remote_log list) collecting" where
  "read_log_type R log_type start stop =
     bindP (read_page R log_type start stop 1) (\<lambda>reply.
     case reply of
       Inl e \<Rightarrow> exit (Inl e)
     | Inr p \<Rightarrow>
         if rp_count p < 0 then exit (Inl (ErrPlain ''new API log total is invalid''))
         else if max_log_pages * log_page_size < rp_count p then exit (Inr ([], True))
         else bindP (read_pages R log_type start stop (rp_count p) 2 (rp_items p)) (\<lambda>logs.
           if max_log_pages * log_page_size < int (length logs) then exit (Inr ([], True)) else ret logs))"

definition read_window :: "'w log_reader \<Rightarrow> int \<Rightarrow> int \<Rightarrow> ('w, 'r, window_logs) collecting" where
  "read_window R start stop =
     invoke
       (bindP (read_log_type R consume_log_type start stop) (\<lambda>consumed.
        bindP (read_log_type R error_log_type start stop) (\<lambda>failed.
        ret (Inr (sort_key log_key (consumed @ failed), False)))))"

section \<open>Walking the windows\<close>

function walk :: "'w log_reader \<Rightarrow> int \<Rightarrow> int \<Rightarrow> (int \<Rightarrow> int \<Rightarrow> remote_log list \<Rightarrow> 's \<Rightarrow> ('w, 'r, go_error + 's) collecting)
    \<Rightarrow> int \<Rightarrow> int \<Rightarrow> 's \<Rightarrow> ('w, 'r, go_error + 's) collecting" where
  "walk R lower overlap visit from through s =
     (let start = (if from - overlap + 1 < lower then lower else from - overlap + 1) in
      bindP (read_window R start through) (\<lambda>reply.
      case reply of
        Inl e \<Rightarrow> ret (Inl e)
      | Inr (logs, overflow) \<Rightarrow>
          if \<not> overflow then visit start through logs s
          else if through - from \<le> 1
          then bindP (read_window R through through) (\<lambda>again.
            case again of
              Inl e \<Rightarrow> ret (Inl e)
            | Inr (logs', overflow') \<Rightarrow>
                if overflow' then ret (Inl (ErrPlain ''new API log volume exceeds the bounded page limit''))
                else visit through through logs' s)
          else let middle = from + (through - from) div 2 in
            bindP (walk R lower overlap visit from middle s) (\<lambda>r.
            case r of Inl e \<Rightarrow> ret (Inl e) | Inr s' \<Rightarrow> walk R lower overlap visit middle through s')))"
  by pat_completeness auto
termination
  by (relation "measure (\<lambda>(R, lower, overlap, visit, from, through, s). nat (through - from))") auto

declare walk.simps [simp del]

section \<open>Converting a window\<close>

definition resolver_of :: "channel_binding list \<Rightarrow> resolver" where
  "resolver_of bindings channel moment =
     (case find (\<lambda>b. cb_channel_id b = channel \<and> active_at b moment) bindings of
        Some b \<Rightarrow> \<lparr>at_status = AttributionMapped, at_relation_id = cb_relation_id b, at_supplier_id = cb_supplier_id b\<rparr>
      | None \<Rightarrow> pending_attribution)"

definition reached :: "cursor \<Rightarrow> cursor \<Rightarrow> cursor" where
  "reached next c = (if cursor_is_zero next \<or> cursor_compare next c < 0 then c else next)"

definition group_by_request :: "log_input list \<Rightarrow> (string \<times> log_input list) list" where
  "group_by_request inputs = foldl (\<lambda>groups i. add_to_group (ni_request_id i) i groups) [] inputs"

definition convert_group ::
  "'d libs \<Rightarrow> uuid \<Rightarrow> cursor \<Rightarrow> channel_binding list \<Rightarrow> batch \<Rightarrow> string \<times> log_input list \<Rightarrow> fact_error + batch" where
  "convert_group L site from bindings result = (\<lambda>(k, records).
     bindE (convert_logs_with_resolver L SourceRealTraffic site from records (Some (resolver_of bindings))) (\<lambda>c.
     Inr (result\<lparr>ba_requests := ba_requests result @ ba_requests c, ba_attempts := ba_attempts result @ ba_attempts c,
                 ba_quarantines := ba_quarantines result @ ba_quarantines c\<rparr>)))"

definition convert_by_request ::
  "'d libs \<Rightarrow> uuid \<Rightarrow> cursor \<Rightarrow> log_input list \<Rightarrow> channel_binding list \<Rightarrow> fact_error + batch" where
  "convert_by_request L site from inputs bindings =
     (let start = \<lparr>ba_source = SourceRealTraffic, ba_site_id = site, ba_from = from,
            ba_next = foldl (\<lambda>n i. reached n (ni_cursor i)) from inputs,
            ba_requests = [], ba_attempts = [], ba_quarantines = []\<rparr> in
      bindE (foldE (convert_group L site from bindings) start (group_by_request inputs)) (\<lambda>b.
      bindE (validate_batch b) (\<lambda>_. Inr b)))"

definition with_quarantines :: "batch \<Rightarrow> quarantine_fact list \<Rightarrow> batch" where
  "with_quarantines b quarantines =
     b\<lparr>ba_quarantines := ba_quarantines b @ quarantines,
       ba_next := foldl (\<lambda>n q. reached n (qf_cursor q)) (ba_next b) quarantines\<rparr>"

section \<open>Collecting a site\<close>

record scan_state =
  sc_event_cursor :: cursor
  sc_committed :: instant
  sc_gap :: bool
  sc_source_latest :: instant
  sc_result :: collection_result

definition time_pointer :: "instant \<Rightarrow> instant option" where
  "time_pointer t = (if is_zero_time t then None else Some (to_utc t))"

definition saved_state :: "scan_state \<Rightarrow> batch \<Rightarrow> instant \<Rightarrow> instant \<Rightarrow> nat \<Rightarrow> int \<times> int \<Rightarrow> scan_state" where
  "saved_state s b latest next records = (\<lambda>(requests, attempts).
     let gap = sc_gap s \<or> ba_quarantines b \<noteq> []; newer = time_after latest (sc_source_latest s);
         r = sc_result s in
     \<lparr>sc_event_cursor = ba_next b, sc_committed = next, sc_gap = gap,
      sc_source_latest = (if newer then latest else sc_source_latest s),
      sc_result = r\<lparr>cl_read_records := cl_read_records r + int records,
                    cl_saved_requests := cl_saved_requests r + requests,
                    cl_saved_attempts := cl_saved_attempts r + attempts,
                    cl_cursor_time := time_pointer (cu_occurred_at (ba_next b)),
                    cl_scanned_through := time_pointer next, cl_data_gap := gap,
                    cl_source_latest := (if newer then time_pointer latest else cl_source_latest r)\<rparr>\<rparr>)"

definition visit_window :: "'d libs \<Rightarrow> parsers \<Rightarrow> 'w collection_env \<Rightarrow> uuid \<Rightarrow> instant \<Rightarrow> int \<Rightarrow> int \<Rightarrow> remote_log list
    \<Rightarrow> scan_state \<Rightarrow> ('w, 'r, go_error + scan_state) collecting" where
  "visit_window L P E site started start stop logs s =
     (case measurement_inputs L P site logs of
        Inl e \<Rightarrow> ret (Inl (ErrWrap ''invalid_source_log'' e))
      | Inr (inputs, quarantines, latest) \<Rightarrow>
          bindP (observed (CoBindings site (unix_time start) (unix_time (stop + 1)))
              (co_bindings E site (unix_time start) (unix_time (stop + 1)))) (\<lambda>reply.
          case reply of
            Inl e \<Rightarrow> ret (Inl (ErrWrap ''binding_history_unavailable'' e))
          | Inr bindings \<Rightarrow>
              (case convert_by_request L site (sc_event_cursor s) inputs bindings of
                 Inl _ \<Rightarrow> ret (Inl (ErrWrap ''measurement_conversion_failed'' (ErrPlain ''conversion'')))
               | Inr b0 \<Rightarrow>
                   let b = with_quarantines b0 quarantines in
                   if validate_batch b \<noteq> Inr ()
                   then ret (Inl (ErrWrap ''measurement_conversion_failed'' (ErrPlain ''validation'')))
                   else bindP (observed (CoSave b latest (sc_committed s) (unix_time stop))
                       (co_save E b latest (sc_committed s) (unix_time stop) started)) (\<lambda>saved.
                     case saved of
                       Inl e \<Rightarrow> ret (Inl (ErrWrap ''measurement_commit_failed'' e))
                     | Inr n \<Rightarrow> ret (Inr (saved_state s b latest (unix_time stop) (length logs) n))))))"

definition collection_error_code :: "go_error \<Rightarrow> string" where
  "collection_error_code e =
     (case as_failure e of Some f \<Rightarrow> if fl_code f \<noteq> [] then fl_code f else ''collection_failed''
      | None \<Rightarrow> ''collection_failed'')"

definition stage_error_code :: "go_error \<Rightarrow> string" where
  "stage_error_code e =
     (case e of
        ErrWrap stage cause \<Rightarrow>
          if stage \<in> set [''invalid_source_log'', ''binding_history_unavailable'', ''measurement_conversion_failed'',
             ''measurement_commit_failed''] then stage else collection_error_code e
      | _ \<Rightarrow> collection_error_code e)"

definition collection_fail ::
  "'w collection_env \<Rightarrow> uuid \<Rightarrow> string \<Rightarrow> instant \<Rightarrow> go_error \<Rightarrow> ('w, 'r, go_error + 'x) collecting" where
  "collection_fail E site code moment cause =
     bindP (observed (CoMark site code) (co_mark E site code moment)) (\<lambda>r.
     ret (Inl (case r of None \<Rightarrow> cause | Some e \<Rightarrow> ErrJoin [cause, e])))"

text \<open>The bounds of a scan: the oldest second that may be read, the last second already committed,
  and the last second to read.\<close>

definition scan_overlap :: "cursor_state \<Rightarrow> int" where
  "scan_overlap c = (if cs_overlap c \<le> 0 then default_overlap else cs_overlap c)"

definition scan_bounds :: "cursor_state \<Rightarrow> instant \<Rightarrow> int \<times> int \<times> int" where
  "scan_bounds c started =
     (let initial = truncate_seconds (time_add started (- default_initial_lookback)) in
      if is_zero_time (cs_scanned_through c)
      then (unix_seconds initial, unix_seconds initial - 1, unix_seconds (truncate_seconds started))
      else (unix_seconds (truncate_seconds (time_add (cs_scanned_through c) (- scan_overlap c))),
            unix_seconds (cs_scanned_through c), unix_seconds (truncate_seconds started)))"

definition initial_scan :: "site_access \<Rightarrow> cursor_state \<Rightarrow> scan_state" where
  "initial_scan site c =
     \<lparr>sc_event_cursor = cs_cursor c, sc_committed = cs_scanned_through c, sc_gap = cs_data_gap c,
      sc_source_latest = cs_source_latest c,
      sc_result =
        \<lparr>cl_site_id = sa_id site, cl_site_name = sa_name site, cl_read_records = 0, cl_saved_requests = 0,
         cl_saved_attempts = 0, cl_cursor_time = time_pointer (cu_occurred_at (cs_cursor c)),
         cl_scanned_through = time_pointer (cs_scanned_through c), cl_source_latest = time_pointer (cs_source_latest c),
         cl_data_gap = cs_data_gap c, cl_error_code = []\<rparr>\<rparr>"

definition collect_window_scan ::
  "'d libs \<Rightarrow> parsers \<Rightarrow> 'w collection_env \<Rightarrow> site_access \<Rightarrow> instant \<Rightarrow> cursor_state \<Rightarrow> 'w log_reader
   \<Rightarrow> ('w, 'r, go_error + collection_result) collecting" where
  "collect_window_scan L P E site started c R =
     (case scan_bounds c started of (lower, scan_start, scan_end) \<Rightarrow>
      if scan_end < scan_start
      then collection_fail E (sa_id site) ''invalid_scan_window'' started (ErrPlain ''collection scan watermark is in the future'')
      else bindP (walk R lower (scan_overlap c div nanos_per_second) (visit_window L P E (sa_id site) started)
              scan_start scan_end (initial_scan site c)) (\<lambda>r.
        case r of
          Inl e \<Rightarrow> collection_fail E (sa_id site) (stage_error_code e) started e
        | Inr s \<Rightarrow> ret (Inr (sc_result s))))"

definition collect :: "'d libs \<Rightarrow> parsers \<Rightarrow> 'w collection_env \<Rightarrow> site_access \<Rightarrow> ('w, 'r, go_error + collection_result) collecting" where
  "collect L P E site =
     bindP (now_utc (co_now E)) (\<lambda>started.
     bindP (observed (CoCursor (sa_id site)) (co_cursor E (sa_id site))) (\<lambda>loaded.
     case loaded of
       Inl e \<Rightarrow> ret (Inl e)
     | Inr c \<Rightarrow>
         bindP (observed (\<lambda>_. CoDecrypt (sa_credential site)) (co_decrypt E (sa_credential site))) (\<lambda>token.
         case token of
           Inl e \<Rightarrow> collection_fail E (sa_id site) ''credential_unavailable'' started e
         | Inr secret \<Rightarrow>
             bindP (observed (\<lambda>_. CoReader (sa_base_url site)) (co_reader E (sa_base_url site) secret (sa_admin_user_id site))) (\<lambda>reader.
             case reader of
               Inl e \<Rightarrow> collection_fail E (sa_id site) ''source_unavailable'' started e
             | Inr R \<Rightarrow> collect_window_scan L P E site started c R))))"

section \<open>Collecting one site, or all of them\<close>

definition collect_site :: "'d libs \<Rightarrow> parsers \<Rightarrow> 'w collection_env \<Rightarrow> uuid \<Rightarrow> ('w, 'r, go_error + collection_result) collecting" where
  "collect_site L P E site_id =
     (if site_id = uuid_nil then ret (Inl (ErrPlain ''collection site ID is required''))
      else bindP (observed (CoSite site_id) (co_get_site E site_id)) (\<lambda>r.
        case r of Inl e \<Rightarrow> ret (Inl e) | Inr site \<Rightarrow> collect L P E site))"

definition failed_result :: "site_access \<Rightarrow> go_error \<Rightarrow> collection_result" where
  "failed_result site e =
     \<lparr>cl_site_id = sa_id site, cl_site_name = sa_name site, cl_read_records = 0, cl_saved_requests = 0,
      cl_saved_attempts = 0, cl_cursor_time = None, cl_scanned_through = None, cl_source_latest = None,
      cl_data_gap = False, cl_error_code = collection_error_code e\<rparr>"

fun collect_sites :: "'d libs \<Rightarrow> parsers \<Rightarrow> 'w collection_env \<Rightarrow> site_access list \<Rightarrow> collection_result list \<Rightarrow> go_error list
    \<Rightarrow> ('w, 'r, collection_result list \<times> go_error list) collecting" where
  "collect_sites L P E [] results failures = ret (results, failures)"
| "collect_sites L P E (site # sites) results failures =
     bindP (collect L P E site) (\<lambda>r.
     case r of
       Inr c \<Rightarrow> collect_sites L P E sites (results @ [c]) failures
     | Inl e \<Rightarrow> collect_sites L P E sites (results @ [failed_result site e])
         (failures @ [ErrWrap ''collect site'' e]))"

definition collect_all :: "'d libs \<Rightarrow> parsers \<Rightarrow> 'w collection_env
    \<Rightarrow> ('w, 'r, collection_result list \<times> go_error option) collecting" where
  "collect_all L P E =
     bindP (observed CoSites (co_list_sites E)) (\<lambda>r.
     case r of
       Inl e \<Rightarrow> ret ([], Some e)
     | Inr sites \<Rightarrow>
         bindP (collect_sites L P E sites [] []) (\<lambda>(results, failures).
         ret (results, if failures = [] then None else Some (ErrJoin failures))))"

section \<open>A scan leaves no second out\<close>

definition is_read :: "collection_event \<Rightarrow> bool" where
  "is_read e \<longleftrightarrow> (case e of CoRead log_type a b page r \<Rightarrow> True | _ \<Rightarrow> False)"

lemma is_read_simps [simp]:
  "is_read (CoRead log_type a b page r)" "\<not> is_read (CoSave batch i1 i2 i3 r')" "\<not> is_read (CoBindings u i1 i2 rb)"
  "\<not> is_read (CoMark u c rm)" "\<not> is_read (CoCursor u rc)" "\<not> is_read (CoDecrypt k)" "\<not> is_read (CoReader url)"
  "\<not> is_read (CoSites rs)" "\<not> is_read (CoSite u rt)"
  by (simp_all add: is_read_def)

lemma only_case_bool_pair [only_rules]:
  "(\<And>x y. only p (f x y)) \<Longrightarrow> only p (case r of (x, y) \<Rightarrow> f x y)"
  by (cases r) auto

lemma read_page_only: "only is_read (read_page R log_type a b page)"
  unfolding read_page_def by (intro only_rules) simp

lemma read_pages_only: "only is_read (read_pages R log_type a b n page logs)"
proof (induction R log_type a b n page logs rule: read_pages.induct)
  case (1 R log_type a b n page logs)
  show ?case
    by (subst read_pages.simps) (intro only_rules read_page_only; simp add: 1 only_ret only_exit)
qed

lemma read_window_only: "only is_read (read_window R a b)"
  unfolding read_window_def read_log_type_def by (intro only_rules read_page_only read_pages_only)

text \<open>The last event of a trace is a read of the error logs of exactly these seconds.\<close>

definition last_read :: "int \<Rightarrow> int \<Rightarrow> int \<Rightarrow> collection_event list \<Rightarrow> bool" where
  "last_read log_type a b t \<longleftrightarrow> (\<exists>page p t'. t = CoRead log_type a b page (Inr p) # t')"

lemma gives_read_page:
  "gives (read_page R log_type a b page) t (\<lambda>r t'. case r of Inr p \<Rightarrow> last_read log_type a b t' | Inl e \<Rightarrow> True)"
  unfolding read_page_def by (rule gives_observed) (auto simp: last_read_def split: sum.splits)

lemma gives_read_pages:
  "last_read log_type a b t \<Longrightarrow> gives (read_pages R log_type a b n page logs) t (\<lambda>_. last_read log_type a b)"
proof (induction R log_type a b n page logs arbitrary: t rule: read_pages.induct)
  case (1 R log_type a b n page logs)
  show ?case
    by (subst read_pages.simps)
      (auto intro!: gives_if gives_bind gives_mono [OF gives_read_page] gives_exit gives_ret 1 split: sum.splits)
qed

lemma gives_read_log_type: "gives (read_log_type R log_type a b) t (\<lambda>_. last_read log_type a b)"
  unfolding read_log_type_def
  by (auto intro!: gives_if gives_bind gives_mono [OF gives_read_page] gives_exit gives_ret gives_read_pages
      gives_mono [OF gives_read_pages] split: sum.splits)

text \<open>Reading a type of logs returns early only with an error or with the overflow mark.\<close>

definition early :: "(window_logs, 'a) outcome \<Rightarrow> bool" where
  "early out \<longleftrightarrow> (\<forall>logs. out \<noteq> Returned (Inr (logs, False))) \<and> out \<noteq> Panicked"

lemma early_simps [simp]: "early (Value a)" "early (Returned (Inl e))" "early (Returned (Inr (logs, True)))"
  by (simp_all add: early_def)

lemma early_bind: "safe m t (\<lambda>out _. early out) \<Longrightarrow> (\<And>a t. safe (f a) t (\<lambda>out _. early out)) \<Longrightarrow> safe (bindP m f) t (\<lambda>out _. early out)"
  by (erule safe_seq) (auto simp: early_def)

lemma early_read_page: "safe (read_page R log_type a b page) t (\<lambda>out _. early out)"
  by (simp add: read_page_def safe_observed)

lemma early_read_pages: "safe (read_pages R log_type a b n page logs) t (\<lambda>out _. early out)"
proof (induction R log_type a b n page logs arbitrary: t rule: read_pages.induct)
  case (1 R log_type a b n page logs)
  show ?case
    by (subst read_pages.simps) (auto intro!: early_bind early_read_page 1 split: sum.splits)
qed

lemma early_read_log_type: "safe (read_log_type R log_type a b) t (\<lambda>out _. early out)"
  unfolding read_log_type_def by (auto intro!: early_bind early_read_page early_read_pages split: sum.splits)

lemma window_read:
  "safe (read_window R a b) t (\<lambda>out t'. (\<exists>d. t' = d @ t \<and> list_all is_read d)
     \<and> (\<forall>logs. out = Value (Inr (logs, False)) \<longrightarrow> last_read error_log_type a b t') \<and> (\<exists>x. out = Value x))"
proof (rule safe_conj [OF only_safe [OF read_window_only]])
  show "safe (read_window R a b) t (\<lambda>out t'. (\<forall>logs. out = Value (Inr (logs, False)) \<longrightarrow> last_read error_log_type a b t')
     \<and> (\<exists>x. out = Value x))"
    unfolding read_window_def
  proof (rule safe_invoke, rule safe_seq [OF early_read_log_type])
    fix consumed t1
    show "safe (bindP (read_log_type R error_log_type a b) (\<lambda>failed. ret (Inr (sort_key log_key (consumed @ failed), False))))
        t1 (as_value (\<lambda>out t'. (\<forall>logs. out = Value (Inr (logs, False)) \<longrightarrow> last_read error_log_type a b t') \<and> (\<exists>x. out = Value x)))"
      by (rule safe_seq [OF safe_conj [OF early_read_log_type gives_read_log_type [unfolded gives_def]]])
        (auto simp: early_def)
  qed (auto simp: early_def)
qed

text \<open>The interface between the walk over the windows and what is done with each: the visitor
  moves the state from one second to the last second of the window it is given the logs of.\<close>

locale window_visitor =
  fixes visit :: "int \<Rightarrow> int \<Rightarrow> remote_log list \<Rightarrow> 's \<Rightarrow> ('w, 'r, go_error + 's) collecting"
    and ready :: "'s \<Rightarrow> int \<Rightarrow> collection_event list \<Rightarrow> bool"
    and arrived :: "'s \<Rightarrow> int \<Rightarrow> collection_event list \<Rightarrow> bool"
    and good :: "collection_event list \<Rightarrow> bool"
  assumes ready_good: "ready s before t \<Longrightarrow> good t"
    and arrived_ready: "arrived s before t \<Longrightarrow> ready s before t"
    and reads_ready: "ready s before t \<Longrightarrow> list_all is_read d \<Longrightarrow> ready s before (d @ t)"
    and visit_moves: "ready s before t \<Longrightarrow> last_read error_log_type start through t \<Longrightarrow> start \<le> before + 1 \<Longrightarrow> before \<le> through \<Longrightarrow>
      safe (visit start through logs s) t (\<lambda>out t'. good t' \<and> (\<exists>r. out = Value r) \<and> (\<forall>s'. out = Value (Inr s') \<longrightarrow> arrived s' through t'))"
begin

definition moved :: "int \<Rightarrow> ('r, go_error + 's) outcome \<Rightarrow> collection_event list \<Rightarrow> bool" where
  "moved through out t \<longleftrightarrow> good t \<and> (\<exists>r. out = Value r) \<and> (\<forall>s'. out = Value (Inr s') \<longrightarrow> arrived s' through t)"

lemma moved_failed: "ready s before t \<Longrightarrow> moved through (Value (Inl e)) t"
  by (simp add: moved_def ready_good)

lemma after_read:
  assumes t: "ready s before t"
    and f: "\<And>reply t'. ready s before t' \<Longrightarrow> (\<forall>logs. reply = Inr (logs, False) \<longrightarrow> last_read error_log_type a b t') \<Longrightarrow>
      safe (f reply) t' (moved through)"
  shows "safe (bindP (read_window R a b) f) t (moved through)"
proof (rule safe_seq [OF window_read])
  fix reply :: window_logs and t'
  assume "(\<exists>d. t' = d @ t \<and> list_all is_read d) \<and> (\<forall>logs. Value reply = Value (Inr (logs, False)) \<longrightarrow> last_read error_log_type a b t')
    \<and> (\<exists>x. (Value reply :: ('r, window_logs) outcome) = Value x)"
  then show "safe (f reply) t' (moved through)" using f reads_ready [OF t] by auto
qed (use reads_ready [OF t] ready_good in \<open>auto simp: moved_def\<close>)

lemma walk_moves:
  "ready s before t \<Longrightarrow> before \<le> through \<Longrightarrow> lower \<le> before + 1 \<Longrightarrow> 0 \<le> overlap \<Longrightarrow>
     safe (walk R lower overlap visit before through s) t (moved through)"
proof (induction "nat (through - before)" arbitrary: before through s t rule: less_induct)
  case less
  define start where "start = (if before - overlap + 1 < lower then lower else before - overlap + 1)"
  have start: "start \<le> before + 1" using less.prems by (simp add: start_def)
  have halves: "safe (bindP (walk R lower overlap visit before middle s)
      (\<lambda>r. case r of Inl e \<Rightarrow> ret (Inl e) | Inr s' \<Rightarrow> walk R lower overlap visit middle through s')) t' (moved through)"
    if "ready s before t'" "before < middle" "middle < through" for middle t'
  proof (rule safe_seq [OF less.hyps [OF _ that(1)]])
    fix r t2
    assume r: "moved middle (Value r :: ('r, go_error + 's) outcome) t2"
    show "safe (case r of Inl e \<Rightarrow> ret (Inl e) | Inr s' \<Rightarrow> walk R lower overlap visit middle through s') t2 (moved through)"
      using r that less.prems by (cases r) (auto simp: moved_def [of middle] intro!: less.hyps arrived_ready simp: moved_def [of through])
  qed (use that less.prems in \<open>auto simp: moved_def\<close>)
  have visited: "safe (visit a through logs s) t' (moved through)"
    if "ready s before t'" "last_read error_log_type a through t'" "a \<le> before + 1" for a logs t'
    unfolding moved_def by (rule visit_moves [OF that less.prems(2)])
  show ?case
    unfolding walk.simps [of R lower overlap visit before through s] Let_def start_def [symmetric]
    using less.prems
    by (auto intro!: after_read [OF less.prems(1)] after_read visited halves start moved_failed split: sum.splits)
qed

end

text \<open>The scan position and the event cursor that the last successful save, or the loaded cursor,
  left behind.\<close>

fun scan_progress :: "collection_event list \<Rightarrow> (instant \<times> cursor) option" where
  "scan_progress [] = None"
| "scan_progress (e # t) =
     (case e of
        CoSave b latest prev next (Inr n) \<Rightarrow> Some (next, ba_next b)
      | CoCursor site (Inr c) \<Rightarrow> Some (cs_scanned_through c, cs_cursor c)
      | _ \<Rightarrow> scan_progress t)"

text \<open>A save follows the read of the error logs and the look-up of the bindings of its window; it
  starts where the last save ended, leaves no second out, and its batch is valid and takes up the
  event cursor.\<close>

definition contiguous_save :: "collection_event \<Rightarrow> collection_event list \<Rightarrow> bool" where
  "contiguous_save e t \<longleftrightarrow>
     (case e of
        CoSave b latest prev next r \<Rightarrow>
          scan_progress t = Some (prev, ba_from b) \<and> validate_batch b = Inr () \<and>
          (\<exists>site start stop bindings page p t'.
             t = CoBindings site (unix_time start) (unix_time (stop + 1)) bindings
                   # CoRead error_log_type start stop page (Inr p) # t' \<and>
             next = unix_time stop \<and>
             (is_zero_time prev \<or> start \<le> unix_seconds prev + 1 \<and> unix_seconds prev \<le> stop))
      | _ \<Rightarrow> True)"

lemma contiguous_save_simps [simp]:
  "contiguous_save (CoRead log_type a b page r) t" "contiguous_save (CoBindings u i1 i2 rb) t"
  "contiguous_save (CoMark u c rm) t" "contiguous_save (CoCursor u rc) t" "contiguous_save (CoDecrypt k) t"
  "contiguous_save (CoReader url) t" "contiguous_save (CoSites rs) t" "contiguous_save (CoSite u rt) t"
  by (simp_all add: contiguous_save_def)

lemma reads_contiguous: "list_all is_read d \<Longrightarrow> guarded contiguous_save t \<Longrightarrow> guarded contiguous_save (d @ t)"
  by (rule guarded_append) (auto simp: list_all_iff is_read_def contiguous_save_def split: collection_event.splits)

lemma reads_progress: "list_all is_read d \<Longrightarrow> scan_progress (d @ t) = scan_progress t"
  by (induction d) (auto simp: is_read_def split: collection_event.splits)

lemma convert_by_request_from: "convert_by_request L site c inputs bindings = Inr b \<Longrightarrow> ba_from b = c"
proof -
  assume a: "convert_by_request L site c inputs bindings = Inr b"
  then obtain s where s: "foldE (convert_group L site c bindings) s (group_by_request inputs) = Inr b" "ba_from s = c"
    by (fastforce simp: convert_by_request_def Let_def)
  show ?thesis
    by (rule foldE_invariant [OF s(1), of "\<lambda>b. ba_from b = c", OF s(2)]) (auto simp: convert_group_def)
qed

definition scan_ready :: "scan_state \<Rightarrow> int \<Rightarrow> collection_event list \<Rightarrow> bool" where
  "scan_ready s before t \<longleftrightarrow>
     guarded contiguous_save t \<and> scan_progress t = Some (sc_committed s, sc_event_cursor s) \<and>
     (is_zero_time (sc_committed s) \<or> unix_seconds (sc_committed s) = before) \<and>
     cl_scanned_through (sc_result s) = time_pointer (sc_committed s)"

definition scan_arrived :: "scan_state \<Rightarrow> int \<Rightarrow> collection_event list \<Rightarrow> bool" where
  "scan_arrived s through t \<longleftrightarrow> scan_ready s through t \<and> sc_committed s = unix_time through"

lemma visit_window_ready:
  assumes r: "scan_ready s before t" "last_read error_log_type start stop t" "start \<le> before + 1" "before \<le> stop"
  shows "safe (visit_window L P E site started start stop logs s) t
    (\<lambda>out t'. guarded contiguous_save t' \<and> (\<exists>r. out = Value r) \<and> (\<forall>s'. out = Value (Inr s') \<longrightarrow> scan_arrived s' stop t'))"
proof (cases "measurement_inputs L P site logs")
  case (Inr m)
  obtain inputs quarantines latest where m: "m = (inputs, quarantines, latest)" by (cases m)
  have g: "guarded contiguous_save t" using r(1) by (simp add: scan_ready_def)
  let ?bind = "\<lambda>reply. CoBindings site (unix_time start) (unix_time (stop + 1)) reply"
  have saved: "contiguous_save (CoSave b latest (sc_committed s) (unix_time stop) n) (?bind reply # t)"
    if "ba_from b = sc_event_cursor s" "validate_batch b = Inr ()" for b n reply
    using r that by (auto simp: contiguous_save_def scan_ready_def last_read_def)
  have moves: "scan_arrived (saved_state s b latest (unix_time stop) k n) stop
      (CoSave b latest (sc_committed s) (unix_time stop) (Inr n) # ?bind reply # t)"
    if "ba_from b = sc_event_cursor s" "validate_batch b = Inr ()" for b n k reply
    using r(1) saved [OF that] by (cases n) (simp add: scan_arrived_def scan_ready_def saved_state_def Let_def)
  show ?thesis
    unfolding visit_window_def Inr m sum.case prod.case
    using g
    by (auto intro!: safe_bind safe_observed saved moves simp: Let_def with_quarantines_def
        dest!: convert_by_request_from split: sum.splits)
qed (use r in \<open>simp add: visit_window_def scan_ready_def\<close>)

lemma scan_ready_guarded: "scan_ready s before t \<Longrightarrow> guarded contiguous_save t"
  by (simp add: scan_ready_def)

lemma scan_ready_reads: "scan_ready s before t \<Longrightarrow> list_all is_read d \<Longrightarrow> scan_ready s before (d @ t)"
  by (simp add: scan_ready_def reads_contiguous reads_progress)

lemma scan_arrived_ready: "scan_arrived s before t \<Longrightarrow> scan_ready s before t"
  by (simp add: scan_arrived_def)

interpretation scan: window_visitor "visit_window L P E site started" scan_ready scan_arrived "guarded contiguous_save"
  for L P E site started
  by unfold_locales (rule scan_ready_guarded scan_ready_reads scan_arrived_ready visit_window_ready; assumption)+

lemma collection_fail_safe:
  "guarded contiguous_save t \<Longrightarrow> (\<And>t' e. guarded contiguous_save t' \<Longrightarrow> Q (Value (Inl e)) t') \<Longrightarrow> safe (collection_fail E site code moment cause) t Q"
  unfolding collection_fail_def by (auto intro!: safe_bind safe_observed)

text \<open>A collection that returns a result has committed every second up to the one it started in,
  and says so.\<close>

definition scan_complete :: "instant \<Rightarrow> ('r, go_error + collection_result) outcome \<Rightarrow> collection_event list \<Rightarrow> bool" where
  "scan_complete started out t \<longleftrightarrow>
     (case out of
        Value (Inr r) \<Rightarrow>
          map_option fst (scan_progress t) = Some (unix_time (unix_seconds started)) \<and>
          cl_scanned_through r = time_pointer (unix_time (unix_seconds started))
      | _ \<Rightarrow> True)"

lemma scan_complete_error [simp]: "scan_complete started (Value (Inl e)) t"
  by (simp add: scan_complete_def)

lemma unix_seconds_lower: "0 \<le> d \<Longrightarrow> unix_seconds (time_add t (- d)) \<le> unix_seconds t"
  by (simp add: unix_seconds_def time_add_def zdiv_mono1 nanos_per_second_def)

lemma scan_overlap_positive: "0 < scan_overlap c"
  by (simp add: scan_overlap_def default_overlap_def nanos_per_minute_def nanos_per_second_def)

lemma scan_start_facts:
  assumes "guarded contiguous_save t" "scan_progress t = Some (cs_scanned_through c, cs_cursor c)"
    and b: "scan_bounds c started = (lower, scan_start, scan_end)"
  shows "scan_end = unix_seconds started \<and> lower \<le> scan_start + 1 \<and> 0 \<le> scan_overlap c div nanos_per_second
    \<and> scan_ready (initial_scan site c) scan_start t"
proof (intro conjI)
  show "scan_end = unix_seconds started" "lower \<le> scan_start + 1" "0 \<le> scan_overlap c div nanos_per_second"
    using b scan_overlap_positive [of c] unix_seconds_lower [of "scan_overlap c" "cs_scanned_through c"]
    by (auto simp: scan_bounds_def Let_def nanos_per_second_def split: if_splits)
  show "scan_ready (initial_scan site c) scan_start t"
    using assms(1,2) b by (auto simp: scan_ready_def initial_scan_def scan_bounds_def Let_def split: if_splits)
qed

lemma collect_window_scan_safe:
  assumes "guarded contiguous_save t" "scan_progress t = Some (cs_scanned_through c, cs_cursor c)"
  shows "safe (collect_window_scan L P E site started c R) t
    (\<lambda>out t'. guarded contiguous_save t' \<and> scan_complete started out t')"
proof -
  obtain lower scan_start scan_end where b: "scan_bounds c started = (lower, scan_start, scan_end)" by (cases "scan_bounds c started")
  have e: "scan_end = unix_seconds started" "lower \<le> scan_start + 1" "0 \<le> scan_overlap c div nanos_per_second"
    and r: "scan_ready (initial_scan site c) scan_start t"
    using scan_start_facts [OF assms b] by blast+
  show ?thesis
    unfolding collect_window_scan_def b prod.case
    using assms(1)
    by (auto intro!: collection_fail_safe safe_seq [OF scan.walk_moves [OF r _ e(2,3)]] split: sum.splits
      simp: scan.moved_def scan_arrived_def scan_ready_def scan_complete_def e(1))
qed

lemma unix_seconds_utc [simp]: "unix_seconds (to_utc t) = unix_seconds t"
  by (simp add: unix_seconds_def to_utc_def)

lemma scan_complete_utc [simp]: "scan_complete (to_utc t) = scan_complete t"
  by (simp add: scan_complete_def fun_eq_iff split: outcome.splits sum.splits)

text \<open>A collection after it has read the clock.\<close>

definition collect_from :: "'d libs \<Rightarrow> parsers \<Rightarrow> 'w collection_env \<Rightarrow> site_access \<Rightarrow> instant
    \<Rightarrow> ('w, 'r, go_error + collection_result) collecting" where
  "collect_from L P E site started =
     bindP (observed (CoCursor (sa_id site)) (co_cursor E (sa_id site))) (\<lambda>loaded.
     case loaded of
       Inl e \<Rightarrow> ret (Inl e)
     | Inr c \<Rightarrow>
         bindP (observed (\<lambda>_. CoDecrypt (sa_credential site)) (co_decrypt E (sa_credential site))) (\<lambda>token.
         case token of
           Inl e \<Rightarrow> collection_fail E (sa_id site) ''credential_unavailable'' started e
         | Inr secret \<Rightarrow>
             bindP (observed (\<lambda>_. CoReader (sa_base_url site)) (co_reader E (sa_base_url site) secret (sa_admin_user_id site))) (\<lambda>reader.
             case reader of
               Inl e \<Rightarrow> collection_fail E (sa_id site) ''source_unavailable'' started e
             | Inr R \<Rightarrow> collect_window_scan L P E site started c R)))"

lemma collect_eq: "co_now E w = (started, w1) \<Longrightarrow> collect L P E site w t = collect_from L P E site (to_utc started) w1 t"
  by (simp add: collect_def collect_from_def now_utc_def bindP_def silent_def ret_def)

lemma collect_from_safe:
  "safe (collect_from L P E site started) [] (\<lambda>out t. guarded contiguous_save t \<and> scan_complete started out t)"
  unfolding collect_from_def
  by (auto intro!: safe_bind safe_observed collection_fail_safe collect_window_scan_safe split: sum.splits)

text \<open>C18: In every environment, a collection of a site saves valid batches only, each one right
  after reading the logs and the channel bindings of exactly its seconds, each starting at most one
  second after the position the last committed save (or the loaded cursor) left behind and taking up
  its event cursor; and when it returns a result, it has committed every second up to the one it
  started in and reports this position.\<close>

theorem scan_leaves_no_second_out:
  "case collect L P E site w [] of (out, w', t) \<Rightarrow> guarded contiguous_save t \<and> scan_complete (fst (co_now E w)) out t"
proof -
  obtain started w1 where now: "co_now E w = (started, w1)" by (cases "co_now E w")
  show ?thesis
    unfolding collect_eq [OF now] using collect_from_safe [of L P E site "to_utc started"]
    by (cases "collect_from L P E site (to_utc started) w1 []") (auto dest: safeD simp: now)
qed

section \<open>How many pages a scan reads\<close>

lemma adds_case_sum:
  "(\<And>x. adds_at_most p n (f x)) \<Longrightarrow> (\<And>x. adds_at_most p n (g x)) \<Longrightarrow> adds_at_most p n (case r of Inl x \<Rightarrow> f x | Inr x \<Rightarrow> g x)"
  by (cases r) auto

lemma adds_read_page: "adds_at_most is_read (Suc n) (read_page R log_type a b page)"
  unfolding read_page_def by (rule adds_observed)

lemma adds_read_pages:
  "amount \<le> max_log_pages * log_page_size \<Longrightarrow> 0 < page \<Longrightarrow>
     adds_at_most is_read (nat (max_log_pages - page + 1)) (read_pages R log_type a b amount page logs)"
proof (induction R log_type a b amount page logs rule: read_pages.induct)
  case (1 R log_type a b amount page logs)
  show ?case
  proof (cases "(page - 1) * log_page_size < amount")
    case True
    then have page: "page \<le> max_log_pages" using 1(2,3) by (simp add: log_page_size_def max_log_pages_def)
    have rest: "adds_at_most is_read (nat (max_log_pages - page)) (read_pages R log_type a b amount (page + 1) (logs @ rp_items p))"
      if "\<not> max_log_pages * log_page_size < rp_count p" "\<not> (rp_items p = [] \<or> rp_count p \<le> page * log_page_size)" for p :: remote_page
      using 1(1) [OF True that 1(2)] 1(3) by simp
    show ?thesis
      by (subst read_pages.simps, subst if_P [OF True], rule adds_bind [OF adds_read_page [of 0], where n = "nat (max_log_pages - page)"])
        (use page rest in \<open>auto intro!: adds_case_sum adds_exit adds_ret\<close>)
  qed (subst read_pages.simps, simp add: adds_ret)
qed

lemma adds_read_log_type: "adds_at_most is_read 100 (read_log_type R log_type a b)"
proof -
  have rest: "adds_at_most is_read 99 (read_pages R log_type a b (rp_count p) 2 (rp_items p))"
    if "\<not> max_log_pages * log_page_size < rp_count p" for p :: remote_page
    using adds_read_pages [of "rp_count p" 2 R log_type a b "rp_items p"] that by (simp add: max_log_pages_def)
  show ?thesis
    unfolding read_log_type_def
    by (rule adds_bind [OF adds_read_page [of 0], where n = 99], rule adds_case_sum)
      (auto intro!: adds_exit adds_ret adds_bind [OF rest, where n = 0])
qed

lemma adds_read_window: "adds_at_most is_read 200 (read_window R a b)"
  unfolding read_window_def
  by (intro adds_invoke adds_bind [OF adds_read_log_type, where n = 100] adds_bind [OF adds_read_log_type, where n = 0] adds_ret)
    simp_all

text \<open>The number of windows a scan of \<open>n\<close> seconds reads.\<close>

definition scan_windows :: "int \<Rightarrow> nat" where
  "scan_windows n = nat (3 * max 1 n - 1)"

lemma adds_walk:
  assumes "\<And>a b logs s. adds_at_most is_read 0 (visit a b logs s)"
  shows "adds_at_most is_read (200 * scan_windows (through - before)) (walk R lower overlap visit before through s)"
proof (induction "nat (through - before)" arbitrary: before through s rule: less_induct)
  case less
  have one: "adds_at_most is_read 200 (bindP (read_window R through through)
       (\<lambda>again. case again of
            Inl e \<Rightarrow> ret (Inl e)
          | Inr (logs', overflow') \<Rightarrow>
              if overflow' then ret (Inl (ErrPlain ''new API log volume exceeds the bounded page limit''))
              else visit through through logs' s))"
    by (rule adds_bind [OF adds_read_window, where n = 0]) (auto intro!: adds_case_sum adds_ret assms split: prod.splits)
  have halves: "adds_at_most is_read (200 * scan_windows (through - before) - 200)
      (let middle = before + (through - before) div 2 in
        bindP (walk R lower overlap visit before middle s)
          (\<lambda>r. case r of Inl e \<Rightarrow> ret (Inl e) | Inr s' \<Rightarrow> walk R lower overlap visit middle through s'))"
    if big: "\<not> through - before \<le> 1"
  proof -
    let ?m = "before + (through - before) div 2"
    have m: "before < ?m" "?m < through" using big by simp_all
    have n: "200 * scan_windows (?m - before) + 200 * scan_windows (through - ?m) \<le> 200 * scan_windows (through - before) - 200"
      using m by (simp add: scan_windows_def)
    show ?thesis
      unfolding Let_def
      by (rule adds_bind [OF less [of ?m before] _ n]) (use m in \<open>auto intro!: adds_case_sum adds_ret less\<close>)
  qed
  have two: "2 \<le> scan_windows (through - before)" by (simp add: scan_windows_def le_nat_iff max_def)
  have after: "adds_at_most is_read (200 * scan_windows (through - before) - 200)
      (if \<not> overflow then visit a through logs s
       else if through - before \<le> 1 then bindP (read_window R through through)
         (\<lambda>again. case again of
              Inl e \<Rightarrow> ret (Inl e)
            | Inr (logs', overflow') \<Rightarrow>
                if overflow' then ret (Inl (ErrPlain ''new API log volume exceeds the bounded page limit''))
                else visit through through logs' s)
       else let middle = before + (through - before) div 2 in
        bindP (walk R lower overlap visit before middle s)
          (\<lambda>r. case r of Inl e \<Rightarrow> ret (Inl e) | Inr s' \<Rightarrow> walk R lower overlap visit middle through s'))"
    for overflow logs a
    using two by (simp only: split: if_split) (intro conjI impI halves adds_mono [OF one] adds_mono [OF assms]; simp)
  have budget: "200 + (200 * scan_windows (through - before) - 200) \<le> 200 * scan_windows (through - before)"
    using two by simp
  show ?case
    unfolding walk.simps [of R lower overlap visit before through s]
    by (subst Let_def, rule adds_bind [OF adds_read_window _ budget], rule adds_case_sum)
      (auto intro: adds_ret simp only: prod.case_eq_if intro!: after)
qed

lemma visit_window_reads_nothing: "adds_at_most is_read 0 (visit_window L P E site started start stop logs s)"
  by (rule adds_other)
    (auto simp: visit_window_def Let_def intro!: only_rules split: sum.splits prod.splits)

text \<open>C20: A scan ends after a bounded number of page reads, whatever the gateway answers: at most
  200 for each window, and fewer than three windows for each second between the last committed
  second and now.\<close>

theorem scan_reads_bounded:
  "case collect_window_scan L P E site started c R w [] of (out, w', t) \<Rightarrow>
     case scan_bounds c started of (lower, scan_start, scan_end) \<Rightarrow>
       length (filter is_read t) \<le> 200 * scan_windows (scan_end - scan_start)"
proof -
  obtain lower scan_start scan_end where b: "scan_bounds c started = (lower, scan_start, scan_end)" by (cases "scan_bounds c started")
  have failing: "adds_at_most is_read 0 (collection_fail E site code moment cause)" for site code moment cause
    unfolding collection_fail_def by (rule adds_other, intro only_rules) simp
  have "adds_at_most is_read (200 * scan_windows (scan_end - scan_start)) (collect_window_scan L P E site started c R)"
    unfolding collect_window_scan_def b prod.case
    by (auto intro!: adds_mono [OF failing] adds_bind [OF adds_walk [OF visit_window_reads_nothing], where n = 0]
        adds_case_sum failing adds_ret)
  then show ?thesis by (fastforce simp: adds_at_most_def safe_def b split: prod.splits)
qed

section \<open>What is recorded of a failed collection\<close>

definition is_mark :: "collection_event \<Rightarrow> bool" where
  "is_mark e \<longleftrightarrow> (case e of CoMark site code r \<Rightarrow> True | _ \<Rightarrow> False)"

lemma is_mark_simps [simp]:
  "is_mark (CoMark u c rm)" "\<not> is_mark (CoRead log_type a b page r)" "\<not> is_mark (CoSave batch i1 i2 i3 r')"
  "\<not> is_mark (CoBindings u i1 i2 rb)" "\<not> is_mark (CoCursor u rc)" "\<not> is_mark (CoDecrypt k)"
  "\<not> is_mark (CoReader url)" "\<not> is_mark (CoSites rs)" "\<not> is_mark (CoSite u rt)"
  by (simp_all add: is_mark_def)

text \<open>How a collection of a site can end: with a result and no failure recorded, with an error
  that is the last thing recorded for the site, or with the error of loading the cursor.\<close>

definition failure_recorded :: "uuid \<Rightarrow> ('r, go_error + collection_result) outcome \<Rightarrow> collection_event list \<Rightarrow> bool" where
  "failure_recorded site out t \<longleftrightarrow>
     (case out of
        Value (Inr r) \<Rightarrow> list_all (\<lambda>e. \<not> is_mark e) t
      | Value (Inl e) \<Rightarrow> t = [CoCursor site (Inl e)] \<or>
          (case t of CoMark u code r # t' \<Rightarrow> u = site \<and> list_all (\<lambda>e. \<not> is_mark e) t' | _ \<Rightarrow> False)
      | _ \<Rightarrow> False)"

lemma fail_recorded:
  "list_all (\<lambda>e. \<not> is_mark e) t \<Longrightarrow> safe (collection_fail E site code moment cause) t (failure_recorded site)"
  unfolding collection_fail_def by (auto intro!: safe_bind safe_observed simp: failure_recorded_def)

lemma visit_window_not_mark: "only (\<lambda>e. \<not> is_mark e) (visit_window L P E site started start stop logs s)"
  by (auto simp: visit_window_def Let_def intro!: only_rules split: sum.splits prod.splits)

lemma walk_not_mark:
  assumes "\<And>a b logs s. only (\<lambda>e. \<not> is_mark e) (visit a b logs s)"
  shows "only (\<lambda>e. \<not> is_mark e) (walk R lower overlap visit before through s)"
proof (induction "nat (through - before)" arbitrary: before through s rule: less_induct)
  case less
  have w: "only (\<lambda>e. \<not> is_mark e) (read_window R a b)" for a b
    by (rule only_mono [OF read_window_only]) (auto simp: is_read_def is_mark_def split: collection_event.splits)
  show ?case
    unfolding walk.simps [of R lower overlap visit before through s] Let_def
    by (intro only_rules w assms less) auto
qed

lemma collect_window_scan_recorded:
  assumes t: "guarded contiguous_save t" "scan_progress t = Some (cs_scanned_through c, cs_cursor c)" "list_all (\<lambda>e. \<not> is_mark e) t"
  shows "safe (collect_window_scan L P E site started c R) t (failure_recorded (sa_id site))"
proof -
  obtain lower scan_start scan_end where b: "scan_bounds c started = (lower, scan_start, scan_end)" by (cases "scan_bounds c started")
  have e: "lower \<le> scan_start + 1" "0 \<le> scan_overlap c div nanos_per_second" and r: "scan_ready (initial_scan site c) scan_start t"
    using scan_start_facts [OF t(1,2) b] by blast+
  note walked = safe_conj [OF only_safe [OF walk_not_mark [OF visit_window_not_mark]] scan.walk_moves [OF r _ e]]
  show ?thesis
    unfolding collect_window_scan_def b prod.case
    using t(3)
    by (auto intro!: fail_recorded safe_seq [OF walked] split: sum.splits simp: scan.moved_def)
      (auto simp: failure_recorded_def)
qed

text \<open>C19: A collection always ends with a result or an error, never in a panic.  An error is the
  one of loading the cursor, which leaves nothing else done, or it is recorded for the site by the
  very last call, exactly once; with a result no failure is recorded.\<close>

theorem failed_collection_recorded:
  "case collect L P E site w [] of (out, w', t) \<Rightarrow> failure_recorded (sa_id site) out t"
proof -
  obtain started w1 where now: "co_now E w = (started, w1)" by (cases "co_now E w")
  have "safe (collect_from L P E site (to_utc started)) [] (failure_recorded (sa_id site))"
    unfolding collect_from_def
    by (auto intro!: safe_bind safe_observed fail_recorded collect_window_scan_recorded split: sum.splits)
      (simp add: failure_recorded_def)
  then show ?thesis
    unfolding collect_eq [OF now]
    by (cases "collect_from L P E site (to_utc started) w1 []") (auto dest: safeD)
qed

section \<open>Whole-second durations\<close>

definition quick_log :: remote_log where
  "quick_log =
     \<lparr>rl_id = 7, rl_created_at = 100, rl_type = consume_log_type, rl_model = ''m'', rl_input_tokens = 1,
      rl_output_tokens = 1, rl_duration_seconds = 0, rl_stream = True, rl_channel_id = 4, rl_group = ''g'',
      rl_request_id = ''r'', rl_error_text = [], rl_other = ''x''\<rparr>"

definition quick_parsers :: parsers where
  "quick_parsers = \<lparr>ps_json = (\<lambda>_. Some [(''frt'', JNumber ''800'')]), ps_float = (\<lambda>_. Some (Fin 800))\<rparr>"

text \<open>C38: A source log has its total time in whole seconds and its first-token time in
  milliseconds.  A log whose first token came later than its truncated total - every streamed answer
  of less than a second among them - is always taken out as invalid.\<close>

theorem quick_log_quarantined:
  assumes "measurement_input L P l c = Inr i" "lm_first_token_millis (parse_log_metadata L P (rl_other l)) = Some f"
    and "rl_duration_seconds l * 1000 < f"
  shows "invalid_log_reason i \<noteq> None"
proof -
  have "ni_first_token_millis i = Some f" "ni_total_millis i = Some (rl_duration_seconds l * 1000)"
    using assms(1,2) by (auto simp: measurement_input_def Let_def split: if_splits)
  then have "validate_durations (ni_first_token_millis i) (ni_total_millis i) \<noteq> Inr ()"
    using assms(3) by (simp add: validate_durations_def)
  then show ?thesis by (simp add: invalid_log_reason_def)
qed

theorem quick_log_quarantined_witness:
  "\<forall>c. invalid_log_reason (projr (measurement_input sample_libs quick_parsers quick_log c)) \<noteq> None"
proof (intro allI, rule quick_log_quarantined [where f = 800])
  fix c
  show "measurement_input sample_libs quick_parsers quick_log c = Inr (projr (measurement_input sample_libs quick_parsers quick_log c))"
    by (simp add: measurement_input_def quick_log_def consume_log_type_def error_log_type_def Let_def max_int64_def)
  show "lm_first_token_millis (parse_log_metadata sample_libs quick_parsers (rl_other quick_log)) = Some 800"
    by code_simp
qed (simp add: quick_log_def)

end
