(* ===== verification/Evidence.thy ===== *)
theory Evidence imports Scoring begin

text \<open>
  \<open>internal/domain/scoring/evidence.go\<close>: the assessment of the evidence behind one scored
  window.

  The loops of the code are folds over a record of the local variables they update.  The lemmas
  give each loop in closed form, so that the verdict on a window can be read off its input.
\<close>

section \<open>Evidence of one window\<close>

datatype evidence_reason = EvidenceInsufficientSamples | EvidenceCollectionGap
  | EvidenceAttributionPending | EvidenceFactorMissing | EvidenceFactorInsufficient
  | EvidenceLowConfidence

definition required_confidence_factors :: "string list" where
  "required_confidence_factors =
     [''freshness'', ''collection_coverage'', ''timing_coverage'', ''attribution'',
      ''supplier_mapping'', ''real_traffic'', ''active_probe'', ''authenticity'']"

record confidence_factor =
  cf_name :: string
  cf_level :: confidence

record evidence_input =
  ev_sample_count :: "64 word"
  ev_minimum_samples :: "64 word"
  ev_factors :: "confidence_factor list"
  ev_collection_gaps :: "string list"
  ev_attribution_pending :: bool

record evidence_issue =
  ei_reason :: evidence_reason
  ei_detail :: string

record evidence_assessment =
  ea_confidence :: confidence
  ea_usable :: bool
  ea_decision_ready :: bool
  ea_sample_count :: "64 word"
  ea_minimum_samples :: "64 word"
  ea_issues :: "evidence_issue list"

definition issue :: "evidence_reason \<Rightarrow> string \<Rightarrow> evidence_issue" where
  "issue r d = \<lparr>ei_reason = r, ei_detail = d\<rparr>"

definition known_confidence_factor :: "string \<Rightarrow> bool" where
  "known_confidence_factor name \<longleftrightarrow> list_ex (\<lambda>r. name = r) required_confidence_factors"

text \<open>The local variables of \<open>AssessEvidence\<close>: the block flag, the issues, the names
  seen and the lowest rank.\<close>

record evidence_scan =
  es_blocked :: bool
  es_issues :: "evidence_issue list"
  es_seen :: "string set"
  es_lowest :: int

definition block :: "evidence_issue \<Rightarrow> evidence_scan \<Rightarrow> evidence_scan" where
  "block i s = s\<lparr>es_blocked := True, es_issues := es_issues s @ [i]\<rparr>"

definition gap_step :: "evidence_scan \<Rightarrow> string \<Rightarrow> scoring_error + evidence_scan" where
  "gap_step s gap =
     (let g = trim_space gap in
      if g = [] then Inl ErrInvalidEvidence else Inr (block (issue EvidenceCollectionGap g) s))"

definition factor_step :: "evidence_scan \<Rightarrow> confidence_factor \<Rightarrow> scoring_error + evidence_scan" where
  "factor_step s f =
     (let name = trim_space (cf_name f) in
      case confidence_rank (cf_level f) of
        None \<Rightarrow> Inl ErrInvalidEvidence
      | Some rank \<Rightarrow>
          if \<not> known_confidence_factor name \<or> name \<in> es_seen s then Inl ErrInvalidEvidence
          else let t = s\<lparr>es_seen := insert name (es_seen s),
                         es_lowest := (if rank < es_lowest s then rank else es_lowest s)\<rparr> in
            Inr (if cf_level f = ConfInsufficient then block (issue EvidenceFactorInsufficient name) t else t))"

definition missing_step :: "evidence_scan \<Rightarrow> string \<Rightarrow> evidence_scan" where
  "missing_step s required =
     (if required \<in> es_seen s then s else block (issue EvidenceFactorMissing required) s)"

definition minimum_samples :: "evidence_input \<Rightarrow> 64 word" where
  "minimum_samples inp =
     (if ev_minimum_samples inp = 0 then default_minimum_samples else ev_minimum_samples inp)"

definition assess_evidence :: "evidence_input \<Rightarrow> scoring_error + evidence_assessment" where
  "assess_evidence inp =
     (let minimum = minimum_samples inp;
          s0 = \<lparr>es_blocked = False, es_issues = [], es_seen = {}, es_lowest = 3\<rparr>;
          s1 = (if ev_sample_count inp < minimum then block (issue EvidenceInsufficientSamples []) s0 else s0) in
      bindE (foldE gap_step s1 (ev_collection_gaps inp)) (\<lambda>s2.
      let s3 = (if ev_attribution_pending inp then block (issue EvidenceAttributionPending []) s2 else s2) in
      bindE (foldE factor_step s3 (ev_factors inp)) (\<lambda>s4.
      let s5 = foldl missing_step s4 required_confidence_factors;
          conf = confidence_from_rank (es_lowest s5);
          issues = es_issues s5 @ (if conf = ConfLow then [issue EvidenceLowConfidence []] else []) in
      if es_blocked s5
      then Inr \<lparr>ea_confidence = ConfInsufficient, ea_usable = False, ea_decision_ready = False,
                ea_sample_count = ev_sample_count inp, ea_minimum_samples = minimum, ea_issues = issues\<rparr>
      else Inr \<lparr>ea_confidence = conf, ea_usable = True,
                ea_decision_ready = (case confidence_rank conf of None \<Rightarrow> False | Some r \<Rightarrow> 2 \<le> r),
                ea_sample_count = ev_sample_count inp, ea_minimum_samples = minimum, ea_issues = issues\<rparr>)))"

section \<open>The loops in closed form\<close>

lemma block_simps [simp]:
  "es_blocked (block i s)" "es_issues (block i s) = es_issues s @ [i]"
  "es_seen (block i s) = es_seen s" "es_lowest (block i s) = es_lowest s"
  by (simp_all add: block_def)

lemma gap_loop:
  "foldE gap_step s gaps =
     (if \<exists>g\<in>set gaps. trim_space g = [] then Inl ErrInvalidEvidence
      else Inr (s\<lparr>es_blocked := es_blocked s \<or> gaps \<noteq> [],
        es_issues := es_issues s @ map (\<lambda>g. issue EvidenceCollectionGap (trim_space g)) gaps\<rparr>))"
  by (induction gaps arbitrary: s) (auto simp: gap_step_def block_def Let_def)

definition factor_name :: "confidence_factor \<Rightarrow> string" where
  "factor_name f = trim_space (cf_name f)"

definition factors_ok :: "string set \<Rightarrow> confidence_factor list \<Rightarrow> bool" where
  "factors_ok seen fs \<longleftrightarrow>
     (\<forall>f\<in>set fs. known_confidence_factor (factor_name f) \<and> confidence_rank (cf_level f) \<noteq> None
        \<and> factor_name f \<notin> seen) \<and> distinct (map factor_name fs)"

definition factor_rank :: "confidence_factor \<Rightarrow> int" where
  "factor_rank f = the (confidence_rank (cf_level f))"

definition scan_factors :: "evidence_scan \<Rightarrow> confidence_factor list \<Rightarrow> evidence_scan" where
  "scan_factors s fs =
     (let weak = filter (\<lambda>f. cf_level f = ConfInsufficient) fs in
      s\<lparr>es_blocked := es_blocked s \<or> weak \<noteq> [],
        es_issues := es_issues s @ map (\<lambda>f. issue EvidenceFactorInsufficient (factor_name f)) weak,
        es_seen := factor_name ` set fs \<union> es_seen s,
        es_lowest := foldl min (es_lowest s) (map factor_rank fs)\<rparr>)"

lemma factor_loop:
  "foldE factor_step s fs =
     (if factors_ok (es_seen s) fs then Inr (scan_factors s fs) else Inl ErrInvalidEvidence)"
proof (induction fs arbitrary: s)
  case Nil
  show ?case by (simp add: factors_ok_def scan_factors_def)
next
  case (Cons f fs)
  show ?case
  proof (cases "factor_step s f")
    case (Inl e)
    then have "\<not> factors_ok (es_seen s) (f # fs)" "e = ErrInvalidEvidence"
      by (auto simp: factor_step_def factors_ok_def factor_name_def Let_def split: option.splits if_splits)
    then show ?thesis using Inl by simp
  next
    case (Inr t)
    then obtain r where r: "confidence_rank (cf_level f) = Some r" "known_confidence_factor (factor_name f)"
      "factor_name f \<notin> es_seen s"
      by (auto simp: factor_step_def factor_name_def Let_def split: option.splits if_splits)
    then have seen: "es_seen t = insert (factor_name f) (es_seen s)"
      using Inr by (auto simp: factor_step_def factor_name_def Let_def split: if_splits)
    have "factors_ok (es_seen s) (f # fs) \<longleftrightarrow> factors_ok (es_seen t) fs"
      using r by (auto simp: factors_ok_def seen) (metis imageI)+
    moreover have "scan_factors t fs = scan_factors s (f # fs)"
      using Inr r by (auto simp: factor_step_def factor_name_def scan_factors_def factor_rank_def Let_def
          block_def min_def split: if_splits)
    ultimately show ?thesis using Inr Cons.IH [of t] by simp
  qed
qed

lemma missing_loop:
  "foldl missing_step s rs =
     (let missing = filter (\<lambda>r. r \<notin> es_seen s) rs in
      s\<lparr>es_blocked := es_blocked s \<or> missing \<noteq> [],
        es_issues := es_issues s @ map (issue EvidenceFactorMissing) missing\<rparr>)"
  by (induction rs arbitrary: s) (simp_all add: missing_step_def block_def Let_def)

lemma foldl_min_le: "k \<le> foldl min (a :: int) xs \<longleftrightarrow> k \<le> a \<and> (\<forall>x\<in>set xs. k \<le> x)"
  by (induction xs arbitrary: a) auto

lemma foldl_min_start: "foldl min (a :: int) xs \<le> a"
  using foldl_min_le [of "foldl min a xs" a xs] by simp

lemma confidence_from_rank_simps [simp]:
  "0 \<le> r \<Longrightarrow> r \<le> 3 \<Longrightarrow> confidence_rank (confidence_from_rank r) = Some r"
  by (auto simp: confidence_from_rank_def)

lemma confidence_rank_bounds: "confidence_rank c = Some r \<Longrightarrow> 0 \<le> r \<and> r \<le> 3"
  by (cases c) auto

lemma confidence_from_rank_known: "confidence_rank (confidence_from_rank r) \<noteq> None"
  by (simp add: confidence_from_rank_def)

definition evidence_ok :: "evidence_input \<Rightarrow> bool" where
  "evidence_ok inp \<longleftrightarrow> (\<forall>g\<in>set (ev_collection_gaps inp). trim_space g \<noteq> []) \<and> factors_ok {} (ev_factors inp)"

text \<open>Evidence that does not block a score, and the lowest rank of its factors.\<close>

definition evidence_usable :: "evidence_input \<Rightarrow> bool" where
  "evidence_usable inp \<longleftrightarrow> minimum_samples inp \<le> ev_sample_count inp \<and> ev_collection_gaps inp = []
     \<and> \<not> ev_attribution_pending inp
     \<and> set required_confidence_factors \<subseteq> factor_name ` set (ev_factors inp)
     \<and> (\<forall>f\<in>set (ev_factors inp). cf_level f \<noteq> ConfInsufficient)"

definition evidence_rank :: "evidence_input \<Rightarrow> int" where
  "evidence_rank inp = foldl min 3 (map factor_rank (ev_factors inp))"

lemma evidence_rank_bounds: "evidence_ok inp \<Longrightarrow> 0 \<le> evidence_rank inp \<and> evidence_rank inp \<le> 3"
proof -
  assume ok: "evidence_ok inp"
  have "\<forall>f\<in>set (ev_factors inp). 0 \<le> factor_rank f"
    using ok confidence_rank_bounds by (fastforce simp: evidence_ok_def factors_ok_def factor_rank_def)
  then show ?thesis by (auto simp: evidence_rank_def foldl_min_le foldl_min_start)
qed

lemma assess_cases:
  "assess_evidence inp =
     (if evidence_ok inp
      then Inr \<lparr>ea_confidence = (if evidence_usable inp then confidence_from_rank (evidence_rank inp) else ConfInsufficient),
        ea_usable = evidence_usable inp,
        ea_decision_ready = (evidence_usable inp \<and> 2 \<le> evidence_rank inp),
        ea_sample_count = ev_sample_count inp, ea_minimum_samples = minimum_samples inp,
        ea_issues = ea_issues (case assess_evidence inp of Inr a \<Rightarrow> a)\<rparr>
      else Inl ErrInvalidEvidence)"
proof (cases "evidence_ok inp")
  case False
  then show ?thesis
    by (auto simp: assess_evidence_def Let_def gap_loop factor_loop evidence_ok_def split: if_splits)
next
  case True
  have rank: "confidence_rank (confidence_from_rank (evidence_rank inp)) = Some (evidence_rank inp)"
    using evidence_rank_bounds [OF True] by simp
  have *: "filter (\<lambda>r. r \<notin> factor_name ` set (ev_factors inp)) required_confidence_factors \<noteq> [] \<longleftrightarrow>
      \<not> set required_confidence_factors \<subseteq> factor_name ` set (ev_factors inp)"
    by (auto simp: filter_empty_conv)
  have **: "filter (\<lambda>f. cf_level f = ConfInsufficient) (ev_factors inp) \<noteq> [] \<longleftrightarrow>
      \<not> (\<forall>f\<in>set (ev_factors inp). cf_level f \<noteq> ConfInsufficient)"
    by (auto simp: filter_empty_conv)
  show ?thesis
    using True rank
    by (simp add: assess_evidence_def Let_def gap_loop factor_loop missing_loop scan_factors_def * **
        evidence_ok_def evidence_usable_def evidence_rank_def [symmetric] not_less [symmetric])
qed

lemma assess_Inr:
  assumes "assess_evidence inp = Inr a"
  shows "evidence_ok inp" "ea_usable a = evidence_usable inp"
    "ea_decision_ready a = (evidence_usable inp \<and> 2 \<le> evidence_rank inp)"
    "ea_confidence a = (if evidence_usable inp then confidence_from_rank (evidence_rank inp) else ConfInsufficient)"
proof -
  note eq = assess_cases [of inp, unfolded assms]
  show "evidence_ok inp" using eq by (auto split: if_splits)
  then have a: "a = \<lparr>ea_confidence = (if evidence_usable inp then confidence_from_rank (evidence_rank inp) else ConfInsufficient),
      ea_usable = evidence_usable inp, ea_decision_ready = (evidence_usable inp \<and> 2 \<le> evidence_rank inp),
      ea_sample_count = ev_sample_count inp, ea_minimum_samples = minimum_samples inp, ea_issues = ea_issues a\<rparr>"
    using eq by simp
  show "ea_usable a = evidence_usable inp" by (subst a) simp
  show "ea_decision_ready a = (evidence_usable inp \<and> 2 \<le> evidence_rank inp)" by (subst a) simp
  show "ea_confidence a = (if evidence_usable inp then confidence_from_rank (evidence_rank inp) else ConfInsufficient)"
    by (subst a) simp
qed

section \<open>Properties\<close>

text \<open>
  C29: The verdict of \<open>AssessEvidence\<close>.  It fails exactly on a blank gap, an unknown or
  repeated factor or an unknown level.  Otherwise the window is usable exactly when it has enough
  samples, no collection gap, no pending attribution, every required factor and no insufficient
  one, and it is ready for a decision exactly when in addition every factor is at least medium.
  An unusable window always has the lowest confidence.
\<close>

theorem evidence_verdict:
  "case assess_evidence inp of
     Inl e \<Rightarrow> e = ErrInvalidEvidence \<and> \<not> evidence_ok inp
   | Inr a \<Rightarrow> evidence_ok inp
       \<and> (ea_usable a \<longleftrightarrow> evidence_usable inp)
       \<and> (ea_decision_ready a \<longleftrightarrow> evidence_usable inp \<and>
            list_all (\<lambda>f. cf_level f = ConfMedium \<or> cf_level f = ConfHigh) (ev_factors inp))
       \<and> ea_confidence a = (if evidence_usable inp then confidence_from_rank (evidence_rank inp) else ConfInsufficient)"
proof (cases "evidence_ok inp")
  case True
  have "2 \<le> factor_rank f \<longleftrightarrow> cf_level f = ConfMedium \<or> cf_level f = ConfHigh" if "f \<in> set (ev_factors inp)" for f
    using True that by (cases "cf_level f") (auto simp: factor_rank_def evidence_ok_def factors_ok_def)
  then have "2 \<le> evidence_rank inp \<longleftrightarrow>
      list_all (\<lambda>f. cf_level f = ConfMedium \<or> cf_level f = ConfHigh) (ev_factors inp)"
    by (auto simp: evidence_rank_def foldl_min_le list_all_iff)
  with True show ?thesis by (subst assess_cases) simp
qed (subst assess_cases, simp)

end
