(* ===== verification/Windows.thy ===== *)
theory Windows imports Evidence begin

text \<open>
  \<open>internal/domain/scoring/windows.go\<close>: the combination of the three scored windows into
  one score, with the weights of unusable windows redistributed among the others.

  The lemmas show that the combined score is a number between 0 and 100, that the redistributed
  weights are proper, that the confidence is bounded by the number of usable windows, and when a
  combination is ready for a decision.
\<close>

section \<open>Combining the windows\<close>

datatype window_issue_reason = WindowMissing | WindowIncomplete

record window_score_input =
  wi_window :: window
  wi_complete :: bool
  wi_scores :: dimension_scores
  wi_evidence :: evidence_input

record window_issue =
  wis_window :: window
  wis_window_reason :: "window_issue_reason option"
  wis_evidence_reason :: "evidence_reason option"
  wis_detail :: string

record combined_window_score =
  cw_policy_version :: string
  cw_available :: bool
  cw_scores :: dimension_scores
  cw_effective_weights :: "window_weight list"
  cw_confidence :: confidence
  cw_decision_ready :: bool
  cw_issues :: "window_issue list"

fun known_window :: "window \<Rightarrow> bool" where
  "known_window Window15Minutes = True"
| "known_window Window1Hour = True"
| "known_window Window24Hours = True"
| "known_window (WindowOther s) = False"

definition index_window ::
  "(window \<rightharpoonup> window_score_input) \<Rightarrow> window_score_input \<Rightarrow> scoring_error + (window \<rightharpoonup> window_score_input)" where
  "index_window m i =
     (if m (wi_window i) \<noteq> None \<or> \<not> known_window (wi_window i) then Inl ErrInvalidWindow
      else Inr (m(wi_window i \<mapsto> i)))"

text \<open>The local variables of the loop over the configured windows.\<close>

record window_scan =
  wsc_usable :: "(window_score_input \<times> f64) list"
  wsc_missing :: int
  wsc_blocked :: bool
  wsc_lowest :: int
  wsc_issues :: "window_issue list"

definition window_only_issue :: "window \<Rightarrow> window_issue_reason \<Rightarrow> window_issue" where
  "window_only_issue w r =
     \<lparr>wis_window = w, wis_window_reason = Some r, wis_evidence_reason = None, wis_detail = []\<rparr>"

definition evidence_window_issue :: "window \<Rightarrow> evidence_issue \<Rightarrow> window_issue" where
  "evidence_window_issue w i =
     \<lparr>wis_window = w, wis_window_reason = None, wis_evidence_reason = Some (ei_reason i),
      wis_detail = ei_detail i\<rparr>"

definition drop_window :: "window_issue list \<Rightarrow> window_scan \<Rightarrow> window_scan" where
  "drop_window is s =
     s\<lparr>wsc_missing := wsc_missing s + 1, wsc_blocked := True, wsc_issues := wsc_issues s @ is\<rparr>"

definition window_step ::
  "(window \<rightharpoonup> window_score_input) \<Rightarrow> window_scan \<Rightarrow> window_weight \<Rightarrow> scoring_error + window_scan" where
  "window_step m s c =
     (case m (ww_window c) of
        None \<Rightarrow> Inr (drop_window [window_only_issue (ww_window c) WindowMissing] s)
      | Some inp \<Rightarrow>
          bindE (assess_evidence (wi_evidence inp)) (\<lambda>a.
          let evidence_issues = map (evidence_window_issue (wi_window inp)) (ea_issues a) in
          if \<not> wi_complete inp \<or> \<not> ea_usable a
          then Inr (drop_window (evidence_issues @
                 (if wi_complete inp then [] else [window_only_issue (wi_window inp) WindowIncomplete])) s)
          else bindE (validate_dimension_scores (wi_scores inp)) (\<lambda>_.
            let rank = (case confidence_rank (ea_confidence a) of None \<Rightarrow> 0 | Some r \<Rightarrow> r) in
            Inr (s\<lparr>wsc_issues := wsc_issues s @ evidence_issues,
                  wsc_lowest := (if rank < wsc_lowest s then rank else wsc_lowest s),
                  wsc_blocked := wsc_blocked s \<or> \<not> ea_decision_ready a,
                  wsc_usable := wsc_usable s @ [(inp, ww_weight c)]\<rparr>))))"

definition zero_scores :: dimension_scores where
  "zero_scores = \<lparr>ds_price = Fin 0, ds_latency = Fin 0, ds_sla = Fin 0, ds_quality = Fin 0\<rparr>"

definition add_scores :: "f64 \<Rightarrow> dimension_scores \<Rightarrow> window_score_input \<times> f64 \<Rightarrow> dimension_scores" where
  "add_scores weight_total acc u =
     (let w = f_div (snd u) weight_total; s = wi_scores (fst u) in
      \<lparr>ds_price = f_add (ds_price acc) (f_mul (ds_price s) w),
       ds_latency = f_add (ds_latency acc) (f_mul (ds_latency s) w),
       ds_sla = f_add (ds_sla acc) (f_mul (ds_sla s) w),
       ds_quality = f_add (ds_quality acc) (f_mul (ds_quality s) w)\<rparr>)"

definition clamp_scores :: "dimension_scores \<Rightarrow> dimension_scores" where
  "clamp_scores s =
     \<lparr>ds_price = clamp_score (ds_price s), ds_latency = clamp_score (ds_latency s),
      ds_sla = clamp_score (ds_sla s), ds_quality = clamp_score (ds_quality s)\<rparr>"

definition window_scan0 :: window_scan where
  "window_scan0 = \<lparr>wsc_usable = [], wsc_missing = 0, wsc_blocked = False, wsc_lowest = 3, wsc_issues = []\<rparr>"

text \<open>The tail of \<open>CombineWindowScores\<close>, after the loop over the configured windows.\<close>

definition finish_windows :: "window_scan \<Rightarrow> combined_window_score" where
  "finish_windows s =
     (if wsc_usable s = []
      then \<lparr>cw_policy_version = policy_version_m2, cw_available = False, cw_scores = zero_scores,
            cw_effective_weights = [], cw_confidence = ConfInsufficient, cw_decision_ready = False,
            cw_issues = wsc_issues s\<rparr>
      else let weight_total = foldl (\<lambda>t u. f_add t (snd u)) (Fin 0) (wsc_usable s);
               conf = lower_confidence (confidence_from_rank (wsc_lowest s)) (wsc_missing s) in
        \<lparr>cw_policy_version = policy_version_m2, cw_available = True,
         cw_scores = clamp_scores (foldl (add_scores weight_total) zero_scores (wsc_usable s)),
         cw_effective_weights = map (\<lambda>u. \<lparr>ww_window = wi_window (fst u), ww_weight = f_div (snd u) weight_total\<rparr>) (wsc_usable s),
         cw_confidence = conf,
         cw_decision_ready = (\<not> wsc_blocked s
           \<and> (case confidence_rank conf of None \<Rightarrow> False | Some r \<Rightarrow> 2 \<le> r)),
         cw_issues = wsc_issues s\<rparr>)"

definition combine_window_scores :: "window_score_input list \<Rightarrow> scoring_error + combined_window_score" where
  "combine_window_scores inputs =
     bindE (foldE index_window Map.empty inputs) (\<lambda>m.
     bindE (foldE (window_step m) window_scan0 default_window_weights) (\<lambda>s.
     Inr (finish_windows s)))"

section \<open>The loops in closed form\<close>

definition windows_ok :: "window_score_input list \<Rightarrow> bool" where
  "windows_ok ins \<longleftrightarrow> distinct (map wi_window ins) \<and> list_all (\<lambda>i. known_window (wi_window i)) ins"

definition by_window :: "window_score_input list \<Rightarrow> window \<rightharpoonup> window_score_input" where
  "by_window ins = map_of (map (\<lambda>i. (wi_window i, i)) ins)"

lemma by_window_simps [simp]:
  "by_window [] = Map.empty" "by_window (i # ins) = (by_window ins)(wi_window i \<mapsto> i)"
  by (simp_all add: by_window_def)

lemma by_window_Some: "by_window ins w = Some i \<Longrightarrow> i \<in> set ins \<and> wi_window i = w"
  by (auto simp: by_window_def dest!: map_of_SomeD)

lemma by_window_dom: "by_window ins w = None \<longleftrightarrow> w \<notin> wi_window ` set ins"
  by (auto simp: by_window_def map_of_eq_None_iff image_image)

lemma by_window_in: "distinct (map wi_window ins) \<Longrightarrow> i \<in> set ins \<Longrightarrow> by_window ins (wi_window i) = Some i"
  by (induction ins) (auto, metis imageI)

lemma index_loop:
  "foldE index_window m ins =
     (if windows_ok ins \<and> list_all (\<lambda>i. m (wi_window i) = None) ins then Inr (m ++ by_window ins)
      else Inl ErrInvalidWindow)"
proof (induction ins arbitrary: m)
  case Nil
  show ?case by (simp add: windows_ok_def)
next
  case (Cons i ins)
  show ?case
  proof (cases "m (wi_window i) \<noteq> None \<or> \<not> known_window (wi_window i)")
    case True
    then show ?thesis by (auto simp: index_window_def windows_ok_def)
  next
    case False
    let ?m = "m(wi_window i \<mapsto> i)"
    have eq: "windows_ok (i # ins) \<and> list_all (\<lambda>i. m (wi_window i) = None) (i # ins) \<longleftrightarrow>
        windows_ok ins \<and> list_all (\<lambda>i. ?m (wi_window i) = None) ins"
      using False by (auto simp: windows_ok_def list_all_iff) (metis imageI)+
    have add: "?m ++ by_window ins = m ++ by_window (i # ins)" if "list_all (\<lambda>j. ?m (wi_window j) = None) ins"
    proof -
      have "wi_window i \<notin> wi_window ` set ins" using that by (auto simp: list_all_iff)
      then have "by_window ins (wi_window i) = None" by (simp add: by_window_dom)
      then show ?thesis by (auto simp: map_add_def fun_eq_iff split: option.splits)
    qed
    have "foldE index_window ?m ins = (if windows_ok (i # ins) \<and> list_all (\<lambda>i. m (wi_window i) = None) (i # ins)
        then Inr (m ++ by_window (i # ins)) else Inl ErrInvalidWindow)"
    proof (cases "windows_ok ins \<and> list_all (\<lambda>i. ?m (wi_window i) = None) ins")
      case True
      show ?thesis unfolding Cons.IH [of ?m] eq if_P [OF True] by (rule arg_cong [OF add [OF conjunct2 [OF True]]])
    next
      case False
      show ?thesis unfolding Cons.IH [of ?m] eq if_not_P [OF False] ..
    qed
    moreover have "index_window m i = Inr ?m" using False by (simp add: index_window_def)
    ultimately show ?thesis by (simp only: foldE.simps bindE.simps)
  qed
qed

text \<open>A window that counts for the score, and one that is ready for a decision.\<close>

definition window_usable :: "window_score_input option \<Rightarrow> bool" where
  "window_usable x \<longleftrightarrow> (case x of None \<Rightarrow> False | Some i \<Rightarrow> wi_complete i \<and> evidence_usable (wi_evidence i))"

definition window_ready :: "window_score_input option \<Rightarrow> bool" where
  "window_ready x \<longleftrightarrow> (case x of None \<Rightarrow> False
     | Some i \<Rightarrow> wi_complete i \<and> evidence_usable (wi_evidence i) \<and> 2 \<le> evidence_rank (wi_evidence i))"

lemma window_step_effect:
  assumes "window_step m s c = Inr t"
  shows "if window_usable (m (ww_window c))
    then (\<exists>i. m (ww_window c) = Some i \<and> validate_dimension_scores (wi_scores i) = Inr ()
        \<and> wsc_usable t = wsc_usable s @ [(i, ww_weight c)]
        \<and> wsc_lowest t = min (evidence_rank (wi_evidence i)) (wsc_lowest s)
        \<and> 0 \<le> evidence_rank (wi_evidence i) \<and> evidence_rank (wi_evidence i) \<le> 3)
      \<and> wsc_missing t = wsc_missing s \<and> wsc_blocked t = (wsc_blocked s \<or> \<not> window_ready (m (ww_window c)))
    else wsc_usable t = wsc_usable s \<and> wsc_missing t = wsc_missing s + 1 \<and> wsc_blocked t
      \<and> wsc_lowest t = wsc_lowest s \<and> \<not> window_ready (m (ww_window c))"
proof (cases "m (ww_window c)")
  case None
  then show ?thesis using assms
    by (auto simp: window_step_def drop_window_def window_usable_def window_ready_def)
next
  case (Some i)
  then obtain a where a: "assess_evidence (wi_evidence i) = Inr a"
    using assms by (auto simp: window_step_def)
  note b = assess_Inr [OF a]
  note r = evidence_rank_bounds [OF b(1)]
  show ?thesis
    using assms Some a b r
    by (auto simp: window_step_def drop_window_def window_usable_def window_ready_def Let_def min_def
        split: if_splits)
qed

text \<open>The weights of the usable windows, as machine numbers.\<close>

definition window_weight_ok :: "f64 \<Rightarrow> bool" where
  "window_weight_ok w \<longleftrightarrow> (\<exists>q. w = Fin q \<and> rnd q = q \<and> pow2 (- 3) \<le> q \<and> q \<le> 1)"

lemma default_weights_ok: "list_all (\<lambda>c. window_weight_ok (ww_weight c)) default_window_weights"
proof -
  have "window_weight_ok (nearest q)" if "1 / 8 \<le> q" "q \<le> 1" for q
  proof -
    have "nearest q = Fin (rnd q)" using that by (intro nearest_small) simp
    moreover have "pow2 (- 3) \<le> rnd q" using that by (intro rnd_ge_pow2) (simp_all add: pow2_def)
    moreover have "rnd q \<le> 1" using rnd_mono [of q 1] that by simp
    ultimately show ?thesis by (simp add: window_weight_ok_def)
  qed
  then show ?thesis by (simp add: default_window_weights_def)
qed

lemma weight_fold:
  assumes "list_all (\<lambda>u. window_weight_ok (snd u)) us" "0 \<le> a" "a \<le> of_nat n" "n + length us \<le> 100"
  shows "\<exists>t. foldl (\<lambda>t u. f_add t (snd u)) (Fin a) us = Fin t \<and> (rnd a = a \<longrightarrow> a \<le> t)
    \<and> (\<forall>q. Fin q \<in> snd ` set us \<longrightarrow> q \<le> t) \<and> t \<le> of_nat (n + length us)"
  using assms
proof (induction us arbitrary: a n)
  case (Cons u us)
  then obtain q where q: "snd u = Fin q" "rnd q = q" "pow2 (- 3) \<le> q" "q \<le> 1"
    by (auto simp: window_weight_ok_def)
  have q0: "0 < q" using q(3) pow2_pos(1) [of "- 3"] by linarith
  have n: "n \<le> 100" using Cons.prems(4) by simp
  have le: "a + q \<le> of_nat (Suc n)" using Cons.prems(3) q(4) by simp
  have "(of_nat (Suc n) :: rat) \<le> 101" using n by linarith
  then have "f_add (Fin a) (Fin q) = Fin (rnd (a + q))"
    using le Cons.prems(2) q0 by (intro f_add_small) linarith+
  moreover have "rnd (a + q) \<le> of_nat (Suc n)"
    using binary64.int_bounds [of 0 "a + q" "int (Suc n)"] le Cons.prems(2) q0 n by simp
  moreover have "q \<le> rnd (a + q)" "0 \<le> rnd (a + q)" "rnd a \<le> rnd (a + q)"
    using rnd_mono [of q "a + q"] rnd_mono [of a "a + q"] q q0 Cons.prems(2) by auto
  moreover obtain t where "foldl (\<lambda>t u. f_add t (snd u)) (Fin (rnd (a + q))) us = Fin t" "rnd (a + q) \<le> t"
    "\<forall>q. Fin q \<in> snd ` set us \<longrightarrow> q \<le> t" "t \<le> of_nat (Suc n + length us)"
    using Cons.IH [of "rnd (a + q)" "Suc n"] Cons.prems calculation by auto
  ultimately show ?case using q(1) by (auto simp del: f_add.simps)
qed auto

lemma effective_weight:
  assumes "window_weight_ok w" "w = Fin q" "q \<le> t" "t \<le> 3"
  shows "\<exists>e. f_div w (Fin t) = Fin e \<and> 0 < e \<and> e \<le> 1"
proof -
  have q: "pow2 (- 3) \<le> q" using assms(1,2) by (simp add: window_weight_ok_def)
  then have q8: "1 / 8 \<le> q" by (simp add: pow2_def)
  then have t: "0 < t" using assms(3) by simp
  have "q / t \<le> 1" "0 < q / t" using t q8 assms(3) by (simp_all add: divide_le_eq)
  moreover have "pow2 (- 5) \<le> q / t"
  proof -
    have "1 / 32 * t \<le> q" using q8 assms(4) by linarith
    then show ?thesis using t by (simp add: pow2_def le_divide_eq)
  qed
  ultimately have "nearest (q / t) = Fin (rnd (q / t))" "pow2 (- 5) \<le> rnd (q / t)" "rnd (q / t) \<le> 1"
    using rnd_mono [of "q / t" 1] by (auto intro: nearest_small rnd_ge_pow2)
  moreover from this(2) have "0 < rnd (q / t)" using pow2_pos(1) [of "- 5"] by linarith
  ultimately show ?thesis using assms(2) t by simp
qed

lemma bounded_fold:
  assumes "\<forall>u\<in>set us. \<exists>q. g u = Fin q \<and> 0 \<le> q \<and> q \<le> 100" "0 \<le> a" "a \<le> of_nat (100 * n)" "n + length us < 100"
  shows "\<exists>b. foldl (\<lambda>a u. f_add a (g u)) (Fin a) us = Fin b"
  using assms
proof (induction us arbitrary: a n)
  case (Cons u us)
  then obtain q where q: "g u = Fin q" "0 \<le> q" "q \<le> 100" by auto
  have n: "n < 99" using Cons.prems(4) by simp
  have le: "a + q \<le> of_nat (100 * Suc n)" using Cons.prems(3) q(3) by simp
  have "(of_nat (100 * Suc n) :: rat) \<le> of_nat 10000" using n by (intro of_nat_mono) simp
  then have add: "f_add (Fin a) (Fin q) = Fin (rnd (a + q))"
    using le Cons.prems(2) q by (intro f_add_small) simp_all
  have "0 \<le> rnd (a + q) \<and> rnd (a + q) \<le> of_nat (100 * Suc n)"
    using binary64.int_bounds [of 0 "a + q" "int (100 * Suc n)"] le Cons.prems(2) q n by simp
  then show ?case
    using Cons.IH [of "rnd (a + q)" "Suc n"] Cons.prems q add by (simp del: f_add.simps)
qed auto

lemma add_scores_fold:
  "ds_price (foldl (add_scores T) acc us) =
     foldl (\<lambda>a u. f_add a (f_mul (ds_price (wi_scores (fst u))) (f_div (snd u) T))) (ds_price acc) us"
  "ds_latency (foldl (add_scores T) acc us) =
     foldl (\<lambda>a u. f_add a (f_mul (ds_latency (wi_scores (fst u))) (f_div (snd u) T))) (ds_latency acc) us"
  "ds_sla (foldl (add_scores T) acc us) =
     foldl (\<lambda>a u. f_add a (f_mul (ds_sla (wi_scores (fst u))) (f_div (snd u) T))) (ds_sla acc) us"
  "ds_quality (foldl (add_scores T) acc us) =
     foldl (\<lambda>a u. f_add a (f_mul (ds_quality (wi_scores (fst u))) (f_div (snd u) T))) (ds_quality acc) us"
  by (induction us arbitrary: acc) (simp_all add: add_scores_def Let_def)

text \<open>The loop over the configured windows.\<close>

lemma window_loop:
  assumes "foldE (window_step m) s cs = Inr t"
  defines "us \<equiv> filter (\<lambda>c. window_usable (m (ww_window c))) cs"
  shows "wsc_usable t = wsc_usable s @ map (\<lambda>c. (the (m (ww_window c)), ww_weight c)) us
    \<and> wsc_missing t = wsc_missing s + (int (length cs) - int (length us))
    \<and> (wsc_blocked t \<longleftrightarrow> wsc_blocked s \<or> \<not> list_all (\<lambda>c. window_ready (m (ww_window c))) cs)
    \<and> wsc_lowest t = foldl min (wsc_lowest s) (map (\<lambda>c. evidence_rank (wi_evidence (the (m (ww_window c))))) us)
    \<and> list_all (\<lambda>c. validate_dimension_scores (wi_scores (the (m (ww_window c)))) = Inr ()
        \<and> 0 \<le> evidence_rank (wi_evidence (the (m (ww_window c))))) us"
  using assms(1) unfolding us_def
proof (induction cs arbitrary: s)
  case (Cons c cs)
  then obtain u where u: "window_step m s c = Inr u" "foldE (window_step m) u cs = Inr t" by auto
  show ?case
    using Cons.IH [OF u(2)] window_step_effect [OF u(1)]
    by (cases "window_usable (m (ww_window c))") (auto simp: min.commute)
qed simp

lemma combine_Inr:
  assumes "combine_window_scores ins = Inr r"
  obtains t where "windows_ok ins" "foldE (window_step (by_window ins)) window_scan0 default_window_weights = Inr t"
    "r = finish_windows t"
  using assms by (auto simp: combine_window_scores_def index_loop split: if_splits)

lemma usable_window_input:
  assumes "windows_ok ins" "window_usable (by_window ins w)"
  shows "wi_window (the (by_window ins w)) = w"
  using assms by (auto simp: window_usable_def dest!: by_window_Some split: option.splits)

lemma combine_valid:
  assumes "combine_window_scores ins = Inr r"
  shows "validate_dimension_scores (cw_scores r) = Inr ()
    \<and> list_all (\<lambda>w. \<exists>q. ww_weight w = Fin q \<and> 0 < q \<and> q \<le> 1) (cw_effective_weights r)"
proof -
  obtain t where t: "foldE (window_step (by_window ins)) window_scan0 default_window_weights = Inr t"
    and r: "r = finish_windows t"
    by (rule combine_Inr [OF assms])
  let ?us = "wsc_usable t"
  note loop = window_loop [OF t]
  have len: "length ?us \<le> 3" using loop by (simp add: window_scan0_def default_window_weights_def)
  have ok: "list_all (\<lambda>u. window_weight_ok (snd u)) ?us"
    and sc: "list_all (\<lambda>u. validate_dimension_scores (wi_scores (fst u)) = Inr ()) ?us"
    using loop default_weights_ok by (auto simp: window_scan0_def list_all_iff)
  obtain T where T: "foldl (\<lambda>t u. f_add t (snd u)) (Fin 0) ?us = Fin T"
    "\<forall>q. Fin q \<in> snd ` set ?us \<longrightarrow> q \<le> T" "T \<le> of_nat (length ?us)"
    using weight_fold [OF ok, of 0 0] len by auto
  have T3: "T \<le> 3" using T(3) len by (metis of_nat_mono of_nat_numeral order_trans)
  have ew: "\<exists>e. f_div (snd u) (Fin T) = Fin e \<and> 0 < e \<and> e \<le> 1" if "u \<in> set ?us" for u
  proof -
    obtain q where "window_weight_ok (snd u)" "snd u = Fin q"
      using ok \<open>u \<in> set ?us\<close> by (auto simp: list_all_iff window_weight_ok_def)
    moreover have "q \<le> T" using T(2) \<open>u \<in> set ?us\<close> \<open>snd u = Fin q\<close> by (metis image_eqI)
    ultimately show ?thesis using effective_weight T3 by blast
  qed
  have prod: "\<exists>q. f_mul x (f_div (snd u) (Fin T)) = Fin q \<and> 0 \<le> q \<and> q \<le> 100"
    if u: "u \<in> set ?us" and "valid_score x" for u x
    using ew [OF u] weighted_term [OF \<open>valid_score x\<close>] by fastforce
  have fold: "\<exists>b. foldl (\<lambda>a u. f_add a (f_mul (f (wi_scores (fst u))) (f_div (snd u) (Fin T)))) (Fin 0) ?us = Fin b"
    if "\<And>u. u \<in> set ?us \<Longrightarrow> valid_score (f (wi_scores (fst u)))" for f
    using that len prod by (intro bounded_fold [where n = 0]) auto
  have vs: "valid_score (ds_price (wi_scores (fst u)))" "valid_score (ds_latency (wi_scores (fst u)))"
    "valid_score (ds_sla (wi_scores (fst u)))" "valid_score (ds_quality (wi_scores (fst u)))" if "u \<in> set ?us" for u
    using sc that by (auto simp: list_all_iff validate_dimension_scores_def split: if_splits)
  have "validate_dimension_scores (clamp_scores (foldl (add_scores (Fin T)) zero_scores ?us)) = Inr ()"
    using fold [of ds_price] fold [of ds_latency] fold [of ds_sla] fold [of ds_quality] vs
    by (auto simp: validate_dimension_scores_def clamp_scores_def add_scores_fold zero_scores_def)
  moreover have "validate_dimension_scores zero_scores = Inr ()"
    by (simp add: validate_dimension_scores_def zero_scores_def valid_score_iff)
  ultimately show ?thesis using r T(1) ew by (auto simp: finish_windows_def Let_def list_all_iff)
qed

lemmas combine_scores_valid = combine_valid [THEN conjunct1]

section \<open>Properties\<close>

text \<open>
  A combined score that the code returns is well formed: its four scores are numbers between
  0 and 100, and every redistributed weight is a positive number of at most 1, whichever windows
  are missing.
\<close>

theorem combined_scores_valid:
  assumes "combine_window_scores ins = Inr r"
  shows "validate_dimension_scores (cw_scores r) = Inr ()
    \<and> list_all (\<lambda>w. \<exists>q. ww_weight w = Fin q \<and> 0 < q \<and> q \<le> 1) (cw_effective_weights r)"
  by (rule combine_valid [OF assms])

text \<open>
  What the missing windows cost.  A combination is available exactly when some window is
  usable, its weights are those of the usable windows in their configured order, and its
  confidence is the lowest one among them, lowered by one level for each of the three windows
  that is not usable (and never below insufficient).
\<close>

theorem combined_confidence_drops:
  assumes "combine_window_scores ins = Inr r"
  defines "usable \<equiv> filter (\<lambda>w. window_usable (by_window ins w)) [Window15Minutes, Window1Hour, Window24Hours]"
  shows "(cw_available r \<longleftrightarrow> usable \<noteq> []) \<and> map ww_window (cw_effective_weights r) = usable \<and>
    (cw_available r \<longrightarrow> confidence_rank (cw_confidence r) =
       Some (max 0 (foldl min 3 (map (\<lambda>w. evidence_rank (wi_evidence (the (by_window ins w)))) usable)
         - (3 - int (length usable)))))"
proof -
  obtain t where ok: "windows_ok ins" and t: "foldE (window_step (by_window ins)) window_scan0 default_window_weights = Inr t"
    and r: "r = finish_windows t"
    by (rule combine_Inr [OF assms(1)])
  note loop = window_loop [OF t]
  let ?us = "filter (\<lambda>c. window_usable (by_window ins (ww_window c))) default_window_weights"
  let ?low = "foldl min 3 (map (\<lambda>w. evidence_rank (wi_evidence (the (by_window ins w)))) usable)"
  have u: "map ww_window ?us = usable"
    by (simp add: usable_def default_window_weights_def)
  have us: "wsc_usable t = map (\<lambda>c. (the (by_window ins (ww_window c)), ww_weight c)) ?us"
    using loop by (simp add: window_scan0_def)
  have len: "length ?us = length usable" using u by (metis length_map)
  have ne: "wsc_usable t = [] \<longleftrightarrow> usable = []" by (simp only: us u [symmetric] map_is_Nil_conv)
  have names: "map (\<lambda>u. wi_window (fst u)) (wsc_usable t) = usable"
    unfolding us u [symmetric] using usable_window_input [OF ok] by simp
  have miss: "wsc_missing t = 3 - int (length usable)"
    using loop len by (simp add: window_scan0_def default_window_weights_def)
  have low: "wsc_lowest t = ?low"
    using loop by (simp add: window_scan0_def u [symmetric] comp_def)
  have ge: "0 \<le> ?low"
    using loop by (auto simp: foldl_min_le u [symmetric] list_all_iff)
  have "?low \<le> 3" by (rule foldl_min_start)
  then have "confidence_rank (lower_confidence (confidence_from_rank ?low) (3 - int (length usable))) =
      Some (max 0 (?low - (3 - int (length usable))))"
    using ge by (simp add: lower_confidence_def) (auto simp: confidence_from_rank_def len [symmetric] default_window_weights_def)
  then show ?thesis
    using r ne names miss low by (auto simp: finish_windows_def Let_def comp_def)
qed

text \<open>
  A combination is ready for a decision exactly when all three windows were given, complete,
  with usable evidence whose factors are all at least of medium confidence.  One missing window
  is enough to hold every definite advice back.
\<close>

theorem combined_decision_ready:
  assumes "combine_window_scores ins = Inr r"
  shows "cw_decision_ready r \<longleftrightarrow>
    list_all (\<lambda>w. window_ready (by_window ins w)) [Window15Minutes, Window1Hour, Window24Hours]"
proof -
  obtain t where t: "foldE (window_step (by_window ins)) window_scan0 default_window_weights = Inr t"
    and r: "r = finish_windows t"
    by (rule combine_Inr [OF assms])
  note loop = window_loop [OF t]
  let ?ready = "\<lambda>c. window_ready (by_window ins (ww_window c))"
  have b: "wsc_blocked t \<longleftrightarrow> \<not> list_all ?ready default_window_weights"
    using loop by (simp add: window_scan0_def)
  have "list_all (\<lambda>w. window_ready (by_window ins w)) [Window15Minutes, Window1Hour, Window24Hours] \<longleftrightarrow>
      list_all ?ready default_window_weights"
    by (simp add: default_window_weights_def)
  moreover have "cw_decision_ready r" if all: "list_all ?ready default_window_weights"
  proof -
    let ?rank = "\<lambda>c. evidence_rank (wi_evidence (the (by_window ins (ww_window c))))"
    have u: "window_usable (by_window ins w) \<and> 2 \<le> evidence_rank (wi_evidence (the (by_window ins w)))"
      if "window_ready (by_window ins w)" for w
      using that by (auto simp: window_ready_def window_usable_def split: option.splits)
    then have f: "filter (\<lambda>c. window_usable (by_window ins (ww_window c))) default_window_weights = default_window_weights"
      using all by (auto simp: filter_id_conv list_all_iff)
    have d: "default_window_weights \<noteq> []" "length default_window_weights = 3"
      by (simp_all add: default_window_weights_def)
    have "wsc_missing t = 0" "wsc_usable t \<noteq> []" "wsc_lowest t = foldl min 3 (map ?rank default_window_weights)"
      using loop d unfolding f by (simp_all add: window_scan0_def)
    moreover have "2 \<le> foldl min 3 (map ?rank default_window_weights)"
      using all u by (auto simp: foldl_min_le list_all_iff)
    moreover have "foldl min 3 (map ?rank default_window_weights) \<le> 3"
      by (rule foldl_min_start)
    ultimately show ?thesis
      using r b all by (simp add: finish_windows_def Let_def lower_confidence_def)
  qed
  moreover have "\<not> cw_decision_ready r" if "wsc_blocked t"
    using r that by (simp add: finish_windows_def Let_def)
  ultimately show ?thesis using b by blast
qed

section \<open>Witnesses\<close>

text \<open>Two complete windows with strong evidence; the third one is missing.\<close>

definition sample_evidence :: evidence_input where
  "sample_evidence = \<lparr>ev_sample_count = 60, ev_minimum_samples = 0,
     ev_factors = map (\<lambda>n. \<lparr>cf_name = n, cf_level = ConfHigh\<rparr>) required_confidence_factors,
     ev_collection_gaps = [], ev_attribution_pending = False\<rparr>"

definition sample_window :: "window \<Rightarrow> window_score_input" where
  "sample_window w = \<lparr>wi_window = w, wi_complete = True, wi_scores = zero_scores, wi_evidence = sample_evidence\<rparr>"

definition sample_windows :: "window_score_input list" where
  "sample_windows = [sample_window Window15Minutes, sample_window Window1Hour]"

lemma sample_evidence_assessed:
  "assess_evidence sample_evidence =
     Inr \<lparr>ea_confidence = ConfHigh, ea_usable = True, ea_decision_ready = True, ea_sample_count = 60,
          ea_minimum_samples = 50, ea_issues = []\<rparr>"
  by code_simp

lemma sample_evidence_usable: "evidence_usable sample_evidence" "evidence_rank sample_evidence = 3"
  using assess_Inr [OF sample_evidence_assessed]
  by (simp_all add: evidence_rank_def sample_evidence_def required_confidence_factors_def factor_rank_def)

lemma sample_windows_combined: "\<exists>r. combine_window_scores sample_windows = Inr r"
proof -
  have "validate_dimension_scores zero_scores = Inr ()"
    by (simp add: validate_dimension_scores_def zero_scores_def valid_score_iff)
  then show ?thesis
    by (simp add: combine_window_scores_def sample_windows_def sample_window_def index_window_def
        default_window_weights_def window_step_def sample_evidence_assessed Let_def)
qed

lemma sample_windows_usable:
  "filter (\<lambda>w. window_usable (by_window sample_windows w)) [Window15Minutes, Window1Hour, Window24Hours] =
     [Window15Minutes, Window1Hour]"
  by (simp add: sample_windows_def sample_window_def window_usable_def sample_evidence_usable)

theorem combined_scores_valid_witness:
  "\<exists>r. combine_window_scores sample_windows = Inr r \<and> validate_dimension_scores (cw_scores r) = Inr ()"
  using sample_windows_combined combined_scores_valid by blast

theorem combined_confidence_drops_witness:
  "\<exists>r. combine_window_scores sample_windows = Inr r \<and> confidence_rank (cw_confidence r) = Some 2"
proof -
  obtain r where r: "combine_window_scores sample_windows = Inr r" using sample_windows_combined by blast
  then show ?thesis
    using combined_confidence_drops [OF r] unfolding sample_windows_usable
    by (simp add: sample_windows_def sample_window_def sample_evidence_usable)
qed

theorem combined_decision_ready_witness:
  "\<exists>r. combine_window_scores sample_windows = Inr r \<and> \<not> cw_decision_ready r"
proof -
  obtain r where r: "combine_window_scores sample_windows = Inr r" using sample_windows_combined by blast
  then show ?thesis
    using combined_decision_ready [OF r] by (simp add: sample_windows_def sample_window_def window_ready_def)
qed

end
