(* ===== verification/Recommendation.thy ===== *)
theory Recommendation imports Windows begin

text \<open>
  \<open>internal/domain/scoring/gates.go\<close> and \<open>recommendation.go\<close>: the hard gates and the
  shadow advice for one supplier, model and strategy.

  The lemmas show that hard gates dominate every score, what each definite advice implies, that
  scores between the two thresholds never change membership, and that advice never fails on
  combined windows under a valid policy.
\<close>

section \<open>Hard gates\<close>

text \<open>The string \<open>""\<close> of an unset check counts as pending.\<close>

datatype check_state = CheckUnset | CheckPending | CheckPass | CheckFail | CheckOther string

datatype gate_reason = GateAuthenticityMismatch | GateCredentialInvalid | GateBalanceUnavailable
  | GateConsecutiveFailures | GateMajorRisk

record hard_gate_input =
  hg_authenticity :: "authenticity option"
  hg_credential_valid :: check_state
  hg_balance_available :: check_state
  hg_major_risk_absent :: check_state
  hg_consecutive_failures :: "64 word"

record hard_gate_policy =
  hp_consecutive_failure_limit :: "64 word"

definition default_hard_gate_policy :: hard_gate_policy where
  "default_hard_gate_policy = \<lparr>hp_consecutive_failure_limit = default_consecutive_failure_limit\<rparr>"

record hard_gate_result =
  hr_excluded :: bool
  hr_reasons :: "gate_reason list"
  hr_pending :: "gate_reason list"

fun collect_check :: "check_state \<Rightarrow> gate_reason \<Rightarrow> hard_gate_result \<Rightarrow> scoring_error + hard_gate_result" where
  "collect_check CheckUnset reason r = Inr (r\<lparr>hr_pending := hr_pending r @ [reason]\<rparr>)"
| "collect_check CheckPending reason r = Inr (r\<lparr>hr_pending := hr_pending r @ [reason]\<rparr>)"
| "collect_check CheckPass reason r = Inr r"
| "collect_check CheckFail reason r = Inr (r\<lparr>hr_reasons := hr_reasons r @ [reason]\<rparr>)"
| "collect_check (CheckOther s) reason r = Inl ErrInvalidMetric"

text \<open>The switch on the authenticity, where \<open>None\<close> is the empty string.\<close>

fun collect_authenticity :: "authenticity option \<Rightarrow> hard_gate_result \<Rightarrow> scoring_error + hard_gate_result" where
  "collect_authenticity None r = Inr (r\<lparr>hr_pending := hr_pending r @ [GateAuthenticityMismatch]\<rparr>)"
| "collect_authenticity (Some AuthPending) r = Inr (r\<lparr>hr_pending := hr_pending r @ [GateAuthenticityMismatch]\<rparr>)"
| "collect_authenticity (Some AuthInconsistent) r = Inr (r\<lparr>hr_reasons := hr_reasons r @ [GateAuthenticityMismatch]\<rparr>)"
| "collect_authenticity (Some AuthConsistent) r = Inr r"
| "collect_authenticity (Some AuthSuspicious) r = Inr r"
| "collect_authenticity (Some (AuthOther s)) r = Inl ErrInvalidMetric"

definition evaluate_hard_gates :: "hard_gate_input \<Rightarrow> hard_gate_policy \<Rightarrow> scoring_error + hard_gate_result" where
  "evaluate_hard_gates inp policy =
     (if hp_consecutive_failure_limit policy = 0 then Inl ErrInvalidRules
      else bindE (collect_authenticity (hg_authenticity inp) \<lparr>hr_excluded = False, hr_reasons = [], hr_pending = []\<rparr>) (\<lambda>r1.
        bindE (collect_check (hg_credential_valid inp) GateCredentialInvalid r1) (\<lambda>r2.
        bindE (collect_check (hg_balance_available inp) GateBalanceUnavailable r2) (\<lambda>r3.
        let r4 = (if hp_consecutive_failure_limit policy \<le> hg_consecutive_failures inp
                  then r3\<lparr>hr_reasons := hr_reasons r3 @ [GateConsecutiveFailures]\<rparr> else r3) in
        bindE (collect_check (hg_major_risk_absent inp) GateMajorRisk r4) (\<lambda>r5.
        Inr (r5\<lparr>hr_excluded := hr_reasons r5 \<noteq> []\<rparr>))))))"

section \<open>Advice\<close>

record recommendation_policy =
  rp_version :: string
  rp_join_threshold :: score
  rp_exit_threshold :: score
  rp_required_consecutive :: "64 word"
  rp_hard_gates :: hard_gate_policy

record recommendation_input =
  ri_auto_kind :: auto_kind
  ri_current_member :: bool
  ri_windows :: combined_window_score
  ri_hard_gates :: hard_gate_input
  ri_consecutive_join :: "64 word"
  ri_consecutive_exit :: "64 word"

datatype advice_reason = AdviceHardGateFailed | AdviceHardGatePending | AdviceEvidenceNotReady
  | AdviceJoinThresholdMet | AdviceJoinConfirmationPending | AdviceMemberWithinExitLine
  | AdviceExitThresholdMet | AdviceExitConfirmationPending | AdviceBelowJoinThreshold

text \<open>The zero value of the action and of the weights are \<open>AdviceOther []\<close> and zeros.\<close>

record shadow_advice =
  sa_action :: advice_action
  sa_policy_version :: string
  sa_auto_kind :: auto_kind
  sa_current_member :: bool
  sa_composite_score :: "score option"
  sa_dimension_scores :: dimension_scores
  sa_strategy_weights :: auto_weights
  sa_window_weights :: "window_weight list"
  sa_confidence :: confidence
  sa_reasons :: "advice_reason list"
  sa_hard_reasons :: "gate_reason list"
  sa_pending_hard_gates :: "gate_reason list"
  sa_window_issues :: "window_issue list"

definition validate_recommendation_policy :: "recommendation_policy \<Rightarrow> scoring_error + unit" where
  "validate_recommendation_policy p =
     (if \<not> valid_score (rp_join_threshold p) \<or> \<not> valid_score (rp_exit_threshold p)
        \<or> f_le (rp_join_threshold p) (rp_exit_threshold p) \<or> rp_required_consecutive p = 0
      then Inl ErrInvalidRecommendation else Inr ())"

definition advise :: "shadow_advice \<Rightarrow> advice_action \<Rightarrow> advice_reason \<Rightarrow> shadow_advice" where
  "advise a act reason = a\<lparr>sa_action := act, sa_reasons := [reason]\<rparr>"

definition advise_current_member ::
  "shadow_advice \<Rightarrow> recommendation_input \<Rightarrow> recommendation_policy \<Rightarrow> score \<Rightarrow> shadow_advice" where
  "advise_current_member a inp policy composite =
     (if f_le (rp_exit_threshold policy) composite then advise a AdviceKeep AdviceMemberWithinExitLine
      else if rp_required_consecutive policy \<le> ri_consecutive_exit inp
      then advise a AdviceExit AdviceExitThresholdMet
      else advise a AdviceWatch AdviceExitConfirmationPending)"

definition advise_candidate ::
  "shadow_advice \<Rightarrow> recommendation_input \<Rightarrow> recommendation_policy \<Rightarrow> score \<Rightarrow> shadow_advice" where
  "advise_candidate a inp policy composite =
     (if f_lt composite (rp_join_threshold policy) then advise a AdviceWatch AdviceBelowJoinThreshold
      else if rp_required_consecutive policy \<le> ri_consecutive_join inp
      then advise a AdviceJoin AdviceJoinThresholdMet
      else advise a AdviceWatch AdviceJoinConfirmationPending)"

definition zero_weights :: auto_weights where
  "zero_weights = \<lparr>aw_price = Fin 0, aw_latency = Fin 0, aw_sla = Fin 0, aw_quality = Fin 0\<rparr>"

definition initial_advice :: "recommendation_input \<Rightarrow> recommendation_policy \<Rightarrow> hard_gate_result \<Rightarrow> shadow_advice" where
  "initial_advice inp policy gates =
     \<lparr>sa_action = AdviceOther [], sa_policy_version = rp_version policy, sa_auto_kind = ri_auto_kind inp,
      sa_current_member = ri_current_member inp, sa_composite_score = None,
      sa_dimension_scores = cw_scores (ri_windows inp), sa_strategy_weights = zero_weights,
      sa_window_weights = cw_effective_weights (ri_windows inp),
      sa_confidence = cw_confidence (ri_windows inp), sa_reasons = [],
      sa_hard_reasons = hr_reasons gates, sa_pending_hard_gates = hr_pending gates,
      sa_window_issues = cw_issues (ri_windows inp)\<rparr>"

definition recommend :: "recommendation_input \<Rightarrow> recommendation_policy \<Rightarrow> scoring_error + shadow_advice" where
  "recommend inp policy =
     bindE (evaluate_hard_gates (ri_hard_gates inp) (rp_hard_gates policy)) (\<lambda>gates.
     let a0 = initial_advice inp policy gates in
     if hr_excluded gates then Inr ((advise a0 AdviceExclude AdviceHardGateFailed)\<lparr>sa_confidence := ConfHigh\<rparr>)
     else if cw_policy_version (ri_windows inp) \<noteq> rp_version policy then Inl ErrInvalidRecommendation
     else bindE (fixed_auto_weights (rp_version policy) (ri_auto_kind inp)) (\<lambda>weights.
       let a1 = a0\<lparr>sa_strategy_weights := weights\<rparr> in
       if hr_pending gates \<noteq> []
       then Inr ((advise a1 AdviceWatch AdviceHardGatePending)\<lparr>sa_confidence := ConfInsufficient\<rparr>)
       else bindE (validate_recommendation_policy policy) (\<lambda>_.
         if \<not> cw_available (ri_windows inp) \<or> \<not> cw_decision_ready (ri_windows inp)
         then Inr (advise a1 AdviceWatch AdviceEvidenceNotReady)
         else bindE (composite_score (cw_scores (ri_windows inp)) weights) (\<lambda>composite.
           let a2 = a1\<lparr>sa_composite_score := Some composite\<rparr> in
           Inr (if ri_current_member inp then advise_current_member a2 inp policy composite
                else advise_candidate a2 inp policy composite)))))"

section \<open>The gates in closed form\<close>

text \<open>The gates whose checks failed, and those that are still pending, in the order of the
  code.\<close>

definition failed_gates :: "hard_gate_input \<Rightarrow> hard_gate_policy \<Rightarrow> gate_reason list" where
  "failed_gates inp policy =
     map snd (filter fst
       [(hg_authenticity inp = Some AuthInconsistent, GateAuthenticityMismatch),
        (hg_credential_valid inp = CheckFail, GateCredentialInvalid),
        (hg_balance_available inp = CheckFail, GateBalanceUnavailable),
        (hp_consecutive_failure_limit policy \<le> hg_consecutive_failures inp, GateConsecutiveFailures),
        (hg_major_risk_absent inp = CheckFail, GateMajorRisk)])"

definition open_check :: "check_state \<Rightarrow> bool" where
  "open_check c \<longleftrightarrow> c = CheckUnset \<or> c = CheckPending"

definition pending_gates :: "hard_gate_input \<Rightarrow> gate_reason list" where
  "pending_gates inp =
     map snd (filter fst
       [(hg_authenticity inp = None \<or> hg_authenticity inp = Some AuthPending, GateAuthenticityMismatch),
        (open_check (hg_credential_valid inp), GateCredentialInvalid),
        (open_check (hg_balance_available inp), GateBalanceUnavailable),
        (open_check (hg_major_risk_absent inp), GateMajorRisk)])"

fun known_check :: "check_state \<Rightarrow> bool" where
  "known_check (CheckOther s) = False"
| "known_check c = True"

fun known_authenticity :: "authenticity option \<Rightarrow> bool" where
  "known_authenticity (Some (AuthOther s)) = False"
| "known_authenticity a = True"

definition gates_ok :: "hard_gate_input \<Rightarrow> hard_gate_policy \<Rightarrow> bool" where
  "gates_ok inp policy \<longleftrightarrow> hp_consecutive_failure_limit policy \<noteq> 0 \<and> known_authenticity (hg_authenticity inp)
     \<and> known_check (hg_credential_valid inp) \<and> known_check (hg_balance_available inp)
     \<and> known_check (hg_major_risk_absent inp)"

lemma collect_check_cases:
  "collect_check c reason r =
     (if known_check c
      then Inr (r\<lparr>hr_reasons := hr_reasons r @ (if c = CheckFail then [reason] else []),
                  hr_pending := hr_pending r @ (if open_check c then [reason] else [])\<rparr>)
      else Inl ErrInvalidMetric)"
  by (cases c) (simp_all add: open_check_def)

lemma collect_authenticity_cases:
  "collect_authenticity a r =
     (if known_authenticity a
      then Inr (r\<lparr>hr_reasons := hr_reasons r @ (if a = Some AuthInconsistent then [GateAuthenticityMismatch] else []),
                  hr_pending := hr_pending r @ (if a = None \<or> a = Some AuthPending then [GateAuthenticityMismatch] else [])\<rparr>)
      else Inl ErrInvalidMetric)"
  by (cases "(a, r)" rule: collect_authenticity.cases) simp_all

lemma gates_Inr:
  assumes "gates_ok inp policy"
  shows "evaluate_hard_gates inp policy =
    Inr \<lparr>hr_excluded = failed_gates inp policy \<noteq> [], hr_reasons = failed_gates inp policy,
         hr_pending = pending_gates inp\<rparr>"
  using assms
  by (simp add: gates_ok_def evaluate_hard_gates_def collect_check_cases collect_authenticity_cases Let_def
      failed_gates_def pending_gates_def)

lemma gates_Inl: "\<not> gates_ok inp policy \<Longrightarrow> \<exists>e. evaluate_hard_gates inp policy = Inl e"
  by (auto simp: gates_ok_def evaluate_hard_gates_def collect_check_cases collect_authenticity_cases Let_def)

lemma gates_ok_iff: "(\<exists>g. evaluate_hard_gates inp policy = Inr g) \<longleftrightarrow> gates_ok inp policy"
  using gates_Inl [of inp policy] gates_Inr [of inp policy] by fastforce

lemmas advise_defs = advise_def advise_current_member_def advise_candidate_def initial_advice_def

lemma advise_simps [simp]:
  "sa_action (advise a act reason) = act" "sa_reasons (advise a act reason) = [reason]"
  "sa_composite_score (advise a act reason) = sa_composite_score a"
  "sa_hard_reasons (advise a act reason) = sa_hard_reasons a"
  "sa_pending_hard_gates (advise a act reason) = sa_pending_hard_gates a"
  "sa_current_member (advise a act reason) = sa_current_member a"
  by (simp_all add: advise_def)

lemma initial_advice_simps [simp]:
  "sa_hard_reasons (initial_advice inp policy g) = hr_reasons g"
  "sa_pending_hard_gates (initial_advice inp policy g) = hr_pending g"
  "sa_current_member (initial_advice inp policy g) = ri_current_member inp"
  "sa_composite_score (initial_advice inp policy g) = None"
  by (simp_all add: initial_advice_def)

text \<open>\<open>Recommend\<close> past the gates: what follows when no gate failed, and when none is
  pending.\<close>

definition scored_advice :: "recommendation_input \<Rightarrow> recommendation_policy \<Rightarrow> shadow_advice \<Rightarrow> score \<Rightarrow> shadow_advice" where
  "scored_advice inp policy a c =
     (if ri_current_member inp then advise_current_member (a\<lparr>sa_composite_score := Some c\<rparr>) inp policy c
      else advise_candidate (a\<lparr>sa_composite_score := Some c\<rparr>) inp policy c)"

definition scored_part ::
  "recommendation_input \<Rightarrow> recommendation_policy \<Rightarrow> auto_weights \<Rightarrow> shadow_advice \<Rightarrow> scoring_error + shadow_advice" where
  "scored_part inp policy weights a =
     bindE (validate_recommendation_policy policy) (\<lambda>_.
         if \<not> cw_available (ri_windows inp) \<or> \<not> cw_decision_ready (ri_windows inp)
         then Inr (advise a AdviceWatch AdviceEvidenceNotReady)
         else bindE (composite_score (cw_scores (ri_windows inp)) weights) (\<lambda>composite.
           Inr (scored_advice inp policy a composite)))"

lemma recommend_gates_ok: "recommend inp policy = Inr a \<Longrightarrow> gates_ok (ri_hard_gates inp) (rp_hard_gates policy)"
  using gates_ok_iff by (auto simp: recommend_def)

lemma recommend_excluded:
  assumes "gates_ok (ri_hard_gates inp) (rp_hard_gates policy)" "failed_gates (ri_hard_gates inp) (rp_hard_gates policy) \<noteq> []"
  shows "\<exists>a. recommend inp policy = Inr a \<and> sa_action a = AdviceExclude \<and> sa_confidence a = ConfHigh
    \<and> sa_hard_reasons a = failed_gates (ri_hard_gates inp) (rp_hard_gates policy) \<and> sa_composite_score a = None"
  using assms(2) by (simp add: recommend_def gates_Inr [OF assms(1)] Let_def)

lemma recommend_hard_reasons:
  assumes "recommend inp policy = Inr a"
  shows "sa_hard_reasons a = failed_gates (ri_hard_gates inp) (rp_hard_gates policy)"
proof -
  have keep: "sa_hard_reasons (advise_current_member b inp policy c) = sa_hard_reasons b"
    "sa_hard_reasons (advise_candidate b inp policy c) = sa_hard_reasons b" for b c
    by (simp_all add: advise_current_member_def advise_candidate_def)
  obtain g where g: "evaluate_hard_gates (ri_hard_gates inp) (rp_hard_gates policy) = Inr g"
    "hr_reasons g = failed_gates (ri_hard_gates inp) (rp_hard_gates policy)"
    using gates_Inr [OF recommend_gates_ok [OF assms]] by simp
  show ?thesis
    using assms unfolding recommend_def g(1) Let_def bindE.simps
    by (auto simp: g(2) keep split: if_splits)
qed

lemma recommend_past_gates:
  assumes "recommend inp policy = Inr a" "failed_gates (ri_hard_gates inp) (rp_hard_gates policy) = []"
  obtains weights b where "cw_policy_version (ri_windows inp) = rp_version policy"
    "fixed_auto_weights (rp_version policy) (ri_auto_kind inp) = Inr weights"
    "sa_composite_score b = None"
    "if pending_gates (ri_hard_gates inp) \<noteq> []
     then a = (advise b AdviceWatch AdviceHardGatePending)\<lparr>sa_confidence := ConfInsufficient\<rparr>
     else scored_part inp policy weights b = Inr a"
proof -
  define g where "g = \<lparr>hr_excluded = False, hr_reasons = [], hr_pending = pending_gates (ri_hard_gates inp)\<rparr>"
  have ok: "gates_ok (ri_hard_gates inp) (rp_hard_gates policy)" by (rule recommend_gates_ok [OF assms(1)])
  have g: "evaluate_hard_gates (ri_hard_gates inp) (rp_hard_gates policy) = Inr g"
    using gates_Inr [OF ok] assms(2) by (simp add: g_def)
  have ver: "cw_policy_version (ri_windows inp) = rp_version policy"
    using assms(1) by (rule_tac ccontr) (simp add: recommend_def g Let_def g_def)
  obtain weights where w: "fixed_auto_weights (rp_version policy) (ri_auto_kind inp) = Inr weights"
    using assms(1) ver by (cases "fixed_auto_weights (rp_version policy) (ri_auto_kind inp)")
      (simp_all add: recommend_def g Let_def g_def)
  let ?b = "(initial_advice inp policy g)\<lparr>sa_strategy_weights := weights\<rparr>"
  have "recommend inp policy = (if pending_gates (ri_hard_gates inp) \<noteq> []
      then Inr ((advise ?b AdviceWatch AdviceHardGatePending)\<lparr>sa_confidence := ConfInsufficient\<rparr>)
      else scored_part inp policy weights ?b)"
    using ver w by (simp add: recommend_def g Let_def scored_part_def scored_advice_def) (simp add: g_def)
  then show ?thesis
    using assms(1) by (intro that [OF ver w, of ?b]) (simp_all split: if_splits)
qed

text \<open>An advice with a score, that is, one that went through every guard.\<close>

lemma recommend_scored:
  assumes "recommend inp policy = Inr a" "sa_composite_score a \<noteq> None \<or> sa_action a \<notin> {AdviceExclude, AdviceWatch}"
  obtains c weights b where
    "failed_gates (ri_hard_gates inp) (rp_hard_gates policy) = []" "pending_gates (ri_hard_gates inp) = []"
    "validate_recommendation_policy policy = Inr ()" "cw_available (ri_windows inp)"
    "cw_decision_ready (ri_windows inp)" "composite_score (cw_scores (ri_windows inp)) weights = Inr c"
    "a = scored_advice inp policy b c"
proof -
  have f: "failed_gates (ri_hard_gates inp) (rp_hard_gates policy) = []"
    by (rule ccontr) (use recommend_excluded [OF recommend_gates_ok [OF assms(1)]] assms in auto)
  obtain weights b where b: "sa_composite_score b = None" "if pending_gates (ri_hard_gates inp) \<noteq> []
     then a = (advise b AdviceWatch AdviceHardGatePending)\<lparr>sa_confidence := ConfInsufficient\<rparr>
     else scored_part inp policy weights b = Inr a"
    by (rule recommend_past_gates [OF assms(1) f])
  have p: "pending_gates (ri_hard_gates inp) = []"
    using b assms(2) by (auto split: if_splits)
  with b(2) have s: "scored_part inp policy weights b = Inr a" by simp
  have r: "cw_available (ri_windows inp) \<and> cw_decision_ready (ri_windows inp)"
    using s b(1) assms(2) by (auto simp: scored_part_def split: if_splits)
  then show ?thesis
    using s by (auto simp: scored_part_def intro: that [OF f p])
qed

lemma scored_advice_action:
  "sa_composite_score (scored_advice inp policy b c) = Some c"
  "sa_action (scored_advice inp policy b c) =
     (if ri_current_member inp
      then (if f_le (rp_exit_threshold policy) c then AdviceKeep
            else if rp_required_consecutive policy \<le> ri_consecutive_exit inp then AdviceExit else AdviceWatch)
      else (if f_lt c (rp_join_threshold policy) then AdviceWatch
            else if rp_required_consecutive policy \<le> ri_consecutive_join inp then AdviceJoin else AdviceWatch))"
  by (simp_all add: scored_advice_def advise_current_member_def advise_candidate_def)

lemma recommend_reaches:
  assumes "gates_ok (ri_hard_gates inp) (rp_hard_gates policy)"
    "failed_gates (ri_hard_gates inp) (rp_hard_gates policy) = []" "pending_gates (ri_hard_gates inp) = []"
    "cw_policy_version (ri_windows inp) = rp_version policy"
    "fixed_auto_weights (rp_version policy) (ri_auto_kind inp) = Inr weights"
    "validate_recommendation_policy policy = Inr ()" "cw_available (ri_windows inp)"
    "cw_decision_ready (ri_windows inp)" "composite_score (cw_scores (ri_windows inp)) weights = Inr c"
  shows "\<exists>b. recommend inp policy = Inr (scored_advice inp policy b c)"
proof -
  let ?g = "\<lparr>hr_excluded = False, hr_reasons = [], hr_pending = []\<rparr>"
  have "recommend inp policy =
      Inr (scored_advice inp policy ((initial_advice inp policy ?g)\<lparr>sa_strategy_weights := weights\<rparr>) c)"
    using assms(2-) by (simp add: recommend_def gates_Inr [OF assms(1)] Let_def scored_advice_def)
  then show ?thesis by blast
qed

lemma valid_policy:
  "validate_recommendation_policy policy = Inr () \<longleftrightarrow>
     (\<exists>j e. rp_join_threshold policy = Fin j \<and> rp_exit_threshold policy = Fin e \<and> 0 \<le> e \<and> e < j \<and> j \<le> 100)
     \<and> rp_required_consecutive policy \<noteq> 0"
  by (auto simp: validate_recommendation_policy_def valid_score_iff)

section \<open>Properties\<close>

text \<open>
  C24: Hard gates dominate.  On known gate states the advice is exclusion exactly when some gate is
  confirmed as failed, whatever the scores, the evidence, the thresholds, the strategy and the policy
  version are; an exclusion has high confidence, the failed gates as its explanation and no score.
\<close>

theorem hard_gates_dominate:
  assumes "gates_ok (ri_hard_gates inp) (rp_hard_gates policy)"
  shows "((\<exists>a. recommend inp policy = Inr a \<and> sa_action a = AdviceExclude)
      \<longleftrightarrow> failed_gates (ri_hard_gates inp) (rp_hard_gates policy) \<noteq> [])
    \<and> (case recommend inp policy of
         Inr a \<Rightarrow> sa_action a = AdviceExclude \<longrightarrow> sa_confidence a = ConfHigh \<and> sa_composite_score a = None
           \<and> sa_hard_reasons a = failed_gates (ri_hard_gates inp) (rp_hard_gates policy)
       | Inl e \<Rightarrow> failed_gates (ri_hard_gates inp) (rp_hard_gates policy) = [])"
proof (cases "failed_gates (ri_hard_gates inp) (rp_hard_gates policy) = []")
  case True
  then have "recommend inp policy = Inr a \<Longrightarrow> sa_action a \<noteq> AdviceExclude" for a
    by (rule_tac recommend_past_gates [of inp policy a])
      (auto simp: scored_part_def scored_advice_action split: if_splits)
  then show ?thesis using True by (auto split: sum.split)
next
  case False
  then show ?thesis using recommend_excluded [OF assms False] by auto
qed

text \<open>
  Without a confirmed failure nothing is excluded, and a pending gate never yields more than
  a watch: advice with pending gates is a watch of insufficient confidence.
\<close>

theorem pending_gates_only_watch:
  assumes "recommend inp policy = Inr a" and "failed_gates (ri_hard_gates inp) (rp_hard_gates policy) = []"
  shows "sa_action a \<noteq> AdviceExclude
    \<and> (pending_gates (ri_hard_gates inp) \<noteq> [] \<longrightarrow> sa_action a = AdviceWatch \<and> sa_confidence a = ConfInsufficient)"
proof (rule recommend_past_gates [OF assms])
  fix weights b
  assume b: "if pending_gates (ri_hard_gates inp) \<noteq> []
     then a = (advise b AdviceWatch AdviceHardGatePending)\<lparr>sa_confidence := ConfInsufficient\<rparr>
     else scored_part inp policy weights b = Inr a"
  show ?thesis
  proof (cases "pending_gates (ri_hard_gates inp) = []")
    case True
    with b have "sa_action a \<noteq> AdviceExclude"
      by (auto simp: scored_part_def scored_advice_action split: if_splits)
    with True show ?thesis by simp
  qed (use b in simp)
qed

text \<open>
  C25: A join is advised only to a non-member with no failed and no pending gate, on windows that
  are ready for a decision, with a composite score of at least the join threshold and enough
  consecutive windows that confirm it.
\<close>

theorem join_advice_sound:
  assumes "recommend inp policy = Inr a" and "sa_action a = AdviceJoin"
  shows "\<not> ri_current_member inp
    \<and> failed_gates (ri_hard_gates inp) (rp_hard_gates policy) = [] \<and> pending_gates (ri_hard_gates inp) = []
    \<and> cw_decision_ready (ri_windows inp)
    \<and> (\<exists>c. sa_composite_score a = Some c \<and> valid_score c \<and> f_le (rp_join_threshold policy) c)
    \<and> rp_required_consecutive policy \<le> ri_consecutive_join inp \<and> 0 < rp_required_consecutive policy"
  by (rule recommend_scored [OF assms(1)])
    (use assms(2) in \<open>auto simp: scored_advice_action valid_policy valid_score_iff word_gt_0
       dest!: composite_valid split: if_splits\<close>)

text \<open>
  An exit is advised only to a member whose composite score is below the exit threshold for
  enough consecutive windows, again with settled gates and ready evidence.
\<close>

theorem exit_advice_sound:
  assumes "recommend inp policy = Inr a" and "sa_action a = AdviceExit"
  shows "ri_current_member inp
    \<and> failed_gates (ri_hard_gates inp) (rp_hard_gates policy) = [] \<and> pending_gates (ri_hard_gates inp) = []
    \<and> cw_decision_ready (ri_windows inp)
    \<and> (\<exists>c. sa_composite_score a = Some c \<and> f_lt c (rp_exit_threshold policy))
    \<and> rp_required_consecutive policy \<le> ri_consecutive_exit inp"
  by (rule recommend_scored [OF assms(1)])
    (use assms(2) in \<open>auto simp: scored_advice_action valid_policy valid_score_iff
       dest!: composite_valid split: if_splits\<close>)

text \<open>
  Hysteresis.  A composite score from the exit threshold up to, but not including, the join
  threshold never changes membership: the advice is to keep or to watch.
\<close>

theorem scores_between_thresholds_keep:
  assumes "recommend inp policy = Inr a" and "sa_composite_score a = Some c"
    and "f_le (rp_exit_threshold policy) c" and "f_lt c (rp_join_threshold policy)"
  shows "sa_action a = (if ri_current_member inp then AdviceKeep else AdviceWatch)"
  by (rule recommend_scored [OF assms(1)]) (use assms(2-) in \<open>auto simp: scored_advice_action\<close>)

lemma recommend_succeeds:
  assumes "combine_window_scores ws = Inr (ri_windows inp)"
    and "gates_ok (ri_hard_gates inp) (rp_hard_gates policy)"
    and "rp_version policy = policy_version_m2" and "\<And>s. ri_auto_kind inp \<noteq> AutoOther s"
    and "validate_recommendation_policy policy = Inr ()"
  shows "\<exists>a. recommend inp policy = Inr a \<and>
    sa_action a \<in> {AdviceJoin, AdviceKeep, AdviceExit, AdviceWatch, AdviceExclude}"
proof -
  have v: "validate_dimension_scores (cw_scores (ri_windows inp)) = Inr ()"
    by (rule combine_scores_valid [OF assms(1)])
  have ver: "cw_policy_version (ri_windows inp) = rp_version policy"
    using assms(1) unfolding assms(3) by (rule combine_Inr) (simp add: finish_windows_def Let_def)
  obtain w where w: "fixed_auto_weights (rp_version policy) (ri_auto_kind inp) = Inr w"
    using assms(3,4) by (cases "ri_auto_kind inp") (auto simp: fixed_auto_weights_def)
  obtain c where c: "composite_score (cw_scores (ri_windows inp)) w = Inr c"
    by (rule fixed_weights_composite [OF w v])
  show ?thesis
  proof (cases "failed_gates (ri_hard_gates inp) (rp_hard_gates policy) = []")
    case True
    show ?thesis
      using True ver w assms(5) c
      by (simp add: recommend_def gates_Inr [OF assms(2)] Let_def scored_advice_action scored_advice_def [symmetric])
  next
    case False
    then show ?thesis using recommend_excluded [OF assms(2)] by auto
  qed
qed

text \<open>
  Advice never fails where it should be given: on windows that \<open>CombineWindowScores\<close>
  returned, with known gate states, a known strategy and a valid policy of the current version,
  \<open>Recommend\<close> returns an advice.
\<close>

theorem recommend_total:
  assumes "combine_window_scores ws = Inr (ri_windows inp)"
    and "gates_ok (ri_hard_gates inp) (rp_hard_gates policy)"
    and "rp_version policy = policy_version_m2" and "\<And>s. ri_auto_kind inp \<noteq> AutoOther s"
    and "validate_recommendation_policy policy = Inr ()"
  shows "\<exists>a. recommend inp policy = Inr a \<and>
    sa_action a \<in> {AdviceJoin, AdviceKeep, AdviceExit, AdviceWatch, AdviceExclude}"
  by (rule recommend_succeeds [OF assms])

section \<open>Witnesses\<close>

definition sample_policy :: recommendation_policy where
  "sample_policy = \<lparr>rp_version = policy_version_m2, rp_join_threshold = Fin 20, rp_exit_threshold = Fin 10,
     rp_required_consecutive = 2, rp_hard_gates = default_hard_gate_policy\<rparr>"

definition sample_gates :: "authenticity \<Rightarrow> hard_gate_input" where
  "sample_gates a = \<lparr>hg_authenticity = Some a, hg_credential_valid = CheckPass, hg_balance_available = CheckPass,
     hg_major_risk_absent = CheckPass, hg_consecutive_failures = 0\<rparr>"

definition sample_scores :: "score \<Rightarrow> dimension_scores" where
  "sample_scores s = \<lparr>ds_price = s, ds_latency = Fin 0, ds_sla = Fin 0, ds_quality = Fin 0\<rparr>"

definition sample_combined :: "score \<Rightarrow> combined_window_score" where
  "sample_combined s = \<lparr>cw_policy_version = policy_version_m2, cw_available = True,
     cw_scores = sample_scores s,
     cw_effective_weights = [], cw_confidence = ConfHigh, cw_decision_ready = True, cw_issues = []\<rparr>"

definition sample_input :: "bool \<Rightarrow> authenticity \<Rightarrow> score \<Rightarrow> recommendation_input" where
  "sample_input member a s = \<lparr>ri_auto_kind = AutoBalanced, ri_current_member = member, ri_windows = sample_combined s,
     ri_hard_gates = sample_gates a, ri_consecutive_join = 2, ri_consecutive_exit = 2\<rparr>"

lemmas sample_defs = sample_policy_def sample_gates_def sample_combined_def sample_input_def
  default_hard_gate_policy_def default_consecutive_failure_limit_def

theorem hard_gates_dominate_witness:
  "\<exists>a. recommend (sample_input True AuthInconsistent NaN) sample_policy = Inr a \<and> sa_action a = AdviceExclude"
  using hard_gates_dominate [of "sample_input True AuthInconsistent NaN" sample_policy]
  by (auto simp: sample_defs gates_ok_def failed_gates_def)

lemma sample_pending_advice:
  "\<exists>a. recommend (sample_input False AuthPending (Fin 0)) sample_policy = Inr a"
  by (simp add: sample_defs recommend_def gates_Inr gates_ok_def failed_gates_def pending_gates_def Let_def
      fixed_auto_weights_def)

theorem pending_gates_only_watch_witness:
  "\<exists>a. recommend (sample_input False AuthPending (Fin 0)) sample_policy = Inr a \<and> sa_action a = AdviceWatch"
proof -
  obtain a where a: "recommend (sample_input False AuthPending (Fin 0)) sample_policy = Inr a"
    using sample_pending_advice by blast
  then show ?thesis
    using pending_gates_only_watch [OF a]
    by (simp add: sample_defs failed_gates_def pending_gates_def)
qed

text \<open>With the balanced weights a price score alone contributes exactly a quarter.\<close>

lemma sample_policy_valid: "validate_recommendation_policy sample_policy = Inr ()"
  by (simp add: validate_recommendation_policy_def sample_policy_def valid_score_iff)

lemma quarter: "nearest (1 / 4) = Fin (1 / 4)"
  using rnd_pow2 [of "- 2"] by (simp add: nearest_small pow2_def)

lemma sample_composite:
  assumes "q \<in> {0, 60, 100}"
  shows "composite_score (sample_scores (Fin q)) (percent_weights 25 25 30 20) = Inr (Fin (q / 4))"
proof -
  have "fixed_auto_weights policy_version_m2 AutoBalanced = Inr (percent_weights 25 25 30 20)"
    by (simp add: fixed_auto_weights_def)
  moreover have "validate_dimension_scores (sample_scores (Fin q)) = Inr ()"
    using assms by (auto simp: validate_dimension_scores_def sample_scores_def valid_score_iff)
  ultimately obtain c where c: "composite_score (sample_scores (Fin q)) (percent_weights 25 25 30 20) = Inr c"
    by (rule fixed_weights_composite)
  obtain p wp wl wa wq where *: "ds_price (sample_scores (Fin q)) = Fin p"
    "aw_price (percent_weights 25 25 30 20) = Fin wp"
    "c = clamp_score (Fin (foldl (\<lambda>s x. rnd (s + x)) (rnd (p * wp)) [rnd (0 * wl), rnd (0 * wa), rnd (0 * wq)]))"
    by (rule composite_value [OF c]) (auto simp: sample_scores_def)
  then have "p = q" "wp = 1 / 4"
    by (simp_all add: sample_scores_def percent_weights_def quarter)
  with *(3) have "c = clamp_score (Fin (rnd (q / 4)))" by simp
  with assms c show ?thesis by (auto simp: clamp_Fin)
qed

lemma sample_advice:
  assumes "q \<in> {0, 60, 100}"
  obtains b where "recommend (sample_input m AuthConsistent (Fin q)) sample_policy =
    Inr (scored_advice (sample_input m AuthConsistent (Fin q)) sample_policy b (Fin (q / 4)))"
proof -
  have "\<exists>b. recommend (sample_input m AuthConsistent (Fin q)) sample_policy =
      Inr (scored_advice (sample_input m AuthConsistent (Fin q)) sample_policy b (Fin (q / 4)))"
    by (rule recommend_reaches [where weights = "percent_weights 25 25 30 20"])
      (use sample_composite [OF assms] sample_policy_valid in
        \<open>simp_all add: sample_defs gates_ok_def failed_gates_def pending_gates_def open_check_def fixed_auto_weights_def\<close>)
  with that show ?thesis by blast
qed

theorem join_advice_sound_witness:
  "rp_required_consecutive sample_policy \<le> ri_consecutive_join (sample_input False AuthConsistent (Fin 100))"
proof -
  obtain a where a: "recommend (sample_input False AuthConsistent (Fin 100)) sample_policy = Inr a" "sa_action a = AdviceJoin"
    by (rule sample_advice [of 100 False]) (auto simp: scored_advice_action sample_defs)
  then show ?thesis using join_advice_sound [OF a] by blast
qed

theorem exit_advice_sound_witness:
  "ri_current_member (sample_input True AuthConsistent (Fin 0))"
proof -
  obtain a where a: "recommend (sample_input True AuthConsistent (Fin 0)) sample_policy = Inr a" "sa_action a = AdviceExit"
    by (rule sample_advice [of 0 True]) (auto simp: scored_advice_action sample_defs)
  then show ?thesis using exit_advice_sound [OF a] by blast
qed

theorem scores_between_thresholds_keep_witness:
  "\<exists>a. recommend (sample_input True AuthConsistent (Fin 60)) sample_policy = Inr a \<and> sa_action a = AdviceKeep"
proof -
  obtain a where a: "recommend (sample_input True AuthConsistent (Fin 60)) sample_policy = Inr a"
    "sa_composite_score a = Some (Fin 15)"
    by (rule sample_advice [of 60 True]) (auto simp: scored_advice_action)
  then show ?thesis
    using scores_between_thresholds_keep [OF a] by (simp add: sample_defs)
qed

theorem recommend_total_witness:
  "\<exists>r a. combine_window_scores sample_windows = Inr r \<and>
     recommend ((sample_input False AuthConsistent (Fin 0))\<lparr>ri_windows := r\<rparr>) sample_policy = Inr a"
proof -
  obtain r where r: "combine_window_scores sample_windows = Inr r" using sample_windows_combined by blast
  have "\<exists>a. recommend ((sample_input False AuthConsistent (Fin 0))\<lparr>ri_windows := r\<rparr>) sample_policy = Inr a \<and>
      sa_action a \<in> {AdviceJoin, AdviceKeep, AdviceExit, AdviceWatch, AdviceExclude}"
    by (rule recommend_total [where ws = sample_windows])
      (use r sample_policy_valid in \<open>simp_all add: sample_defs gates_ok_def\<close>)
  with r show ?thesis by blast
qed

end
