(* ===== verification/Authenticity.thy ===== *)
theory Authenticity imports F64 begin

text \<open>
  \<open>internal/domain/evaluation\<close>: \<open>types.go\<close>, \<open>distance.go\<close>,
  \<open>fingerprint.go\<close> and \<open>assessment.go\<close> - comparing the answers of a supplier's
  model with those of a trusted reference, and the verdict.

  A Go map that is ranged over is an association list in the order of the range; the order in
  which \<open>JensenShannon\<close> visits the answers of both distributions is an argument
  (\<open>visit\<close>), because Go leaves it open.  \<open>math.Log2\<close> is the parameter
  \<open>lg\<close>.
\<close>

section \<open>Types\<close>

datatype cell_id = CellNumber100EN | CellNumber100ZH | CellNumber10EN | CellNumber10ZH | CellColorEN
  | CellColorZH | CellCoinEN | CellCoinZH | CellOther string

definition protocol_v1_cells :: "cell_id list" where
  "protocol_v1_cells = [CellNumber100EN, CellNumber100ZH, CellNumber10EN, CellNumber10ZH, CellColorEN,
     CellColorZH, CellCoinEN, CellCoinZH]"

definition protocol_single_token :: string where "protocol_single_token = ''single_token_jsd_v1''"
definition authenticity_policy_v1 :: string where "authenticity_policy_v1 = ''authenticity_v1''"

record distribution =
  di_counts :: "(string \<times> 64 word) list"
  di_invalid_samples :: "64 word"

definition valid_samples :: "distribution \<Rightarrow> 64 word" where
  "valid_samples d = foldl (\<lambda>t (answer, n). t + n) 0 (di_counts d)"

record stability =
  sb_measured :: bool
  sb_distance :: f64

record fingerprint =
  fp_run_id :: string
  fp_seed :: "64 word"
  fp_protocol_version :: string
  fp_collected_at :: instant
  fp_cells :: "cell_id \<rightharpoonup> distribution"
  fp_stability :: stability

record model_subject =
  sj_supplier_id :: uuid
  sj_model :: string

datatype reference_trust = ReferenceOfficial | ReferenceOperatorTrusted | ReferenceCommunity | ReferenceOther string

record model_reference =
  mr_id :: string
  mr_revision :: int
  mr_trust :: reference_trust
  mr_source :: model_subject
  mr_expires_at :: instant
  mr_fingerprint :: fingerprint

definition can_establish_authenticity :: "model_reference \<Rightarrow> bool" where
  "can_establish_authenticity r \<longleftrightarrow> mr_trust r = ReferenceOfficial \<or> mr_trust r = ReferenceOperatorTrusted"

datatype verdict = VerdictInsufficient | VerdictConsistent | VerdictSuspicious | VerdictInconsistent | VerdictOther string

datatype verdict_confidence = VConfNone | VConfLow | VConfMedium | VConfHigh

datatype verdict_reason = ReasonUnset | ReasonNoTrustedReference | ReasonReferenceExpired | ReasonProtocolMismatch
  | ReasonSelfCheckMissing | ReasonSelfUnstable | ReasonInsufficientSamples | ReasonDistanceMatch
  | ReasonDistanceUncertain | ReasonDistanceMismatchUnconfirmed | ReasonDistanceMismatchConfirmed

record fingerprint_comparison =
  fc_comparable :: bool
  fc_reason :: verdict_reason
  fc_mean_distance :: f64
  fc_comparable_cells :: int
  fc_cell_distances :: "(cell_id \<times> f64) list"

record mismatch_evidence =
  mi_subject :: model_subject
  mi_target_run_id :: string
  mi_target_seed :: "64 word"
  mi_observed_at :: instant
  mi_reference_id :: string
  mi_reference_revision :: int
  mi_protocol_version :: string
  mi_distance :: f64
  mi_self_distance :: f64

record authenticity_policy =
  ap_version :: string
  ap_minimum_samples_per_cell :: "64 word"
  ap_match_maximum :: f64
  ap_uncertain_maximum :: f64
  ap_maximum_self_distance :: f64
  ap_mismatch_confirmation_delay :: int

definition default_authenticity_policy :: authenticity_policy where
  "default_authenticity_policy =
     \<lparr>ap_version = authenticity_policy_v1, ap_minimum_samples_per_cell = 10,
      ap_match_maximum = nearest (25 / 100), ap_uncertain_maximum = nearest (35 / 100),
      ap_maximum_self_distance = nearest (35 / 100), ap_mismatch_confirmation_delay = 30 * nanos_per_minute\<rparr>"

record assessment_input =
  ai_subject :: model_subject
  ai_target :: fingerprint
  ai_reference :: "model_reference option"
  ai_prior_mismatch :: "mismatch_evidence option"
  ai_assessed_at :: instant

record authenticity_assessment =
  as_policy_version :: string
  as_verdict :: verdict
  as_confidence :: verdict_confidence
  as_reason :: verdict_reason
  as_assessed_at :: instant
  as_comparison :: fingerprint_comparison

datatype evaluation_error = ErrInvalidDistribution | ErrInvalidFingerprint | ErrInvalidPolicy
  | ErrInvalidAssessmentInput

section \<open>The distance of two distributions\<close>

definition total_step :: "f64 \<Rightarrow> string \<times> 64 word \<Rightarrow> evaluation_error + f64" where
  "total_step acc = (\<lambda>(answer, n).
     if answer = [] then Inl ErrInvalidDistribution else Inr (f_add acc (f_of_nat (unat n))))"

definition distribution_total :: "distribution \<Rightarrow> evaluation_error + f64" where
  "distribution_total d =
     bindE (foldE total_step (Fin 0) (di_counts d)) (\<lambda>sum.
     if f_le sum (Fin 0) \<or> sum = PInf \<or> sum = NInf then Inl ErrInvalidDistribution else Inr sum)"

text \<open>\<open>Counts[key]\<close> is zero where the key is missing.\<close>

definition count_of :: "distribution \<Rightarrow> string \<Rightarrow> 64 word" where
  "count_of d k = (case map_of (di_counts d) k of None \<Rightarrow> 0 | Some n \<Rightarrow> n)"

definition divergence_step ::
  "(f64 \<Rightarrow> f64) \<Rightarrow> distribution \<Rightarrow> f64 \<Rightarrow> distribution \<Rightarrow> f64 \<Rightarrow> f64 \<Rightarrow> string \<Rightarrow> f64" where
  "divergence_step lg left left_sum right right_sum divergence key =
     (let p = f_div (f_of_nat (unat (count_of left key))) left_sum;
          q = f_div (f_of_nat (unat (count_of right key))) right_sum;
          middle = f_div (f_add p q) (Fin 2);
          d1 = (if f_lt (Fin 0) p
                then f_add divergence (f_mul (f_mul (nearest (1 / 2)) p) (lg (f_div p middle))) else divergence) in
      if f_lt (Fin 0) q then f_add d1 (f_mul (f_mul (nearest (1 / 2)) q) (lg (f_div q middle))) else d1)"

definition valid_distance :: "f64 \<Rightarrow> bool" where
  "valid_distance d \<longleftrightarrow> d \<noteq> NaN \<and> d \<noteq> PInf \<and> d \<noteq> NInf \<and> f_le (Fin 0) d \<and> f_le d (Fin 1)"

definition tiny :: rat where "tiny = 1 / 10 ^ 12"

definition clamp_divergence :: "f64 \<Rightarrow> evaluation_error + f64" where
  "clamp_divergence d =
     (if f_lt d (Fin 0) \<and> f_lt (nearest (- tiny)) d then Inr (Fin 0)
      else if f_lt (Fin 1) d \<and> f_lt d (nearest (1 + tiny)) then Inr (Fin 1)
      else if d = NaN \<or> d = PInf \<or> d = NInf \<or> f_lt d (Fin 0) \<or> f_lt (Fin 1) d then Inl ErrInvalidDistribution
      else Inr d)"

type_synonym visit = "distribution \<Rightarrow> distribution \<Rightarrow> string list"

definition jensen_shannon :: "(f64 \<Rightarrow> f64) \<Rightarrow> visit \<Rightarrow> distribution \<Rightarrow> distribution \<Rightarrow> evaluation_error + f64" where
  "jensen_shannon lg visit left right =
     bindE (distribution_total left) (\<lambda>left_sum.
     bindE (distribution_total right) (\<lambda>right_sum.
     clamp_divergence (foldl (divergence_step lg left left_sum right right_sum) (Fin 0) (visit left right))))"

section \<open>Comparing fingerprints\<close>

definition validate_policy :: "authenticity_policy \<Rightarrow> evaluation_error + unit" where
  "validate_policy p =
     (if ap_version p = [] \<or> ap_minimum_samples_per_cell p < 1 \<or> ap_mismatch_confirmation_delay p < 0
      then Inl ErrInvalidPolicy
      else if \<not> valid_distance (ap_match_maximum p) \<or> \<not> valid_distance (ap_uncertain_maximum p)
        \<or> \<not> valid_distance (ap_maximum_self_distance p)
      then Inl ErrInvalidPolicy
      else if f_le (ap_uncertain_maximum p) (ap_match_maximum p) then Inl ErrInvalidPolicy
      else Inr ())"

definition no_comparison :: fingerprint_comparison where
  "no_comparison = \<lparr>fc_comparable = False, fc_reason = ReasonUnset, fc_mean_distance = Fin 0,
     fc_comparable_cells = 0, fc_cell_distances = []\<rparr>"

text \<open>The loop over the cells: the comparison so far and the sum of the distances.  It ends early
  with a comparison that is not comparable.\<close>

fun compare_cells ::
  "(f64 \<Rightarrow> f64) \<Rightarrow> visit \<Rightarrow> fingerprint \<Rightarrow> fingerprint \<Rightarrow> authenticity_policy \<Rightarrow> cell_id list
   \<Rightarrow> fingerprint_comparison \<Rightarrow> f64 \<Rightarrow> evaluation_error + fingerprint_comparison" where
  "compare_cells lg visit reference target policy [] c acc =
     Inr (c\<lparr>fc_comparable := True, fc_mean_distance := f_div acc (f_of_nat (length protocol_v1_cells))\<rparr>)"
| "compare_cells lg visit reference target policy (cell # cells) c acc =
     (case (fp_cells reference cell, fp_cells target cell) of
        (Some r, Some t) \<Rightarrow>
          if valid_samples r < ap_minimum_samples_per_cell policy \<or> valid_samples t < ap_minimum_samples_per_cell policy
          then Inr (c\<lparr>fc_reason := ReasonInsufficientSamples\<rparr>)
          else (case jensen_shannon lg visit r t of
              Inl _ \<Rightarrow> Inl ErrInvalidFingerprint
            | Inr d \<Rightarrow> compare_cells lg visit reference target policy cells
                (c\<lparr>fc_cell_distances := fc_cell_distances c @ [(cell, d)], fc_comparable_cells := fc_comparable_cells c + 1\<rparr>)
                (f_add acc d))
      | _ \<Rightarrow> Inr (c\<lparr>fc_reason := ReasonInsufficientSamples\<rparr>))"

definition compare_fingerprints ::
  "(f64 \<Rightarrow> f64) \<Rightarrow> visit \<Rightarrow> fingerprint \<Rightarrow> fingerprint \<Rightarrow> authenticity_policy \<Rightarrow> evaluation_error + fingerprint_comparison" where
  "compare_fingerprints lg visit reference target policy =
     bindE (validate_policy policy) (\<lambda>_.
     if fp_protocol_version reference = [] \<or> fp_protocol_version target = [] then Inl ErrInvalidFingerprint
     else if fp_protocol_version reference \<noteq> fp_protocol_version target
     then Inr (no_comparison\<lparr>fc_reason := ReasonProtocolMismatch\<rparr>)
     else if fp_protocol_version reference \<noteq> protocol_single_token then Inl ErrInvalidFingerprint
     else compare_cells lg visit reference target policy protocol_v1_cells no_comparison (Fin 0))"

section \<open>The verdict\<close>

definition classify_distance :: "f64 \<Rightarrow> bool \<Rightarrow> authenticity_policy \<Rightarrow> verdict \<times> verdict_confidence \<times> verdict_reason" where
  "classify_distance d confirmed p =
     (if f_le d (ap_match_maximum p) then (VerdictConsistent, VConfMedium, ReasonDistanceMatch)
      else if f_le d (ap_uncertain_maximum p) then (VerdictSuspicious, VConfLow, ReasonDistanceUncertain)
      else if confirmed then (VerdictInconsistent, VConfHigh, ReasonDistanceMismatchConfirmed)
      else (VerdictSuspicious, VConfLow, ReasonDistanceMismatchUnconfirmed))"

definition valid_subject :: "model_subject \<Rightarrow> bool" where
  "valid_subject s \<longleftrightarrow> sj_supplier_id s \<noteq> uuid_nil \<and> trim_space (sj_model s) \<noteq> []"

definition confirmed_independent_mismatch :: "assessment_input \<Rightarrow> model_reference \<Rightarrow> authenticity_policy \<Rightarrow> bool" where
  "confirmed_independent_mismatch i r p =
     (case ai_prior_mismatch i of
        None \<Rightarrow> False
      | Some prior \<Rightarrow>
          let target = ai_target i in
          if \<not> valid_distance (mi_distance prior) \<or> \<not> valid_distance (mi_self_distance prior) then False
          else if f_le (mi_distance prior) (ap_uncertain_maximum p) \<or> f_lt (ap_maximum_self_distance p) (mi_self_distance prior)
          then False
          else if mi_reference_id prior \<noteq> mr_id r \<or> mi_reference_revision prior \<noteq> mr_revision r
            \<or> mi_protocol_version prior \<noteq> fp_protocol_version target then False
          else if mi_subject prior \<noteq> ai_subject i then False
          else if mi_target_run_id prior = [] \<or> fp_run_id target = [] \<or> mi_target_run_id prior = fp_run_id target
            \<or> mi_target_seed prior = fp_seed target then False
          else \<not> is_zero_time (mi_observed_at prior)
            \<and> ap_mismatch_confirmation_delay p \<le> time_sub (fp_collected_at target) (mi_observed_at prior))"

definition assess_authenticity ::
  "(f64 \<Rightarrow> f64) \<Rightarrow> visit \<Rightarrow> assessment_input \<Rightarrow> authenticity_policy \<Rightarrow> evaluation_error + authenticity_assessment" where
  "assess_authenticity lg visit i p =
     (let a = \<lparr>as_policy_version = ap_version p, as_verdict = VerdictInsufficient, as_confidence = VConfNone,
               as_reason = ReasonUnset, as_assessed_at = ai_assessed_at i, as_comparison = no_comparison\<rparr>;
          target = ai_target i in
      bindE (validate_policy p) (\<lambda>_.
      if \<not> valid_subject (ai_subject i) \<or> is_zero_time (ai_assessed_at i) \<or> is_zero_time (fp_collected_at target)
        \<or> time_after (fp_collected_at target) (ai_assessed_at i)
      then Inl ErrInvalidAssessmentInput
      else case ai_reference i of
        None \<Rightarrow> Inr (a\<lparr>as_reason := ReasonNoTrustedReference\<rparr>)
      | Some r \<Rightarrow>
        if \<not> can_establish_authenticity r then Inr (a\<lparr>as_reason := ReasonNoTrustedReference\<rparr>)
        else if mr_id r = [] \<or> mr_revision r < 1 \<or> \<not> valid_subject (mr_source r) \<or> mr_source r = ai_subject i
          \<or> is_zero_time (mr_expires_at r) \<or> is_zero_time (fp_collected_at (mr_fingerprint r))
          \<or> time_after (fp_collected_at (mr_fingerprint r)) (ai_assessed_at i)
        then Inl ErrInvalidAssessmentInput
        else if \<not> time_before (ai_assessed_at i) (mr_expires_at r) then Inr (a\<lparr>as_reason := ReasonReferenceExpired\<rparr>)
        else bindE (compare_fingerprints lg visit (mr_fingerprint r) target p) (\<lambda>c.
        let b = a\<lparr>as_comparison := c\<rparr>; s = fp_stability target; u = fp_stability (mr_fingerprint r) in
        if \<not> fc_comparable c then Inr (b\<lparr>as_reason := fc_reason c\<rparr>)
        else if \<not> sb_measured s \<or> \<not> sb_measured u then Inr (b\<lparr>as_reason := ReasonSelfCheckMissing\<rparr>)
        else if \<not> valid_distance (sb_distance s) \<or> \<not> valid_distance (sb_distance u) then Inl ErrInvalidFingerprint
        else if f_lt (ap_maximum_self_distance p) (sb_distance s) \<or> f_lt (ap_maximum_self_distance p) (sb_distance u)
        then Inr (b\<lparr>as_reason := ReasonSelfUnstable\<rparr>)
        else case classify_distance (fc_mean_distance c) (confirmed_independent_mismatch i r p) p of
          (v, conf, reason) \<Rightarrow> Inr (b\<lparr>as_verdict := v, as_confidence := conf, as_reason := reason\<rparr>))))"

section \<open>Distances are probabilities\<close>

lemma valid_distance_iff: "valid_distance d \<longleftrightarrow> (\<exists>q. d = Fin q \<and> 0 \<le> q \<and> q \<le> 1)"
  by (cases d) (auto simp: valid_distance_def)

lemma clamp_divergence_valid: "clamp_divergence d = Inr e \<Longrightarrow> valid_distance e"
  by (cases d) (auto simp: clamp_divergence_def valid_distance_iff split: if_splits)

lemma jensen_shannon_range: "jensen_shannon lg visit l r = Inr d \<Longrightarrow> valid_distance d"
  by (auto simp: jensen_shannon_def intro: clamp_divergence_valid)

text \<open>A running sum of distances stays between zero and the number of terms, whatever the
  rounding: the bounds are integers, and rounding is monotone.\<close>

lemma add_distance:
  assumes "0 \<le> q" "q \<le> of_nat n" "n < 100" "valid_distance d"
  shows "\<exists>s. f_add (Fin q) d = Fin s \<and> 0 \<le> s \<and> s \<le> of_nat (Suc n)"
proof -
  obtain e where e: "d = Fin e" "0 \<le> e" "e \<le> 1" using assms(4) by (auto simp: valid_distance_iff)
  have n: "(of_nat n :: rat) \<le> 99" using assms(3) by simp
  have "rnd 0 \<le> rnd (q + e)" using assms(1) e(2) by (intro rnd_mono) simp
  moreover have "rnd (q + e) \<le> rnd (of_int (int (Suc n)))" using assms(2) e(3) by (intro rnd_mono) simp
  moreover have "rnd (of_int (int (Suc n))) = of_int (int (Suc n))" using assms(3) by (intro rnd_of_int) simp
  ultimately show ?thesis using assms(1,2) e n by (simp add: nearest_small)
qed

lemma mean_distance:
  assumes "0 \<le> q" "q \<le> of_nat n" "0 < n" "n < 100"
  shows "valid_distance (f_div (Fin q) (f_of_nat n))"
proof -
  have n: "f_of_nat n = Fin (of_nat n)"
    using assms(4) rnd_of_int [of "int n"] by (simp add: f_of_nat_def nearest_small)
  have q: "0 \<le> q / of_nat n" "q / of_nat n \<le> 1" using assms by (simp_all add: field_simps)
  have "rnd 0 \<le> rnd (q / of_nat n)" "rnd (q / of_nat n) \<le> rnd 1" by (intro rnd_mono q)+
  moreover have "nearest (q / of_nat n) = Fin (rnd (q / of_nat n))" using q by (intro nearest_small) simp
  ultimately show ?thesis using assms(3) by (simp add: n valid_distance_iff)
qed

section \<open>What a comparison rests on\<close>

definition sampled :: "authenticity_policy \<Rightarrow> fingerprint \<Rightarrow> cell_id \<Rightarrow> bool" where
  "sampled p f cell \<longleftrightarrow>
     (case fp_cells f cell of None \<Rightarrow> False | Some d \<Rightarrow> ap_minimum_samples_per_cell p \<le> valid_samples d)"

text \<open>The comparison after the cells \<open>done\<close>, with the sum of their distances.\<close>

definition compared :: "fingerprint \<Rightarrow> fingerprint \<Rightarrow> authenticity_policy \<Rightarrow> cell_id list \<Rightarrow> fingerprint_comparison \<Rightarrow> bool" where
  "compared r t p cells c \<longleftrightarrow>
     map fst (fc_cell_distances c) = cells \<and> list_all (\<lambda>(cell, d). valid_distance d) (fc_cell_distances c)
     \<and> fc_comparable_cells c = int (length cells) \<and> list_all (\<lambda>cell. sampled p r cell \<and> sampled p t cell) cells"

lemma compare_cells_sound:
  assumes "compare_cells lg visit r t p cells c (Fin q) = Inr c'" "fc_comparable c'" "\<not> fc_comparable c"
    and "compared r t p before c" "0 \<le> q" "q \<le> of_nat (length before)"
    and "before @ cells = protocol_v1_cells"
  shows "compared r t p protocol_v1_cells c' \<and> valid_distance (fc_mean_distance c')"
  using assms
proof (induction cells arbitrary: c q before)
  case Nil
  then have b: "before = protocol_v1_cells" by simp
  have "valid_distance (f_div (Fin q) (f_of_nat (length protocol_v1_cells)))"
    by (rule mean_distance) (use Nil.prems(5,6) in \<open>simp_all add: b protocol_v1_cells_def\<close>)
  with Nil.prems show ?case by (auto simp: compared_def)
next
  case (Cons cell cells)
  from Cons.prems(1-3) obtain x y d where x: "fp_cells r cell = Some x" "fp_cells t cell = Some y"
    and n: "\<not> valid_samples x < ap_minimum_samples_per_cell p" "\<not> valid_samples y < ap_minimum_samples_per_cell p"
    and d: "jensen_shannon lg visit x y = Inr d"
    by (auto split: option.splits if_splits sum.splits)
  let ?c = "c\<lparr>fc_cell_distances := fc_cell_distances c @ [(cell, d)], fc_comparable_cells := fc_comparable_cells c + 1\<rparr>"
  have v: "valid_distance d" by (rule jensen_shannon_range [OF d])
  have l: "length before < 100"
    using arg_cong [OF Cons.prems(7), of length] by (simp add: protocol_v1_cells_def)
  obtain s where s: "f_add (Fin q) d = Fin s" "0 \<le> s" "s \<le> of_nat (Suc (length before))"
    using add_distance [OF Cons.prems(5,6) l v] by blast
  show ?case
  proof (rule Cons.IH [of ?c s "before @ [cell]"])
    show "compare_cells lg visit r t p cells ?c (Fin s) = Inr c'" using Cons.prems(1) x n d s(1) by simp
    show "compared r t p (before @ [cell]) ?c"
      using Cons.prems(4) v x n by (simp add: compared_def sampled_def not_less)
  qed (use Cons.prems s in auto)
qed

lemma comparison_facts:
  assumes "compare_fingerprints lg visit r t p = Inr c" "fc_comparable c"
  shows "compared r t p protocol_v1_cells c \<and> valid_distance (fc_mean_distance c)"
proof -
  from assms have e: "compare_cells lg visit r t p protocol_v1_cells no_comparison (Fin 0) = Inr c"
    by (auto simp: compare_fingerprints_def no_comparison_def split: if_splits)
  show ?thesis
    by (rule compare_cells_sound [OF e assms(2), of "[]"]) (simp_all add: no_comparison_def compared_def)
qed

text \<open>C27: A comparison is only called comparable when both fingerprints have, in every one of the
  eight protocol cells, at least the policy's minimum of valid samples; it then holds one distance
  per cell, in protocol order, and every distance and their mean are numbers between 0 and 1.\<close>
theorem comparison_sound:
  assumes "compare_fingerprints lg visit r t p = Inr c" "fc_comparable c"
  shows "valid_distance (fc_mean_distance c) \<and> map fst (fc_cell_distances c) = protocol_v1_cells
    \<and> list_all (\<lambda>(cell, d). valid_distance d) (fc_cell_distances c) \<and> fc_comparable_cells c = 8
    \<and> list_all (\<lambda>cell. sampled p r cell \<and> sampled p t cell) protocol_v1_cells"
  using comparison_facts [OF assms] by (simp add: compared_def protocol_v1_cells_def)

section \<open>What a verdict rests on\<close>

lemma classify_inconsistent:
  "classify_distance d confirmed p = (VerdictInconsistent, conf, reason) \<Longrightarrow>
     confirmed \<and> \<not> f_le d (ap_uncertain_maximum p) \<and> conf = VConfHigh \<and> reason = ReasonDistanceMismatchConfirmed"
  by (auto simp: classify_distance_def split: if_splits)

lemma confirmed_mismatch_facts:
  assumes "confirmed_independent_mismatch i r p"
  obtains prior where "ai_prior_mismatch i = Some prior" "mi_subject prior = ai_subject i"
    "mi_target_run_id prior \<noteq> fp_run_id (ai_target i)" "mi_target_seed prior \<noteq> fp_seed (ai_target i)"
    "mi_reference_id prior = mr_id r" "mi_reference_revision prior = mr_revision r"
    "\<not> f_le (mi_distance prior) (ap_uncertain_maximum p)"
    "ap_mismatch_confirmation_delay p \<le> time_sub (fp_collected_at (ai_target i)) (mi_observed_at prior)"
  using assms by (auto simp: confirmed_independent_mismatch_def Let_def split: option.splits if_splits)

text \<open>A verdict other than insufficient comes from the comparison with the reference.\<close>

lemma assessed_by_comparison:
  assumes "assess_authenticity lg visit i p = Inr a" "as_verdict a \<noteq> VerdictInsufficient"
  obtains r where "ai_reference i = Some r" "can_establish_authenticity r" "mr_source r \<noteq> ai_subject i"
    "time_before (ai_assessed_at i) (mr_expires_at r)" "validate_policy p = Inr ()"
    "compare_fingerprints lg visit (mr_fingerprint r) (ai_target i) p = Inr (as_comparison a)"
    "fc_comparable (as_comparison a)"
    "sb_measured (fp_stability (ai_target i))" "sb_measured (fp_stability (mr_fingerprint r))"
    "\<not> f_lt (ap_maximum_self_distance p) (sb_distance (fp_stability (ai_target i)))"
    "\<not> f_lt (ap_maximum_self_distance p) (sb_distance (fp_stability (mr_fingerprint r)))"
    "classify_distance (fc_mean_distance (as_comparison a)) (confirmed_independent_mismatch i r p) p
       = (as_verdict a, as_confidence a, as_reason a)"
proof -
  obtain r where r: "ai_reference i = Some r"
    using assms by (cases "ai_reference i") (auto simp: assess_authenticity_def Let_def split: if_splits)
  have t: "can_establish_authenticity r"
    using assms r by (auto simp: assess_authenticity_def Let_def split: if_splits)
  show thesis
    by (rule that [OF r t]; use assms r t in \<open>simp add: assess_authenticity_def Let_def split: if_splits prod.splits\<close>;
      elim exE conjE; auto split: if_splits prod.splits)
qed


text \<open>C28: A supplier is only called inconsistent with its model (the verdict that fails the
  authenticity gate) when a trusted, unexpired reference of another source exists, both
  fingerprints were measured as stable, the mean distance is above the uncertain range, and an
  earlier mismatch of the same subject against the same revision of the reference, from another
  run with another seed, was observed at least the confirmation delay before.\<close>
theorem inconsistent_needs_independent_evidence:
  assumes "assess_authenticity lg visit i p = Inr a" "as_verdict a = VerdictInconsistent"
  shows "\<exists>r prior. ai_reference i = Some r \<and> can_establish_authenticity r \<and> mr_source r \<noteq> ai_subject i
      \<and> time_before (ai_assessed_at i) (mr_expires_at r)
      \<and> sb_measured (fp_stability (ai_target i)) \<and> sb_measured (fp_stability (mr_fingerprint r))
      \<and> \<not> f_lt (ap_maximum_self_distance p) (sb_distance (fp_stability (ai_target i)))
      \<and> \<not> f_lt (ap_maximum_self_distance p) (sb_distance (fp_stability (mr_fingerprint r)))
      \<and> valid_distance (fc_mean_distance (as_comparison a))
      \<and> \<not> f_le (fc_mean_distance (as_comparison a)) (ap_uncertain_maximum p)
      \<and> ai_prior_mismatch i = Some prior \<and> mi_subject prior = ai_subject i
      \<and> mi_target_run_id prior \<noteq> fp_run_id (ai_target i) \<and> mi_target_seed prior \<noteq> fp_seed (ai_target i)
      \<and> mi_reference_id prior = mr_id r \<and> mi_reference_revision prior = mr_revision r
      \<and> \<not> f_le (mi_distance prior) (ap_uncertain_maximum p)
      \<and> ap_mismatch_confirmation_delay p \<le> time_sub (fp_collected_at (ai_target i)) (mi_observed_at prior)"
proof -
  from assms(2) have v: "as_verdict a \<noteq> VerdictInsufficient" by simp
  obtain r where r: "ai_reference i = Some r" "can_establish_authenticity r" "mr_source r \<noteq> ai_subject i"
    "time_before (ai_assessed_at i) (mr_expires_at r)" "validate_policy p = Inr ()"
    "compare_fingerprints lg visit (mr_fingerprint r) (ai_target i) p = Inr (as_comparison a)"
    "fc_comparable (as_comparison a)"
    "sb_measured (fp_stability (ai_target i))" "sb_measured (fp_stability (mr_fingerprint r))"
    "\<not> f_lt (ap_maximum_self_distance p) (sb_distance (fp_stability (ai_target i)))"
    "\<not> f_lt (ap_maximum_self_distance p) (sb_distance (fp_stability (mr_fingerprint r)))"
    "classify_distance (fc_mean_distance (as_comparison a)) (confirmed_independent_mismatch i r p) p
       = (as_verdict a, as_confidence a, as_reason a)"
    by (rule assessed_by_comparison [OF assms(1) v])
  have c: "confirmed_independent_mismatch i r p" "\<not> f_le (fc_mean_distance (as_comparison a)) (ap_uncertain_maximum p)"
    using classify_inconsistent r(12) assms(2) by metis+
  have d: "valid_distance (fc_mean_distance (as_comparison a))" using comparison_facts [OF r(6,7)] by simp
  show ?thesis by (rule confirmed_mismatch_facts [OF c(1)]) (use r c d in blast)
qed

subsection \<open>A concrete assessment\<close>

definition sample_cells :: "string \<Rightarrow> cell_id \<rightharpoonup> distribution" where
  "sample_cells answer cell = Some \<lparr>di_counts = [(answer, 10)], di_invalid_samples = 0\<rparr>"

definition sample_fingerprint :: "string \<Rightarrow> string \<Rightarrow> 64 word \<Rightarrow> int \<Rightarrow> fingerprint" where
  "sample_fingerprint run answer seed t =
     \<lparr>fp_run_id = run, fp_seed = seed, fp_protocol_version = protocol_single_token,
      fp_collected_at = \<lparr>t_ns = t, t_utc = True\<rparr>, fp_cells = sample_cells answer,
      fp_stability = \<lparr>sb_measured = True, sb_distance = Fin 0\<rparr>\<rparr>"

definition sample_lg :: "f64 \<Rightarrow> f64" where
  "sample_lg x = (if x = Fin 2 then Fin 1 else Fin 0)"

definition sample_visit :: visit where
  "sample_visit l r = remdups (map fst (di_counts l) @ map fst (di_counts r))"

definition sample_subject :: model_subject where "sample_subject = \<lparr>sj_supplier_id = 1, sj_model = ''m''\<rparr>"

definition sample_reference :: model_reference where
  "sample_reference =
     \<lparr>mr_id = ''ref'', mr_revision = 1, mr_trust = ReferenceOfficial, mr_source = sample_subject\<lparr>sj_supplier_id := 2\<rparr>,
      mr_expires_at = \<lparr>t_ns = 10 * (60 * nanos_per_minute), t_utc = True\<rparr>,
      mr_fingerprint = sample_fingerprint ''ref'' ''a'' 5 nanos_per_minute\<rparr>"

definition sample_assessment_input :: assessment_input where
  "sample_assessment_input =
     \<lparr>ai_subject = sample_subject, ai_target = sample_fingerprint ''run'' ''b'' 6 (60 * nanos_per_minute),
      ai_reference = Some sample_reference,
      ai_prior_mismatch = Some
        \<lparr>mi_subject = sample_subject, mi_target_run_id = ''old'', mi_target_seed = 7,
         mi_observed_at = \<lparr>t_ns = 30 * nanos_per_minute, t_utc = True\<rparr>, mi_reference_id = ''ref'',
         mi_reference_revision = 1, mi_protocol_version = protocol_single_token, mi_distance = Fin 1,
         mi_self_distance = Fin 0\<rparr>,
      ai_assessed_at = \<lparr>t_ns = 60 * nanos_per_minute, t_utc = True\<rparr>\<rparr>"

lemma half_exact: "nearest (1 / 2) = Fin (1 / 2)"
  using rnd_pow2 [of "- 1"] by (simp add: nearest_small pow2_def)

lemma sample_distance:
  "jensen_shannon sample_lg sample_visit \<lparr>di_counts = [(''a'', 10)], di_invalid_samples = 0\<rparr>
     \<lparr>di_counts = [(''b'', 10)], di_invalid_samples = 0\<rparr> = Inr (Fin 1)"
  by (simp add: jensen_shannon_def distribution_total_def total_step_def sample_visit_def divergence_step_def
      count_of_def sample_lg_def f_of_nat_def half_exact clamp_divergence_def Let_def tiny_def)

lemma policy_bounds:
  obtains u where "nearest (7 / 20) = Fin u" "1 / 4 < u" "u \<le> 1 / 2" "nearest (1 / 4) = Fin (1 / 4)"
proof (rule that)
  have r: "rnd (5 / 16) = 5 / 16" "rnd (1 / 4) = 1 / 4" "rnd (1 / 2) = 1 / 2"
    using rnd_exact [of 5 "- 4"] rnd_exact [of 1 "- 2"] rnd_exact [of 1 "- 1"] by (simp_all add: pow2_def)
  show "nearest (7 / 20) = Fin (rnd (7 / 20))" "nearest (1 / 4) = Fin (1 / 4)"
    by (simp_all add: nearest_small r)
  have "rnd (5 / 16) \<le> rnd (7 / 20)" "rnd (7 / 20) \<le> rnd (1 / 2)" by (intro rnd_mono; simp)+
  then show "1 / 4 < rnd (7 / 20)" "rnd (7 / 20) \<le> 1 / 2" by (simp_all add: r)
qed

lemma default_policy_fields:
  "ap_version default_authenticity_policy = authenticity_policy_v1"
  "ap_minimum_samples_per_cell default_authenticity_policy = 10"
  "ap_match_maximum default_authenticity_policy = nearest (1 / 4)"
  "ap_uncertain_maximum default_authenticity_policy = nearest (7 / 20)"
  "ap_maximum_self_distance default_authenticity_policy = nearest (7 / 20)"
  "ap_mismatch_confirmation_delay default_authenticity_policy = 1800000000000"
  by (simp_all add: default_authenticity_policy_def nanos_per_minute_def nanos_per_second_def)

lemma default_policy_valid: "validate_policy default_authenticity_policy = Inr ()"
  by (rule policy_bounds)
    (simp add: validate_policy_def default_policy_fields valid_distance_def authenticity_policy_v1_def)

lemma sample_comparison:
  "compare_fingerprints sample_lg sample_visit (mr_fingerprint sample_reference) (ai_target sample_assessment_input)
     default_authenticity_policy = Inr
     \<lparr>fc_comparable = True, fc_reason = ReasonUnset, fc_mean_distance = Fin 1, fc_comparable_cells = 8,
      fc_cell_distances = map (\<lambda>cell. (cell, Fin 1)) protocol_v1_cells\<rparr>"
  by (simp add: compare_fingerprints_def default_policy_valid sample_reference_def sample_assessment_input_def
      sample_fingerprint_def protocol_single_token_def protocol_v1_cells_def sample_cells_def sample_distance
      default_policy_fields valid_samples_def no_comparison_def f_of_nat_def)

theorem comparison_sound_witness:
  "valid_distance (fc_mean_distance \<lparr>fc_comparable = True, fc_reason = ReasonUnset, fc_mean_distance = Fin 1,
      fc_comparable_cells = 8, fc_cell_distances = map (\<lambda>cell. (cell, Fin 1)) protocol_v1_cells\<rparr>)"
  using comparison_sound [OF sample_comparison] by simp

lemma sample_confirmed: "confirmed_independent_mismatch sample_assessment_input sample_reference default_authenticity_policy"
  by (rule policy_bounds)
    (simp add: confirmed_independent_mismatch_def sample_assessment_input_def sample_reference_def default_policy_fields
      sample_fingerprint_def valid_distance_def protocol_single_token_def is_zero_time_def time_sub_def
      nanos_per_minute_def nanos_per_second_def min_int64_def max_int64_def)

lemma sample_classified:
  "classify_distance (Fin 1) True default_authenticity_policy =
     (VerdictInconsistent, VConfHigh, ReasonDistanceMismatchConfirmed)"
  by (rule policy_bounds) (simp add: classify_distance_def default_policy_fields)

lemma sample_assessment:
  "assess_authenticity sample_lg sample_visit sample_assessment_input default_authenticity_policy = Inr
     \<lparr>as_policy_version = authenticity_policy_v1, as_verdict = VerdictInconsistent, as_confidence = VConfHigh,
      as_reason = ReasonDistanceMismatchConfirmed, as_assessed_at = \<lparr>t_ns = 60 * nanos_per_minute, t_utc = True\<rparr>,
      as_comparison =
        \<lparr>fc_comparable = True, fc_reason = ReasonUnset, fc_mean_distance = Fin 1, fc_comparable_cells = 8,
         fc_cell_distances = map (\<lambda>cell. (cell, Fin 1)) protocol_v1_cells\<rparr>\<rparr>"
proof -
  have i: "ai_reference sample_assessment_input = Some sample_reference"
    "ai_assessed_at sample_assessment_input = \<lparr>t_ns = 60 * nanos_per_minute, t_utc = True\<rparr>"
    "ai_subject sample_assessment_input = sample_subject"
    "fp_collected_at (ai_target sample_assessment_input) = \<lparr>t_ns = 60 * nanos_per_minute, t_utc = True\<rparr>"
    "fp_stability (ai_target sample_assessment_input) = \<lparr>sb_measured = True, sb_distance = Fin 0\<rparr>"
    by (simp_all add: sample_assessment_input_def sample_fingerprint_def)
  have m: "trim_space ''m'' \<noteq> []" by code_simp
  have r: "mr_id sample_reference \<noteq> []" "mr_revision sample_reference = 1" "mr_source sample_reference \<noteq> sample_subject"
    "valid_subject (mr_source sample_reference)" "mr_trust sample_reference = ReferenceOfficial"
    "mr_expires_at sample_reference = \<lparr>t_ns = 600 * nanos_per_minute, t_utc = True\<rparr>"
    "fp_collected_at (mr_fingerprint sample_reference) = \<lparr>t_ns = nanos_per_minute, t_utc = True\<rparr>"
    "fp_stability (mr_fingerprint sample_reference) = \<lparr>sb_measured = True, sb_distance = Fin 0\<rparr>"
    "valid_subject sample_subject"
    using m by (simp_all add: sample_reference_def sample_subject_def sample_fingerprint_def valid_subject_def uuid_nil_def)
  show ?thesis
    by (rule policy_bounds)
      (simp add: assess_authenticity_def default_policy_valid i r sample_comparison can_establish_authenticity_def
        valid_distance_def default_policy_fields sample_confirmed sample_classified time_defs nanos_per_minute_def
        nanos_per_second_def)
qed

theorem inconsistent_needs_independent_evidence_witness:
  "\<exists>prior. ai_prior_mismatch sample_assessment_input = Some prior
     \<and> 1800000000000 \<le> time_sub (fp_collected_at (ai_target sample_assessment_input)) (mi_observed_at prior)"
  using inconsistent_needs_independent_evidence [OF sample_assessment] by (auto simp: default_policy_fields)

end
