(* ===== verification/ScoreInputs.thy ===== *)
theory ScoreInputs imports Histogram Recommendation Authenticity begin

text \<open>
  \<open>internal/application/scoring\<close>: \<open>policy.go\<close>, \<open>confidence.go\<close>,
  \<open>calculation.go\<close> and the data of \<open>types.go\<close> - how the facts stored about a
  supplier's model become the inputs of the scoring domain.

  The explanation maps, which are only stored for a reader, are not modelled.
\<close>

section \<open>Types\<close>

record 'd target =
  tg_site_id :: uuid
  tg_relation_id :: uuid
  tg_supplier_id :: uuid
  tg_supplier_name :: string
  tg_model :: string
  tg_input_price :: 'd
  tg_output_price :: 'd
  tg_currency :: string
  tg_desired_status :: string
  tg_sync_status :: string
  tg_current_strategies :: "auto_kind list"

record window_metrics =
  wm_attempt_count :: "64 word"
  wm_sla_attempt_count :: "64 word"
  wm_success_count :: "64 word"
  wm_failure_count :: "64 word"
  wm_sla_failure_count :: "64 word"
  wm_rate_limited_count :: "64 word"
  wm_stream_count :: "64 word"
  wm_stream_completed_count :: "64 word"
  wm_ttft_count :: "64 word"
  wm_success_duration_count :: "64 word"
  wm_coarse_duration_count :: "64 word"
  wm_recovery_millis :: "64 word"
  wm_ttft :: latency_histogram
  wm_success_duration :: latency_histogram
  wm_facts_through :: instant
  wm_pending_attribution :: bool

record collection_evidence =
  ce_last_success_at :: instant
  ce_source_latest :: instant
  ce_data_gap :: bool

record price_evidence =
  pe_available :: bool
  pe_changes_per_day :: "64 word"
  pe_change_magnitude_ratio :: f64

record failure_streak =
  fs_total :: "64 word"
  fs_authentication :: "64 word"
  fs_balance :: "64 word"

record evaluation_evidence =
  ee_authenticity_id :: "uuid option"
  ee_authenticity :: verdict
  ee_authenticity_confidence :: f64
  ee_authenticity_checked_at :: instant
  ee_capability_id :: "uuid option"
  ee_capability_score :: f64
  ee_capability_confidence :: f64
  ee_capability_checked_at :: instant
  ee_capability_checks :: int
  ee_health_score :: f64
  ee_health_confidence :: f64
  ee_health_checked_at :: instant

section \<open>The policy\<close>

definition rule_of :: "rat \<Rightarrow> rat \<Rightarrow> rat \<Rightarrow> metric_rule" where
  "rule_of best worst weight = \<lparr>mr_best = nearest best, mr_worst = nearest worst, mr_weight = nearest weight\<rparr>"

definition default_price_rules :: price_rules where
  "default_price_rules =
     \<lparr>pr_relative_cost = rule_of 1 3 (70 / 100),
      pr_changes_per_day = rule_of 0 4 (15 / 100),
      pr_change_magnitude = rule_of 0 (1 / 2) (15 / 100)\<rparr>"

definition default_latency_rules :: latency_rules where
  "default_latency_rules =
     \<lparr>lr_ttft_p50 = rule_of 500 10000 (35 / 100),
      lr_ttft_p95 = rule_of 1000 20000 (25 / 100),
      lr_duration_p50 = rule_of 1000 60000 (15 / 100),
      lr_duration_p95 = rule_of 3000 120000 (15 / 100),
      lr_variability = rule_of 1 5 (10 / 100)\<rparr>"

definition default_sla_rules :: sla_rules where
  "default_sla_rules =
     \<lparr>sr_attempt_success = rule_of 1 (8 / 10) (35 / 100),
      sr_rate_limit = rule_of 0 (2 / 10) (20 / 100),
      sr_consecutive_fails = rule_of 0 3 (15 / 100),
      sr_stream_completion = rule_of 1 (8 / 10) (10 / 100),
      sr_recovery = rule_of 0 3600000 (10 / 100),
      sr_capacity = rule_of 1 (8 / 10) (10 / 100)\<rparr>"

definition default_quality_rules :: quality_rules where
  "default_quality_rules =
     \<lparr>qr_authenticity = rule_of 1 0 (40 / 100),
      qr_authenticity_values = \<lparr>av_consistent = Fin 1, av_suspicious = nearest (1 / 2), av_inconsistent = Fin 0\<rparr>,
      qr_capability = rule_of 1 0 (35 / 100),
      qr_stability = rule_of 1 0 (10 / 100),
      qr_evidence = rule_of 1 0 (15 / 100)\<rparr>"

section \<open>Confidence of the evidence\<close>

definition fifteen_minutes :: int where "fifteen_minutes = 15 * nanos_per_minute"
definition one_hour :: int where "one_hour = 60 * nanos_per_minute"
definition one_day :: int where "one_day = 24 * one_hour"

definition freshness_confidence :: "instant \<Rightarrow> instant \<Rightarrow> confidence" where
  "freshness_confidence moment now =
     (if is_zero_time moment \<or> one_hour < time_sub now moment then ConfInsufficient
      else if time_sub now moment \<le> fifteen_minutes then ConfHigh else ConfMedium)"

definition collection_confidence :: "collection_evidence \<Rightarrow> instant \<Rightarrow> confidence" where
  "collection_confidence e now =
     (if ce_data_gap e \<or> is_zero_time (ce_last_success_at e) \<or> one_hour < time_sub now (ce_last_success_at e)
      then ConfInsufficient
      else if time_sub now (ce_last_success_at e) \<le> fifteen_minutes then ConfHigh else ConfMedium)"

definition timing_confidence :: "window_metrics \<Rightarrow> confidence" where
  "timing_confidence m =
     (if wm_sla_attempt_count m = 0 \<or> wm_success_duration_count m * 2 < wm_success_count m then ConfInsufficient
      else if 0 < wm_coarse_duration_count m \<or> 0 < wm_stream_count m \<and> wm_ttft_count m * 2 < wm_stream_count m
      then ConfLow else ConfHigh)"

definition sample_confidence :: "64 word \<Rightarrow> confidence" where
  "sample_confidence s =
     (if 200 \<le> s then ConfHigh else if default_minimum_samples \<le> s then ConfMedium else ConfInsufficient)"

definition active_probe_confidence :: "evaluation_evidence \<Rightarrow> instant \<Rightarrow> confidence" where
  "active_probe_confidence e now =
     (if is_zero_time (ee_health_checked_at e) \<or> one_day < time_sub now (ee_health_checked_at e)
        \<or> f_lt (ee_health_confidence e) (nearest (1 / 2)) then ConfInsufficient
      else if f_le (nearest (9 / 10)) (ee_health_confidence e) then ConfHigh else ConfMedium)"

definition authenticity_confidence :: "evaluation_evidence \<Rightarrow> instant \<Rightarrow> confidence" where
  "authenticity_confidence e now =
     (if ee_authenticity_id e = None \<or> ee_authenticity e = VerdictInsufficient
        \<or> is_zero_time (ee_authenticity_checked_at e) \<or> 7 * one_day < time_sub now (ee_authenticity_checked_at e)
      then ConfInsufficient
      else if f_le (nearest (9 / 10)) (ee_authenticity_confidence e) then ConfHigh
      else if f_le (nearest (6 / 10)) (ee_authenticity_confidence e) then ConfMedium else ConfLow)"

definition boolean_confidence :: "bool \<Rightarrow> confidence" where
  "boolean_confidence ok = (if ok then ConfHigh else ConfInsufficient)"

definition evidence_factors ::
  "window_metrics \<Rightarrow> collection_evidence \<Rightarrow> evaluation_evidence \<Rightarrow> instant \<Rightarrow> confidence_factor list" where
  "evidence_factors m c e now =
     [\<lparr>cf_name = ''freshness'', cf_level = freshness_confidence (wm_facts_through m) now\<rparr>,
      \<lparr>cf_name = ''collection_coverage'', cf_level = collection_confidence c now\<rparr>,
      \<lparr>cf_name = ''timing_coverage'', cf_level = timing_confidence m\<rparr>,
      \<lparr>cf_name = ''attribution'', cf_level = boolean_confidence (\<not> wm_pending_attribution m)\<rparr>,
      \<lparr>cf_name = ''supplier_mapping'', cf_level = ConfHigh\<rparr>,
      \<lparr>cf_name = ''real_traffic'', cf_level = sample_confidence (wm_sla_attempt_count m)\<rparr>,
      \<lparr>cf_name = ''active_probe'', cf_level = active_probe_confidence e now\<rparr>,
      \<lparr>cf_name = ''authenticity'', cf_level = authenticity_confidence e now\<rparr>]"

section \<open>Dimension scores\<close>

text \<open>\<open>math.Min\<close> and \<open>math.Max\<close>.\<close>

definition f_min :: "f64 \<Rightarrow> f64 \<Rightarrow> f64" where
  "f_min a b = (if a = NInf \<or> b = NInf then NInf else if a = NaN \<or> b = NaN then NaN else if f_le a b then a else b)"

definition f_max :: "f64 \<Rightarrow> f64 \<Rightarrow> f64" where
  "f_max a b = (if a = PInf \<or> b = PInf then PInf else if a = NaN \<or> b = NaN then NaN else if f_le a b then b else a)"

definition clamp_ratio :: "f64 \<Rightarrow> f64" where
  "clamp_ratio v = f_max (Fin 0) (f_min (Fin 1) v)"

definition percentile_value :: "percentile_range \<Rightarrow> f64" where
  "percentile_value v = (if pg_upper_infinite v then Fin 600000 else nearest (of_int (pg_upper v)))"

definition scoring_authenticity :: "verdict \<Rightarrow> authenticity" where
  "scoring_authenticity v =
     (case v of VerdictConsistent \<Rightarrow> AuthConsistent | VerdictSuspicious \<Rightarrow> AuthSuspicious
      | VerdictInconsistent \<Rightarrow> AuthInconsistent | _ \<Rightarrow> AuthPending)"

definition target_price :: "'d libs \<Rightarrow> 'd target \<Rightarrow> 'd \<Rightarrow> price_evidence \<Rightarrow> scoring_error + dimension_score" where
  "target_price L t lowest e =
     score_price L
       \<lparr>pm_current_cost = dec_div L (dec_add L (tg_input_price t) (tg_output_price t)) (dec_of_int L 2),
        pm_lowest_candidate_cost = lowest, pm_changes_per_day = pe_changes_per_day e,
        pm_change_magnitude_ratio = pe_change_magnitude_ratio e\<rparr> default_price_rules"

text \<open>A dimension score and whether it is available.\<close>

definition available :: "scoring_error + dimension_score \<Rightarrow> dimension_score option" where
  "available r = (case r of Inr s \<Rightarrow> Some s | Inl _ \<Rightarrow> None)"

definition target_quality :: "evaluation_evidence \<Rightarrow> instant \<Rightarrow> dimension_score option" where
  "target_quality e now =
     (if scoring_authenticity (ee_authenticity e) = AuthPending \<or> ee_capability_id e = None
        \<or> is_zero_time (ee_capability_checked_at e) \<or> 7 * one_day < time_sub now (ee_capability_checked_at e)
      then None
      else available (score_quality
        \<lparr>qm_authenticity = scoring_authenticity (ee_authenticity e),
         qm_capability_rate = clamp_ratio (f_div (ee_capability_score e) (Fin 100)),
         qm_stability_rate = clamp_ratio (ee_capability_confidence e),
         qm_evidence_confidence = clamp_ratio (ee_authenticity_confidence e)\<rparr> default_quality_rules))"

definition window_latency :: "window_metrics \<Rightarrow> dimension_score option" where
  "window_latency m =
     (case (summarize_latency [wm_ttft m], summarize_latency [wm_success_duration m]) of
        (Inr ttft, Inr elapsed) \<Rightarrow>
          available (score_latency
            \<lparr>lm_ttft_p50 = percentile_value (ls_p50 ttft), lm_ttft_p95 = percentile_value (ls_p95 ttft),
             lm_duration_p50 = percentile_value (ls_p50 elapsed), lm_duration_p95 = percentile_value (ls_p95 elapsed),
             lm_variability = f_div (percentile_value (ls_p95 ttft)) (f_max (percentile_value (ls_p50 ttft)) (Fin 1))\<rparr>
            default_latency_rules)
      | _ \<Rightarrow> None)"

definition f_of_word :: "64 word \<Rightarrow> f64" where
  "f_of_word w = f_of_nat (unat w)"

definition window_sla :: "window_metrics \<Rightarrow> 64 word \<Rightarrow> dimension_score option" where
  "window_sla m consecutive =
     (if wm_sla_attempt_count m = 0 then None
      else let success = f_div (f_of_word (wm_sla_attempt_count m - wm_sla_failure_count m)) (f_of_word (wm_sla_attempt_count m));
             limited = f_div (f_of_word (wm_rate_limited_count m)) (f_of_word (wm_sla_attempt_count m));
             stream = (if 0 < wm_stream_count m
                       then f_div (f_of_word (wm_stream_completed_count m)) (f_of_word (wm_stream_count m)) else Fin 1) in
        available (score_sla
          \<lparr>sm_attempt_success_rate = success, sm_rate_limit_rate = limited, sm_consecutive_failures = consecutive,
           sm_stream_completion_rate = stream, sm_recovery_millis = f_of_word (wm_recovery_millis m),
           sm_capacity_stability = clamp_ratio (f_sub (Fin 1) limited)\<rparr> default_sla_rules))"

definition score_or_zero :: "dimension_score option \<Rightarrow> score" where
  "score_or_zero d = (case d of Some s \<Rightarrow> dsc_score s | None \<Rightarrow> Fin 0)"

definition build_window_score ::
  "window \<Rightarrow> window_metrics \<Rightarrow> collection_evidence \<Rightarrow> evaluation_evidence \<Rightarrow> dimension_score option
   \<Rightarrow> dimension_score option \<Rightarrow> 64 word \<Rightarrow> instant \<Rightarrow> window_score_input" where
  "build_window_score w m c e price quality consecutive now =
     (let latency = window_latency m; sla = window_sla m consecutive in
      \<lparr>wi_window = w,
       wi_complete = (price \<noteq> None \<and> latency \<noteq> None \<and> sla \<noteq> None \<and> quality \<noteq> None),
       wi_scores = \<lparr>ds_price = score_or_zero price, ds_latency = score_or_zero latency, ds_sla = score_or_zero sla,
                    ds_quality = score_or_zero quality\<rparr>,
       wi_evidence =
         \<lparr>ev_sample_count = wm_sla_attempt_count m, ev_minimum_samples = default_minimum_samples,
          ev_factors = evidence_factors m c e now,
          ev_collection_gaps = (if ce_data_gap c then [''site_collection_gap''] else []),
          ev_attribution_pending = wm_pending_attribution m\<rparr>\<rparr>)"

section \<open>The hard gates\<close>

definition target_gates :: "evaluation_evidence \<Rightarrow> failure_streak \<Rightarrow> instant \<Rightarrow> hard_gate_input" where
  "target_gates e failures now =
     (let credential = (if 3 \<le> fs_authentication failures then CheckFail
             else if active_probe_confidence e now \<noteq> ConfInsufficient then CheckPass else CheckPending);
          balance = (if 3 \<le> fs_balance failures then CheckFail
             else if credential = CheckPass then CheckPass else CheckPending) in
      \<lparr>hg_authenticity = Some (scoring_authenticity (ee_authenticity e)), hg_credential_valid = credential,
       hg_balance_available = balance, hg_major_risk_absent = CheckPass, hg_consecutive_failures = fs_total failures\<rparr>)"

definition scoring_policy :: recommendation_policy where
  "scoring_policy =
     \<lparr>rp_version = policy_version_m2, rp_join_threshold = Fin 75, rp_exit_threshold = Fin 50,
      rp_required_consecutive = 2, rp_hard_gates = default_hard_gate_policy\<rparr>"

section \<open>Computed scores are valid\<close>

lemma tame_nearest:
  assumes "\<bar>q\<bar> \<le> 10000000"
  shows "tame (nearest q)"
proof -
  have "\<bar>rnd q\<bar> \<le> pow2 24" by (rule rnd_bound) (use assms in \<open>simp_all add: pow2_def\<close>)
  moreover have "pow2 24 \<le> pow2 999" "pow2 24 < pow2 1024" by (simp_all add: pow2_def)
  ultimately show ?thesis by (auto simp: nearest_def tame_def Let_def abs_le_iff)
qed

lemma tame_rule: "\<bar>b\<bar> \<le> 10000000 \<Longrightarrow> \<bar>w\<bar> \<le> 10000000 \<Longrightarrow> tame (mr_best (rule_of b w k)) \<and> tame (mr_worst (rule_of b w k))"
  by (simp add: rule_of_def tame_nearest)

text \<open>With tame bounds, the normalised value of any finite metric is a number, overflow included.\<close>

lemma normalize_finite:
  assumes n: "normalize_metric v rule = Inr s" and t: "tame (mr_best rule)" "tame (mr_worst rule)"
  shows "valid_score s"
proof -
  obtain q where q: "v = Fin q" using n by (cases v) (auto simp: normalize_metric_def)
  obtain b w where b: "mr_best rule = Fin b" and w: "mr_worst rule = Fin w" and d: "rnd (w - b) \<noteq> 0"
    using normalize_tame [OF tame_numeral(1) t normalize_Inr_neq [OF n]] by (metis less_irrefl)
  have sub: "f_sub (Fin w) (Fin b) = Fin (rnd (w - b))"
    using t unfolding b w by (auto elim!: tameE intro: f_sub_tame)
  have "f_div (nearest x) (Fin r) \<noteq> NaN" if "r \<noteq> 0" for x r
    using that by (cases "nearest x") (auto simp: f_inf_def)
  then have "f_div (f_sub v (mr_best rule)) (f_sub (mr_worst rule) (mr_best rule)) \<noteq> NaN"
    using d by (simp add: b w sub) (simp add: q f_sub_def)
  then have "f_mul (Fin 100) (f_sub (Fin 1) (f_div (f_sub v (mr_best rule)) (f_sub (mr_worst rule) (mr_best rule)))) \<noteq> NaN"
    by (intro f_mul_not_NaN f_sub_not_NaN) simp_all
  then show ?thesis using n by (auto simp: normalize_metric_def Let_def split: if_splits)
qed

definition tame_rules :: "metric_input list \<Rightarrow> bool" where
  "tame_rules ms \<longleftrightarrow> list_all (\<lambda>m. tame (mr_best (mi_rule m)) \<and> tame (mr_worst (mi_rule m))) ms \<and> length ms \<le> 99"

lemma dimension_valid:
  assumes r: "score_dimension d ms = Inr r" and t: "tame_rules ms"
  shows "valid_score (dsc_score r)"
proof -
  have sc: "scorable m" if m: "m \<in> set ms" for m
  proof -
    from r have "\<forall>w\<in>set (map (mr_weight \<circ> mi_rule) ms). \<exists>q. w = Fin q \<and> 0 < q \<and> q \<le> 1"
      by (auto simp: score_dimension_def dest: validate_weights_ok)
    with m obtain w where w: "mr_weight (mi_rule m) = Fin w" "0 < w" "w \<le> 1" by auto
    obtain acc where "foldE score_step (Fin 0, []) ms = Inr acc" using r by (auto simp: score_dimension_def)
    then obtain n where n: "normalize_metric (mi_value m) (mi_rule m) = Inr n"
      using m by (auto dest!: split_list simp: foldE_append score_step_def)
    have "valid_score n"
      by (rule normalize_finite [OF n]) (use t m in \<open>auto simp: tame_rules_def list_all_iff\<close>)
    with n w show ?thesis by (auto simp: scorable_def valid_score_iff)
  qed
  have "\<exists>cs. foldE score_step (Fin 0, []) ms = Inr (Fin (foldl (\<lambda>s x. rnd (s + x)) 0 (map score_term ms)), cs) \<and>
      (\<forall>c\<in>set cs. c \<in> set [] \<or> valid_score (cs_normalized c))"
    by (rule score_steps_sum [where k = 0]) (use sc t in \<open>auto simp: tame_rules_def\<close>)
  then show ?thesis using r by (auto simp: score_dimension_def)
qed

lemma price_valid: "target_price L t lowest e = Inr s \<Longrightarrow> valid_score (dsc_score s)"
  by (auto simp: target_price_def score_price_def Let_def default_price_rules_def metric_def split: if_splits
      intro!: dimension_valid simp: tame_rules_def tame_rule)

lemma latency_valid: "window_latency m = Some s \<Longrightarrow> valid_score (dsc_score s)"
  by (auto simp: window_latency_def available_def score_latency_def default_latency_rules_def metric_def
      split: sum.splits intro!: dimension_valid simp: tame_rules_def tame_rule)

lemma sla_valid: "window_sla m n = Some s \<Longrightarrow> valid_score (dsc_score s)"
  by (auto simp: window_sla_def available_def score_sla_def Let_def default_sla_rules_def metric_def
      split: if_splits sum.splits intro!: dimension_valid simp: tame_rules_def tame_rule)

lemma quality_valid: "target_quality e now = Some s \<Longrightarrow> valid_score (dsc_score s)"
  by (auto simp: target_quality_def available_def score_quality_def default_quality_rules_def metric_def
      split: if_splits sum.splits intro!: dimension_valid simp: tame_rules_def tame_rule)

section \<open>Scoring never fails on the evidence\<close>

lemma trimmed_factors: "map trim_space required_confidence_factors = required_confidence_factors"
  by code_simp

lemma factor_names: "map factor_name (evidence_factors m c e now) = required_confidence_factors"
proof -
  have "map factor_name (evidence_factors m c e now) = map trim_space required_confidence_factors"
    by (simp add: evidence_factors_def factor_name_def required_confidence_factors_def)
  then show ?thesis by (simp only: trimmed_factors)
qed

lemma known_factor: "name \<in> set required_confidence_factors \<Longrightarrow> known_confidence_factor name"
  by (simp add: known_confidence_factor_def list_ex_iff)

lemma distinct_factors: "distinct required_confidence_factors"
  by code_simp

lemma known_levels:
  "confidence_rank (freshness_confidence a b) \<noteq> None" "confidence_rank (collection_confidence ce b) \<noteq> None"
  "confidence_rank (timing_confidence m) \<noteq> None" "confidence_rank (sample_confidence k) \<noteq> None"
  "confidence_rank (active_probe_confidence e b) \<noteq> None" "confidence_rank (authenticity_confidence e b) \<noteq> None"
  "confidence_rank (boolean_confidence ok) \<noteq> None"
  by (simp_all add: freshness_confidence_def collection_confidence_def timing_confidence_def sample_confidence_def
      active_probe_confidence_def authenticity_confidence_def boolean_confidence_def)

lemma factors_known: "f \<in> set (evidence_factors m c e now) \<Longrightarrow> confidence_rank (cf_level f) \<noteq> None"
  using known_levels by (auto simp: evidence_factors_def)

lemma gap_text: "trim_space ''site_collection_gap'' \<noteq> []"
  by code_simp

lemma built_evidence_ok: "evidence_ok (wi_evidence (build_window_score w m c e price quality n now))"
proof -
  have "factor_name f \<in> set required_confidence_factors" if "f \<in> set (evidence_factors m c e now)" for f
    using that factor_names [of m c e now] by (metis image_eqI list.set_map)
  then show ?thesis
    using factors_known [of _ m c e now] distinct_factors known_factor
    by (auto simp: build_window_score_def Let_def evidence_ok_def factors_ok_def factor_names gap_text)
qed

lemma built_scores_valid:
  assumes "wi_complete (build_window_score w m c e price (target_quality e now) n now)"
    and "\<And>p. price = Some p \<Longrightarrow> valid_score (dsc_score p)"
  shows "validate_dimension_scores (wi_scores (build_window_score w m c e price (target_quality e now) n now)) = Inr ()"
proof -
  obtain p l s q where d: "price = Some p" "window_latency m = Some l" "window_sla m n = Some s" "target_quality e now = Some q"
    using assms(1) by (auto simp: build_window_score_def Let_def)
  show ?thesis
    using assms(2) [OF d(1)] latency_valid [OF d(2)] sla_valid [OF d(3)] quality_valid [OF d(4)]
    by (simp add: build_window_score_def Let_def d validate_dimension_scores_def score_or_zero_def)
qed

lemma window_steps_succeed:
  assumes "\<And>w i. m w = Some i \<Longrightarrow> evidence_ok (wi_evidence i) \<and>
    (if wi_complete i then validate_dimension_scores (wi_scores i) = Inr () else True)"
  shows "\<exists>t. foldE (window_step m) s cs = Inr t"
proof (induction cs arbitrary: s)
  case (Cons c cs)
  have "\<exists>t. window_step m s c = Inr t"
  proof (cases "m (ww_window c)")
    case (Some i)
    have i: "evidence_ok (wi_evidence i)" "wi_complete i \<Longrightarrow> validate_dimension_scores (wi_scores i) = Inr ()"
      using assms [OF Some] by (simp_all split: if_splits)
    have "assess_evidence (wi_evidence i) \<noteq> Inl x" for x by (subst assess_cases) (simp add: i(1))
    then obtain a where a: "assess_evidence (wi_evidence i) = Inr a" by (cases "assess_evidence (wi_evidence i)") auto
    then show ?thesis
      by (cases "wi_complete i \<and> ea_usable a") (auto simp: window_step_def Some Let_def i(2) a simp del: bindE_Inr_iff)
  qed (simp add: window_step_def)
  then show ?case using Cons.IH by auto
qed simp

lemma combine_succeeds:
  assumes "windows_ok ins"
    and i: "\<And>i. i \<in> set ins \<Longrightarrow> evidence_ok (wi_evidence i) \<and>
      (if wi_complete i then validate_dimension_scores (wi_scores i) = Inr () else True)"
  shows "\<exists>r. combine_window_scores ins = Inr r"
proof -
  have "\<exists>t. foldE (window_step (by_window ins)) window_scan0 default_window_weights = Inr t"
    by (rule window_steps_succeed) (use i in \<open>auto dest: by_window_Some\<close>)
  then show ?thesis using assms(1) by (auto simp: combine_window_scores_def index_loop list_all_iff)
qed

text \<open>The inputs of the three windows, in the order they are read.\<close>

definition scored_windows :: "(window \<times> int) list" where
  "scored_windows = [(Window15Minutes, fifteen_minutes), (Window1Hour, one_hour), (Window24Hours, one_day)]"

definition window_inputs ::
  "window_metrics list \<Rightarrow> collection_evidence \<Rightarrow> evaluation_evidence \<Rightarrow> dimension_score option \<Rightarrow> 64 word \<Rightarrow> instant
   \<Rightarrow> window_score_input list" where
  "window_inputs ms c e price n now =
     map2 (\<lambda>w m. build_window_score (fst w) m c e price (target_quality e now) n now) scored_windows ms"

lemma window_inputs_ok: "windows_ok (window_inputs ms c e price n now)"
proof -
  have w: "map wi_window (window_inputs ms c e price n now) = take (length ms) (map fst scored_windows)"
  proof -
    have "map wi_window (map2 (\<lambda>w m. build_window_score (fst w) m c e price q n now) ws ms) = take (length ms) (map fst ws)" for q ws
      by (induction ws arbitrary: ms) (auto simp: build_window_score_def Let_def split: list.splits simp: zip_Cons1)
    then show ?thesis by (simp add: window_inputs_def)
  qed
  have "list_all known_window (take (length ms) (map fst scored_windows))" "distinct (take (length ms) (map fst scored_windows))"
    by (auto simp: scored_windows_def list_all_iff dest!: in_set_takeD)
  then show ?thesis by (simp add: windows_ok_def flip: w add: list_all_iff)
qed

lemma window_inputs_combine:
  assumes "\<And>p. price = Some p \<Longrightarrow> valid_score (dsc_score p)"
  shows "\<exists>r. combine_window_scores (window_inputs ms c e price n now) = Inr r"
proof (rule combine_succeeds [OF window_inputs_ok])
  fix i
  assume "i \<in> set (window_inputs ms c e price n now)"
  then obtain w m where "i = build_window_score w m c e price (target_quality e now) n now"
    by (auto simp: window_inputs_def)
  then show "evidence_ok (wi_evidence i) \<and> (if wi_complete i then validate_dimension_scores (wi_scores i) = Inr () else True)"
    using built_evidence_ok built_scores_valid [OF _ assms] by auto
qed

end
