(* ===== verification/ScoreRuns.thy ===== *)
theory ScoreRuns imports ScoreInputs Gateway Programs begin

text \<open>
  \<open>internal/application/scoring/service.go\<close> and the repository of \<open>types.go\<close>:
  scoring every active target of every site and storing a snapshot of each, inside one recorded run
  per site.

  Every call on the repository is a function of the environment and leaves an event with its
  arguments and reply.  The explanation stored with a snapshot and the texts of messages are not
  modelled.  The order in which Go ranges over the map of the runs is a function of the environment
  (\<open>sc_run_order\<close>).
\<close>

section \<open>Types\<close>

record 'd score_snapshot =
  sn_id :: uuid
  sn_run_id :: "uuid option"
  sn_target :: "'d target"
  sn_window_start :: instant
  sn_window_end :: instant
  sn_facts_through :: "instant option"
  sn_passive_samples :: "64 word"
  sn_active_samples :: "64 word"
  sn_scores :: "dimension_scores option"
  sn_balanced_score :: "score option"
  sn_confidence :: confidence
  sn_eligibility :: string
  sn_hard_reasons :: "gate_reason list"
  sn_authenticity_id :: "uuid option"
  sn_capability_id :: "uuid option"
  sn_created_at :: instant
  sn_recommendations :: "shadow_advice list"

record score_run =
  sr_id :: uuid
  sr_site_id :: uuid
  sr_policy_version :: string
  sr_window_end :: instant
  sr_expected_targets :: int
  sr_started_at :: instant

record previous_recommendation =
  pv_score :: "score option"
  pv_created_at :: instant
  pv_confidence :: confidence

datatype 'd scoring_event =
    ScRefresh instant instant instant instant "go_error option"
  | ScTargets "go_error + 'd target list"
  | ScBegin score_run "go_error + bool"
  | ScFinish uuid int bool "go_error option"
  | ScCollection uuid "go_error + collection_evidence"
  | ScEvaluation uuid string instant "go_error + evaluation_evidence"
  | ScLowest uuid string string "go_error + 'd"
  | ScPrice "'d target" instant instant "go_error + price_evidence"
  | ScStreak "'d target" instant "go_error + failure_streak"
  | ScMetrics "'d target" instant instant "go_error + window_metrics"
  | ScPrevious "'d target" auto_kind instant "go_error + previous_recommendation option"
  | ScSave "'d score_snapshot" "go_error option"

type_synonym ('d, 'w, 'r, 'a) scoring = "('d scoring_event, 'w, 'r, 'a) action"

record 'w score_run_recorder =
  sr_begin :: "score_run \<Rightarrow> 'w \<Rightarrow> (go_error + bool) \<times> 'w"
  sr_finish :: "uuid \<Rightarrow> int \<Rightarrow> bool \<Rightarrow> instant \<Rightarrow> 'w \<Rightarrow> go_error option \<times> 'w"

record ('d, 'w) scoring_env =
  sc_refresh :: "instant \<Rightarrow> instant \<Rightarrow> instant \<Rightarrow> instant \<Rightarrow> 'w \<Rightarrow> go_error option \<times> 'w"
  sc_targets :: "'w \<Rightarrow> (go_error + 'd target list) \<times> 'w"
  sc_lowest :: "uuid \<Rightarrow> string \<Rightarrow> string \<Rightarrow> 'w \<Rightarrow> (go_error + 'd) \<times> 'w"
  sc_price :: "'d target \<Rightarrow> instant \<Rightarrow> instant \<Rightarrow> 'w \<Rightarrow> (go_error + price_evidence) \<times> 'w"
  sc_metrics :: "'d target \<Rightarrow> instant \<Rightarrow> instant \<Rightarrow> 'w \<Rightarrow> (go_error + window_metrics) \<times> 'w"
  sc_collection :: "uuid \<Rightarrow> 'w \<Rightarrow> (go_error + collection_evidence) \<times> 'w"
  sc_evaluation :: "uuid \<Rightarrow> string \<Rightarrow> instant \<Rightarrow> 'w \<Rightarrow> (go_error + evaluation_evidence) \<times> 'w"
  sc_streak :: "'d target \<Rightarrow> instant \<Rightarrow> 'w \<Rightarrow> (go_error + failure_streak) \<times> 'w"
  sc_previous :: "'d target \<Rightarrow> auto_kind \<Rightarrow> instant \<Rightarrow> 'w \<Rightarrow> (go_error + previous_recommendation option) \<times> 'w"
  sc_save :: "'d score_snapshot \<Rightarrow> 'w \<Rightarrow> go_error option \<times> 'w"
  sc_recorder :: "'w score_run_recorder option"
  sc_run_order :: "(uuid \<times> uuid) list \<Rightarrow> (uuid \<times> uuid) list"
  sc_now :: "'w \<Rightarrow> instant \<times> 'w"
  sc_new_id :: "'w \<Rightarrow> uuid \<times> 'w"

definition maximum_recommendation_gap :: int where
  "maximum_recommendation_gap = 10 * nanos_per_minute"

text \<open>An error of the scoring domain, as an \<open>error\<close> value.\<close>

fun scoring_failure :: "scoring_error \<Rightarrow> go_error" where
  "scoring_failure ErrInvalidHistogram = ErrPlain ''latency histogram is invalid''"
| "scoring_failure ErrNoSamples = ErrPlain ''latency histogram has no samples''"
| "scoring_failure ErrInvalidMetric = ErrPlain ''scoring metric is invalid''"
| "scoring_failure ErrInvalidRules = ErrPlain ''scoring rules are invalid''"
| "scoring_failure ErrInvalidEvidence = ErrPlain ''scoring evidence is invalid''"
| "scoring_failure ErrInvalidWindow = ErrPlain ''scoring window is invalid''"
| "scoring_failure ErrUnknownAutoKind = ErrPlain ''auto kind is unknown''"
| "scoring_failure ErrInvalidRecommendation = ErrPlain ''recommendation input is invalid''"

definition computed :: "scoring_error + 'a \<Rightarrow> ('d, 'w, go_error option, 'a) scoring" where
  "computed r = (case r of Inr x \<Rightarrow> ret x | Inl e \<Rightarrow> exit (Some (scoring_failure e)))"

definition failing :: "go_error \<Rightarrow> ('d, 'w, go_error option, go_error option) scoring" where
  "failing e = ret (Some e)"

section \<open>Consecutive windows\<close>

definition recommendation_streak ::
  "('d, 'w) scoring_env \<Rightarrow> 'd target \<Rightarrow> auto_kind \<Rightarrow> combined_window_score \<Rightarrow> recommendation_policy \<Rightarrow> instant
   \<Rightarrow> ('d, 'w, go_error option, 64 word \<times> 64 word) scoring" where
  "recommendation_streak E t kind combined policy before =
     (if \<not> cw_available combined then ret (0, 0)
      else bindP (computed (fixed_auto_weights (rp_version policy) kind)) (\<lambda>weights.
      bindP (computed (composite_score (cw_scores combined) weights)) (\<lambda>current.
      let joining = (if f_le (rp_join_threshold policy) current then 1 else 0);
          leaving = (if f_lt current (rp_exit_threshold policy) then 1 else 0) in
      bindP (try_value (observed (ScPrevious t kind before) (sc_previous E t kind before)) failing) (\<lambda>previous.
      case previous of
        None \<Rightarrow> ret (joining, leaving)
      | Some p \<Rightarrow>
          if time_before (pv_created_at p) (time_add before (- maximum_recommendation_gap))
            \<or> pv_confidence p \<noteq> ConfMedium \<and> pv_confidence p \<noteq> ConfHigh then ret (joining, leaving)
          else case pv_score p of
            None \<Rightarrow> ret (joining, leaving)
          | Some score \<Rightarrow>
              ret (if joining = 1 \<and> f_le (rp_join_threshold policy) score then joining + 1 else joining,
                   if leaving = 1 \<and> f_lt score (rp_exit_threshold policy) then leaving + 1 else leaving)))))"

definition contains_strategy :: "auto_kind list \<Rightarrow> auto_kind \<Rightarrow> bool" where
  "contains_strategy kinds kind \<longleftrightarrow> list_ex (\<lambda>k. k = kind) kinds"

fun recommend_kinds ::
  "('d, 'w) scoring_env \<Rightarrow> 'd target \<Rightarrow> hard_gate_input \<Rightarrow> combined_window_score \<Rightarrow> instant \<Rightarrow> auto_kind list
   \<Rightarrow> ('d, 'w, go_error option, shadow_advice list) scoring" where
  "recommend_kinds E t gates combined before [] = ret []"
| "recommend_kinds E t gates combined before (kind # kinds) =
     bindP (recommendation_streak E t kind combined scoring_policy before) (\<lambda>(joining, leaving).
     bindP (computed (recommend
       \<lparr>ri_auto_kind = kind, ri_current_member = contains_strategy (tg_current_strategies t) kind,
        ri_windows = combined, ri_hard_gates = gates, ri_consecutive_join = joining, ri_consecutive_exit = leaving\<rparr>
       scoring_policy)) (\<lambda>advice.
     bindP (recommend_kinds E t gates combined before kinds) (\<lambda>rest. ret (advice # rest))))"

definition all_kinds :: "auto_kind list" where
  "all_kinds = [AutoLowestPrice, AutoLowLatency, AutoHighSLA, AutoHighQuality, AutoBalanced]"

section \<open>Scoring a target\<close>

text \<open>The loop over the three windows: their inputs, the samples of the longest one and the
  latest fact.\<close>

fun read_windows ::
  "('d, 'w) scoring_env \<Rightarrow> 'd target \<Rightarrow> collection_evidence \<Rightarrow> evaluation_evidence \<Rightarrow> dimension_score option
   \<Rightarrow> 64 word \<Rightarrow> instant \<Rightarrow> (window \<times> int) list \<Rightarrow> window_score_input list \<times> 64 word \<times> instant
   \<Rightarrow> ('d, 'w, go_error option, window_score_input list \<times> 64 word \<times> instant) scoring" where
  "read_windows E t c e price n stop [] acc = ret acc"
| "read_windows E t c e price n stop ((w, width) # ws) (inputs, samples, facts) =
     bindP (try_value (observed (ScMetrics t (time_add stop (- width)) stop) (sc_metrics E t (time_add stop (- width)) stop))
         failing) (\<lambda>m.
     read_windows E t c e price n stop ws
       (inputs @ [build_window_score w m c e price (target_quality e stop) n stop],
        if w = Window24Hours then wm_sla_attempt_count m else samples,
        if time_after (wm_facts_through m) facts then wm_facts_through m else facts))"

definition excluded_reasons :: "shadow_advice list \<Rightarrow> gate_reason list" where
  "excluded_reasons advice =
     foldl (\<lambda>reasons a. if sa_action a = AdviceExclude \<and> reasons = [] then reasons @ sa_hard_reasons a else reasons) [] advice"

definition balanced_score :: "shadow_advice list \<Rightarrow> score option" where
  "balanced_score advice =
     foldl (\<lambda>s a. if sa_auto_kind a = AutoBalanced then sa_composite_score a else s) None advice"

definition eligibility_of :: "combined_window_score \<Rightarrow> shadow_advice list \<Rightarrow> string" where
  "eligibility_of combined advice =
     (if list_ex (\<lambda>a. sa_action a = AdviceExclude) advice then ''excluded''
      else if cw_decision_ready combined then ''eligible'' else ''insufficient'')"

definition score_of_target ::
  "'d libs \<Rightarrow> ('d, 'w) scoring_env \<Rightarrow> 'd target \<Rightarrow> instant \<Rightarrow> uuid option
   \<Rightarrow> ('d, 'w, go_error option, 'd score_snapshot) scoring" where
  "score_of_target L E t stop run =
     bindP (try_value (observed (ScCollection (tg_site_id t)) (sc_collection E (tg_site_id t))) failing) (\<lambda>c.
     bindP (try_value (observed (ScEvaluation (tg_supplier_id t) (tg_model t) stop)
         (sc_evaluation E (tg_supplier_id t) (tg_model t) stop)) failing) (\<lambda>e.
     bindP (try_value (observed (ScLowest (tg_site_id t) (tg_model t) (tg_currency t))
         (sc_lowest E (tg_site_id t) (tg_model t) (tg_currency t))) failing) (\<lambda>lowest.
     bindP (try_value (observed (ScPrice t (time_add stop (- one_day)) stop)
         (sc_price E t (time_add stop (- one_day)) stop)) failing) (\<lambda>pe.
     bindP (computed (target_price L t lowest pe)) (\<lambda>price.
     bindP (try_value (observed (ScStreak t stop) (sc_streak E t stop)) failing) (\<lambda>streak.
     bindP (read_windows E t c e (if pe_available pe then Some price else None) (fs_total streak) stop
         scored_windows ([], 0, time_zero)) (\<lambda>(inputs, samples, facts).
     bindP (computed (combine_window_scores inputs)) (\<lambda>combined.
     bindP (recommend_kinds E t (target_gates e streak stop) combined stop all_kinds) (\<lambda>advice.
     bindP (silent (sc_new_id E)) (\<lambda>identifier.
     bindP (now_utc (sc_now E)) (\<lambda>created.
     ret \<lparr>sn_id = identifier, sn_run_id = run, sn_target = t, sn_window_start = time_add stop (- one_day),
          sn_window_end = stop, sn_facts_through = (if is_zero_time facts then None else Some facts),
          sn_passive_samples = samples, sn_active_samples = of_int (max (ee_capability_checks e) 0),
          sn_scores = (if cw_available combined then Some (cw_scores combined) else None),
          sn_balanced_score = balanced_score advice, sn_confidence = cw_confidence combined,
          sn_eligibility = eligibility_of combined advice, sn_hard_reasons = excluded_reasons advice,
          sn_authenticity_id = ee_authenticity_id e, sn_capability_id = ee_capability_id e,
          sn_created_at = created, sn_recommendations = advice\<rparr>)))))))))))"

definition score_target ::
  "'d libs \<Rightarrow> ('d, 'w) scoring_env \<Rightarrow> 'd target \<Rightarrow> instant \<Rightarrow> uuid option \<Rightarrow> ('d, 'w, 'r, go_error option) scoring" where
  "score_target L E t stop run =
     invoke (bindP (score_of_target L E t stop run) (\<lambda>s. observed (ScSave s) (sc_save E s)))"

section \<open>Refreshing all scores\<close>

definition active_target :: "'d target \<Rightarrow> bool" where
  "active_target t \<longleftrightarrow> tg_desired_status t = ''enabled'' \<and> tg_sync_status t = ''active''"

definition expected_targets :: "'d target list \<Rightarrow> uuid \<Rightarrow> int" where
  "expected_targets targets site = int (length (filter (\<lambda>t. active_target t \<and> tg_site_id t = site) targets))"

definition run_sites :: "'d libs \<Rightarrow> 'd target list \<Rightarrow> uuid list" where
  "run_sites L targets = sort_key (uuid_string L) (remdups (map tg_site_id (filter active_target targets)))"

fun begin_runs ::
  "('d, 'w) scoring_env \<Rightarrow> 'w score_run_recorder \<Rightarrow> 'd target list \<Rightarrow> instant \<Rightarrow> instant \<Rightarrow> uuid list
   \<Rightarrow> (uuid \<times> uuid) list \<times> uuid set \<Rightarrow> ('d, 'w, go_error option, (uuid \<times> uuid) list \<times> uuid set) scoring" where
  "begin_runs E R targets now stop [] acc = ret acc"
| "begin_runs E R targets now stop (site # sites) (runs, skipped) =
     bindP (silent (sc_new_id E)) (\<lambda>identifier.
     let run = \<lparr>sr_id = identifier, sr_site_id = site, sr_policy_version = policy_version_m2, sr_window_end = stop,
                sr_expected_targets = expected_targets targets site, sr_started_at = now\<rparr> in
     bindP (try_value (observed (ScBegin run) (sr_begin R run)) failing) (\<lambda>created.
     begin_runs E R targets now stop sites
       (if created then (runs @ [(site, identifier)], skipped) else (runs, insert site skipped))))"

record refresh_progress =
  rg_completed :: "uuid \<Rightarrow> int"
  rg_failed :: "uuid \<Rightarrow> int"
  rg_failures :: "go_error list"

fun score_targets ::
  "'d libs \<Rightarrow> ('d, 'w) scoring_env \<Rightarrow> instant \<Rightarrow> (uuid \<times> uuid) list \<Rightarrow> uuid set \<Rightarrow> 'd target list \<Rightarrow> refresh_progress
   \<Rightarrow> ('d, 'w, go_error option, refresh_progress) scoring" where
  "score_targets L E stop runs skipped [] p = ret p"
| "score_targets L E stop runs skipped (t # ts) p =
     (if \<not> active_target t \<or> tg_site_id t \<in> skipped then score_targets L E stop runs skipped ts p
      else let site = tg_site_id t in
        bindP (score_target L E t stop (map_of runs site)) (\<lambda>r.
        score_targets L E stop runs skipped ts
          (case r of
             Some e \<Rightarrow> p\<lparr>rg_failures := rg_failures p @ [ErrWrap ''score'' e],
                          rg_failed := (rg_failed p)(site := rg_failed p site + 1)\<rparr>
           | None \<Rightarrow> p\<lparr>rg_completed := (rg_completed p)(site := rg_completed p site + 1)\<rparr>)))"

fun finish_runs ::
  "('d, 'w) scoring_env \<Rightarrow> 'w score_run_recorder \<Rightarrow> refresh_progress \<Rightarrow> (uuid \<times> uuid) list \<Rightarrow> go_error list
   \<Rightarrow> ('d, 'w, go_error option, go_error list) scoring" where
  "finish_runs E R p [] failures = ret failures"
| "finish_runs E R p ((site, run) # runs) failures =
     bindP (now_utc (sc_now E)) (\<lambda>now.
     bindP (observed (ScFinish run (rg_completed p site) (rg_failed p site = 0))
         (sr_finish R run (rg_completed p site) (rg_failed p site = 0) now)) (\<lambda>r.
     finish_runs E R p runs (case r of None \<Rightarrow> failures | Some e \<Rightarrow> failures @ [ErrWrap ''finish score run'' e])))"

text \<open>Ranging over the map of the runs: any permutation of them.\<close>

definition ranged_runs :: "('d, 'w) scoring_env \<Rightarrow> (uuid \<times> uuid) list \<Rightarrow> (uuid \<times> uuid) list" where
  "ranged_runs E runs = (if mset (sc_run_order E runs) = mset runs then sc_run_order E runs else runs)"

definition truncate_minutes :: "instant \<Rightarrow> instant" where
  "truncate_minutes t = t\<lparr>t_ns := t_ns t div nanos_per_minute * nanos_per_minute\<rparr>"

definition refresh_body :: "'d libs \<Rightarrow> ('d, 'w) scoring_env \<Rightarrow> ('d, 'w, go_error option, go_error option) scoring" where
  "refresh_body L E =
     bindP (now_utc (sc_now E)) (\<lambda>now.
     let stop = truncate_minutes now; start = time_add stop (- one_day); recent = time_add stop (- (10 * nanos_per_minute)) in
     bindP (try_call (observed (ScRefresh start recent stop now) (sc_refresh E start recent stop now)) failing) (\<lambda>_.
     bindP (try_value (observed ScTargets (sc_targets E)) failing) (\<lambda>targets.
     bindP (case sc_recorder E of
         None \<Rightarrow> ret ([], {})
       | Some R \<Rightarrow> begin_runs E R targets now stop (run_sites L targets) ([], {})) (\<lambda>(runs, skipped).
     bindP (score_targets L E stop runs skipped targets
         \<lparr>rg_completed = \<lambda>_. 0, rg_failed = \<lambda>_. 0, rg_failures = []\<rparr>) (\<lambda>p.
     bindP (case sc_recorder E of
         None \<Rightarrow> ret (rg_failures p)
       | Some R \<Rightarrow> finish_runs E R p (ranged_runs E runs) (rg_failures p)) (\<lambda>failures.
     ret (if failures = [] then None else Some (ErrJoin failures))))))))"

definition refresh :: "'d libs \<Rightarrow> ('d, 'w) scoring_env \<Rightarrow> ('d, 'w, 'r, go_error option) scoring" where
  "refresh L E = invoke (refresh_body L E)"

section \<open>What a stored recommendation rests on\<close>

lemma only_computed [only_rules]: "only p (computed r)"
  unfolding computed_def by (intro only_rules)

lemma gives_computed [gives_rules]: "(\<And>x. r = Inr x \<Longrightarrow> P x t) \<Longrightarrow> gives (computed r) t P"
  by (cases r) (auto simp: computed_def intro: gives_rules)

lemma only_failing [only_rules]: "only p (failing e)"
  unfolding failing_def by (rule only_rules)

lemma gives_call: "(\<And>x. P x (ev (Inr x) # t)) \<Longrightarrow> gives (try_value (observed ev f) failing) t P"
  by (intro gives_rules) (auto split: sum.splits)

text \<open>The stored recommendation that an earlier refresh made for the same target and strategy,
  looked up now: at most ten minutes old and of medium or high confidence.\<close>

definition earlier_score :: "'d target \<Rightarrow> auto_kind \<Rightarrow> instant \<Rightarrow> 'd scoring_event list \<Rightarrow> score \<Rightarrow> bool" where
  "earlier_score t kind stop tr score \<longleftrightarrow>
     (\<exists>p. ScPrevious t kind stop (Inr (Some p)) \<in> set tr \<and> pv_score p = Some score
        \<and> \<not> time_before (pv_created_at p) (time_add stop (- maximum_recommendation_gap))
        \<and> pv_confidence p \<in> {ConfMedium, ConfHigh})"

lemma earlier_score_mono: "earlier_score t kind stop tr score \<Longrightarrow> set tr \<subseteq> set tr' \<Longrightarrow> earlier_score t kind stop tr' score"
  by (auto simp: earlier_score_def)

definition confirmed :: "'d target \<Rightarrow> auto_kind \<Rightarrow> instant \<Rightarrow> 'd scoring_event list \<Rightarrow> 64 word \<times> 64 word \<Rightarrow> bool" where
  "confirmed t kind stop tr = (\<lambda>(joining, leaving).
     (2 \<le> joining \<longrightarrow> (\<exists>s. earlier_score t kind stop tr s \<and> f_le (Fin 75) s)) \<and>
     (2 \<le> leaving \<longrightarrow> (\<exists>s. earlier_score t kind stop tr s \<and> f_lt s (Fin 50))))"

lemma raised_streak:
  fixes n :: "64 word"
  assumes "n = 0 \<or> n = 1"
  shows "2 \<le> (if n = 1 \<and> c then n + 1 else n) \<longleftrightarrow> n = 1 \<and> c" "\<not> 2 \<le> n"
  using assms by (auto simp: word_le_nat_alt)

lemma streak_confirmed:
  "gives (recommendation_streak E t kind combined scoring_policy stop) tr (\<lambda>n tr'. confirmed t kind stop tr' n)"
proof -
  have none: "confirmed t kind stop tr' (j, l)" if "j = 0 \<or> j = 1" "l = 0 \<or> l = 1" for j l tr'
    using that by (simp add: confirmed_def raised_streak)
  have some: "confirmed t kind stop (ScPrevious t kind stop (Inr (Some p)) # tr')
      (if j = 1 \<and> f_le (rp_join_threshold scoring_policy) s then j + 1 else j,
       if l = 1 \<and> f_lt s (rp_exit_threshold scoring_policy) then l + 1 else l)"
    if "j = 0 \<or> j = 1" "l = 0 \<or> l = 1" "pv_score p = Some s"
      "\<not> (time_before (pv_created_at p) (time_add stop (- maximum_recommendation_gap))
        \<or> pv_confidence p \<noteq> ConfMedium \<and> pv_confidence p \<noteq> ConfHigh)" for j l p s tr'
  proof -
    have "earlier_score t kind stop (ScPrevious t kind stop (Inr (Some p)) # tr') s"
      using that(3,4) by (auto simp: earlier_score_def)
    then show ?thesis
      unfolding confirmed_def prod.case raised_streak(1) [OF that(1)] raised_streak(1) [OF that(2)]
      by (auto simp: scoring_policy_def)
  qed
  show ?thesis
    unfolding recommendation_streak_def Let_def
    by (intro gives_if gives_bind gives_computed gives_call gives_case_option, simp_all only: gives_ret_iff)
      ((rule some none; (assumption | (simp split: if_split; fail))?)+)
qed

lemma only_streak: "only (\<lambda>e. case e of ScPrevious t k b r \<Rightarrow> True | _ \<Rightarrow> False) (recommendation_streak E t kind combined policy stop)"
  unfolding recommendation_streak_def Let_def by (intro only_rules) simp

text \<open>An advice of \<open>Recommend\<close> on the gates and windows of a target, and the
  confirmation of a change.\<close>

definition advised :: "'d target \<Rightarrow> hard_gate_input \<Rightarrow> combined_window_score \<Rightarrow> auto_kind \<Rightarrow> shadow_advice \<Rightarrow> bool" where
  "advised t gates combined kind a \<longleftrightarrow>
     (\<exists>joining leaving. recommend
        \<lparr>ri_auto_kind = kind, ri_current_member = contains_strategy (tg_current_strategies t) kind,
         ri_windows = combined, ri_hard_gates = gates, ri_consecutive_join = joining, ri_consecutive_exit = leaving\<rparr>
        scoring_policy = Inr a)"

definition change_confirmed :: "'d target \<Rightarrow> instant \<Rightarrow> 'd scoring_event list \<Rightarrow> auto_kind \<Rightarrow> shadow_advice \<Rightarrow> bool" where
  "change_confirmed t stop tr kind a \<longleftrightarrow>
     (sa_action a = AdviceJoin \<longrightarrow> (\<exists>s. earlier_score t kind stop tr s \<and> f_le (Fin 75) s)) \<and>
     (sa_action a = AdviceExit \<longrightarrow> (\<exists>s. earlier_score t kind stop tr s \<and> f_lt s (Fin 50)))"

lemma change_confirmed_mono:
  "change_confirmed t stop tr kind a \<Longrightarrow> set tr \<subseteq> set tr' \<Longrightarrow> change_confirmed t stop tr' kind a"
  by (auto simp: change_confirmed_def intro: earlier_score_mono)

lemma recommend_confirmed:
  assumes "recommend \<lparr>ri_auto_kind = kind, ri_current_member = m, ri_windows = combined, ri_hard_gates = gates,
      ri_consecutive_join = joining, ri_consecutive_exit = leaving\<rparr> scoring_policy = Inr a"
    and "confirmed t kind stop tr (joining, leaving)"
  shows "change_confirmed t stop tr kind a"
proof (cases "sa_action a \<in> {AdviceJoin, AdviceExit}")
  case True
  then have c: "sa_composite_score a \<noteq> None \<or> sa_action a \<notin> {AdviceExclude, AdviceWatch}" by auto
  show ?thesis
    by (rule recommend_scored [OF assms(1) c])
      (use assms(2) in \<open>auto simp: change_confirmed_def confirmed_def scored_advice_action scoring_policy_def split: if_splits\<close>)
qed (simp add: change_confirmed_def)

lemma only_recommend_kinds:
  "only (\<lambda>e. case e of ScPrevious t k b r \<Rightarrow> True | _ \<Rightarrow> False) (recommend_kinds E t gates combined stop kinds)"
proof (induction kinds)
  case (Cons kind kinds)
  show ?case
    unfolding recommend_kinds.simps by (intro only_rules Cons.IH only_streak)
qed (simp add: only_ret)

lemma recommend_kinds_gives:
  "gives (recommend_kinds E t gates combined stop kinds) tr (\<lambda>advice tr'.
     list_all2 (advised t gates combined) kinds advice \<and> list_all2 (change_confirmed t stop tr') kinds advice)"
proof (induction kinds arbitrary: tr)
  case (Cons kind kinds)
  show ?case
    unfolding recommend_kinds.simps
  proof (intro gives_bind gives_mono [OF streak_confirmed] gives_case_prod gives_computed, simp only: gives_ret_iff)
    fix n tr1 joining leaving a
    assume c: "confirmed t kind stop tr1 (joining, leaving)" and "n = (joining, leaving)"
      and r: "recommend \<lparr>ri_auto_kind = kind, ri_current_member = contains_strategy (tg_current_strategies t) kind,
        ri_windows = combined, ri_hard_gates = gates, ri_consecutive_join = joining, ri_consecutive_exit = leaving\<rparr>
        scoring_policy = Inr a"
    have a: "advised t gates combined kind a" using r by (auto simp: advised_def)
    have k: "change_confirmed t stop tr1 kind a" by (rule recommend_confirmed [OF r c])
    show "gives (recommend_kinds E t gates combined stop kinds) tr1 (\<lambda>rest tr'.
        list_all2 (advised t gates combined) (kind # kinds) (a # rest) \<and>
        list_all2 (change_confirmed t stop tr') (kind # kinds) (a # rest))"
      by (rule gives_mono [OF gives_grow [OF only_recommend_kinds Cons.IH]])
        (use a k change_confirmed_mono in auto)
  qed
qed simp

abbreviation gate_failures :: "hard_gate_input \<Rightarrow> gate_reason list" where
  "gate_failures gates \<equiv> failed_gates gates (rp_hard_gates scoring_policy)"

lemma advised_kind: "advised t gates combined kind a \<Longrightarrow> sa_auto_kind a = kind"
  by (auto simp: advised_def recommend_def Let_def advise_defs split: if_splits)

lemma advised_excluded:
  assumes "advised t gates combined kind a" "gate_failures gates \<noteq> []"
  shows "sa_action a = AdviceExclude \<and> sa_hard_reasons a = gate_failures gates"
proof -
  obtain inp where inp: "recommend inp scoring_policy = Inr a" "ri_hard_gates inp = gates" using assms(1) by (auto simp: advised_def)
  from recommend_excluded [OF recommend_gates_ok [OF inp(1)]] inp assms(2) show ?thesis by auto
qed

lemma advised_reasons:
  assumes "advised t gates combined kind a"
  shows "sa_hard_reasons a = gate_failures gates"
proof -
  obtain inp where inp: "recommend inp scoring_policy = Inr a" "ri_hard_gates inp = gates" using assms by (auto simp: advised_def)
  show ?thesis using recommend_hard_reasons [OF inp(1)] inp(2) by simp
qed

lemma advised_open:
  assumes "advised t gates combined kind a" "gate_failures gates = []"
  shows "sa_action a \<noteq> AdviceExclude"
proof -
  obtain inp where inp: "recommend inp scoring_policy = Inr a" "ri_hard_gates inp = gates" using assms(1) by (auto simp: advised_def)
  show ?thesis
    by (rule recommend_past_gates [OF inp(1)])
      (use inp(2) assms(2) in \<open>auto simp: scored_part_def scored_advice_action split: if_splits\<close>)
qed

lemma advised_change:
  assumes "advised t gates combined kind a" "sa_action a \<in> {AdviceJoin, AdviceExit}"
  shows "gate_failures gates = [] \<and> cw_decision_ready combined"
proof -
  obtain inp where inp: "recommend inp scoring_policy = Inr a" "ri_hard_gates inp = gates" "ri_windows inp = combined"
    using assms(1) by (auto simp: advised_def)
  show ?thesis by (rule recommend_scored [OF inp(1)]) (use assms(2) inp in auto)
qed

lemma combined_ready:
  assumes "combine_window_scores ins = Inr combined" "cw_decision_ready combined"
  shows "cw_available combined \<and> cw_confidence combined \<in> {ConfMedium, ConfHigh}"
proof -
  obtain w where w: "combined = finish_windows w" by (rule combine_Inr [OF assms(1)])
  have "confidence_rank c = Some r \<Longrightarrow> 2 \<le> r \<Longrightarrow> c \<in> {ConfMedium, ConfHigh}" for c r by (cases c) auto
  then show ?thesis using assms(2) by (auto simp: w finish_windows_def Let_def split: if_splits option.splits)
qed

text \<open>The gates that fail on what the repository replied: the verdict on authenticity, three
  authentication failures, three balance failures, three failures of any kind in a row.\<close>

definition evidence_failures :: "evaluation_evidence \<Rightarrow> failure_streak \<Rightarrow> gate_reason list" where
  "evidence_failures e f =
     (if ee_authenticity e = VerdictInconsistent then [GateAuthenticityMismatch] else []) @
     (if 3 \<le> fs_authentication f then [GateCredentialInvalid] else []) @
     (if 3 \<le> fs_balance f then [GateBalanceUnavailable] else []) @
     (if 3 \<le> fs_total f then [GateConsecutiveFailures] else [])"

lemma gate_failures_evidence: "gate_failures (target_gates e f stop) = evidence_failures e f"
proof -
  have "scoring_authenticity v = AuthInconsistent \<longleftrightarrow> v = VerdictInconsistent" for v
    by (cases v) (simp_all add: scoring_authenticity_def)
  then show ?thesis
    by (simp add: failed_gates_def evidence_failures_def target_gates_def Let_def scoring_policy_def default_hard_gate_policy_def
        default_consecutive_failure_limit_def)
qed

text \<open>The evidence and the failure streak that were read last.\<close>

fun is_evaluation :: "'d scoring_event \<Rightarrow> bool" where
  "is_evaluation (ScEvaluation a b c r) = True"
| "is_evaluation e = False"

fun is_streak :: "'d scoring_event \<Rightarrow> bool" where
  "is_streak (ScStreak a b r) = True"
| "is_streak e = False"

definition last_evidence :: "'d score_snapshot \<Rightarrow> 'd scoring_event list \<Rightarrow> evaluation_evidence \<Rightarrow> failure_streak \<Rightarrow> bool" where
  "last_evidence s tr e f \<longleftrightarrow>
     find is_evaluation tr = Some (ScEvaluation (tg_supplier_id (sn_target s)) (tg_model (sn_target s)) (sn_window_end s) (Inr e)) \<and>
     find is_streak tr = Some (ScStreak (sn_target s) (sn_window_end s) (Inr f))"

text \<open>What holds of every snapshot that is stored.\<close>

definition sound_snapshot :: "'d score_snapshot \<Rightarrow> 'd scoring_event list \<Rightarrow> bool" where
  "sound_snapshot s tr \<longleftrightarrow>
     map sa_auto_kind (sn_recommendations s) = all_kinds \<and>
     list_all2 (change_confirmed (sn_target s) (sn_window_end s) tr) all_kinds (sn_recommendations s) \<and>
     (\<exists>e f. last_evidence s tr e f \<and> sn_hard_reasons s = evidence_failures e f
        \<and> (sn_eligibility s = ''excluded'' \<longleftrightarrow> evidence_failures e f \<noteq> [])
        \<and> list_all (\<lambda>a. sa_hard_reasons a = evidence_failures e f) (sn_recommendations s)) \<and>
     list_all (\<lambda>a. sa_action a = AdviceExclude \<longleftrightarrow> sn_eligibility s = ''excluded'') (sn_recommendations s) \<and>
     list_all (\<lambda>a. sa_action a \<in> {AdviceJoin, AdviceExit} \<longrightarrow> sn_eligibility s = ''eligible'') (sn_recommendations s) \<and>
     (sn_eligibility s = ''eligible'' \<longrightarrow> sn_scores s \<noteq> None \<and> sn_confidence s \<in> {ConfMedium, ConfHigh})"

lemma excluded_reasons_none: "\<forall>a\<in>set advice. sa_action a \<noteq> AdviceExclude \<Longrightarrow> excluded_reasons advice = []"
proof -
  have "foldl (\<lambda>reasons a. if sa_action a = AdviceExclude \<and> reasons = [] then reasons @ sa_hard_reasons a else reasons) r advice = r"
    if "\<forall>a\<in>set advice. sa_action a \<noteq> AdviceExclude" for r
    using that by (induction advice arbitrary: r) auto
  then show "\<forall>a\<in>set advice. sa_action a \<noteq> AdviceExclude \<Longrightarrow> ?thesis" by (simp add: excluded_reasons_def)
qed

lemma excluded_reasons_some:
  assumes "sa_action a = AdviceExclude" "sa_hard_reasons a \<noteq> []"
  shows "excluded_reasons (a # advice) = sa_hard_reasons a"
proof -
  have "foldl (\<lambda>reasons a. if sa_action a = AdviceExclude \<and> reasons = [] then reasons @ sa_hard_reasons a else reasons) r advice = r"
    if "r \<noteq> []" for r
    using that by (induction advice) auto
  then show ?thesis using assms by (simp add: excluded_reasons_def)
qed

lemma advice_summary:
  assumes a: "list_all2 (advised t gates combined) (kind # kinds) advice"
  shows "map sa_auto_kind advice = kind # kinds"
    and "eligibility_of combined advice = ''excluded'' \<longleftrightarrow> gate_failures gates \<noteq> []"
    and "excluded_reasons advice = gate_failures gates"
    and "list_all (\<lambda>a. sa_hard_reasons a = gate_failures gates) advice"
    and "list_all (\<lambda>a. sa_action a = AdviceExclude \<longleftrightarrow> gate_failures gates \<noteq> []) advice"
    and "list_all (\<lambda>a. sa_action a \<in> {AdviceJoin, AdviceExit} \<longrightarrow> eligibility_of combined advice = ''eligible'') advice"
proof -
  have each: "\<exists>k. advised t gates combined k x" if "x \<in> set advice" for x
    using a that by (auto simp: list_all2_conv_all_nth in_set_conv_nth)
  have k: "map sa_auto_kind advice = ks" if "list_all2 (advised t gates combined) ks advice" for ks
    using that by (induction rule: list_all2_induct) (auto dest: advised_kind)
  show "map sa_auto_kind advice = kind # kinds" by (rule k [OF a])
  have x: "sa_action x = AdviceExclude \<longleftrightarrow> gate_failures gates \<noteq> []" if "x \<in> set advice" for x
    using each [OF that] advised_excluded advised_open by metis
  then show "list_all (\<lambda>a. sa_action a = AdviceExclude \<longleftrightarrow> gate_failures gates \<noteq> []) advice" by (simp add: list_all_iff)
  obtain y ys where y: "advice = y # ys" using a by (cases advice) auto
  have ex: "list_ex (\<lambda>a. sa_action a = AdviceExclude) advice \<longleftrightarrow> gate_failures gates \<noteq> []"
    using x unfolding list_ex_iff y by auto
  then show "eligibility_of combined advice = ''excluded'' \<longleftrightarrow> gate_failures gates \<noteq> []" by (simp add: eligibility_of_def)
  show "list_all (\<lambda>a. sa_hard_reasons a = gate_failures gates) advice"
    using each advised_reasons unfolding list_all_iff by metis
  show "excluded_reasons advice = gate_failures gates"
  proof (cases "gate_failures gates = []")
    case False
    then have "sa_action y = AdviceExclude \<and> sa_hard_reasons y = gate_failures gates"
      using each [of y] advised_excluded [OF _ False] y by auto
    then show ?thesis using False unfolding y by (subst excluded_reasons_some) auto
  qed (use x excluded_reasons_none in auto)
  show "list_all (\<lambda>a. sa_action a \<in> {AdviceJoin, AdviceExit} \<longrightarrow> eligibility_of combined advice = ''eligible'') advice"
    unfolding list_all_iff
  proof (intro ballI impI)
    fix x
    assume "x \<in> set advice" "sa_action x \<in> {AdviceJoin, AdviceExit}"
    then have "gate_failures gates = [] \<and> cw_decision_ready combined" using each advised_change by metis
    then show "eligibility_of combined advice = ''eligible''" using ex by (simp add: eligibility_of_def)
  qed
qed

lemma gives_silent_any: "gives (silent f) t (\<lambda>x t'. t' = t)"
  by (rule gives_silent) (rule refl)

lemmas all_advice_summary = advice_summary [of _ _ _ AutoLowestPrice "[AutoLowLatency, AutoHighSLA, AutoHighQuality, AutoBalanced]",
  folded all_kinds_def]

lemma score_of_target_sound:
  "gives (score_of_target L E t stop run) tr (\<lambda>s tr'. sound_snapshot s tr' \<and> sn_target s = t \<and> sn_window_end s = stop)"
proof -
  have windows: "only (\<lambda>e. \<not> is_evaluation e \<and> \<not> is_streak e) (read_windows E t c e p n stop ws acc)" for c e p n ws acc
  proof (induction ws arbitrary: acc)
    case (Cons w ws)
    then show ?case by (cases w; cases acc; auto intro!: only_rules)
  qed (simp add: only_ret)
  have sound: "sound_snapshot s tr'"
    if "combine_window_scores inputs = Inr combined"
      and advice: "list_all2 (advised t (target_gates e f stop) combined) all_kinds advice \<and> list_all2 (change_confirmed t stop tr') all_kinds advice"
      and read: "find is_evaluation tr' = Some (ScEvaluation (tg_supplier_id t) (tg_model t) stop (Inr e))"
        "find is_streak tr' = Some (ScStreak t stop (Inr f))"
      and s: "sn_target s = t" "sn_window_end s = stop" "sn_recommendations s = advice"
      "sn_eligibility s = eligibility_of combined advice" "sn_hard_reasons s = excluded_reasons advice"
      "sn_scores s = (if cw_available combined then Some (cw_scores combined) else None)" "sn_confidence s = cw_confidence combined"
    for s :: "'b score_snapshot" and inputs combined e f advice tr'
  proof -
    note sum = all_advice_summary [OF conjunct1 [OF advice], unfolded gate_failures_evidence]
    have "last_evidence s tr' e f" using read s(1,2) by (simp add: last_evidence_def)
    then show ?thesis
      using advice sum combined_ready [OF that(1)]
      unfolding sound_snapshot_def s by (auto simp: eligibility_of_def)
  qed
  have kinds: "only (\<lambda>e. \<not> is_evaluation e \<and> \<not> is_streak e) (recommend_kinds E t gates combined stop kinds)" for gates combined kinds
    by (rule only_mono [OF only_recommend_kinds]) (auto split: scoring_event.splits)
  have quiet: "find is_evaluation (d @ tr') = find is_evaluation tr' \<and> find is_streak (d @ tr') = find is_streak tr'"
    if "list_all (\<lambda>e. \<not> is_evaluation e \<and> \<not> is_streak e) d" for d tr' :: "'b scoring_event list"
    using that by (induction d) auto
  show ?thesis
    unfolding score_of_target_def
    by (intro gives_bind gives_call gives_computed gives_case_prod gives_only [OF windows]
        gives_mono [OF gives_added [OF kinds recommend_kinds_gives]] gives_silent gives_now_utc)
      (simp only: gives_ret_iff, clarify, intro conjI, rule sound, assumption, rule conjI, assumption, assumption, simp_all add: quiet)
qed

section \<open>Properties of a refresh\<close>

fun is_save :: "'d scoring_event \<Rightarrow> bool" where
  "is_save (ScSave s r) = True"
| "is_save e = False"

lemma only_streak_no_save: "only (\<lambda>e. \<not> is_save e) (recommendation_streak E t kind combined policy stop)"
  unfolding recommendation_streak_def Let_def by (intro only_rules) simp

lemma only_kinds_no_save: "only (\<lambda>e. \<not> is_save e) (recommend_kinds E t gates combined stop kinds)"
proof (induction kinds)
  case (Cons kind kinds)
  show ?case unfolding recommend_kinds.simps by (intro only_rules Cons.IH only_streak_no_save)
qed (simp add: only_ret)

lemma only_windows_no_save: "only (\<lambda>e. \<not> is_save e) (read_windows E t c e p n stop ws acc)"
proof (induction ws arbitrary: acc)
  case (Cons w ws)
  then show ?case by (cases w; cases acc; auto intro!: only_rules)
qed (simp add: only_ret)

lemma only_score_no_save: "only (\<lambda>e. \<not> is_save e) (score_of_target L E t stop run)"
  unfolding score_of_target_def
  by (intro only_rules only_windows_no_save only_kinds_no_save) simp_all

text \<open>Every snapshot is sound and of an active target.\<close>

definition stored_sound :: "'d scoring_event \<Rightarrow> 'd scoring_event list \<Rightarrow> bool" where
  "stored_sound e t \<longleftrightarrow> (case e of ScSave s r \<Rightarrow> sound_snapshot s t \<and> active_target (sn_target s) | _ \<Rightarrow> True)"

lemma no_save_sound: "\<not> is_save e \<Longrightarrow> stored_sound e t"
  by (cases e) (auto simp: stored_sound_def)

lemma keeps_no_save: "only (\<lambda>e. \<not> is_save e) m \<Longrightarrow> keeps stored_sound m"
  by (rule keeps_only, erule only_mono) (simp add: no_save_sound)

lemma keeps_score_target: "active_target t \<Longrightarrow> keeps stored_sound (score_target L E t stop run)"
  unfolding score_target_def
  by (intro keeps_invoke keeps_bind_gives [OF keeps_no_save [OF only_score_no_save] score_of_target_sound])
    (auto simp: stored_sound_def intro!: safe_observed)

lemma keeps_score_targets: "keeps stored_sound (score_targets L E stop runs skipped ts p)"
proof (induction ts arbitrary: p)
  case (Cons t ts)
  show ?case unfolding score_targets.simps Let_def
    by (intro keeps_if Cons.IH keeps_bind keeps_score_target) auto
qed (simp add: keeps_ret)

lemma only_begin_no_save: "only (\<lambda>e. \<not> is_save e) (begin_runs E R targets now stop sites acc)"
proof (induction sites arbitrary: acc)
  case (Cons site sites)
  then show ?case by (cases acc) (auto simp: Let_def intro!: only_rules)
qed (simp add: only_ret)

lemma only_finish_no_save: "only (\<lambda>e. \<not> is_save e) (finish_runs E R p runs failures)"
proof (induction runs arbitrary: failures)
  case (Cons run runs)
  then show ?case by (cases run) (auto intro!: only_rules)
qed (simp add: only_ret)

lemma keeps_refresh: "keeps stored_sound (refresh L E)"
  unfolding refresh_def refresh_body_def Let_def
  by (intro keeps_rules keeps_score_targets keeps_no_save [OF only_begin_no_save] keeps_no_save [OF only_finish_no_save]
      keeps_no_save [OF only_now_utc] keeps_no_save [OF only_observed] keeps_no_save [OF only_failing]) simp_all

text \<open>C1: In every environment, every snapshot a refresh stores is one of an active target and
  explains itself: it has one advice per strategy; it is excluded exactly when a hard gate failed on the
  evidence and the failure streak that were read last, for this target up to the end of the window
  (the model was found inconsistent, or three authentication, balance or other failures in a row), the
  failed gates are its reasons and those of every advice, and then every advice is an exclusion; a join
  or an exit is only advised in an eligible snapshot, whose evidence is of medium or high confidence,
  and only when the refresh has found, for the same target and strategy, an earlier recommendation on
  the same side of the threshold, at most ten minutes old and of medium or high confidence.\<close>

theorem stored_snapshots_sound:
  "case refresh L E w [] of (out, w', t) \<Rightarrow> guarded stored_sound t"
  using keepsD [OF keeps_refresh [of L E], of "[]"]
  by (cases "refresh L E w []") (auto dest: safeD)

section \<open>What a finished run reports\<close>

text \<open>The snapshots of a site that were stored.\<close>

fun stored_for :: "uuid \<Rightarrow> 'd scoring_event \<Rightarrow> bool" where
  "stored_for site (ScSave s None) \<longleftrightarrow> tg_site_id (sn_target s) = site"
| "stored_for site e \<longleftrightarrow> False"

definition stored_count :: "uuid \<Rightarrow> 'd scoring_event list \<Rightarrow> int" where
  "stored_count site t = int (length (filter (stored_for site) t))"

lemma not_save_not_stored: "\<not> is_save e \<Longrightarrow> \<not> stored_for site e"
  by (cases "(site, e)" rule: stored_for.cases) auto

lemma stored_count_others: "list_all (\<lambda>e. \<not> is_save e) d \<Longrightarrow> stored_count site (d @ t) = stored_count site t"
  by (induction d) (auto simp: stored_count_def not_save_not_stored)

definition begun :: "'d target list \<Rightarrow> uuid \<Rightarrow> uuid \<Rightarrow> 'd scoring_event list \<Rightarrow> bool" where
  "begun targets site run t \<longleftrightarrow>
     (\<exists>sr. ScBegin sr (Inr True) \<in> set t \<and> sr_id sr = run \<and> sr_site_id sr = site
        \<and> sr_expected_targets sr = expected_targets targets site)"

text \<open>A run that is finished was begun, reports the number of snapshots stored for its site, and
  reports success exactly when these are all it expected.\<close>

definition honest_finish :: "'d scoring_event \<Rightarrow> 'd scoring_event list \<Rightarrow> bool" where
  "honest_finish e t \<longleftrightarrow>
     (case e of
        ScFinish run done ok r \<Rightarrow>
          (\<exists>sr. ScBegin sr (Inr True) \<in> set t \<and> sr_id sr = run \<and> done = stored_count (sr_site_id sr) t
             \<and> done \<le> sr_expected_targets sr \<and> (ok \<longleftrightarrow> done = sr_expected_targets sr))
      | _ \<Rightarrow> True)"

lemma begun_mono: "begun targets site run t \<Longrightarrow> set t \<subseteq> set t' \<Longrightarrow> begun targets site run t'"
  by (auto simp: begun_def)

definition all_begun :: "'d target list \<Rightarrow> (uuid \<times> uuid) list \<Rightarrow> uuid set \<Rightarrow> 'd scoring_event list \<Rightarrow> bool" where
  "all_begun targets runs skipped t \<longleftrightarrow> (\<forall>(site, run)\<in>set runs. begun targets site run t \<and> site \<notin> skipped)"

lemma all_begun_mono: "all_begun targets runs skipped t \<Longrightarrow> set t \<subseteq> set t' \<Longrightarrow> all_begun targets runs skipped t'"
  by (auto simp: all_begun_def intro: begun_mono)

lemma begin_runs_gives:
  assumes "all_begun targets runs skipped t" "distinct sites" "set sites \<inter> (fst ` set runs \<union> skipped) = {}"
  shows "gives (begin_runs E R targets now stop sites (runs, skipped)) t
    (\<lambda>(runs', skipped') t'. all_begun targets runs' skipped' t')"
  using assms
proof (induction sites arbitrary: runs skipped t)
  case (Cons site sites)
  show ?case
    unfolding begin_runs.simps Let_def
  proof (intro gives_bind gives_silent gives_call)
    fix new_id created
    let ?run = "\<lparr>sr_id = new_id, sr_site_id = site, sr_policy_version = policy_version_m2, sr_window_end = stop,
       sr_expected_targets = expected_targets targets site, sr_started_at = now\<rparr>"
    let ?t = "ScBegin ?run (Inr created) # t"
    let ?acc = "if created then (runs @ [(site, new_id)], skipped) else (runs, insert site skipped)"
    have site: "(site, b) \<notin> set runs" for b using Cons.prems(3) by (auto simp: image_iff)
    have old: "all_begun targets runs skipped ?t" by (rule all_begun_mono [OF Cons.prems(1)]) auto
    have here: "all_begun targets (fst ?acc) (snd ?acc) ?t"
    proof (cases created)
      case True
      then have "begun targets site new_id ?t" unfolding begun_def by (intro exI [of _ ?run]) simp
      then show ?thesis using old True Cons.prems(3) by (auto simp: all_begun_def)
    qed (use old site in \<open>auto simp: all_begun_def\<close>)
    show "gives (begin_runs E R targets now stop sites ?acc) ?t (\<lambda>(runs', skipped') t'. all_begun targets runs' skipped' t')"
      using Cons.IH [OF here] Cons.prems(2,3) by (cases created) auto
  qed
qed simp

lemma returns_failing: "returns q m \<Longrightarrow> (\<And>e. q (Some e)) \<Longrightarrow> returns q (try_value m failing)"
  unfolding try_value_def failing_def bindP_ret by (intro returns_rules)

lemma returns_computed: "(\<And>e. q (Some e)) \<Longrightarrow> returns q (computed r)"
  unfolding computed_def by (intro returns_rules)

lemmas error_returns = returns_rules returns_failing returns_computed

lemma returns_score_of_target: "returns (\<lambda>r. r \<noteq> None) (score_of_target L E t stop run)"
proof -
  have windows: "returns (\<lambda>r. r \<noteq> None) (read_windows E t c e p n stop ws acc)" for c e p n ws acc
  proof (induction ws arbitrary: acc)
    case (Cons w ws)
    then show ?case by (cases w; cases acc; auto intro!: error_returns)
  qed (simp add: returns_ret)
  have streak: "returns (\<lambda>r. r \<noteq> None) (recommendation_streak E t kind combined policy stop)" for kind combined policy
    unfolding recommendation_streak_def Let_def by (intro error_returns) simp_all
  have kinds: "returns (\<lambda>r. r \<noteq> None) (recommend_kinds E t gates combined stop kinds)" for gates combined kinds
  proof (induction kinds)
    case (Cons kind kinds)
    show ?case unfolding recommend_kinds.simps by (intro error_returns streak Cons.IH) simp_all
  qed (simp add: returns_ret)
  show ?thesis
    unfolding score_of_target_def by (intro error_returns windows kinds) simp_all
qed

lemma score_target_counts:
  fixes t :: "'d target"
  shows "gives (score_target L E t stop run) tr (\<lambda>r tr'. \<forall>site. stored_count site tr' =
     stored_count site tr + (if r = None \<and> tg_site_id t = site then 1 else 0))"
  unfolding score_target_def
proof (rule gives_invoke [where q = "\<lambda>r. r \<noteq> None"])
  let ?same = "\<lambda>tr'. \<forall>site. stored_count site tr' = stored_count site tr"
  have same: "gives (score_of_target L E t stop run) tr (\<lambda>s tr'. ?same tr')"
    by (rule gives_only [OF only_score_no_save]) (simp add: stored_count_others)
  have stored: "stored_for site (ScSave s r) \<longleftrightarrow> r = None \<and> tg_site_id (sn_target s) = site" for site r and s :: "'d score_snapshot"
    by (cases r) simp_all
  show "gives (bindP (score_of_target L E t stop run) (\<lambda>s. observed (ScSave s) (sc_save E s))) tr
      (\<lambda>r tr'. \<forall>site. stored_count site tr' = stored_count site tr + (if r = None \<and> tg_site_id t = site then 1 else 0))"
    by (intro gives_bind gives_mono [OF gives_conj [OF same score_of_target_sound]] gives_observed)
      (auto simp: stored_count_def stored)
  show "returns (\<lambda>r. r \<noteq> None) (bindP (score_of_target L E t stop run) (\<lambda>s. observed (ScSave s) (sc_save E s)))"
    by (intro returns_rules returns_score_of_target)
  show "safe (bindP (score_of_target L E t stop run) (\<lambda>s. observed (ScSave s) (sc_save E s))) tr
      (\<lambda>out tr'. case out of Returned r \<Rightarrow> r \<noteq> None \<longrightarrow>
        (\<forall>site. stored_count site tr' = stored_count site tr + (if r = None \<and> tg_site_id t = site then 1 else 0)) | _ \<Rightarrow> True)"
    by (rule safe_after [OF only_score_no_save]) (auto simp: stored_count_others intro!: safe_observed)
qed

text \<open>After some of the targets: every stored snapshot is counted, and every target of a site
  whose run was begun is counted as completed or failed.\<close>

definition counted :: "'d target list \<Rightarrow> uuid set \<Rightarrow> refresh_progress \<Rightarrow> 'd scoring_event list \<Rightarrow> bool" where
  "counted processed skipped p t \<longleftrightarrow>
     (\<forall>site. rg_completed p site = stored_count site t \<and> 0 \<le> rg_failed p site
        \<and> (site \<notin> skipped \<longrightarrow> rg_completed p site + rg_failed p site = expected_targets processed site))"

lemma expected_targets_snoc:
  "expected_targets (ts @ [t]) site = expected_targets ts site + (if active_target t \<and> tg_site_id t = site then 1 else 0)"
  by (simp add: expected_targets_def)

lemma only_score_targets: "only (\<lambda>_. True) (score_targets L E stop runs skipped ts p)"
proof (induction ts arbitrary: p)
  case (Cons t ts)
  show ?case unfolding score_targets.simps score_target_def
    by (intro only_rules Cons.IH only_mono [OF only_score_no_save]) simp_all
qed (simp add: only_ret)

lemma score_targets_counted:
  fixes tr :: "'d scoring_event list"
  shows "counted processed skipped p tr \<Longrightarrow>
     gives (score_targets L E stop runs skipped ts p) tr (\<lambda>p' tr'. counted (processed @ ts) skipped p' tr')"
proof (induction ts arbitrary: processed p tr)
  case (Cons t ts)
  have step: "gives (score_targets L E stop runs skipped ts p') tr' (\<lambda>p' tr'. counted (processed @ t # ts) skipped p' tr')"
    if "counted (processed @ [t]) skipped p' tr'" for p' and tr' :: "'d scoring_event list"
    using Cons.IH [OF that] by simp
  show ?case
  proof (cases "\<not> active_target t \<or> tg_site_id t \<in> skipped")
    case True
    then have "counted (processed @ [t]) skipped p tr"
      using Cons.prems by (auto simp: counted_def expected_targets_snoc)
    then show ?thesis using True by (simp only: score_targets.simps if_True step)
  next
    case False
    show ?thesis
      unfolding score_targets.simps Let_def if_not_P [OF False]
    proof (rule gives_bind, rule gives_mono [OF score_target_counts], rule step)
      fix r :: "go_error option" and tr' :: "'d scoring_event list"
      assume "\<forall>site. stored_count site tr' = stored_count site tr + (if r = None \<and> tg_site_id t = site then 1 else 0)"
      then show "counted (processed @ [t]) skipped
          (case r of
             Some e \<Rightarrow> p\<lparr>rg_failures := rg_failures p @ [ErrWrap ''score'' e],
                          rg_failed := (rg_failed p)(tg_site_id t := rg_failed p (tg_site_id t) + 1)\<rparr>
           | None \<Rightarrow> p\<lparr>rg_completed := (rg_completed p)(tg_site_id t := rg_completed p (tg_site_id t) + 1)\<rparr>) tr'"
        using Cons.prems False by (cases r) (auto simp: counted_def expected_targets_snoc)
    qed
  qed
qed simp

lemma finish_runs_honest:
  assumes "guarded honest_finish t" "all_begun targets runs skipped t" "counted targets skipped p t"
  shows "safe (finish_runs E R p runs failures) t (\<lambda>_. guarded honest_finish)"
  using assms
proof (induction runs arbitrary: failures t)
  case (Cons run runs)
  obtain site new_id where run: "run = (site, new_id)" by (cases run)
  have site: "begun targets site new_id t" "site \<notin> skipped" using Cons.prems(2) run by (auto simp: all_begun_def)
  then obtain sr where sr: "ScBegin sr (Inr True) \<in> set t" "sr_id sr = new_id" "sr_site_id sr = site"
    "sr_expected_targets sr = expected_targets targets site" by (auto simp: begun_def)
  have c: "rg_completed p site = stored_count site t" "0 \<le> rg_failed p site"
    "rg_completed p site + rg_failed p site = expected_targets targets site"
    using Cons.prems(3) site(2) by (auto simp: counted_def)
  have now: "honest_finish (ScFinish new_id (rg_completed p site) (rg_failed p site = 0) r) t" for r
    using sr c by (auto simp: honest_finish_def intro!: bexI [of _ sr] exI [of _ sr])
  have later: "safe (finish_runs E R p runs fs) (ScFinish new_id (rg_completed p site) (rg_failed p site = 0) r # t)
      (\<lambda>_. guarded honest_finish)" for r fs
  proof (rule Cons.IH)
    show "all_begun targets runs skipped (ScFinish new_id (rg_completed p site) (rg_failed p site = 0) r # t)"
      using Cons.prems(2) by (auto simp: all_begun_def intro: begun_mono)
    show "counted targets skipped p (ScFinish new_id (rg_completed p site) (rg_failed p site = 0) r # t)"
      using Cons.prems(3) by (auto simp: counted_def stored_count_def)
  qed (use now Cons.prems(1) in simp)
  show ?case
    unfolding run finish_runs.simps
    by (rule safe_bind, rule safe_now_utc, simp only: continue_with.simps, rule safe_bind, rule safe_observed,
        simp only: continue_with.simps later)
qed simp

fun is_finish :: "'d scoring_event \<Rightarrow> bool" where
  "is_finish (ScFinish run n ok r) = True"
| "is_finish e = False"

lemma no_finish_honest: "only (\<lambda>e. \<not> is_finish e) m \<Longrightarrow> guarded honest_finish t
    \<Longrightarrow> safe m t (\<lambda>_. guarded honest_finish)"
proof (rule keepsD [OF keeps_only])
  assume m: "only (\<lambda>e. \<not> is_finish e) m"
  show "only (\<lambda>e. \<forall>t. honest_finish e t) m"
    by (rule only_mono [OF m]) (auto simp: honest_finish_def split: scoring_event.splits)
qed

lemma only_score_no_finish: "only (\<lambda>e. \<not> is_finish e) (score_target L E t stop run)"
proof -
  have windows: "only (\<lambda>e. \<not> is_finish e) (read_windows E t c e p n stop ws acc)" for c e p n ws acc
  proof (induction ws arbitrary: acc)
    case (Cons w ws)
    then show ?case by (cases w; cases acc; auto intro!: only_rules)
  qed (simp add: only_ret)
  have kinds: "only (\<lambda>e. \<not> is_finish e) (recommend_kinds E t gates combined stop kinds)" for gates combined kinds
  proof (induction kinds)
    case (Cons kind kinds)
    have "only (\<lambda>e. \<not> is_finish e) (recommendation_streak E t kind combined scoring_policy stop)"
      unfolding recommendation_streak_def Let_def by (intro only_rules) simp
    then show ?case unfolding recommend_kinds.simps by (intro only_rules Cons.IH)
  qed (simp add: only_ret)
  show ?thesis
    unfolding score_target_def score_of_target_def by (intro only_rules windows kinds) simp_all
qed

lemma only_targets_no_finish: "only (\<lambda>e. \<not> is_finish e) (score_targets L E stop runs skipped ts p)"
proof (induction ts arbitrary: p)
  case (Cons t ts)
  show ?case unfolding score_targets.simps by (intro only_rules Cons.IH only_score_no_finish)
qed (simp add: only_ret)

lemma only_begin_plain: "only (\<lambda>e. \<not> is_finish e \<and> \<not> is_save e) (begin_runs E R targets now stop sites acc)"
proof (induction sites arbitrary: acc)
  case (Cons site sites)
  then show ?case by (cases acc) (auto simp: Let_def intro!: only_rules)
qed (simp add: only_ret)

lemma ranged_same: "mset (ranged_runs E runs) = mset runs"
  by (simp add: ranged_runs_def)

lemma all_begun_ranged: "all_begun targets runs skipped t \<Longrightarrow> all_begun targets (ranged_runs E runs) skipped t"
  by (simp add: all_begun_def mset_eq_setD [OF ranged_same])

text \<open>The part of a refresh after the list of targets.\<close>

lemma scored_and_finished:
  assumes "guarded honest_finish t" "counted [] skipped p t" "all_begun targets runs skipped t \<or> sc_recorder E = None"
  shows "safe (bindP (score_targets L E stop runs skipped targets p) (\<lambda>p.
       bindP (case sc_recorder E of
           None \<Rightarrow> ret (rg_failures p)
         | Some R \<Rightarrow> finish_runs E R p (ranged_runs E runs) (rg_failures p)) (\<lambda>failures.
       ret (if failures = [] then None else Some (ErrJoin failures))))) t (\<lambda>_. guarded honest_finish)"
proof (rule safe_phase [OF only_targets_no_finish score_targets_counted [OF assms(2)]])
  have grown: "guarded honest_finish (d @ t)" if "list_all (\<lambda>e. \<not> is_finish e) d" for d
    by (rule guarded_append [OF assms(1)]) (use that in \<open>auto simp: list_all_iff honest_finish_def split: scoring_event.splits\<close>)
  then show "guarded honest_finish (d @ t)" "guarded honest_finish (d @ t)"
    if "list_all (\<lambda>e. \<not> is_finish e) d" for d using that by blast+
  show "safe (bindP (case sc_recorder E of None \<Rightarrow> ret (rg_failures p')
         | Some R \<Rightarrow> finish_runs E R p' (ranged_runs E runs) (rg_failures p'))
       (\<lambda>failures. ret (if failures = [] then None else Some (ErrJoin failures)))) (d @ t) (\<lambda>_. guarded honest_finish)"
    if d: "list_all (\<lambda>e. \<not> is_finish e) d" and c: "counted ([] @ targets) skipped p' (d @ t)" for d p'
  proof (cases "sc_recorder E")
    case None
    then show ?thesis using grown [OF d] by (simp add: bindP_ret)
  next
    case (Some R)
    have b: "all_begun targets (ranged_runs E runs) skipped (d @ t)"
      by (rule all_begun_ranged, rule all_begun_mono [of _ _ _ t]) (use assms(3) Some in auto)
    have "safe (finish_runs E R p' (ranged_runs E runs) (rg_failures p')) (d @ t) (\<lambda>_. guarded honest_finish)"
      by (rule finish_runs_honest [OF grown [OF d] b]) (use c in simp)
    then show ?thesis unfolding Some option.case by (rule safe_seq) simp_all
  qed
qed

lemma counted_start: "\<forall>site. stored_count site t = 0 \<Longrightarrow>
    counted [] skipped \<lparr>rg_completed = \<lambda>_. 0, rg_failed = \<lambda>_. 0, rg_failures = []\<rparr> t"
  by (simp add: counted_def expected_targets_def)

text \<open>The steps before the targets are scored add neither a snapshot nor a finished run.\<close>

abbreviation plain_step :: "'d scoring_event \<Rightarrow> bool" where
  "plain_step e \<equiv> \<not> is_finish e \<and> \<not> is_save e"

lemma plain_trace:
  fixes d :: "'d scoring_event list"
  assumes "list_all plain_step d"
  shows "guarded honest_finish d" "\<forall>site. stored_count site d = 0"
proof -
  have "guarded honest_finish (d @ [])"
    by (rule guarded_append) (use assms in \<open>auto simp: list_all_iff honest_finish_def split: scoring_event.splits\<close>)
  then show "guarded honest_finish d" by simp
  have "stored_count site (d @ []) = stored_count site ([] :: 'd scoring_event list)" for site
    by (rule stored_count_others) (use assms in \<open>auto simp: list_all_iff\<close>)
  then show "\<forall>site. stored_count site d = 0" by (simp add: stored_count_def)
qed

lemma plain_phase:
  assumes "only plain_step m" "gives m t P" "list_all plain_step t"
    and "\<And>a t'. list_all plain_step t' \<Longrightarrow> P a t' \<Longrightarrow> safe (f a) t' (\<lambda>_. guarded honest_finish)"
  shows "safe (bindP m f) t (\<lambda>_. guarded honest_finish)"
  by (rule safe_phase [OF assms(1,2)]) (use assms(3) in \<open>auto intro: assms(4) plain_trace\<close>)

lemma plain_before:
  assumes "only plain_step m" "list_all plain_step t"
    and "\<And>a t'. list_all plain_step t' \<Longrightarrow> safe (f a) t' (\<lambda>_. guarded honest_finish)"
  shows "safe (bindP m f) t (\<lambda>_. guarded honest_finish)"
  by (rule plain_phase [where P = "\<lambda>_ _. True", OF assms(1) gives_only [OF assms(1)] assms(2)]) (auto intro: assms(3))

lemma begin_phase:
  "gives (case sc_recorder E of None \<Rightarrow> ret ([], {}) | Some R \<Rightarrow> begin_runs E R targets now stop (run_sites L targets) ([], {})) t
     (\<lambda>(runs, skipped) t'. all_begun targets runs skipped t' \<or> sc_recorder E = None)"
proof (cases "sc_recorder E")
  case (Some R)
  have "gives (begin_runs E R targets now stop (run_sites L targets) ([], {})) t
      (\<lambda>(runs, skipped) t'. all_begun targets runs skipped t')"
    by (rule begin_runs_gives) (simp_all add: all_begun_def run_sites_def)
  then show ?thesis unfolding Some option.case by (rule gives_mono) auto
qed simp

lemma refresh_honest:
  fixes E :: "('d, 'w) scoring_env"
  shows "safe (refresh_body L E) [] (\<lambda>_. guarded honest_finish)"
  unfolding refresh_body_def Let_def
proof (rule plain_before, rule only_now_utc, simp, rule plain_before, (intro only_rules only_failing; simp), assumption,
    rule plain_before, (intro only_rules only_failing; simp), assumption)
  fix now targets and t :: "'d scoring_event list"
  assume t: "list_all plain_step t"
  let ?stop = "truncate_minutes now"
  show "safe (bindP (case sc_recorder E of
         None \<Rightarrow> ret ([], {})
       | Some R \<Rightarrow> begin_runs E R targets now ?stop (run_sites L targets) ([], {})) (\<lambda>(runs, skipped).
     bindP (score_targets L E ?stop runs skipped targets
         \<lparr>rg_completed = \<lambda>_. 0, rg_failed = \<lambda>_. 0, rg_failures = []\<rparr>) (\<lambda>p.
     bindP (case sc_recorder E of
         None \<Rightarrow> ret (rg_failures p)
       | Some R \<Rightarrow> finish_runs E R p (ranged_runs E runs) (rg_failures p)) (\<lambda>failures.
     ret (if failures = [] then None else Some (ErrJoin failures)))))) t (\<lambda>_. guarded honest_finish)"
    by (rule plain_phase [OF _ begin_phase t], intro only_rules only_begin_plain, unfold split_beta,
        rule scored_and_finished)
      (auto intro: plain_trace(1) counted_start [OF plain_trace(2)])
qed

lemma as_value_any: "P t \<Longrightarrow> as_value (\<lambda>_. P) out t"
  by (cases out) simp_all

text \<open>C2: In every environment, every run a refresh finishes is one it began, and what it reports is
  what it did: the number of completed targets is the number of snapshots stored for the site, never
  more than the number of active targets announced when the run began, and the run is a success exactly
  when every announced target has its snapshot.\<close>

theorem finished_runs_honest:
  "case refresh L E w [] of (out, w', t) \<Rightarrow> guarded honest_finish t"
proof -
  have "safe (refresh L E) [] (\<lambda>_. guarded honest_finish)"
    unfolding refresh_def
    by (rule safe_invoke, rule safe_mono [OF refresh_honest]) (rule as_value_any)
  then show ?thesis by (cases "refresh L E w []") (auto dest: safeD)
qed

section \<open>Why a target is left without a score\<close>

text \<open>The error a call of the repository replied with.\<close>

fun reply_error :: "'d scoring_event \<Rightarrow> go_error option" where
  "reply_error (ScRefresh a b c d r) = r"
| "reply_error (ScTargets r) = (case r of Inl e \<Rightarrow> Some e | Inr _ \<Rightarrow> None)"
| "reply_error (ScBegin run r) = (case r of Inl e \<Rightarrow> Some e | Inr _ \<Rightarrow> None)"
| "reply_error (ScFinish a b c r) = r"
| "reply_error (ScCollection a r) = (case r of Inl e \<Rightarrow> Some e | Inr _ \<Rightarrow> None)"
| "reply_error (ScEvaluation a b c r) = (case r of Inl e \<Rightarrow> Some e | Inr _ \<Rightarrow> None)"
| "reply_error (ScLowest a b c r) = (case r of Inl e \<Rightarrow> Some e | Inr _ \<Rightarrow> None)"
| "reply_error (ScPrice a b c r) = (case r of Inl e \<Rightarrow> Some e | Inr _ \<Rightarrow> None)"
| "reply_error (ScStreak a b r) = (case r of Inl e \<Rightarrow> Some e | Inr _ \<Rightarrow> None)"
| "reply_error (ScMetrics a b c r) = (case r of Inl e \<Rightarrow> Some e | Inr _ \<Rightarrow> None)"
| "reply_error (ScPrevious a b c r) = (case r of Inl e \<Rightarrow> Some e | Inr _ \<Rightarrow> None)"
| "reply_error (ScSave s r) = r"

definition failure_cause :: "'d libs \<Rightarrow> 'd target \<Rightarrow> go_error option \<Rightarrow> 'd scoring_event list \<Rightarrow> bool" where
  "failure_cause L t r tr \<longleftrightarrow>
     (case r of None \<Rightarrow> False | Some e \<Rightarrow>
        (\<exists>ev rest. tr = ev # rest \<and> reply_error ev = Some e) \<or>
        (\<exists>from till site model currency lowest pe x rest.
           tr = ScPrice t from till (Inr pe) # ScLowest site model currency (Inr lowest) # rest
           \<and> site = tg_site_id t \<and> model = tg_model t \<and> currency = tg_currency t
           \<and> target_price L t lowest pe = Inl x \<and> e = scoring_failure x))"

lemma ends_failing_call:
  assumes "\<And>x. P x (ev (Inr x) # t)" "\<And>e. reply_error (ev (Inl e)) = Some e"
  shows "ends (try_value (observed ev f) failing) t (failure_cause L tg) P"
  unfolding try_value_def failing_def bindP_ret
  by (intro ends_rules) (auto simp: assms failure_cause_def)

lemma ends_computed: "(\<And>e. r = Inl e \<Longrightarrow> C (Some (scoring_failure e)) t) \<Longrightarrow> (\<And>x. r = Inr x \<Longrightarrow> P x t) \<Longrightarrow> ends (computed r) t C P"
  by (cases r) (simp_all add: computed_def)

lemma known_weights: "kind \<in> set all_kinds \<Longrightarrow> \<exists>w. fixed_auto_weights (rp_version scoring_policy) kind = Inr w"
  by (auto simp: all_kinds_def fixed_auto_weights_def scoring_policy_def)

lemma streak_ends:
  assumes "combine_window_scores ws = Inr combined" "kind \<in> set all_kinds"
  shows "ends (recommendation_streak E t kind combined scoring_policy stop) tr (failure_cause L t) (\<lambda>_ _. True)"
proof -
  obtain w where w: "fixed_auto_weights (rp_version scoring_policy) kind = Inr w" using known_weights [OF assms(2)] by blast
  obtain c where c: "composite_score (cw_scores combined) w = Inr c"
    by (rule fixed_weights_composite [OF w combine_scores_valid [OF assms(1)]])
  show ?thesis
    unfolding recommendation_streak_def Let_def w
    by (intro ends_rules ends_computed ends_failing_call) (use c in auto)
qed

lemma scoring_policy_valid: "validate_recommendation_policy scoring_policy = Inr ()"
  by (simp add: validate_recommendation_policy_def scoring_policy_def default_hard_gate_policy_def default_consecutive_failure_limit_def valid_score_iff)

lemma target_gates_ok: "gates_ok (target_gates e streak stop) (rp_hard_gates scoring_policy)"
  by (simp add: gates_ok_def target_gates_def Let_def scoring_policy_def default_hard_gate_policy_def
    default_consecutive_failure_limit_def) (simp add: scoring_authenticity_def split: verdict.split)

lemma kinds_end:
  assumes "combine_window_scores ws = Inr combined" "set kinds \<subseteq> set all_kinds"
  shows "ends (recommend_kinds E t (target_gates e streak stop) combined stop kinds) tr (failure_cause L t) (\<lambda>_ _. True)"
  using assms(2)
proof (induction kinds arbitrary: tr)
  case (Cons kind kinds)
  have "\<exists>a. recommend \<lparr>ri_auto_kind = kind, ri_current_member = m, ri_windows = combined,
      ri_hard_gates = target_gates e streak stop, ri_consecutive_join = j, ri_consecutive_exit = l\<rparr> scoring_policy = Inr a" for m j l
    using recommend_succeeds [of ws "\<lparr>ri_auto_kind = kind, ri_current_member = m, ri_windows = combined,
      ri_hard_gates = target_gates e streak stop, ri_consecutive_join = j, ri_consecutive_exit = l\<rparr>" scoring_policy]
      Cons.prems assms(1) target_gates_ok scoring_policy_valid
    by (auto simp: all_kinds_def) (auto simp: scoring_policy_def)
  then have ok: "recommend \<lparr>ri_auto_kind = kind, ri_current_member = m, ri_windows = combined,
      ri_hard_gates = target_gates e streak stop, ri_consecutive_join = j, ri_consecutive_exit = l\<rparr> scoring_policy \<noteq> Inl x" for m j l x
    by (metis sum.distinct(1))
  show ?case
    unfolding recommend_kinds.simps
    by (intro ends_bind ends_mono [OF streak_ends [OF assms(1)]] ends_case_prod ends_computed ends_mono [OF Cons.IH])
      (use Cons.prems ok in auto)
qed simp

lemma windows_end:
  "ends (read_windows E t c e p n stop ws (inputs, samples, facts)) tr (failure_cause L t) (\<lambda>(inputs', r) _.
     \<exists>ms. inputs' = inputs @ map2 (\<lambda>w m. build_window_score (fst w) m c e p (target_quality e stop) n stop) ws ms)"
proof (induction ws arbitrary: inputs samples facts tr)
  case (Cons w ws)
  obtain k width where w: "w = (k, width)" by (cases w)
  show ?case
    unfolding w read_windows.simps
  proof (intro ends_bind ends_failing_call)
    fix m
    show "ends (read_windows E t c e p n stop ws
         (inputs @ [build_window_score k m c e p (target_quality e stop) n stop],
          if k = Window24Hours then wm_sla_attempt_count m else samples,
          if time_after (wm_facts_through m) facts then wm_facts_through m else facts))
       (ScMetrics t (time_add stop (- width)) stop (Inr m) # tr) (failure_cause L t)
       (\<lambda>(inputs', r) _. \<exists>ms. inputs' =
          inputs @ map2 (\<lambda>w m. build_window_score (fst w) m c e p (target_quality e stop) n stop) ((k, width) # ws) ms)"
      by (rule ends_mono [OF Cons.IH]) (clarsimp, rule_tac x = "m # ms" in exI, simp)
  qed simp
qed simp

lemma score_of_target_ends: "ends (score_of_target L E t stop run) tr (failure_cause L t) (\<lambda>_ _. True)"
proof -
  have combined: "\<exists>r. combine_window_scores inputs = Inr r"
    if price: "target_price L t lowest pe = Inr price"
      and inputs: "\<exists>ms. inputs = [] @ map2 (\<lambda>w m. build_window_score (fst w) m c e (if b then Some price else None) (target_quality e stop) n stop) scored_windows ms"
    for lowest pe price inputs c e b n
  proof -
    obtain ms where ms: "inputs = window_inputs ms c e (if b then Some price else None) n stop"
      using inputs by (auto simp: window_inputs_def)
    show ?thesis unfolding ms by (rule window_inputs_combine) (use price_valid [OF price] in \<open>auto split: if_splits\<close>)
  qed
  then have never: "combine_window_scores inputs \<noteq> Inl x"
    if "target_price L t lowest pe = Inr price"
      and "\<exists>ms. inputs = [] @ map2 (\<lambda>w m. build_window_score (fst w) m c e (if b then Some price else None) (target_quality e stop) n stop) scored_windows ms"
    for lowest pe price inputs c e b n x
    using that by (metis sum.distinct(1))
  show ?thesis
    unfolding score_of_target_def
    by (intro ends_bind ends_failing_call ends_computed ends_mono [OF windows_end] ends_case_prod
          ends_mono [OF kinds_end] ends_silent ends_now_utc)
      (assumption | rule subset_refl | (rule notE [OF never], assumption, simp, assumption; fail) | simp add: failure_cause_def; fail
        | (auto simp: failure_cause_def; fail))+
qed

lemma score_target_ends:
  "ends (score_target L E t stop run) tr C (\<lambda>r tr'. case r of None \<Rightarrow> True | Some e \<Rightarrow> failure_cause L t r tr')"
proof -
  have "failure_cause L t r tr' \<Longrightarrow> (case r of None \<Rightarrow> True | Some e \<Rightarrow> failure_cause L t r tr')" for r tr'
    by (cases r) simp_all
  then have "ends (score_of_target L E t stop run) tr (\<lambda>r tr'. case r of None \<Rightarrow> True | Some e \<Rightarrow> failure_cause L t r tr') (\<lambda>_ _. True)"
    using score_of_target_ends [of L E t stop run tr] unfolding ends_def by (auto elim!: safe_mono split: outcome.splits)
  then show ?thesis
    unfolding score_target_def
    by (intro ends_invoke ends_bind, elim ends_mono) (auto intro!: ends_observed simp: failure_cause_def split: option.splits)
qed

text \<open>C8: A target is left without a score only when the last call on the repository replied with that
  very error, or when the price that was read last, against the lowest price that was read just before
  for the target's site, model and currency, cannot be scored.  Nothing after the price can fail of
  itself: the windows built from the evidence are always accepted by \<open>CombineWindowScores\<close>, the
  combination by every fixed strategy, and \<open>Recommend\<close> always gives an advice on them.\<close>

theorem unscored_target_has_cause:
  fixes E :: "('d, 'w) scoring_env"
  shows "case (score_target L E t stop run :: ('d, 'w, go_error option, go_error option) scoring) w [] of
     (Value (Some e), w', tr) \<Rightarrow> (\<exists>ev rest. tr = ev # rest \<and> reply_error ev = Some e) \<or>
        (\<exists>from till site model currency lowest pe x rest.
           tr = ScPrice t from till (Inr pe) # ScLowest site model currency (Inr lowest) # rest
           \<and> site = tg_site_id t \<and> model = tg_model t \<and> currency = tg_currency t
           \<and> target_price L t lowest pe = Inl x \<and> e = scoring_failure x)
   | _ \<Rightarrow> True"
proof (cases "(score_target L E t stop run :: ('d, 'w, go_error option, go_error option) scoring) w []")
  case (fields out w' tr)
  show ?thesis
    using safeD [OF score_target_ends [of L E t stop run "[]" "\<lambda>_ _. True", unfolded ends_def] fields]
    by (auto simp: fields failure_cause_def split: outcome.splits option.splits)
qed

end
