(* ===== verification/Answers.thy ===== *)
theory Answers imports Texts Authenticity begin

text \<open>
  \<open>internal/domain/evaluation/normalize.go\<close>: from the text a model answered to one of the
  few answers a fingerprint counts.

  Strings are byte lists, runes are glyphs (\<open>Texts\<close>); NFKC, lower case and
  \<open>unicode.IsPunct\<close> are fields of \<open>libs\<close>.  The lemmas show that an answer is
  always one of the listed ones (a number in range, a colour, a side of a coin), that decimal texts
  of the numbers in range are kept, and that a distribution counts every raw answer exactly once.
\<close>

section \<open>Runes\<close>

text \<open>The code point of a glyph; a byte that is no rune reads as U+FFFD.\<close>

definition rune_of :: "glyph \<Rightarrow> nat" where
  "rune_of g =
     (case map of_char g of
        [a] \<Rightarrow> if a < 0x80 then a else 0xFFFD
      | [a, b] \<Rightarrow> (a - 0xC0) * 64 + (b - 0x80)
      | [a, b, c] \<Rightarrow> (a - 0xE0) * 4096 + (b - 0x80) * 64 + (c - 0x80)
      | [a, b, c, d] \<Rightarrow> (a - 0xF0) * 262144 + (b - 0x80) * 4096 + (c - 0x80) * 64 + (d - 0x80)
      | _ \<Rightarrow> 0xFFFD)"

definition punct_glyph :: "'d libs \<Rightarrow> glyph \<Rightarrow> bool" where
  "punct_glyph L g \<longleftrightarrow> is_punct L (if is_broken g then replacement_glyph else g)"

text \<open>\<open>strings.TrimFunc\<close>, on glyphs.\<close>

definition trim_func :: "(glyph \<Rightarrow> bool) \<Rightarrow> glyph list \<Rightarrow> glyph list" where
  "trim_func p gs = rev (dropWhile p (rev (dropWhile p gs)))"

text \<open>\<open>strings.Fields\<close> of a byte string.\<close>

definition string_fields :: "string \<Rightarrow> string list" where
  "string_fields s = map concat (split_fields (glyphs s))"

section \<open>Tables\<close>

definition english_small_numbers :: "(string \<times> int) list" where
  "english_small_numbers =
    [(''zero'', 0), (''one'', 1), (''two'', 2), (''three'', 3), (''four'', 4), (''five'', 5), (''six'', 6),
     (''seven'', 7), (''eight'', 8), (''nine'', 9), (''ten'', 10), (''eleven'', 11), (''twelve'', 12),
     (''thirteen'', 13), (''fourteen'', 14), (''fifteen'', 15), (''sixteen'', 16), (''seventeen'', 17),
     (''eighteen'', 18), (''nineteen'', 19)]"

definition english_tens :: "(string \<times> int) list" where
  "english_tens =
    [(''twenty'', 20), (''thirty'', 30), (''forty'', 40), (''fifty'', 50), (''sixty'', 60), (''seventy'', 70),
     (''eighty'', 80), (''ninety'', 90)]"

definition chinese_digits :: "(nat \<times> int) list" where
  "chinese_digits =
    [(0x96F6, 0), (0x3007, 0), (0x4E00, 1), (0x4E8C, 2), (0x4E24, 2), (0x4E09, 3), (0x56DB, 4), (0x4E94, 5),
     (0x516D, 6), (0x4E03, 7), (0x516B, 8), (0x4E5D, 9)]"

definition color_aliases :: "(string \<times> string) list" where
  "color_aliases =
    [(''red'', ''red''), (''blue'', ''blue''), (''green'', ''green''), (''yellow'', ''yellow''),
     (''black'', ''black''), (''white'', ''white''), (''purple'', ''purple''), (''violet'', ''purple''),
     (''orange'', ''orange''), (''pink'', ''pink''), (''brown'', ''brown''), (''gray'', ''gray''),
     (''grey'', ''gray''), (''cyan'', ''cyan''), (''magenta'', ''magenta''), (''teal'', ''teal''),
     (''indigo'', ''indigo''), (''gold'', ''gold''), (''golden'', ''gold''), (''silver'', ''silver''),
     (''beige'', ''beige''), (''maroon'', ''maroon''), (''navy'', ''navy''), (''turquoise'', ''turquoise''),
     (''light blue'', ''light_blue''), (''dark blue'', ''dark_blue''), (''sky blue'', ''sky_blue''),
     (utf8 [0x7EA2], ''red''), (utf8 [0x7EA2, 0x8272], ''red''), (utf8 [0x84DD], ''blue''),
     (utf8 [0x84DD, 0x8272], ''blue''), (utf8 [0x7EFF], ''green''), (utf8 [0x7EFF, 0x8272], ''green''),
     (utf8 [0x9EC4], ''yellow''), (utf8 [0x9EC4, 0x8272], ''yellow''), (utf8 [0x9ED1], ''black''),
     (utf8 [0x9ED1, 0x8272], ''black''), (utf8 [0x767D], ''white''), (utf8 [0x767D, 0x8272], ''white''),
     (utf8 [0x7D2B], ''purple''), (utf8 [0x7D2B, 0x8272], ''purple''), (utf8 [0x6A59], ''orange''),
     (utf8 [0x6A59, 0x8272], ''orange''), (utf8 [0x7C89], ''pink''), (utf8 [0x7C89, 0x8272], ''pink''),
     (utf8 [0x7C89, 0x7EA2], ''pink''), (utf8 [0x7C89, 0x7EA2, 0x8272], ''pink''), (utf8 [0x68D5], ''brown''),
     (utf8 [0x68D5, 0x8272], ''brown''), (utf8 [0x8910], ''brown''), (utf8 [0x8910, 0x8272], ''brown''),
     (utf8 [0x7070], ''gray''), (utf8 [0x7070, 0x8272], ''gray''), (utf8 [0x9752], ''cyan''),
     (utf8 [0x9752, 0x8272], ''cyan''), (utf8 [0x975B, 0x84DD], ''indigo''),
     (utf8 [0x975B, 0x84DD, 0x8272], ''indigo''), (utf8 [0x91D1], ''gold''), (utf8 [0x91D1, 0x8272], ''gold''),
     (utf8 [0x94F6], ''silver''), (utf8 [0x94F6, 0x8272], ''silver''), (utf8 [0x7C73, 0x8272], ''beige'')]"

definition coin_aliases :: "(string \<times> string) list" where
  "coin_aliases =
    [(''head'', ''heads''), (''heads'', ''heads''), (''h'', ''heads''), (''tail'', ''tails''),
     (''tails'', ''tails''), (''t'', ''tails''), (utf8 [0x6B63], ''heads''), (utf8 [0x6B63, 0x9762], ''heads''),
     (utf8 [0x4EBA, 0x5934], ''heads''), (utf8 [0x82B1], ''heads''), (utf8 [0x53CD], ''tails''),
     (utf8 [0x53CD, 0x9762], ''tails''), (utf8 [0x5B57], ''tails''), (utf8 [0x5B57, 0x9762], ''tails'')]"

datatype answer_error = ErrUnknownCell | ErrInvalidAnswer

section \<open>The line that answers\<close>

text \<open>\<open>strings.ReplaceAll\<close> of CR LF by LF, and \<open>strings.Split\<close> at LF.\<close>

fun replace_crlf :: "string \<Rightarrow> string" where
  "replace_crlf (a # b # s) = (if a = cr \<and> b = nl then nl # replace_crlf s else a # replace_crlf (b # s))"
| "replace_crlf s = s"

fun split_lines :: "string \<Rightarrow> string list" where
  "split_lines [] = [[]]"
| "split_lines (c # s) =
     (if c = nl then [] # split_lines s
      else case split_lines s of [] \<Rightarrow> [[c]] | line # lines \<Rightarrow> (c # line) # lines)"

fun first_nonempty :: "string list \<Rightarrow> string" where
  "first_nonempty [] = []"
| "first_nonempty (line # lines) = (if line \<noteq> [] then line else first_nonempty lines)"

definition first_answer_line :: "'d libs \<Rightarrow> string \<Rightarrow> string" where
  "first_answer_line L raw =
     first_nonempty (map (\<lambda>line. concat (trim_func (\<lambda>g. is_space g \<or> punct_glyph L g) (glyphs line)))
       (split_lines (nfkc L (replace_crlf raw))))"

definition normalized_phrase :: "'d libs \<Rightarrow> string \<Rightarrow> string" where
  "normalized_phrase L value =
     join_with '' '' (string_fields (map (\<lambda>c. if c = CHR ''-'' then CHR '' '' else c) (to_lower L value)))"

section \<open>Numbers\<close>

definition decimal_digit :: "glyph \<Rightarrow> nat option" where
  "decimal_digit g =
     (let char = rune_of g in
      if 0x30 \<le> char \<and> char \<le> 0x39 then Some (char - 0x30)
      else if 0xFF10 \<le> char \<and> char \<le> 0xFF19 then Some (char - 0xFF10)
      else if 0x0660 \<le> char \<and> char \<le> 0x0669 then Some (char - 0x0660)
      else if 0x06F0 \<le> char \<and> char \<le> 0x06F9 then Some (char - 0x06F0)
      else None)"

fun digits_of :: "(glyph \<Rightarrow> nat option) \<Rightarrow> glyph list \<Rightarrow> string option" where
  "digits_of f [] = Some []"
| "digits_of f (g # gs) =
     (case f g of None \<Rightarrow> None
      | Some d \<Rightarrow> (case digits_of f gs of None \<Rightarrow> None | Some s \<Rightarrow> Some (digit_char d # s)))"

definition decimal_digits :: "string \<Rightarrow> string option" where
  "decimal_digits value =
     (case digits_of decimal_digit (glyphs value) of None \<Rightarrow> None | Some s \<Rightarrow> if s = [] then None else Some s)"

text \<open>\<open>strconv.Atoi\<close> of a string of digits: an error when the number is no
  \<open>int\<close>.\<close>

definition atoi :: "string \<Rightarrow> int option" where
  "atoi s = (if int (decimal_value s) \<le> max_int64 then Some (int (decimal_value s)) else None)"

definition parse_english_number :: "string \<Rightarrow> int option" where
  "parse_english_number value =
     (case filter (\<lambda>field. field \<noteq> ''and'') (string_fields value) of
        [w] \<Rightarrow>
          (case map_of english_small_numbers w of Some n \<Rightarrow> Some n
           | None \<Rightarrow> (case map_of english_tens w of Some n \<Rightarrow> Some n
             | None \<Rightarrow> if w = ''hundred'' then Some 100 else None))
      | [v, w] \<Rightarrow>
          if (v = ''one'' \<or> v = ''a'') \<and> w = ''hundred'' then Some 100
          else (case (map_of english_tens v, map_of english_small_numbers w) of
             (Some tens, Some unit) \<Rightarrow> if 0 < unit \<and> unit < 10 then Some (tens + unit) else None
           | _ \<Rightarrow> None)
      | _ \<Rightarrow> None)"

definition ten_glyph :: glyph where "ten_glyph = encode_rune 0x5341"

definition single_chinese_digit :: "glyph list \<Rightarrow> int option" where
  "single_chinese_digit gs = (case gs of [g] \<Rightarrow> map_of chinese_digits (rune_of g) | _ \<Rightarrow> None)"

definition parse_chinese_number :: "string \<Rightarrow> int option" where
  "parse_chinese_number value =
     (if value = utf8 [0x767E] \<or> value = utf8 [0x4E00, 0x767E] then Some 100
      else let gs = glyphs value in
        if count_list gs ten_glyph = 1
        then let left = takeWhile (\<lambda>g. g \<noteq> ten_glyph) gs; right = tl (dropWhile (\<lambda>g. g \<noteq> ten_glyph) gs) in
          (case if left = [] then Some 1 else (case single_chinese_digit left of
                  None \<Rightarrow> None | Some parsed \<Rightarrow> if parsed = 0 then None else Some parsed) of
             None \<Rightarrow> None
           | Some tens \<Rightarrow>
               (case if right = [] then Some 0 else single_chinese_digit right of
                  None \<Rightarrow> None | Some units \<Rightarrow> Some (tens * 10 + units)))
        else (case single_chinese_digit gs of
           Some number \<Rightarrow> Some number
         | None \<Rightarrow>
             (case digits_of (\<lambda>g. map_option nat (map_of chinese_digits (rune_of g))) gs of
                None \<Rightarrow> None | Some s \<Rightarrow> if s = [] then None else atoi s)))"

definition parse_number :: "'d libs \<Rightarrow> string \<Rightarrow> int option" where
  "parse_number L value =
     (let phrase = normalized_phrase L value in
      if phrase = [] then None
      else case decimal_digits phrase of
        Some digits \<Rightarrow> atoi digits
      | None \<Rightarrow> (case parse_english_number phrase of Some n \<Rightarrow> Some n | None \<Rightarrow> parse_chinese_number phrase))"

fun first_number :: "'d libs \<Rightarrow> int \<Rightarrow> string list \<Rightarrow> answer_error + string" where
  "first_number L maximum [] = Inl ErrInvalidAnswer"
| "first_number L maximum (candidate # candidates) =
     (case parse_number L candidate of
        Some number \<Rightarrow>
          if 1 \<le> number \<and> number \<le> maximum then Inr (format_int number) else first_number L maximum candidates
      | None \<Rightarrow> first_number L maximum candidates)"

definition normalize_number :: "'d libs \<Rightarrow> string \<Rightarrow> int \<Rightarrow> answer_error + string" where
  "normalize_number L answer maximum =
     (let fields = split_fields (glyphs answer) in
      first_number L maximum
        (answer # (if 1 < length fields then [concat (trim_func (punct_glyph L) (hd fields))] else [])))"

section \<open>Answers and distributions\<close>

definition aliased :: "(string \<times> string) list \<Rightarrow> string \<Rightarrow> answer_error + string" where
  "aliased table phrase = (case map_of table phrase of None \<Rightarrow> Inl ErrInvalidAnswer | Some value \<Rightarrow> Inr value)"

definition normalize_answer :: "'d libs \<Rightarrow> cell_id \<Rightarrow> string \<Rightarrow> answer_error + string" where
  "normalize_answer L cell raw =
     (let answer = first_answer_line L raw in
      if answer = [] then Inl ErrInvalidAnswer
      else if cell = CellNumber100EN \<or> cell = CellNumber100ZH then normalize_number L answer 100
      else if cell = CellNumber10EN \<or> cell = CellNumber10ZH then normalize_number L answer 10
      else if cell = CellColorEN \<or> cell = CellColorZH then aliased color_aliases (normalized_phrase L answer)
      else if cell = CellCoinEN \<or> cell = CellCoinZH then aliased coin_aliases (normalized_phrase L answer)
      else Inl ErrUnknownCell)"

text \<open>\<open>counts[answer]++\<close>.\<close>

fun add_count :: "string \<Rightarrow> (string \<times> 64 word) list \<Rightarrow> (string \<times> 64 word) list" where
  "add_count k [] = [(k, 1)]"
| "add_count k ((l, n) # xs) = (if k = l then (l, n + 1) # xs else (l, n) # add_count k xs)"

definition count_answer :: "distribution \<Rightarrow> string \<Rightarrow> distribution" where
  "count_answer d answer = d\<lparr>di_counts := add_count answer (di_counts d)\<rparr>"

definition answer_step :: "'d libs \<Rightarrow> cell_id \<Rightarrow> distribution \<Rightarrow> string \<Rightarrow> answer_error + distribution" where
  "answer_step L cell d raw =
     (case normalize_answer L cell raw of
        Inl ErrInvalidAnswer \<Rightarrow> Inr (d\<lparr>di_invalid_samples := di_invalid_samples d + 1\<rparr>)
      | Inl e \<Rightarrow> Inl e
      | Inr answer \<Rightarrow> Inr (count_answer d answer))"

definition is_known_cell :: "cell_id \<Rightarrow> bool" where
  "is_known_cell cell \<longleftrightarrow> list_ex (\<lambda>candidate. cell = candidate) protocol_v1_cells"

definition build_distribution :: "'d libs \<Rightarrow> cell_id \<Rightarrow> string list \<Rightarrow> answer_error + distribution" where
  "build_distribution L cell raws =
     (if \<not> is_known_cell cell then Inl ErrUnknownCell
      else foldE (answer_step L cell) \<lparr>di_counts = [], di_invalid_samples = 0\<rparr> raws)"

section \<open>Only known answers are counted\<close>

definition number_answers :: "nat \<Rightarrow> string list" where
  "number_answers n = map (\<lambda>k. format_int (int k)) [1..<Suc n]"

definition color_names :: "string list" where
  "color_names =
     [''red'', ''blue'', ''green'', ''yellow'', ''black'', ''white'', ''purple'', ''orange'', ''pink'', ''brown'', ''gray'',
      ''cyan'', ''magenta'', ''teal'', ''indigo'', ''gold'', ''silver'', ''beige'', ''maroon'', ''navy'', ''turquoise'',
      ''light_blue'', ''dark_blue'', ''sky_blue'']"

definition coin_sides :: "string list" where
  "coin_sides = [''heads'', ''tails'']"

fun canonical_answers :: "cell_id \<Rightarrow> string list" where
  "canonical_answers CellNumber100EN = number_answers 100"
| "canonical_answers CellNumber100ZH = number_answers 100"
| "canonical_answers CellNumber10EN = number_answers 10"
| "canonical_answers CellNumber10ZH = number_answers 10"
| "canonical_answers CellColorEN = color_names"
| "canonical_answers CellColorZH = color_names"
| "canonical_answers CellCoinEN = coin_sides"
| "canonical_answers CellCoinZH = coin_sides"
| "canonical_answers (CellOther s) = []"

lemma first_number_range: "first_number L m cs = Inr s \<Longrightarrow> \<exists>n. 1 \<le> n \<and> n \<le> m \<and> s = format_int n"
  by (induction cs) (auto split: option.splits if_splits)

lemma number_answers_range: "1 \<le> n \<Longrightarrow> n \<le> int m \<Longrightarrow> format_int n \<in> set (number_answers m)"
  unfolding number_answers_def set_map set_upt by (rule image_eqI [of _ _ "nat n"]) auto

lemma normalize_number_range:
  assumes "normalize_number L answer (int m) = Inr s"
  shows "s \<in> set (number_answers m)"
proof -
  obtain n where "1 \<le> n" "n \<le> int m" "s = format_int n"
    using first_number_range assms unfolding normalize_number_def Let_def by blast
  then show ?thesis by (simp add: number_answers_range)
qed

lemma aliased_range: "aliased table phrase = Inr s \<Longrightarrow> s \<in> snd ` set table"
  by (force simp: aliased_def dest: map_of_SomeD split: option.splits)

lemma alias_answers:
  "list_all (\<lambda>a. snd a \<in> set color_names) color_aliases"
  "list_all (\<lambda>a. snd a \<in> set coin_sides) coin_aliases"
  by (simp_all add: color_aliases_def color_names_def coin_aliases_def coin_sides_def)

lemma known_cells: "is_known_cell c \<longleftrightarrow> (case c of CellOther s \<Rightarrow> False | _ \<Rightarrow> True)"
  by (cases c) (simp_all add: is_known_cell_def protocol_v1_cells_def)

lemma first_number_Inl: "first_number L m cs = Inl e \<Longrightarrow> e = ErrInvalidAnswer"
  by (induction cs) (auto split: option.splits if_splits)

lemma unknown_cell: "normalize_answer L cell raw = Inl ErrUnknownCell \<Longrightarrow> \<not> is_known_cell cell"
  by (cases cell)
    (auto simp: normalize_answer_def Let_def known_cells normalize_number_def aliased_def
      split: if_splits option.splits dest: first_number_Inl)

text \<open>A text without an answer line, and any other text for an unknown cell.\<close>

lemma no_line_invalid: "first_answer_line L raw = [] \<Longrightarrow> normalize_answer L cell raw = Inl ErrInvalidAnswer"
  by (simp add: normalize_answer_def)

lemma line_unknown: "first_answer_line L raw \<noteq> [] \<Longrightarrow> \<not> is_known_cell cell \<Longrightarrow> normalize_answer L cell raw = Inl ErrUnknownCell"
  by (cases cell) (simp_all add: normalize_answer_def known_cells)

text \<open>C12: Whatever a model answers, what is counted for a cell is one of the few answers of that
  cell: a number in its range without leading zeros, a basic colour, or a side of the coin.  A text
  with an answer line is refused as of an unknown cell exactly when the cell is unknown; a text
  without one is an invalid answer, whatever the cell.\<close>

theorem only_known_answers:
  "case normalize_answer L cell raw of
     Inr answer \<Rightarrow> answer \<in> set (canonical_answers cell) \<and> is_known_cell cell \<and> first_answer_line L raw \<noteq> []
   | Inl ErrUnknownCell \<Rightarrow> \<not> is_known_cell cell \<and> first_answer_line L raw \<noteq> []
   | Inl ErrInvalidAnswer \<Rightarrow> is_known_cell cell \<or> first_answer_line L raw = []"
proof (cases "normalize_answer L cell raw")
  case (Inl e)
  then show ?thesis using unknown_cell no_line_invalid [of L raw cell] line_unknown [of L raw cell] by (cases e) auto
next
  case (Inr answer)
  have line: "is_known_cell cell \<and> first_answer_line L raw \<noteq> []"
    using Inr no_line_invalid [of L raw cell] line_unknown [of L raw cell] by auto
  have "normalize_number L a 100 = Inr s \<Longrightarrow> s \<in> set (number_answers 100)"
    "normalize_number L a 10 = Inr s \<Longrightarrow> s \<in> set (number_answers 10)" for a s
    using normalize_number_range [of L a 100] normalize_number_range [of L a 10] by simp_all
  moreover have "aliased color_aliases p = Inr s \<Longrightarrow> s \<in> set color_names"
    "aliased coin_aliases p = Inr s \<Longrightarrow> s \<in> set coin_sides" for p s
    using alias_answers unfolding list_all_iff by (blast dest: aliased_range)+
  ultimately have "answer \<in> set (canonical_answers cell)"
    using Inr by (cases cell) (simp_all add: normalize_answer_def Let_def split: if_splits)
  then show ?thesis using Inr line by simp
qed

section \<open>Every raw answer is counted once\<close>

lemma map_of_add_count:
  "map_of (add_count k xs) = (map_of xs)(k \<mapsto> (case map_of xs k of None \<Rightarrow> 1 | Some n \<Rightarrow> n + 1))"
  by (induction xs) (auto simp: fun_eq_iff)

lemma keys_add_count: "map fst (add_count k xs) = (if k \<in> set (map fst xs) then map fst xs else map fst xs @ [k])"
proof (induction xs)
  case (Cons x xs)
  then show ?case by (cases x; cases "k \<in> set (map fst xs)") (simp_all del: list.set_map)
qed simp

lemma distinct_add_count: "distinct (map fst xs) \<Longrightarrow> distinct (map fst (add_count k xs))"
  by (simp add: keys_add_count del: list.set_map)

lemma count_of_count_answer: "count_of (count_answer d a) b = count_of d b + (if a = b then 1 else 0)"
  by (simp add: count_of_def count_answer_def map_of_add_count split: option.split)

lemma sum_add_count: "sum_list (map snd (add_count k xs)) = sum_list (map snd xs) + 1"
  by (induction xs) auto

lemma valid_samples_sum: "valid_samples d = sum_list (map snd (di_counts d))"
proof -
  have "foldl (\<lambda>t (a, n). t + n) s xs = s + sum_list (map snd xs)" for s :: "64 word" and xs :: "(string \<times> 64 word) list"
    by (induction xs arbitrary: s) (auto simp: add.assoc)
  then show ?thesis by (simp add: valid_samples_def)
qed

definition counts_answers :: "'d libs \<Rightarrow> cell_id \<Rightarrow> string list \<Rightarrow> distribution \<Rightarrow> bool" where
  "counts_answers L cell raws d \<longleftrightarrow>
     (\<forall>a. count_of d a = of_nat (length (filter (\<lambda>raw. normalize_answer L cell raw = Inr a) raws))) \<and>
     di_invalid_samples d = of_nat (length (filter (\<lambda>raw. normalize_answer L cell raw = Inl ErrInvalidAnswer) raws)) \<and>
     valid_samples d + di_invalid_samples d = of_nat (length raws) \<and> distinct (map fst (di_counts d))"

lemma answer_steps:
  assumes "is_known_cell cell" "counts_answers L cell seen d"
  shows "\<exists>e. foldE (answer_step L cell) d raws = Inr e \<and> counts_answers L cell (seen @ raws) e"
  using assms(2)
proof (induction raws arbitrary: seen d)
  case (Cons raw raws)
  have "\<exists>e. answer_step L cell d raw = Inr e \<and> counts_answers L cell (seen @ [raw]) e"
  proof (cases "normalize_answer L cell raw")
    case (Inl e)
    then have e: "e = ErrInvalidAnswer"
      using assms(1) unknown_cell by (cases e) auto
    show ?thesis
      using Cons.prems by (auto simp: answer_step_def Inl e counts_answers_def count_of_def valid_samples_sum algebra_simps)
  next
    case (Inr a)
    then show ?thesis
      using Cons.prems
      by (simp add: answer_step_def counts_answers_def count_of_count_answer)
        (auto simp: count_answer_def valid_samples_sum sum_add_count distinct_add_count algebra_simps)
  qed
  then obtain e where e: "answer_step L cell d raw = Inr e" "counts_answers L cell (seen @ [raw]) e" by blast
  show ?case using Cons.IH [OF e(2)] e(1) by simp
qed simp

text \<open>C11: \<open>BuildDistribution\<close> succeeds exactly on the known cells, and then counts every raw
  answer exactly once: under its normalised form, or as invalid.\<close>

theorem distribution_counts_every_answer:
  "case build_distribution L cell raws of
     Inl e \<Rightarrow> e = ErrUnknownCell \<and> \<not> is_known_cell cell
   | Inr d \<Rightarrow> is_known_cell cell \<and> counts_answers L cell raws d"
proof (cases "is_known_cell cell")
  case True
  have "counts_answers L cell [] \<lparr>di_counts = [], di_invalid_samples = 0\<rparr>"
    by (simp add: counts_answers_def count_of_def valid_samples_def)
  from answer_steps [OF True this, of raws] show ?thesis using True by (auto simp: build_distribution_def)
qed (simp add: build_distribution_def)

section \<open>Decimal answers are kept\<close>

definition digits_only :: "string \<Rightarrow> bool" where
  "digits_only s \<longleftrightarrow> list_all (\<lambda>c. \<exists>d<10. c = digit_char d) s"

lemma digits_of_nat: "digits_only (format_nat n)"
  using format_nat_digits by (auto simp: digits_only_def list_all_iff)

lemma format_nat_nonempty: "format_nat n \<noteq> []"
  by (subst format_nat.simps) simp

lemma digit_code: "d < 10 \<Longrightarrow> of_char (digit_char d) = (48 + d :: nat)"
  by (simp add: digit_char_def)

lemma digit_not:
  assumes "digits_only s"
  shows "nl \<notin> set s" "cr \<notin> set s" "CHR ''-'' \<notin> set s"
proof -
  have c: "\<exists>n::nat. 48 \<le> n \<and> n \<le> 57 \<and> of_char c = n" if "c \<in> set s" for c
    using assms that by (auto simp: digits_only_def list_all_iff digit_code)
  show "nl \<notin> set s" using c [of nl] by (auto simp: nl_def)
  show "cr \<notin> set s" using c [of cr] by (auto simp: cr_def)
  show "CHR ''-'' \<notin> set s" using c [of "CHR ''-''"] by auto
qed

lemma digit_glyphs:
  assumes "digits_only s"
  shows "glyphs s = map (\<lambda>c. [c]) s"
proof -
  have "is_ascii c" if "c \<in> set s" for c
    using assms that by (auto simp: digits_only_def list_all_iff is_ascii_def digit_code)
  then show ?thesis by (simp add: glyphs_ascii list_all_iff)
qed

lemma digit_glyph:
  assumes "d < 10"
  shows "\<not> is_space [digit_char d]" "\<not> is_broken [digit_char d]" "decimal_digit [digit_char d] = Some d"
  using assms
  by (auto simp: is_space_def space_head_def byte_def Let_def space_triple_def is_broken_def decimal_digit_def rune_of_def digit_code)

lemma crlf_none: "cr \<notin> set s \<Longrightarrow> replace_crlf s = s"
  by (induction s rule: replace_crlf.induct) auto

lemma lines_none: "nl \<notin> set s \<Longrightarrow> split_lines s = [s]"
  by (induction s) auto

lemma trim_none: "\<forall>g\<in>set gs. \<not> p g \<Longrightarrow> trim_func p gs = gs"
proof -
  assume p: "\<forall>g\<in>set gs. \<not> p g"
  have d: "dropWhile p hs = hs" if "\<forall>g\<in>set hs. \<not> p g" for hs using that by (cases hs) auto
  show ?thesis using p by (simp add: trim_func_def d)
qed

lemma fields_none: "\<forall>g\<in>set gs. \<not> is_space g \<Longrightarrow> gs \<noteq> [] \<Longrightarrow> split_fields gs = [gs]"
proof -
  assume s: "\<forall>g\<in>set gs. \<not> is_space g" "gs \<noteq> []"
  have d: "dropWhile is_space gs = gs" using s by (cases gs) auto
  have t: "takeWhile (\<lambda>g. \<not> is_space g) gs = gs" "dropWhile (\<lambda>g. \<not> is_space g) gs = []" using s by auto
  have n: "split_fields [] = []" by (subst split_fields.simps) simp
  show ?thesis by (subst split_fields.simps) (simp add: Let_def d t n s(2))
qed

text \<open>What the packages do with decimal texts: NFKC and lower case leave them alone, and no digit
  is punctuation.\<close>

definition keeps_digits :: "'d libs \<Rightarrow> bool" where
  "keeps_digits L \<longleftrightarrow>
     (\<forall>s. digits_only s \<longrightarrow> nfkc L s = s \<and> to_lower L s = s) \<and> (\<forall>d<10. \<not> is_punct L [digit_char d])"

lemma digit_string:
  assumes "keeps_digits L" "digits_only s" "s \<noteq> []"
  shows "first_answer_line L s = s" "normalized_phrase L s = s" "decimal_digits s = Some s" "split_fields (glyphs s) = [glyphs s]"
proof -
  have L: "nfkc L s = s" "to_lower L s = s" using assms by (auto simp: keeps_digits_def)
  note d = digit_not [OF assms(2)]
  have g: "\<exists>d<10. g = [digit_char d]" if "g \<in> set (glyphs s)" for g
    using that assms(2) unfolding digit_glyphs [OF assms(2)] by (auto simp: digits_only_def list_all_iff)
  have plain: "\<not> (is_space g \<or> punct_glyph L g)" if "g \<in> set (glyphs s)" for g
    using g [OF that] assms(1) by (auto simp: digit_glyph punct_glyph_def keeps_digits_def)
  have ne: "glyphs s \<noteq> []" using assms(3) by (simp add: digit_glyphs [OF assms(2)])
  show f: "split_fields (glyphs s) = [glyphs s]" by (rule fields_none [OF _ ne]) (use plain in blast)
  have "trim_func (\<lambda>g. is_space g \<or> punct_glyph L g) (glyphs s) = glyphs s" by (rule trim_none) (use plain in blast)
  then show "first_answer_line L s = s"
    by (simp add: first_answer_line_def crlf_none d L lines_none assms(3))
  have "map (\<lambda>c. if c = CHR ''-'' then CHR '' '' else c) s = s" using d(3) by (auto intro: map_idI)
  then show "normalized_phrase L s = s" by (simp add: normalized_phrase_def L string_fields_def f)
  have "digits_of decimal_digit (map (\<lambda>c. [c]) s) = Some s"
    using assms(2) by (induction s) (auto simp: digits_only_def digit_glyph)
  then show "decimal_digits s = Some s" by (simp add: decimal_digits_def digit_glyphs [OF assms(2)] assms(3))
qed

lemma parse_decimal: "keeps_digits L \<Longrightarrow> int n \<le> max_int64 \<Longrightarrow> parse_number L (format_nat n) = Some (int n)"
  by (simp add: parse_number_def Let_def digit_string digits_of_nat format_nat_nonempty atoi_def)

lemma normalize_decimal:
  assumes "keeps_digits L" "m \<le> 100"
  shows "normalize_number L (format_nat n) (int m) =
    (if 1 \<le> n \<and> n \<le> m then Inr (format_nat n) else Inl ErrInvalidAnswer)"
proof -
  have fields: "split_fields (glyphs (format_nat n)) = [glyphs (format_nat n)]"
    by (rule digit_string(4) [OF assms(1) digits_of_nat format_nat_nonempty])
  show ?thesis
  proof (cases "int n \<le> max_int64")
    case True
    then show ?thesis
      using parse_decimal [OF assms(1) True] by (auto simp: normalize_number_def fields format_int_def)
  next
    case False
    then have "parse_number L (format_nat n) = None" "m < n"
      using assms by (auto simp: parse_number_def Let_def digit_string digits_of_nat format_nat_nonempty atoi_def max_int64_def)
    then show ?thesis by (simp add: normalize_number_def fields)
  qed
qed

text \<open>The largest answer of a number cell.\<close>

fun number_maximum :: "cell_id \<Rightarrow> nat option" where
  "number_maximum CellNumber100EN = Some 100"
| "number_maximum CellNumber100ZH = Some 100"
| "number_maximum CellNumber10EN = Some 10"
| "number_maximum CellNumber10ZH = Some 10"
| "number_maximum cell = None"

text \<open>C13: In each of the four number cells, a number written in decimal digits is its own normal
  form when it is in the range of the cell (1 to 100, or 1 to 10), and is no answer otherwise, however
  many digits it has.\<close>

theorem decimal_answers_kept:
  assumes "keeps_digits L" and "number_maximum cell = Some m"
  shows "normalize_answer L cell (format_nat n) = (if 1 \<le> n \<and> n \<le> m then Inr (format_nat n) else Inl ErrInvalidAnswer)"
  using normalize_decimal [OF assms(1), of 100 n] normalize_decimal [OF assms(1), of 10 n]
    digit_string(1) [OF assms(1) digits_of_nat format_nat_nonempty] assms(2)
  by (cases cell) (auto simp: normalize_answer_def format_nat_nonempty)

theorem decimal_answers_kept_witness:
  "normalize_answer sample_libs CellNumber100EN (format_nat 100) = Inr (format_nat 100) \<and>
   normalize_answer sample_libs CellNumber10ZH (format_nat 100) = Inl ErrInvalidAnswer"
proof -
  have "\<not> is_punct sample_libs [digit_char d]" if "d < 10" for d
  proof -
    have "of_char (digit_char d) = (48 + d :: nat)" by (rule digit_code [OF that])
    then have "digit_char d \<noteq> CHR ''.''" "digit_char d \<noteq> CHR '',''" "digit_char d \<noteq> CHR ''!''" "digit_char d \<noteq> CHR ''-''"
      by auto
    then show ?thesis by (simp add: sample_libs_def)
  qed
  then have "keeps_digits sample_libs" by (simp add: keeps_digits_def sample_libs_def)
  from decimal_answers_kept [OF this, where n = 100] show ?thesis by simp
qed

end
