(* ===== verification/Probes.thy ===== *)
theory Probes imports Answers Conversion Sites begin

text \<open>
  The parts of \<open>internal/application/evaluation/execute.go\<close> that call nothing: the plan of
  an evaluation run, the record made of the reply of a probe, the fingerprint and the capability
  score made of the samples; and the types of \<open>types.go\<close> they use.

  \<open>math/rand\<close> is a generator with its seeding and \<open>Intn\<close> (\<open>random\<close>);
  \<open>strings.EqualFold\<close> is the argument \<open>fold_eq\<close>.  Prompts that are not ASCII are
  written by their code points.
\<close>

section \<open>Types\<close>

datatype target_kind = TargetSupplierDirect | TargetSiteRoute | TargetKindOther string

datatype eval_purpose = PurposeHealth | PurposeAuthenticity | PurposeQuality | PurposeRecovery | EvalPurposeOther string

datatype run_status = RunPending | RunRunning | RunSucceeded | RunFailed | RunUncertain | RunCancelled | RunStatusOther string

record eval_run =
  er_id :: uuid
  er_supplier_id :: uuid
  er_supplier_name :: string
  er_model :: string
  er_upstream_model :: string
  er_target_kind :: target_kind
  er_purpose :: eval_purpose
  er_status :: run_status
  er_suite_version :: string
  er_algorithm_version :: string
  er_seed :: "64 word"
  er_reference_id :: "uuid option"
  er_planned_samples :: int
  er_requested_by :: string
  er_request_reason :: string
  er_error_code :: string
  er_requested_at :: instant
  er_started_at :: "instant option"
  er_completed_at :: "instant option"
  er_next_retry_at :: "instant option"
  er_request_key :: string
  er_request_hash :: string

record target_access =
  ta_supplier_id :: uuid
  ta_supplier_name :: string
  ta_base_url :: string
  ta_model :: string
  ta_upstream_model :: string
  ta_credential :: credential_record

record sample =
  sm_run_id :: uuid
  sm_probe_key :: string
  sm_sample_index :: int
  sm_prompt_variant :: int
  sm_outcome :: string
  sm_normalized_answer :: string
  sm_answer_digest :: string
  sm_response_model :: string
  sm_http_status :: int
  sm_finish_reason :: string
  sm_input_tokens :: int
  sm_output_tokens :: int
  sm_first_token_millis :: "int option"
  sm_total_millis :: "int option"
  sm_stream :: bool
  sm_stream_completed :: "bool option"
  sm_error :: error_fact
  sm_collected_at :: instant

record probe_call =
  pq_model :: string
  pq_prompt :: string
  pq_temperature :: f64
  pq_top_p :: f64
  pq_max_tokens :: int
  pq_stream :: bool

record probe_result =
  pr_text :: string
  pr_response_model :: string
  pr_http_status :: int
  pr_finish_reason :: string
  pr_input_tokens :: int
  pr_output_tokens :: int
  pr_first_token_millis :: "int option"
  pr_total_millis :: int
  pr_stream_completed :: bool

record planned_probe =
  pp_key :: string
  pp_cell :: "cell_id option"
  pp_index :: int
  pp_variant :: int
  pp_prompt :: string
  pp_expected :: string
  pp_stream :: bool
  pp_temperature :: f64
  pp_top_p :: f64
  pp_max_tokens :: int

text \<open>\<open>rand.New(rand.NewSource(seed))\<close> and \<open>Intn\<close>.\<close>

record 'g random =
  rnd_new :: "int \<Rightarrow> 'g"
  rnd_intn :: "'g \<Rightarrow> nat \<Rightarrow> nat \<times> 'g"

definition authenticity_samples_per_cell :: nat where
  "authenticity_samples_per_cell = 12"

section \<open>The plan of a run\<close>

fun cell_text :: "cell_id \<Rightarrow> string" where
  "cell_text CellNumber100EN = ''number_1_100:en''"
| "cell_text CellNumber100ZH = ''number_1_100:zh''"
| "cell_text CellNumber10EN = ''number_1_10:en''"
| "cell_text CellNumber10ZH = ''number_1_10:zh''"
| "cell_text CellColorEN = ''color:en''"
| "cell_text CellColorZH = ''color:zh''"
| "cell_text CellCoinEN = ''coin:en''"
| "cell_text CellCoinZH = ''coin:zh''"
| "cell_text (CellOther s) = s"

fun fingerprint_prompts :: "cell_id \<Rightarrow> string list" where
  "fingerprint_prompts CellNumber100EN =
       [''Name a random whole number from 1 to 100. Reply only with the number.'',
        ''Choose one random integer between 1 and 100. Output only that integer.'']"
| "fingerprint_prompts CellNumber100ZH =
       [utf8 [0x4ECE, 0x0031, 0x5230, 0x0031, 0x0030, 0x0030, 0x968F, 0x673A, 0x9009, 0x4E00, 0x4E2A, 0x6574,
         0x6570, 0xFF0C, 0x53EA, 0x56DE, 0x7B54, 0x6570, 0x5B57, 0x3002],
        utf8 [0x8BF7, 0x968F, 0x673A, 0x7ED9, 0x51FA, 0x0031, 0x81F3, 0x0031, 0x0030, 0x0030, 0x4E4B, 0x95F4,
         0x7684, 0x4E00, 0x4E2A, 0x6574, 0x6570, 0xFF0C, 0x53EA, 0x8F93, 0x51FA, 0x8BE5, 0x6574, 0x6570, 0x3002]]"
| "fingerprint_prompts CellNumber10EN =
       [''Pick a random integer from 1 to 10. Reply only with the number.'',
        ''Choose one whole number between 1 and 10 at random. Output only it.'']"
| "fingerprint_prompts CellNumber10ZH =
       [utf8 [0x4ECE, 0x0031, 0x5230, 0x0031, 0x0030, 0x968F, 0x673A, 0x9009, 0x4E00, 0x4E2A, 0x6574, 0x6570,
         0xFF0C, 0x53EA, 0x56DE, 0x7B54, 0x6570, 0x5B57, 0x3002],
        utf8 [0x8BF7, 0x968F, 0x673A, 0x7ED9, 0x51FA, 0x0031, 0x81F3, 0x0031, 0x0030, 0x4E4B, 0x95F4, 0x7684,
         0x4E00, 0x4E2A, 0x6574, 0x6570, 0xFF0C, 0x53EA, 0x8F93, 0x51FA, 0x8BE5, 0x6574, 0x6570, 0x3002]]"
| "fingerprint_prompts CellColorEN =
       [''Name one random basic color. Reply with one color word only.'',
        ''Choose a random common color and output only its name.'']"
| "fingerprint_prompts CellColorZH =
       [utf8 [0x968F, 0x673A, 0x8BF4, 0x51FA, 0x4E00, 0x79CD, 0x5E38, 0x89C1, 0x989C, 0x8272, 0xFF0C, 0x53EA,
         0x56DE, 0x7B54, 0x989C, 0x8272, 0x540D, 0x79F0, 0x3002],
        utf8 [0x8BF7, 0x9009, 0x62E9, 0x4E00, 0x79CD, 0x968F, 0x673A, 0x7684, 0x57FA, 0x7840, 0x989C, 0x8272,
         0xFF0C, 0x53EA, 0x8F93, 0x51FA, 0x540D, 0x79F0, 0x3002]]"
| "fingerprint_prompts CellCoinEN =
       [''Flip an imaginary fair coin. Reply only heads or tails.'',
        ''Choose heads or tails at random. Output one word only.'']"
| "fingerprint_prompts CellCoinZH =
       [utf8 [0x6A21, 0x62DF, 0x629B, 0x4E00, 0x6B21, 0x516C, 0x5E73, 0x786C, 0x5E01, 0xFF0C, 0x53EA, 0x56DE,
         0x7B54, 0x6B63, 0x9762, 0x6216, 0x53CD, 0x9762, 0x3002],
        utf8 [0x968F, 0x673A, 0x9009, 0x62E9, 0x786C, 0x5E01, 0x7684, 0x6B63, 0x9762, 0x6216, 0x53CD, 0x9762,
         0xFF0C, 0x53EA, 0x8F93, 0x51FA, 0x7ED3, 0x679C, 0x3002]]"
| "fingerprint_prompts (CellOther s) = []"

definition fingerprint_probe :: "cell_id \<Rightarrow> string list \<Rightarrow> nat \<Rightarrow> nat \<Rightarrow> planned_probe" where
  "fingerprint_probe cell prompts variant index =
     \<lparr>pp_key = cell_text cell, pp_cell = Some cell, pp_index = int index, pp_variant = int variant,
      pp_prompt = prompts ! variant, pp_expected = [], pp_stream = False, pp_temperature = Fin 1, pp_top_p = Fin 1,
      pp_max_tokens = 16\<rparr>"

fun draw_fingerprint :: "'g random \<Rightarrow> cell_id \<Rightarrow> string list \<Rightarrow> nat list \<Rightarrow> 'g \<Rightarrow> planned_probe list \<times> 'g" where
  "draw_fingerprint R cell prompts [] g = ([], g)"
| "draw_fingerprint R cell prompts (index # indices) g =
     (let (variant, g') = rnd_intn R g (length prompts);
          (rest, g'') = draw_fingerprint R cell prompts indices g' in
      (fingerprint_probe cell prompts variant index # rest, g''))"

fun fingerprint_plan :: "'g random \<Rightarrow> cell_id list \<Rightarrow> 'g \<Rightarrow> string + planned_probe list" where
  "fingerprint_plan R [] g = Inr []"
| "fingerprint_plan R (cell # cells) g =
     (let prompts = fingerprint_prompts cell in
      if prompts = [] then Inl ''fingerprint cell has no prompts''
      else let (probes, g') = draw_fingerprint R cell prompts [0..<authenticity_samples_per_cell] g in
        bindE (fingerprint_plan R cells g') (\<lambda>rest. Inr (probes @ rest)))"

definition objective_capability_plan :: "planned_probe list" where
  "objective_capability_plan =
     (let probe = (\<lambda>key prompt expected tokens.
        \<lparr>pp_key = key, pp_cell = None, pp_index = 0, pp_variant = 0, pp_prompt = prompt, pp_expected = expected,
         pp_stream = False, pp_temperature = Fin 0, pp_top_p = Fin 1, pp_max_tokens = tokens\<rparr>) in
      [probe ''arithmetic'' ''Reply only with the integer result of 37 + 58.'' ''95'' 16,
       probe ''ordering'' ''Sort 9, 2, and 5 ascending. Reply only as comma-separated digits.'' ''2,5,9'' 16,
       probe ''unicode'' (''Reply with exactly the four characters: '' @ utf8 [0x8DEF, 0x7531, 0x6B63, 0x5E38])
         (utf8 [0x8DEF, 0x7531, 0x6B63, 0x5E38]) 16,
       probe ''json'' (''Reply only with this JSON object: {'' @ [CHR 0x22] @ ''ok'' @ [CHR 0x22] @ '':true,'' @ [CHR 0x22]
           @ ''count'' @ [CHR 0x22] @ '':3}'')
         (''{'' @ [CHR 0x22] @ ''ok'' @ [CHR 0x22] @ '':true,'' @ [CHR 0x22] @ ''count'' @ [CHR 0x22] @ '':3}'') 32])"

definition health_probe :: "nat \<Rightarrow> nat \<Rightarrow> nat \<Rightarrow> planned_probe" where
  "health_probe left right index =
     \<lparr>pp_key = ''stream_health'', pp_cell = None, pp_index = int index, pp_variant = 0,
      pp_prompt = ''Reply with only the integer result of '' @ format_nat left @ '' + '' @ format_nat right @ ''.'',
      pp_expected = format_nat (left + right), pp_stream = True, pp_temperature = Fin 0, pp_top_p = Fin 1,
      pp_max_tokens = 8\<rparr>"

fun health_plan :: "'g random \<Rightarrow> nat list \<Rightarrow> 'g \<Rightarrow> planned_probe list" where
  "health_plan R [] g = []"
| "health_plan R (index # indices) g =
     (let (left, g') = rnd_intn R g 40; (right, g'') = rnd_intn R g' 40 in
      health_probe (left + 10) (right + 10) index # health_plan R indices g'')"

fun planned_samples :: "eval_purpose \<Rightarrow> nat" where
  "planned_samples PurposeAuthenticity = length protocol_v1_cells * authenticity_samples_per_cell"
| "planned_samples PurposeQuality = 4"
| "planned_samples PurposeRecovery = 3"
| "planned_samples _ = 1"

definition evaluation_plan :: "'g random \<Rightarrow> eval_run \<Rightarrow> string + planned_probe list" where
  "evaluation_plan R run =
     (let g = rnd_new R (sint (er_seed run)) in
      case er_purpose run of
        PurposeAuthenticity \<Rightarrow> fingerprint_plan R protocol_v1_cells g
      | PurposeQuality \<Rightarrow> Inr objective_capability_plan
      | PurposeHealth \<Rightarrow> Inr (health_plan R [0..<planned_samples PurposeHealth] g)
      | PurposeRecovery \<Rightarrow> Inr (health_plan R [0..<planned_samples PurposeRecovery] g)
      | EvalPurposeOther s \<Rightarrow> Inl ''evaluation purpose is unsupported'')"

definition sample_identity :: "string \<Rightarrow> int \<Rightarrow> string" where
  "sample_identity key index = key @ '':'' @ format_int index"

section \<open>The record of a probe\<close>

definition probe_stream_completed :: "planned_probe \<Rightarrow> probe_result \<Rightarrow> bool option" where
  "probe_stream_completed p r = (if pp_stream p then Some (pr_stream_completed r) else None)"

definition stream_incomplete :: "planned_probe \<Rightarrow> probe_result \<Rightarrow> bool" where
  "stream_incomplete p r \<longleftrightarrow> pp_stream p \<and> \<not> pr_stream_completed r"

definition probe_succeeded :: "planned_probe \<Rightarrow> probe_result \<Rightarrow> bool \<Rightarrow> bool" where
  "probe_succeeded p r failed \<longleftrightarrow>
     \<not> failed \<and> 200 \<le> pr_http_status r \<and> pr_http_status r < 300 \<and> \<not> stream_incomplete p r"

definition probe_error_code :: "planned_probe \<Rightarrow> probe_result \<Rightarrow> bool \<Rightarrow> string" where
  "probe_error_code p r failed = (if failed then [] else if stream_incomplete p r then ''stream_incomplete'' else [])"

definition probe_error_text :: "planned_probe \<Rightarrow> probe_result \<Rightarrow> bool \<Rightarrow> string" where
  "probe_error_text p r failed =
     (if failed then ''supplier probe protocol failed''
      else if stream_incomplete p r then ''supplier probe stream incomplete'' else [])"

definition probe_answer :: "'d libs \<Rightarrow> planned_probe \<Rightarrow> probe_result \<Rightarrow> bool \<Rightarrow> string" where
  "probe_answer L p r failed =
     (case pp_cell p of
        Some cell \<Rightarrow> if probe_succeeded p r failed
          then (case normalize_answer L cell (pr_text r) of Inr a \<Rightarrow> a | Inl _ \<Rightarrow> []) else []
      | None \<Rightarrow> [])"

definition probe_sample :: "'d libs \<Rightarrow> eval_run \<Rightarrow> planned_probe \<Rightarrow> probe_result \<Rightarrow> bool \<Rightarrow> instant \<Rightarrow> sample" where
  "probe_sample L run p r failed collected =
     \<lparr>sm_run_id = er_id run, sm_probe_key = pp_key p, sm_sample_index = pp_index p, sm_prompt_variant = pp_variant p,
      sm_outcome = (if probe_succeeded p r failed then ''succeeded'' else ''failed''),
      sm_normalized_answer = probe_answer L p r failed,
      sm_answer_digest = (if pr_text r \<noteq> [] then sha256_hex L (pr_text r) else []),
      sm_response_model = pr_response_model r, sm_http_status = pr_http_status r, sm_finish_reason = pr_finish_reason r,
      sm_input_tokens = pr_input_tokens r, sm_output_tokens = pr_output_tokens r,
      sm_first_token_millis = pr_first_token_millis r, sm_total_millis = Some (pr_total_millis r),
      sm_stream = pp_stream p, sm_stream_completed = probe_stream_completed p r,
      sm_error = (if probe_succeeded p r failed then no_error
        else classify_error L (probe_error_code p r failed) (pr_http_status r) (probe_error_text p r failed)),
      sm_collected_at = collected\<rparr>"

definition probe_facts_input :: "eval_run \<Rightarrow> planned_probe \<Rightarrow> probe_result \<Rightarrow> bool \<Rightarrow> instant \<Rightarrow> probe_input" where
  "probe_facts_input run p r failed started =
     \<lparr>pi_run_id = er_id run, pi_sample_key = sample_identity (pp_key p) (pp_index p), pi_source = SourceDirectProbe,
      pi_site_id = uuid_nil, pi_relation_id = uuid_nil, pi_supplier_id = er_supplier_id run, pi_model = er_model run,
      pi_succeeded = probe_succeeded p r failed, pi_http_status = pr_http_status r,
      pi_stable_error_code = probe_error_code p r failed, pi_error_text = probe_error_text p r failed,
      pi_is_stream = pp_stream p, pi_stream_completed = probe_stream_completed p r,
      pi_first_token_millis = pr_first_token_millis r, pi_total_millis = Some (pr_total_millis r),
      pi_prompt_tokens = pr_input_tokens r, pi_completion_tokens = pr_output_tokens r, pi_occurred_at = started\<rparr>"

section \<open>The fingerprint of a run\<close>

record cell_tally =
  ct_all :: distribution
  ct_left :: distribution
  ct_right :: distribution

definition empty_distribution :: distribution where
  "empty_distribution = \<lparr>di_counts = [], di_invalid_samples = 0\<rparr>"

definition tally_step :: "cell_id \<Rightarrow> cell_tally \<Rightarrow> sample \<Rightarrow> cell_tally" where
  "tally_step cell t s =
     (if sm_probe_key s \<noteq> cell_text cell then t
      else if sm_normalized_answer s = []
      then t\<lparr>ct_all := (ct_all t)\<lparr>di_invalid_samples := di_invalid_samples (ct_all t) + 1\<rparr>\<rparr>
      else let u = t\<lparr>ct_all := count_answer (ct_all t) (sm_normalized_answer s)\<rparr> in
        if sm_sample_index s mod 2 = 0 then u\<lparr>ct_left := count_answer (ct_left u) (sm_normalized_answer s)\<rparr>
        else u\<lparr>ct_right := count_answer (ct_right u) (sm_normalized_answer s)\<rparr>)"

definition tally :: "sample list \<Rightarrow> cell_id \<Rightarrow> cell_tally" where
  "tally samples cell =
     foldl (tally_step cell) \<lparr>ct_all = empty_distribution, ct_left = empty_distribution, ct_right = empty_distribution\<rparr> samples"

text \<open>The cells counted so far, the sum of the distances of the two halves and the number of cells
  that have one.\<close>

definition cell_step ::
  "(f64 \<Rightarrow> f64) \<Rightarrow> visit \<Rightarrow> sample list \<Rightarrow> (cell_id \<rightharpoonup> distribution) \<times> f64 \<times> nat \<Rightarrow> cell_id
   \<Rightarrow> evaluation_error + (cell_id \<rightharpoonup> distribution) \<times> f64 \<times> nat" where
  "cell_step lg visit samples = (\<lambda>(cells, sum, stable) cell.
     let t = tally samples cell; cells' = cells(cell \<mapsto> ct_all t) in
     if 5 \<le> valid_samples (ct_left t) \<and> 5 \<le> valid_samples (ct_right t)
     then bindE (jensen_shannon lg visit (ct_left t) (ct_right t)) (\<lambda>d. Inr (cells', f_add sum d, Suc stable))
     else Inr (cells', sum, stable))"

definition build_fingerprint ::
  "'d libs \<Rightarrow> (f64 \<Rightarrow> f64) \<Rightarrow> visit \<Rightarrow> eval_run \<Rightarrow> sample list \<Rightarrow> instant \<Rightarrow> evaluation_error + fingerprint" where
  "build_fingerprint L lg visit run samples collected =
     bindE (foldE (cell_step lg visit samples) (Map.empty, Fin 0, 0) protocol_v1_cells) (\<lambda>(cells, sum, stable).
     Inr \<lparr>fp_run_id = uuid_string L (er_id run), fp_seed = er_seed run, fp_protocol_version = protocol_single_token,
          fp_collected_at = collected, fp_cells = cells,
          fp_stability =
            (if stable = length protocol_v1_cells
             then \<lparr>sb_measured = True, sb_distance = f_div sum (f_of_nat stable)\<rparr>
             else \<lparr>sb_measured = False, sb_distance = Fin 0\<rparr>)\<rparr>)"

definition response_model_conflict :: "(string \<Rightarrow> string \<Rightarrow> bool) \<Rightarrow> string \<Rightarrow> sample list \<Rightarrow> bool" where
  "response_model_conflict fold_eq expected samples \<longleftrightarrow>
     list_ex (\<lambda>s. sm_outcome s = ''succeeded'' \<and> trim_space (sm_response_model s) \<noteq> []
       \<and> \<not> fold_eq (trim_space expected) (trim_space (sm_response_model s))) samples"

text \<open>A response model that contradicts the upstream model lowers a consistent verdict.\<close>

definition lower_conflict :: "bool \<Rightarrow> authenticity_assessment \<Rightarrow> authenticity_assessment" where
  "lower_conflict conflict a =
     (if conflict \<and> as_verdict a = VerdictConsistent
      then a\<lparr>as_verdict := VerdictSuspicious, as_confidence := VConfLow, as_reason := ReasonDistanceUncertain\<rparr> else a)"

section \<open>The capability score\<close>

definition normalize_objective_answer :: "'d libs \<Rightarrow> sample \<Rightarrow> string \<Rightarrow> bool" where
  "normalize_objective_answer L s expected \<longleftrightarrow>
     expected \<noteq> [] \<and> sm_answer_digest s \<noteq> [] \<and> sm_answer_digest s = sha256_hex L expected"

definition expected_answers :: "planned_probe list \<Rightarrow> string \<Rightarrow> string" where
  "expected_answers plan =
     foldl (\<lambda>m p. m(sample_identity (pp_key p) (pp_index p) := pp_expected p)) (\<lambda>_. []) plan"

definition completed_samples :: "sample list \<Rightarrow> sample list" where
  "completed_samples = filter (\<lambda>s. sm_outcome s = ''succeeded'')"

definition correct_samples :: "'d libs \<Rightarrow> planned_probe list \<Rightarrow> sample list \<Rightarrow> sample list" where
  "correct_samples L plan samples =
     filter (\<lambda>s. normalize_objective_answer L s
       (expected_answers plan (sample_identity (sm_probe_key s) (sm_sample_index s)))) (completed_samples samples)"

definition capability_score :: "'d libs \<Rightarrow> planned_probe list \<Rightarrow> sample list \<Rightarrow> f64" where
  "capability_score L plan samples =
     (if 0 < length plan
      then f_div (f_mul (f_of_nat (length (correct_samples L plan samples))) (Fin 100)) (f_of_nat (length plan)) else Fin 0)"

definition capability_confidence :: "planned_probe list \<Rightarrow> sample list \<Rightarrow> f64" where
  "capability_confidence plan samples =
     f_div (f_of_nat (length (completed_samples samples))) (f_of_nat (length plan))"

section \<open>Every planned probe has an identity of its own\<close>

lemma identity_inject: "sample_identity k i = sample_identity l j \<longleftrightarrow> k = l \<and> i = j"
proof
  assume e: "sample_identity k i = sample_identity l j"
  have colon: "CHR '':'' \<notin> set (format_int n)" for n
  proof -
    have "c \<noteq> CHR '':''" if "c \<in> set (format_nat m)" for c m
      using format_nat_digits [OF that] by (auto simp: digit_char_def dest: arg_cong [of _ _ "of_char :: char \<Rightarrow> nat"])
    then show ?thesis by (auto simp: format_int_def)
  qed
  have split: "k = l \<and> s = t" if "k @ c # s = l @ c # t" "c \<notin> set s" "c \<notin> set t" for k l s t :: string and c
    using that
  proof (induction k arbitrary: l)
    case Nil
    then show ?case by (cases l) auto
  next
    case (Cons x k)
    then show ?case by (cases l) auto
  qed
  from e split [of k "CHR '':''" "format_int i" l "format_int j"] colon show "k = l \<and> i = j"
    by (simp add: sample_identity_def)
qed simp

definition plan_identities :: "planned_probe list \<Rightarrow> string list" where
  "plan_identities plan = map (\<lambda>p. sample_identity (pp_key p) (pp_index p)) plan"

abbreviation probe_place :: "planned_probe \<Rightarrow> string \<times> int" where
  "probe_place p \<equiv> (pp_key p, pp_index p)"

lemma distinct_identities: "distinct (plan_identities plan) \<longleftrightarrow> distinct (map probe_place plan)"
proof -
  have "plan_identities plan = map (\<lambda>(k, i). sample_identity k i) (map probe_place plan)" by (simp add: plan_identities_def)
  moreover have "inj_on (\<lambda>(k, i). sample_identity k i) A" for A by (auto simp: inj_on_def identity_inject)
  ultimately show ?thesis by (simp only: distinct_map) blast
qed

lemma draw_places:
  "map probe_place (fst (draw_fingerprint R cell prompts indices g)) = map (\<lambda>i. (cell_text cell, int i)) indices"
  by (induction indices arbitrary: g) (simp_all add: split_beta Let_def fingerprint_probe_def)

lemma fingerprint_places:
  "\<forall>c\<in>set cells. fingerprint_prompts c \<noteq> [] \<Longrightarrow> \<exists>plan. fingerprint_plan R cells g = Inr plan \<and>
     map probe_place plan = concat (map (\<lambda>c. map (\<lambda>i. (cell_text c, int i)) [0..<authenticity_samples_per_cell]) cells)"
proof (induction cells arbitrary: g)
  case (Cons c cells)
  let ?d = "draw_fingerprint R c (fingerprint_prompts c) [0..<authenticity_samples_per_cell] g"
  obtain plan where "fingerprint_plan R cells (snd ?d) = Inr plan"
    "map probe_place plan = concat (map (\<lambda>c. map (\<lambda>i. (cell_text c, int i)) [0..<authenticity_samples_per_cell]) cells)"
    using Cons.IH [of "snd ?d"] Cons.prems by auto
  then show ?case using Cons.prems draw_places [of R c "fingerprint_prompts c" "[0..<authenticity_samples_per_cell]" g]
    by (simp add: split_beta Let_def)
qed simp

lemma health_places: "map probe_place (health_plan R indices g) = map (\<lambda>i. (''stream_health'', int i)) indices"
  by (induction indices arbitrary: g) (simp_all add: split_beta Let_def health_probe_def)

lemma protocol_places:
  "distinct (concat (map (\<lambda>c. map (\<lambda>i. (cell_text c, int i)) [0..<authenticity_samples_per_cell]) protocol_v1_cells))"
proof (rule distinct_concat)
  let ?f = "\<lambda>c. map (\<lambda>i. (cell_text c, int i)) [0..<authenticity_samples_per_cell]"
  have hd: "fst (hd (?f c)) = cell_text c" for c by (simp add: authenticity_samples_per_cell_def hd_map)
  have "distinct (map cell_text protocol_v1_cells)" by (simp add: protocol_v1_cells_def)
  then have "distinct (map (\<lambda>xs. fst (hd xs)) (map ?f protocol_v1_cells))" by (simp only: map_map comp_def hd)
  then show "distinct (map ?f protocol_v1_cells)" by (simp only: distinct_map)
  show "distinct xs" if "xs \<in> set (map ?f protocol_v1_cells)" for xs
    using that by (auto simp: distinct_map inj_on_def)
  show "set xs \<inter> set ys = {}" if sets: "xs \<in> set (map ?f protocol_v1_cells)" "ys \<in> set (map ?f protocol_v1_cells)" "xs \<noteq> ys" for xs ys
  proof -
    obtain c d where "xs = ?f c" "ys = ?f d" "c \<in> set protocol_v1_cells" "d \<in> set protocol_v1_cells" using sets(1,2) by auto
    moreover then have "cell_text c \<noteq> cell_text d" using sets(3) by auto
    ultimately show ?thesis by auto
  qed
qed

lemma plan_shape:
  "case evaluation_plan R run of
     Inl e \<Rightarrow> (\<exists>s. er_purpose run = EvalPurposeOther s)
   | Inr plan \<Rightarrow> length plan = planned_samples (er_purpose run) \<and> distinct (plan_identities plan)"
proof (cases "er_purpose run")
  case PurposeAuthenticity
  have "\<forall>c\<in>set protocol_v1_cells. fingerprint_prompts c \<noteq> []" by (simp add: protocol_v1_cells_def)
  from fingerprint_places [OF this, of R "rnd_new R (sint (er_seed run))"]
  obtain plan where plan: "fingerprint_plan R protocol_v1_cells (rnd_new R (sint (er_seed run))) = Inr plan"
    "map probe_place plan = concat (map (\<lambda>c. map (\<lambda>i. (cell_text c, int i)) [0..<authenticity_samples_per_cell]) protocol_v1_cells)"
    by blast
  have "length plan = planned_samples PurposeAuthenticity"
    using arg_cong [OF plan(2), of length] by (simp add: protocol_v1_cells_def authenticity_samples_per_cell_def)
  then show ?thesis using PurposeAuthenticity plan protocol_places by (simp add: evaluation_plan_def distinct_identities)
next
  case PurposeQuality
  then show ?thesis
    by (simp add: evaluation_plan_def objective_capability_plan_def Let_def distinct_identities)
qed (simp_all add: evaluation_plan_def distinct_identities health_places, simp_all add: health_probe_def split_beta Let_def upt_rec)

text \<open>C10: Every supported purpose has a plan, with exactly the announced number of probes and no two
  probes of the same identity, whatever the generator draws; only an unknown purpose has none.\<close>

theorem plans_are_complete:
  "case evaluation_plan R run of
     Inl e \<Rightarrow> (\<exists>s. er_purpose run = EvalPurposeOther s)
   | Inr plan \<Rightarrow> length plan = planned_samples (er_purpose run) \<and> distinct (plan_identities plan)"
  by (rule plan_shape)

end
