(* ===== verification/EvaluationRuns.thy ===== *)
theory EvaluationRuns imports Probes Gateway Programs begin

text \<open>
  \<open>internal/application/evaluation\<close>: \<open>ExecuteRun\<close> of \<open>execute.go\<close>, and the
  store, vault, prober and dispatcher of \<open>types.go\<close>.

  Every call is a function of the environment and leaves an event with its arguments and reply.
  Messages for people are not modelled, nor the clearing of the decrypted key.  The lemmas show that
  every probe is sent directly after its sample was reserved, once per run; that a run is only
  completed when every planned sample has an outcome and its assessment was saved; and that a
  supplier that answers in the name of another model is never stored as consistent.
\<close>

section \<open>The environment\<close>

datatype evaluation_event =
    VGetRun uuid "go_error + eval_run"
  | VStart uuid "go_error + bool"
  | VTarget uuid string "go_error + target_access"
  | VDecrypt credential_record
  | VListSamples uuid "go_error + sample list"
  | VReserve sample "go_error + bool"
  | VProbe string probe_call "probe_result \<times> go_error option"
  | VCompleteSample sample request_fact attempt_fact "go_error option"
  | VFail uuid run_status string "instant option" "go_error option"
  | VSaveFingerprint fingerprint "go_error option"
  | VReference uuid "go_error + model_reference"
  | VMismatch model_subject model_reference f64 instant "go_error + mismatch_evidence option"
  | VSaveAuthenticity uuid model_subject "uuid option" authenticity_assessment bool instant "go_error option"
  | VSaveCapability uuid model_subject f64 f64 int int string instant "go_error option"
  | VCompleteRun uuid instant "go_error option"
  | VFindByKey string "go_error + eval_run option"
  | VRecent uuid string target_kind eval_purpose instant "go_error + eval_run option"
  | VCreate eval_run "go_error + eval_run"
  | VTargets "go_error + target_access list"
  | VFindReference string instant "go_error + model_reference option"
  | VGetFingerprint uuid "go_error + fingerprint"
  | VCreateReference uuid eval_run reference_trust string string instant instant string string "go_error + model_reference"
  | VDispatch uuid "go_error option"
  | VNow instant

type_synonym ('w, 'r, 'a) evaluating = "(evaluation_event, 'w, 'r, 'a) action"

record ('g, 'w) eval_env =
  vn_get_run :: "uuid \<Rightarrow> 'w \<Rightarrow> (go_error + eval_run) \<times> 'w"
  vn_start :: "uuid \<Rightarrow> instant \<Rightarrow> 'w \<Rightarrow> (go_error + bool) \<times> 'w"
  vn_target :: "uuid \<Rightarrow> string \<Rightarrow> 'w \<Rightarrow> (go_error + target_access) \<times> 'w"
  vn_decrypt :: "credential_record \<Rightarrow> 'w \<Rightarrow> (go_error + 8 word list) \<times> 'w"
  vn_list_samples :: "uuid \<Rightarrow> 'w \<Rightarrow> (go_error + sample list) \<times> 'w"
  vn_reserve :: "sample \<Rightarrow> 'w \<Rightarrow> (go_error + bool) \<times> 'w"
  vn_probe :: "string \<Rightarrow> 8 word list \<Rightarrow> probe_call \<Rightarrow> 'w \<Rightarrow> (probe_result \<times> go_error option) \<times> 'w"
  vn_complete_sample :: "sample \<Rightarrow> request_fact \<Rightarrow> attempt_fact \<Rightarrow> 'w \<Rightarrow> go_error option \<times> 'w"
  vn_fail :: "uuid \<Rightarrow> run_status \<Rightarrow> string \<Rightarrow> instant option \<Rightarrow> instant \<Rightarrow> 'w \<Rightarrow> go_error option \<times> 'w"
  vn_save_fingerprint :: "fingerprint \<Rightarrow> 'w \<Rightarrow> go_error option \<times> 'w"
  vn_reference :: "uuid \<Rightarrow> 'w \<Rightarrow> (go_error + model_reference) \<times> 'w"
  vn_mismatch :: "model_subject \<Rightarrow> model_reference \<Rightarrow> f64 \<Rightarrow> instant \<Rightarrow> 'w \<Rightarrow> (go_error + mismatch_evidence option) \<times> 'w"
  vn_save_authenticity :: "uuid \<Rightarrow> model_subject \<Rightarrow> uuid option \<Rightarrow> authenticity_assessment \<Rightarrow> bool \<Rightarrow> instant
    \<Rightarrow> 'w \<Rightarrow> go_error option \<times> 'w"
  vn_save_capability :: "uuid \<Rightarrow> model_subject \<Rightarrow> f64 \<Rightarrow> f64 \<Rightarrow> int \<Rightarrow> int \<Rightarrow> string \<Rightarrow> instant \<Rightarrow> 'w \<Rightarrow> go_error option \<times> 'w"
  vn_complete_run :: "uuid \<Rightarrow> instant \<Rightarrow> 'w \<Rightarrow> go_error option \<times> 'w"
  vn_find_by_key :: "string \<Rightarrow> 'w \<Rightarrow> (go_error + eval_run option) \<times> 'w"
  vn_recent :: "uuid \<Rightarrow> string \<Rightarrow> target_kind \<Rightarrow> eval_purpose \<Rightarrow> instant \<Rightarrow> 'w \<Rightarrow> (go_error + eval_run option) \<times> 'w"
  vn_create :: "eval_run \<Rightarrow> int \<Rightarrow> 'w \<Rightarrow> (go_error + eval_run) \<times> 'w"
  vn_targets :: "'w \<Rightarrow> (go_error + target_access list) \<times> 'w"
  vn_find_reference :: "string \<Rightarrow> instant \<Rightarrow> 'w \<Rightarrow> (go_error + model_reference option) \<times> 'w"
  vn_get_fingerprint :: "uuid \<Rightarrow> 'w \<Rightarrow> (go_error + fingerprint) \<times> 'w"
  vn_create_reference :: "uuid \<Rightarrow> eval_run \<Rightarrow> reference_trust \<Rightarrow> string \<Rightarrow> string \<Rightarrow> instant \<Rightarrow> instant \<Rightarrow> string \<Rightarrow> string
    \<Rightarrow> 'w \<Rightarrow> (go_error + model_reference) \<times> 'w"
  vn_dispatch :: "uuid \<Rightarrow> 'w \<Rightarrow> go_error option \<times> 'w"
  vn_now :: "'w \<Rightarrow> instant \<times> 'w"
  vn_new_id :: "'w \<Rightarrow> uuid \<times> 'w"
  vn_new_seed :: "'w \<Rightarrow> (go_error + 64 word) \<times> 'w"
  vn_random :: "'g random"
  vn_lg :: "f64 \<Rightarrow> f64"
  vn_visit :: visit
  vn_fold_eq :: "string \<Rightarrow> string \<Rightarrow> bool"

definition stop_with :: "go_error \<Rightarrow> ('w, 'r, go_error option) evaluating" where
  "stop_with e = ret (Some e)"

definition evaluation_failure :: "evaluation_error \<Rightarrow> go_error" where
  "evaluation_failure e = ErrPlain (case e of
       ErrInvalidDistribution \<Rightarrow> ''evaluation distribution is invalid'' | ErrInvalidFingerprint \<Rightarrow> ''evaluation fingerprint is invalid''
     | ErrInvalidPolicy \<Rightarrow> ''evaluation policy is invalid''
     | ErrInvalidAssessmentInput \<Rightarrow> ''authenticity assessment input is invalid'')"

definition assessed :: "evaluation_error + 'a \<Rightarrow> ('w, go_error option, 'a) evaluating" where
  "assessed r = (case r of Inr x \<Rightarrow> ret x | Inl e \<Rightarrow> exit (Some (evaluation_failure e)))"

section \<open>Failing a run\<close>

definition fail_run :: "('g, 'w) eval_env \<Rightarrow> eval_run \<Rightarrow> string \<Rightarrow> go_error \<Rightarrow> ('w, 'r, go_error option) evaluating" where
  "fail_run E run code cause =
     bindP (now_utc (vn_now E)) (\<lambda>now.
     let retry = Some (time_add now nanos_per_minute) in
     bindP (observed (VFail (er_id run) RunUncertain code retry) (vn_fail E (er_id run) RunUncertain code retry now)) (\<lambda>r.
     ret (Some (case r of None \<Rightarrow> cause | Some e \<Rightarrow> ErrJoin [cause, e]))))"

section \<open>One probe\<close>

definition request_of_probe :: "target_access \<Rightarrow> planned_probe \<Rightarrow> probe_call" where
  "request_of_probe target p =
     \<lparr>pq_model = ta_upstream_model target, pq_prompt = pp_prompt p, pq_temperature = pp_temperature p,
      pq_top_p = pp_top_p p, pq_max_tokens = pp_max_tokens p, pq_stream = pp_stream p\<rparr>"

definition execute_probe ::
  "'d libs \<Rightarrow> ('g, 'w) eval_env \<Rightarrow> eval_run \<Rightarrow> target_access \<Rightarrow> 8 word list \<Rightarrow> planned_probe
   \<Rightarrow> ('w, 'r, go_error + sample \<times> request_fact \<times> attempt_fact) evaluating" where
  "execute_probe L E run target secret p =
     bindP (now_utc (vn_now E)) (\<lambda>started.
     bindP (observed (VProbe (ta_base_url target) (request_of_probe target p))
         (vn_probe E (ta_base_url target) secret (request_of_probe target p))) (\<lambda>(result, err).
     bindP (now_utc (vn_now E)) (\<lambda>collected.
     let failed = (err \<noteq> None) in
     ret (case new_probe_facts L (probe_facts_input run p result failed started) of
         Inl e \<Rightarrow> Inl (ErrPlain ''measurement fact is invalid'')
       | Inr (request, attempt) \<Rightarrow> Inr (probe_sample L run p result failed collected, request, attempt)))))"

text \<open>The sample as it is reserved: its outcome is uncertain.\<close>

definition reserved_sample :: "eval_run \<Rightarrow> planned_probe \<Rightarrow> instant \<Rightarrow> sample" where
  "reserved_sample run p collected =
     \<lparr>sm_run_id = er_id run, sm_probe_key = pp_key p, sm_sample_index = pp_index p, sm_prompt_variant = pp_variant p,
      sm_outcome = ''uncertain'', sm_normalized_answer = [], sm_answer_digest = [], sm_response_model = [],
      sm_http_status = 0, sm_finish_reason = [], sm_input_tokens = 0, sm_output_tokens = 0,
      sm_first_token_millis = None, sm_total_millis = None, sm_stream = False, sm_stream_completed = None,
      sm_error = no_error, sm_collected_at = collected\<rparr>"

fun run_probes ::
  "'d libs \<Rightarrow> ('g, 'w) eval_env \<Rightarrow> eval_run \<Rightarrow> target_access \<Rightarrow> 8 word list \<Rightarrow> string set \<Rightarrow> planned_probe list
   \<Rightarrow> ('w, go_error option, unit) evaluating" where
  "run_probes L E run target secret existing [] = ret ()"
| "run_probes L E run target secret existing (p # ps) =
     (if sample_identity (pp_key p) (pp_index p) \<in> existing then run_probes L E run target secret existing ps
      else bindP (now_utc (vn_now E)) (\<lambda>now.
        bindP (try_value (observed (VReserve (reserved_sample run p now)) (vn_reserve E (reserved_sample run p now)))
            (fail_run E run ''sample_reservation_failed'')) (\<lambda>reserved.
        if \<not> reserved then run_probes L E run target secret existing ps
        else bindP (try_value (execute_probe L E run target secret p) (fail_run E run ''sample_invalid'')) (\<lambda>(sample, request, attempt).
          bindP (try_call (observed (VCompleteSample sample request attempt) (vn_complete_sample E sample request attempt))
              (fail_run E run ''sample_commit_failed'')) (\<lambda>_.
          run_probes L E run target secret existing ps)))))"

section \<open>The assessment of a run\<close>

definition subject_of :: "eval_run \<Rightarrow> model_subject" where
  "subject_of run = \<lparr>sj_supplier_id = er_supplier_id run, sj_model = er_model run\<rparr>"

definition finish_capability :: "'d libs \<Rightarrow> ('g, 'w) eval_env \<Rightarrow> eval_run \<Rightarrow> sample list \<Rightarrow> ('w, 'r, go_error option) evaluating" where
  "finish_capability L E run samples =
     (case evaluation_plan (vn_random E) run of
        Inl e \<Rightarrow> ret (Some (ErrPlain e))
      | Inr plan \<Rightarrow>
          bindP (now_utc (vn_now E)) (\<lambda>now.
          let score = capability_score L plan samples; confidence = capability_confidence plan samples;
              completed = int (length (completed_samples samples)); planned = int (length plan) in
          observed (VSaveCapability (er_id run) (subject_of run) score confidence completed planned (er_suite_version run) now)
            (vn_save_capability E (er_id run) (subject_of run) score confidence completed planned (er_suite_version run) now)))"

definition finish_authenticity :: "'d libs \<Rightarrow> ('g, 'w) eval_env \<Rightarrow> eval_run \<Rightarrow> sample list \<Rightarrow> ('w, 'r, go_error option) evaluating" where
  "finish_authenticity L E run samples =
     invoke
      (bindP (now_utc (vn_now E)) (\<lambda>now.
       bindP (assessed (build_fingerprint L (vn_lg E) (vn_visit E) run samples now)) (\<lambda>fingerprint.
       bindP (try_call (observed (VSaveFingerprint fingerprint) (vn_save_fingerprint E fingerprint)) stop_with) (\<lambda>_.
       bindP (case er_reference_id run of
           None \<Rightarrow> ret None
         | Some r \<Rightarrow> bindP (try_value (observed (VReference r) (vn_reference E r)) stop_with) (\<lambda>loaded. ret (Some loaded))) (\<lambda>reference.
       let policy = default_authenticity_policy; collected = fp_collected_at fingerprint in
       bindP (case reference of
           None \<Rightarrow> ret None
         | Some r \<Rightarrow>
             let since = time_add collected (- ap_mismatch_confirmation_delay policy) in
             try_value (observed (VMismatch (subject_of run) r (ap_uncertain_maximum policy) since)
               (vn_mismatch E (subject_of run) r (ap_uncertain_maximum policy) since)) stop_with) (\<lambda>prior.
       bindP (assessed (assess_authenticity (vn_lg E) (vn_visit E)
           \<lparr>ai_subject = subject_of run, ai_target = fingerprint, ai_reference = reference, ai_prior_mismatch = prior,
            ai_assessed_at = collected\<rparr> policy)) (\<lambda>assessment.
       let conflict = response_model_conflict (vn_fold_eq E) (er_upstream_model run) samples;
           stored = lower_conflict conflict assessment in
       observed (VSaveAuthenticity (er_id run) (subject_of run) (er_reference_id run) stored conflict collected)
         (vn_save_authenticity E (er_id run) (subject_of run) (er_reference_id run) stored conflict collected))))))))"

section \<open>Executing a run\<close>

definition run_over :: "run_status \<Rightarrow> bool" where
  "run_over s \<longleftrightarrow> s = RunSucceeded \<or> s = RunFailed \<or> s = RunCancelled"

definition conclude_run :: "'d libs \<Rightarrow> ('g, 'w) eval_env \<Rightarrow> eval_run \<Rightarrow> ('w, go_error option, go_error option) evaluating" where
  "conclude_run L E run =
     bindP (try_value (observed (VListSamples (er_id run)) (vn_list_samples E (er_id run)))
         (fail_run E run ''sample_reload_failed'')) (\<lambda>samples.
     if int (length samples) \<noteq> er_planned_samples run
     then fail_run E run ''sample_count_incomplete'' (ErrPlain ''evaluation sample count is incomplete'')
     else if list_ex (\<lambda>s. sm_outcome s = ''uncertain'') samples
     then bindP (now_utc (vn_now E)) (\<lambda>now.
       observed (VFail (er_id run) RunFailed ''sample_outcome_uncertain'' None)
         (vn_fail E (er_id run) RunFailed ''sample_outcome_uncertain'' None now))
     else bindP (if er_purpose run = PurposeAuthenticity
         then try_call (finish_authenticity L E run samples) (fail_run E run ''authenticity_assessment_failed'')
         else try_call (finish_capability L E run samples) (fail_run E run ''capability_assessment_failed'')) (\<lambda>_.
       bindP (now_utc (vn_now E)) (\<lambda>now.
       observed (VCompleteRun (er_id run) now) (vn_complete_run E (er_id run) now))))"

definition start_run :: "('g, 'w) eval_env \<Rightarrow> eval_run \<Rightarrow> ('w, go_error option, unit) evaluating" where
  "start_run E run =
     bindP (now_utc (vn_now E)) (\<lambda>now.
     if er_status run \<noteq> RunRunning
     then bindP (try_value (observed (VStart (er_id run)) (vn_start E (er_id run) now)) stop_with) (\<lambda>started.
       if started then ret () else exit None)
     else ret ())"

definition execute_run_body :: "'d libs \<Rightarrow> ('g, 'w) eval_env \<Rightarrow> uuid \<Rightarrow> ('w, go_error option, go_error option) evaluating" where
  "execute_run_body L E run_id =
     bindP (try_value (observed (VGetRun run_id) (vn_get_run E run_id)) stop_with) (\<lambda>run.
     if er_id run = uuid_nil then ret (Some (ErrPlain ''evaluation run is invalid''))
     else if run_over (er_status run) then ret None
     else bindP (start_run E run) (\<lambda>_.
       bindP (try_value (observed (VTarget (er_supplier_id run) (er_model run)) (vn_target E (er_supplier_id run) (er_model run)))
           (fail_run E run ''target_unavailable'')) (\<lambda>target.
       bindP (try_value (observed (\<lambda>_. VDecrypt (ta_credential target)) (vn_decrypt E (ta_credential target)))
           (fail_run E run ''credential_unavailable'')) (\<lambda>secret.
       bindP (try_value (observed (VListSamples (er_id run)) (vn_list_samples E (er_id run)))
           (fail_run E run ''sample_state_unavailable'')) (\<lambda>existing.
       bindP (case evaluation_plan (vn_random E) run of
           Inl e \<Rightarrow> bindP (fail_run E run ''invalid_evaluation_plan'' (ErrPlain e)) exit
         | Inr plan \<Rightarrow> ret plan) (\<lambda>plan.
       bindP (run_probes L E run target secret
           (set (map (\<lambda>s. sample_identity (sm_probe_key s) (sm_sample_index s)) existing)) plan) (\<lambda>_.
       conclude_run L E run)))))))"

definition execute_run :: "'d libs \<Rightarrow> ('g, 'w) eval_env \<Rightarrow> uuid \<Rightarrow> ('w, 'r, go_error option) evaluating" where
  "execute_run L E run_id = invoke (execute_run_body L E run_id)"

section \<open>Which calls a phase makes\<close>

fun is_probe :: "evaluation_event \<Rightarrow> bool" where
  "is_probe (VProbe u q r) = True"
| "is_probe e = False"

fun is_reserve :: "evaluation_event \<Rightarrow> bool" where
  "is_reserve (VReserve s r) = True"
| "is_reserve e = False"

fun is_list :: "evaluation_event \<Rightarrow> bool" where
  "is_list (VListSamples i r) = True"
| "is_list e = False"

fun is_verdict :: "evaluation_event \<Rightarrow> bool" where
  "is_verdict (VSaveAuthenticity i s f a c n r) = True"
| "is_verdict e = False"

fun is_complete :: "evaluation_event \<Rightarrow> bool" where
  "is_complete (VCompleteRun i n r) = True"
| "is_complete e = False"

lemma only_stop_with [only_rules]: "only p (stop_with e)"
  unfolding stop_with_def by (rule only_rules)

lemma only_assessed [only_rules]: "only p (assessed r)"
  unfolding assessed_def by (intro only_rules)

lemma only_fail_run: "(\<And>i s c n r. p (VFail i s c n r)) \<Longrightarrow> only p (fail_run E run code cause)"
  unfolding fail_run_def Let_def by (intro only_rules)

text \<open>Events of the steps around the probes.\<close>

abbreviation plain_event :: "evaluation_event \<Rightarrow> bool" where
  "plain_event e \<equiv> \<not> is_probe e \<and> \<not> is_reserve e \<and> \<not> is_list e"

lemma only_finish_authenticity:
  "(\<And>e. \<not> is_complete e \<and> plain_event e \<Longrightarrow> p e) \<Longrightarrow> only p (finish_authenticity L E run samples)"
  unfolding finish_authenticity_def Let_def by (intro only_rules) simp_all

lemma only_finish_capability:
  "(\<And>e. \<not> is_complete e \<and> plain_event e \<and> \<not> is_verdict e \<Longrightarrow> p e) \<Longrightarrow> only p (finish_capability L E run samples)"
  unfolding finish_capability_def Let_def by (intro only_rules) simp_all

lemma only_conclude: "only (\<lambda>e. \<not> is_probe e \<and> \<not> is_reserve e) (conclude_run L E run)"
  unfolding conclude_run_def
  by (intro only_rules only_fail_run only_finish_authenticity only_finish_capability) simp_all

lemma only_run_probes: "only (\<lambda>e. \<not> is_complete e \<and> \<not> is_verdict e \<and> \<not> is_list e) (run_probes L E run target secret existing plan)"
proof (induction plan)
  case (Cons p ps)
  show ?case
    unfolding run_probes.simps execute_probe_def Let_def by (intro only_rules only_fail_run Cons.IH) simp_all
qed (simp add: only_ret)

section \<open>Every probe is reserved, once\<close>

abbreviation place :: "sample \<Rightarrow> string" where
  "place s \<equiv> sample_identity (sm_probe_key s) (sm_sample_index s)"

text \<open>No earlier reservation of the place and no stored sample at it.\<close>

definition free_place :: "string \<Rightarrow> evaluation_event list \<Rightarrow> bool" where
  "free_place i t \<longleftrightarrow> list_all (\<lambda>e. case e of
       VReserve s r \<Rightarrow> place s \<noteq> i
     | VListSamples run (Inr samples) \<Rightarrow> i \<notin> place ` set samples
     | _ \<Rightarrow> True) t"

lemma free_plain: "plain_event e \<Longrightarrow> free_place i (e # t) \<longleftrightarrow> free_place i t"
  by (cases e) (auto simp: free_place_def)

text \<open>The sample, the address and the request of a probe of the plan: of the run that was read, for
  the target that was read, on one probe of the run's plan.\<close>

definition planned_call :: "'g random \<Rightarrow> uuid \<Rightarrow> sample \<Rightarrow> string \<Rightarrow> probe_call \<Rightarrow> evaluation_event list \<Rightarrow> bool" where
  "planned_call R run_id s url q t \<longleftrightarrow>
     (\<exists>run target plan p. VGetRun run_id (Inr run) \<in> set t
        \<and> VTarget (er_supplier_id run) (er_model run) (Inr target) \<in> set t
        \<and> evaluation_plan R run = Inr plan \<and> p \<in> set plan
        \<and> s = reserved_sample run p (sm_collected_at s) \<and> url = ta_base_url target \<and> q = request_of_probe target p)"

text \<open>A probe follows directly on the reservation of its sample: the sample and the request are those
  of the same probe of the plan.  A reservation is of a place that is still free.\<close>

definition reserved_first :: "'g random \<Rightarrow> uuid \<Rightarrow> evaluation_event \<Rightarrow> evaluation_event list \<Rightarrow> bool" where
  "reserved_first R run_id e t \<longleftrightarrow>
     (case e of
        VProbe url q r \<Rightarrow> (case t of VReserve s (Inr granted) # _ \<Rightarrow> granted \<and> planned_call R run_id s url q t | _ \<Rightarrow> False)
      | VReserve s r \<Rightarrow> free_place (place s) t
      | _ \<Rightarrow> True)"

lemma not_probe_reserved: "\<not> is_probe e \<Longrightarrow> \<not> is_reserve e \<Longrightarrow> reserved_first R run_id e t"
  by (cases e) (auto simp: reserved_first_def)

lemma reserved_first_simps:
  "reserved_first R i (VProbe u q p) (VReserve s (Inr True) # t) \<longleftrightarrow> planned_call R i s u q (VReserve s (Inr True) # t)"
  "reserved_first R i (VReserve s r) t \<longleftrightarrow> free_place (place s) t"
  "reserved_first R i (VCompleteSample s a b c) t"
  by (simp_all add: reserved_first_def)

text \<open>What was read of a run and its target before its probes.\<close>

definition probing :: "'g random \<Rightarrow> uuid \<Rightarrow> eval_run \<Rightarrow> target_access \<Rightarrow> planned_probe list \<Rightarrow> evaluation_event list \<Rightarrow> bool" where
  "probing R run_id run target plan t \<longleftrightarrow>
     VGetRun run_id (Inr run) \<in> set t \<and> VTarget (er_supplier_id run) (er_model run) (Inr target) \<in> set t
     \<and> (\<exists>whole. evaluation_plan R run = Inr whole \<and> set plan \<subseteq> set whole)"

lemma probing_mono: "probing R i run target plan t \<Longrightarrow> set t \<subseteq> set t' \<Longrightarrow> probing R i run target plan t'"
  unfolding probing_def by blast

lemma probing_call:
  assumes "probing R i run target (p # ps) t"
  shows "planned_call R i (reserved_sample run p now) (ta_base_url target) (request_of_probe target p)
    (VReserve (reserved_sample run p now) r # t)" "probing R i run target ps t"
proof -
  obtain whole where w: "evaluation_plan R run = Inr whole" "p \<in> set whole"
    using assms by (auto simp: probing_def)
  have "reserved_sample run p now = reserved_sample run p (sm_collected_at (reserved_sample run p now))"
    by (simp add: reserved_sample_def)
  then show "planned_call R i (reserved_sample run p now) (ta_base_url target) (request_of_probe target p)
    (VReserve (reserved_sample run p now) r # t)"
    unfolding planned_call_def using assms w by (auto simp: probing_def)
  show "probing R i run target ps t" using assms by (auto simp: probing_def)
qed

lemma free_reserve: "free_place i (VReserve s r # t) \<longleftrightarrow> place s \<noteq> i \<and> free_place i t"
  by (simp add: free_place_def)

lemma free_probe: "free_place i (VProbe u q r # t) \<longleftrightarrow> free_place i t" "free_place i (VCompleteSample s a b c # t) \<longleftrightarrow> free_place i t"
  by (simp_all add: free_place_def)

abbreviation guarded_places :: "'g random \<Rightarrow> uuid \<Rightarrow> evaluation_event list \<Rightarrow> bool" where
  "guarded_places R i \<equiv> guarded (reserved_first R i)"

lemma fail_run_safe: "guarded_places R i t \<Longrightarrow> safe (bindP (fail_run E run code cause) exit) t (\<lambda>_. guarded_places R i)"
  by (rule kept_only [where p = plain_event], intro only_rules only_fail_run) (auto intro: not_probe_reserved)

lemma execute_probe_trace:
  "safe (execute_probe L E run target secret p) t (\<lambda>out t'.
     (\<exists>r. t' = VProbe (ta_base_url target) (request_of_probe target p) r # t) \<and> (\<exists>x. out = Value x))"
  unfolding execute_probe_def
  by (rule safe_bind, rule safe_now_utc, simp only: continue_with.simps, rule safe_bind, rule safe_observed,
      simp only: continue_with.simps split: prod.split, intro allI impI, rule safe_bind, rule safe_now_utc)
    (simp add: Let_def)

lemma run_probes_reserved:
  assumes "guarded_places R i t" "distinct (plan_identities plan)" "probing R i run target plan t"
    and "\<forall>j\<in>set (plan_identities plan) - existing. free_place j t"
  shows "safe (run_probes L E run target secret existing plan) t (\<lambda>_. guarded_places R i)"
  using assms
proof (induction plan arbitrary: t)
  case (Cons p ps)
  let ?i = "sample_identity (pp_key p) (pp_index p)"
  have ids: "plan_identities (p # ps) = ?i # plan_identities ps" by (simp add: plan_identities_def)
  have ih: "safe (run_probes L E run target secret existing ps) t' (\<lambda>_. guarded_places R i)"
    if "guarded_places R i t'" "set t \<subseteq> set t'" "\<forall>j. j \<noteq> ?i \<longrightarrow> free_place j t \<longrightarrow> free_place j t'" for t'
  proof (rule Cons.IH [OF that(1)])
    show "distinct (plan_identities ps)" using Cons.prems(2) by (simp add: ids)
    show "probing R i run target ps t'" by (rule probing_mono [OF probing_call(2) [OF Cons.prems(3)] that(2)])
    have "?i \<notin> set (plan_identities ps)" using Cons.prems(2) by (simp add: ids)
    then show "\<forall>j\<in>set (plan_identities ps) - existing. free_place j t'"
      using Cons.prems(4) that(3) unfolding ids by (metis Diff_iff list.set_intros(2))
  qed
  show ?case
  proof (cases "?i \<in> existing")
    case True
    then show ?thesis using ih [OF Cons.prems(1)] by simp
  next
    case False
    then have free: "free_place ?i t" using Cons.prems(4) by (simp add: ids)
    show ?thesis
      unfolding run_probes.simps if_not_P [OF False]
    proof (rule safe_bind, rule safe_now_utc, simp only: continue_with.simps)
      fix now
      let ?s = "reserved_sample run p now"
      let ?u = "ta_base_url target" and ?q = "request_of_probe target p"
      have call: "planned_call R i ?s ?u ?q (VReserve ?s (Inr True) # t)" by (rule probing_call(1) [OF Cons.prems(3)])
      have s: "place ?s = ?i" by (simp add: reserved_sample_def)
      have g: "guarded_places R i (VReserve ?s r # t)" for r
        using Cons.prems(1) free by (simp add: reserved_first_simps s)
      have later: "safe (run_probes L E run target secret existing ps) (VCompleteSample a b c d # VProbe ?u ?q r # VReserve ?s (Inr True) # t)
          (\<lambda>_. guarded_places R i)" for a b c d r
        by (rule ih) (use g in \<open>auto simp: free_probe free_reserve s reserved_first_simps call\<close>)
      have after: "safe (bindP (try_call (observed (VCompleteSample sample request attempt) (vn_complete_sample E sample request attempt))
              (fail_run E run ''sample_commit_failed'')) (\<lambda>_. run_probes L E run target secret existing ps))
          (VProbe ?u ?q r # VReserve ?s (Inr True) # t) (\<lambda>_. guarded_places R i)" for sample request attempt r
        unfolding bindP_try_call
        by (rule safe_bind, rule safe_observed, simp only: continue_with.simps)
          (use g in \<open>auto intro!: later fail_run_safe simp: reserved_first_simps call split: option.split\<close>)
      have probed: "safe (bindP (execute_probe L E run target secret p) (\<lambda>r. case r of
            Inr (sample, request, attempt) \<Rightarrow>
              bindP (try_call (observed (VCompleteSample sample request attempt) (vn_complete_sample E sample request attempt))
                (fail_run E run ''sample_commit_failed'')) (\<lambda>_. run_probes L E run target secret existing ps)
          | Inl e \<Rightarrow> bindP (fail_run E run ''sample_invalid'' e) exit)) (VReserve ?s (Inr True) # t) (\<lambda>_. guarded_places R i)"
        by (rule safe_seq [OF execute_probe_trace])
          (use g in \<open>auto intro!: after fail_run_safe simp: reserved_first_simps call split: sum.split prod.split\<close>)
      show "safe (bindP (try_value (observed (VReserve ?s) (vn_reserve E ?s)) (fail_run E run ''sample_reservation_failed'')) (\<lambda>reserved.
        if \<not> reserved then run_probes L E run target secret existing ps
        else bindP (try_value (execute_probe L E run target secret p) (fail_run E run ''sample_invalid'')) (\<lambda>(sample, request, attempt).
          bindP (try_call (observed (VCompleteSample sample request attempt) (vn_complete_sample E sample request attempt))
              (fail_run E run ''sample_commit_failed'')) (\<lambda>_.
          run_probes L E run target secret existing ps)))) t (\<lambda>_. guarded_places R i)"
        unfolding bindP_try_value
        by (rule safe_bind, rule safe_observed, simp only: continue_with.simps)
          (use probed g in \<open>auto intro!: ih fail_run_safe simp: free_reserve s split: sum.split\<close>)
    qed
  qed
qed simp

lemma plain_places: "list_all plain_event t \<Longrightarrow> guarded_places R i t \<and> free_place j t"
proof (induction t)
  case (Cons e t)
  then show ?case by (simp add: free_plain not_probe_reserved)
qed (simp add: free_place_def)

lemma plain_first:
  assumes "only plain_event m" "gives m t P" "list_all plain_event t"
    and "\<And>a t'. list_all plain_event t' \<Longrightarrow> set t \<subseteq> set t' \<Longrightarrow> P a t' \<Longrightarrow> safe (f a) t' (\<lambda>_. guarded_places R i)"
  shows "safe (bindP m f) t (\<lambda>_. guarded_places R i)"
  by (rule safe_phase [OF assms(1,2)]) (use assms(3) in \<open>auto intro!: assms(4) plain_places [THEN conjunct1]\<close>)

lemma plain_probe_before:
  assumes "only plain_event m" "list_all plain_event t"
    and "\<And>a t'. list_all plain_event t' \<Longrightarrow> set t \<subseteq> set t' \<Longrightarrow> safe (f a) t' (\<lambda>_. guarded_places R i)"
  shows "safe (bindP m f) t (\<lambda>_. guarded_places R i)"
  by (rule plain_first [where P = "\<lambda>_ _. True", OF assms(1) gives_only [OF assms(1)] assms(2)]) (auto intro: assms(3))

lemma only_start_run: "only (\<lambda>e. plain_event e \<and> \<not> is_complete e \<and> \<not> is_verdict e) (start_run E run)"
  unfolding start_run_def by (intro only_rules) simp_all

lemma probes_and_conclusion:
  assumes "guarded_places R i t" "distinct (plan_identities plan)" "probing R i run target plan t"
    and "\<forall>j\<in>set (plan_identities plan) - existing. free_place j t"
  shows "safe (bindP (run_probes L E run target secret existing plan) (\<lambda>_. conclude_run L E run)) t (\<lambda>_. guarded_places R i)"
  by (rule safe_seq [OF run_probes_reserved [OF assms]])
    (auto intro: kept_only [OF only_conclude] not_probe_reserved)

lemma plan_distinct: "evaluation_plan R run = Inr plan \<Longrightarrow> distinct (plan_identities plan)"
  using plan_shape [where R = R and run = run] by simp

lemma planned_probes_reserved:
  fixes E :: "('g, 'w) eval_env"
  assumes t: "list_all plain_event t" and read: "VGetRun i (Inr run) \<in> set t" "VTarget (er_supplier_id run) (er_model run) (Inr target) \<in> set t"
  shows "safe (bindP (try_value (observed (VListSamples (er_id run)) (vn_list_samples E (er_id run)))
           (fail_run E run ''sample_state_unavailable'')) (\<lambda>existing.
       bindP (case evaluation_plan (vn_random E) run of
           Inl e \<Rightarrow> bindP (fail_run E run ''invalid_evaluation_plan'' (ErrPlain e)) exit
         | Inr plan \<Rightarrow> ret plan) (\<lambda>plan.
       bindP (run_probes L E run target secret
           (set (map (\<lambda>s. sample_identity (sm_probe_key s) (sm_sample_index s)) existing)) plan) (\<lambda>_.
       conclude_run L E run)))) t (\<lambda>_. guarded_places (vn_random E) i)"
proof -
  have g: "guarded_places (vn_random E) i (VListSamples (er_id run) r # t)" for r
    using plain_places [OF t, of "vn_random E" i] by (simp add: reserved_first_def)
  have free: "free_place j (VListSamples (er_id run) (Inr existing) # t) \<longleftrightarrow> j \<notin> place ` set existing" for j existing
    using plain_places [OF t, of "vn_random E" i j] by (simp add: free_place_def)
  have p: "probing (vn_random E) i run target plan (VListSamples (er_id run) r # t)" if "evaluation_plan (vn_random E) run = Inr plan" for plan r
    using read that by (simp add: probing_def)
  show ?thesis
    unfolding bindP_try_value
    by (rule safe_bind, rule safe_observed, simp only: continue_with.simps)
      (use g in \<open>auto simp: bindP_assoc bindP_exit bindP_ret free
          intro!: fail_run_safe probes_and_conclusion plan_distinct p split: sum.split\<close>)
qed

lemma execute_run_places: "safe (execute_run L E run_id) [] (\<lambda>_. guarded_places (vn_random E) run_id)"
proof -
  have read: "gives (try_value (observed (VGetRun i) f) stop_with) t (\<lambda>run t'. VGetRun i (Inr run) \<in> set t')" for i f t
    by (intro gives_rules) (simp split: sum.split)
  have target: "gives (try_value (observed (VTarget s m) f) (fail_run E run code)) t (\<lambda>target t'. VTarget s m (Inr target) \<in> set t')"
    for s m f t run code
    by (intro gives_rules) (simp split: sum.split)
  show ?thesis
    unfolding execute_run_def execute_run_body_def
  proof (rule kept_invoke, rule plain_first [OF _ read], (intro only_rules; simp), simp, goal_cases)
    case (1 run t)
    show ?case
    proof (cases "er_id run = uuid_nil \<or> run_over (er_status run)")
      case True
      then show ?thesis using plain_places [OF 1(1)] by auto
    next
      case False
      then have n: "er_id run \<noteq> uuid_nil" "\<not> run_over (er_status run)" by blast+
      show ?thesis
        unfolding if_not_P [OF n(1)] if_not_P [OF n(2)]
      proof (rule plain_probe_before, rule only_mono [OF only_start_run], simp, rule 1(1),
          rule plain_first [OF _ target], (intro only_rules only_fail_run; simp), assumption,
          rule plain_probe_before, (intro only_rules only_fail_run; simp), assumption, rule planned_probes_reserved, assumption)
      qed (use 1 in blast)+
    qed
  qed
qed

text \<open>C3: In every environment, every probe of a run is sent directly after the reservation of a sample
  was granted, and the sample, the address and the request are those of one and the same probe of the
  run's plan; no sample is reserved twice, nor one that the store already listed.  So no prompt of the
  plan is paid for twice, not even when the run is executed again.\<close>

theorem probes_are_reserved_once:
  "case execute_run L E run_id w [] of (out, w', t) \<Rightarrow> guarded (reserved_first (vn_random E) run_id) t"
  using execute_run_places [of L E run_id]
  by (cases "execute_run L E run_id w []") (auto dest: safeD)

section \<open>A completed run is whole, a stored verdict is earned\<close>

lemma gives_assessed_value: "gives (assessed r) t (\<lambda>x _. r = Inr x)"
  by (cases r) (simp_all add: assessed_def gives_exit)

definition read_run :: "eval_run \<Rightarrow> evaluation_event list \<Rightarrow> bool" where
  "read_run run t \<longleftrightarrow> list_ex (\<lambda>e. case e of VGetRun i (Inr r) \<Rightarrow> r = run | _ \<Rightarrow> False) t"

definition listed :: "eval_run \<Rightarrow> sample list \<Rightarrow> evaluation_event list \<Rightarrow> bool" where
  "listed run samples t \<longleftrightarrow> VListSamples (er_id run) (Inr samples) \<in> set t"

fun assessment_saved :: "uuid \<Rightarrow> evaluation_event \<Rightarrow> bool" where
  "assessment_saved i (VSaveAuthenticity j s f a c n None) \<longleftrightarrow> i = j"
| "assessment_saved i (VSaveCapability j s q c k p v n None) \<longleftrightarrow> i = j"
| "assessment_saved i e \<longleftrightarrow> False"

text \<open>A run is completed when the listed samples are as many as planned, each with an outcome, and
  its assessment was saved.  A stored verdict reports the conflict of the listed samples, and is only
  consistent without one and with a reference.\<close>

definition whole_run :: "(string \<Rightarrow> string \<Rightarrow> bool) \<Rightarrow> evaluation_event \<Rightarrow> evaluation_event list \<Rightarrow> bool" where
  "whole_run fold_eq e t \<longleftrightarrow>
     (case e of
        VCompleteRun i n r \<Rightarrow>
          (\<exists>run samples. read_run run t \<and> er_id run = i \<and> listed run samples t
             \<and> int (length samples) = er_planned_samples run
             \<and> list_all (\<lambda>s. sm_outcome s \<noteq> ''uncertain'') samples \<and> list_ex (assessment_saved i) t)
      | VSaveAuthenticity i s ref a conflict n r \<Rightarrow>
          (\<exists>run samples. read_run run t \<and> er_id run = i \<and> listed run samples t \<and> ref = er_reference_id run
             \<and> conflict = response_model_conflict fold_eq (er_upstream_model run) samples
             \<and> (as_verdict a = VerdictConsistent \<longrightarrow> \<not> conflict \<and> ref \<noteq> None))
      | _ \<Rightarrow> True)"

lemma not_complete_whole: "\<not> is_complete e \<and> \<not> is_verdict e \<Longrightarrow> whole_run f e t"
  by (cases e) (auto simp: whole_run_def)

lemma read_mono: "read_run run t \<Longrightarrow> set t \<subseteq> set t' \<Longrightarrow> read_run run t'"
  by (auto simp: read_run_def list_ex_iff)

lemma listed_mono: "listed run samples t \<Longrightarrow> set t \<subseteq> set t' \<Longrightarrow> listed run samples t'"
  by (auto simp: listed_def)

abbreviation quiet :: "evaluation_event \<Rightarrow> bool" where
  "quiet e \<equiv> \<not> is_complete e \<and> \<not> is_verdict e"

lemma consistent_needs_reference:
  "assess_authenticity lg visit i p = Inr a \<Longrightarrow> as_verdict a = VerdictConsistent \<Longrightarrow> ai_reference i \<noteq> None"
  by (erule assessed_by_comparison) auto

lemma lowered: "as_verdict (lower_conflict c a) = VerdictConsistent \<Longrightarrow> \<not> c \<and> as_verdict a = VerdictConsistent"
  by (auto simp: lower_conflict_def split: if_splits)

lemma finish_authenticity_whole:
  assumes "guarded (whole_run (vn_fold_eq E)) t" "read_run run t" "listed run samples t"
  shows "safe (finish_authenticity L E run samples) t (\<lambda>_. guarded (whole_run (vn_fold_eq E)))"
proof -
  let ?C = "whole_run (vn_fold_eq E)"
  have save: "safe (observed (VSaveAuthenticity (er_id run) s (er_reference_id run) (lower_conflict c a) c n) f) t' (\<lambda>_. guarded ?C)"
    if "guarded ?C t'" "set t \<subseteq> set t'" "c = response_model_conflict (vn_fold_eq E) (er_upstream_model run) samples"
      "as_verdict a = VerdictConsistent \<Longrightarrow> er_reference_id run \<noteq> None" for s c a n f t'
  proof (rule safe_observed)
    fix r
    have "?C (VSaveAuthenticity (er_id run) s (er_reference_id run) (lower_conflict c a) c n r) t'"
      unfolding whole_run_def evaluation_event.case
      by (rule exI [of _ run], rule exI [of _ samples])
        (use assms(2,3) that in \<open>auto dest: lowered intro: read_mono listed_mono\<close>)
    then show "guarded ?C (VSaveAuthenticity (er_id run) s (er_reference_id run) (lower_conflict c a) c n r # t')"
      using that(1) by simp
  qed
  show ?thesis
    unfolding finish_authenticity_def Let_def
  proof (rule kept_invoke, rule kept_before, rule only_now_utc, erule not_complete_whole, rule assms(1),
      rule kept_before [where p = quiet], rule only_assessed, erule not_complete_whole, assumption,
      rule kept_before [where p = quiet], (intro only_rules; simp), erule not_complete_whole, assumption, goal_cases)
    case (1 now t1 fingerprint t2 u t3)
    have t3: "set t \<subseteq> set t3" using 1 by blast
    have reference: "gives (case er_reference_id run of None \<Rightarrow> ret None
        | Some r \<Rightarrow> bindP (try_value (observed (VReference r) (vn_reference E r)) stop_with) (\<lambda>loaded. ret (Some loaded))) t3
        (\<lambda>reference _. er_reference_id run = None \<longrightarrow> reference = None)"
      by (cases "er_reference_id run") (auto intro!: gives_rules split: sum.split)
    show ?case
    proof (rule kept_phase [where p = quiet, OF _ reference], (intro only_rules; simp), erule not_complete_whole, rule 1(5),
        rule kept_before [where p = quiet], (intro only_rules; simp), erule not_complete_whole, assumption,
        rule kept_phase [where p = quiet, OF only_assessed gives_assessed_value], erule not_complete_whole, assumption, goal_cases)
      case (1 reference t4 prior t5 assessment t6)
      show ?case
      proof (rule save [OF 1(6) _ refl])
        show "set t \<subseteq> set t6" using t3 1 by blast
        show "er_reference_id run \<noteq> None" if v: "as_verdict assessment = VerdictConsistent"
          using 1 by (auto dest!: consistent_needs_reference [OF _ v])
      qed
    qed
  qed
qed

lemma ends_stop: "(\<And>x. P x (ev (Inr x) # t)) \<Longrightarrow> (\<And>e. C (Some e) (ev (Inl e) # t)) \<Longrightarrow> ends (try_value (observed ev f) stop_with) t C P"
  unfolding try_value_def stop_with_def bindP_ret by (intro ends_rules) auto

lemma ends_stop_call: "(P () (ev None # t)) \<Longrightarrow> (\<And>e. C (Some e) (ev (Some e) # t)) \<Longrightarrow> ends (try_call (observed ev f) stop_with) t C P"
  unfolding try_call_def stop_with_def bindP_ret by (intro ends_rules) auto

lemma ends_assessed: "(\<And>e. C (Some e) t) \<Longrightarrow> (\<And>x. P x t) \<Longrightarrow> ends (assessed r) t C P"
  by (cases r) (simp_all add: assessed_def)

text \<open>A finished assessment is saved.\<close>

definition saved_unless_error :: "uuid \<Rightarrow> go_error option \<Rightarrow> evaluation_event list \<Rightarrow> bool" where
  "saved_unless_error i r t \<longleftrightarrow> (case r of None \<Rightarrow> list_ex (assessment_saved i) t | Some e \<Rightarrow> True)"

lemma finish_authenticity_saves: "ends (finish_authenticity L E run samples) t C (saved_unless_error (er_id run))"
  unfolding finish_authenticity_def Let_def
  by (intro ends_rules ends_stop ends_stop_call ends_assessed ends_ret_iff [THEN iffD2]) (simp_all add: saved_unless_error_def split: option.split)

lemma finish_capability_saves: "ends (finish_capability L E run samples) t C (saved_unless_error (er_id run))"
  unfolding finish_capability_def Let_def
  by (intro ends_rules) (simp_all add: saved_unless_error_def split: option.split)

lemma gives_ends: "ends m t (\<lambda>_ _. True) P \<Longrightarrow> gives m t P"
  unfolding ends_def gives_def by (erule safe_mono) (auto split: outcome.splits)

lemma conclude_run_whole:
  fixes E :: "('g, 'w) eval_env"
  assumes "guarded (whole_run (vn_fold_eq E)) t" "read_run run t"
  shows "safe (conclude_run L E run) t (\<lambda>_. guarded (whole_run (vn_fold_eq E)))"
proof -
  let ?C = "whole_run (vn_fold_eq E)"
  have listing: "gives (try_value (observed (VListSamples (er_id run)) (vn_list_samples E (er_id run)))
      (fail_run E run ''sample_reload_failed'')) t (\<lambda>samples t'. listed run samples t')"
    by (intro gives_rules) (simp add: listed_def split: sum.split)
  show ?thesis
    unfolding conclude_run_def
  proof (rule kept_phase [where p = quiet, OF _ listing], (intro only_rules only_fail_run; simp), erule not_complete_whole,
      rule assms(1), goal_cases)
    case (1 samples t1)
    have read: "read_run run t1" by (rule read_mono [OF assms(2) 1(2)])
    note listing = 1(3)
    have fails: "safe (fail_run E run code cause :: ('w, go_error option, go_error option) evaluating) t' (\<lambda>_. guarded ?C)" if "guarded ?C t'" for code cause t'
      by (rule kept_only [where p = quiet, OF only_fail_run _ that]) (auto intro: not_complete_whole)
    have stop: "safe (bindP (fail_run E run code cause) exit :: ('w, go_error option, go_error option) evaluating) t' (\<lambda>_. guarded ?C)" if "guarded ?C t'" for code cause t'
      by (rule kept_only [where p = quiet, OF _ _ that], intro only_rules only_fail_run) (auto intro: not_complete_whole)
    have assessment: "safe (bindP (try_call m (fail_run E run code)) (\<lambda>_.
         bindP (now_utc (vn_now E)) (\<lambda>now. observed (VCompleteRun (er_id run) now) (vn_complete_run E (er_id run) now))) :: ('w, go_error option, go_error option) evaluating) t1
         (\<lambda>_. guarded ?C)"
      if m: "safe m t1 (\<lambda>_. guarded ?C)" "gives m t1 (saved_unless_error (er_id run))" "only (\<lambda>_. True) m"
        and whole: "int (length samples) = er_planned_samples run" "list_all (\<lambda>s. sm_outcome s \<noteq> ''uncertain'') samples"
      for m code
      unfolding bindP_try_call
    proof (rule safe_seq [OF safe_conj [OF m(1) safe_conj [OF m(2) [unfolded gives_def] only_safe [OF m(3)]]]], goal_cases)
      case (1 r t2)
      then have g: "guarded ?C t2" and sub: "set t1 \<subseteq> set t2" and s: "saved_unless_error (er_id run) r t2" by auto
      show ?case
      proof (cases r)
        case None
        have "?C (VCompleteRun (er_id run) now reply) t2" for now reply
          unfolding whole_run_def evaluation_event.case
          by (rule exI [of _ run], rule exI [of _ samples])
            (use whole s None read_mono [OF read sub] listed_mono [OF listing sub] in \<open>simp add: saved_unless_error_def\<close>)
        then show ?thesis using g None by (auto intro!: safe_bind safe_now_utc safe_observed)
      qed (use stop g in simp)
    qed simp_all
    have uncertain: "safe (bindP (now_utc (vn_now E)) (\<lambda>now.
         observed (VFail (er_id run) RunFailed ''sample_outcome_uncertain'' None)
           (vn_fail E (er_id run) RunFailed ''sample_outcome_uncertain'' None now)) :: ('w, go_error option, go_error option) evaluating) t1 (\<lambda>_. guarded ?C)"
      by (rule kept_only [where p = quiet, OF _ _ 1(1)], intro only_rules, simp) (erule not_complete_whole)
    have certain: "list_all (\<lambda>s. sm_outcome s \<noteq> ''uncertain'') samples" if "\<not> list_ex (\<lambda>s. sm_outcome s = ''uncertain'') samples"
      using that by (simp add: list_all_iff list_ex_iff)
    show ?case
    proof (cases "int (length samples) \<noteq> er_planned_samples run \<or> list_ex (\<lambda>s. sm_outcome s = ''uncertain'') samples")
      case True
      then show ?thesis using fails [OF 1(1)] uncertain by simp
    next
      case False
      then have n: "\<not> int (length samples) \<noteq> er_planned_samples run" "\<not> list_ex (\<lambda>s. sm_outcome s = ''uncertain'') samples" by blast+
      have capability: "safe (finish_capability L E run samples :: ('w, go_error option, go_error option) evaluating) t1 (\<lambda>_. guarded ?C)"
        by (rule kept_only [where p = quiet, OF only_finish_capability _ 1(1)]) (simp, erule not_complete_whole)
      show ?thesis
        unfolding if_not_P [OF n(1)] if_not_P [OF n(2)]
        using n certain [OF n(2)]
        by (cases "er_purpose run = PurposeAuthenticity")
          (simp_all add: assessment finish_authenticity_whole [OF 1(1) read listing] capability gives_ends
            finish_authenticity_saves finish_capability_saves only_finish_authenticity only_finish_capability)
    qed
  qed
qed

lemma execute_run_whole: "safe (execute_run L E run_id) [] (\<lambda>_. guarded (whole_run (vn_fold_eq E)))"
proof -
  let ?C = "whole_run (vn_fold_eq E)"
  have read: "gives (try_value (observed (VGetRun run_id) (vn_get_run E run_id)) stop_with) [] (\<lambda>run t. read_run run t)"
    by (intro gives_rules) (simp add: read_run_def split: sum.split)
  show ?thesis
    unfolding execute_run_def execute_run_body_def
  proof (rule kept_invoke, rule kept_phase [where p = quiet, OF _ read], (intro only_rules; simp), erule not_complete_whole,
      simp, goal_cases)
    case (1 run t)
    show ?case
    proof (cases "er_id run = uuid_nil \<or> run_over (er_status run)")
      case True
      then show ?thesis using 1 by auto
    next
      case False
      then have n: "er_id run \<noteq> uuid_nil" "\<not> run_over (er_status run)" by blast+
      have c: "safe (conclude_run L E run) t' (\<lambda>_. guarded ?C)" if "guarded ?C t'" "set t \<subseteq> set t'" for t'
        by (rule conclude_run_whole [OF that(1) read_mono [OF 1(3) that(2)]])
      show ?thesis
        unfolding if_not_P [OF n(1)] if_not_P [OF n(2)]
      proof (rule kept_before [where p = quiet], rule only_mono [OF only_start_run], simp, erule not_complete_whole, rule 1(1),
          (rule kept_before [where p = quiet], (intro only_rules only_fail_run; simp), erule not_complete_whole, assumption)+,
          rule kept_before [where p = quiet], rule only_mono [OF only_run_probes], simp, erule not_complete_whole, assumption, goal_cases)
        case (1 u1 t1 target t2 secret t3 existing t4 plan t5 u6 t6)
        show ?case by (rule c) (use 1 in blast)+
      qed
    qed
  qed
qed

text \<open>C4: In every environment, a run is only completed when the samples the store listed are as
  many as were planned, none of them without a known outcome, and the assessment of the run was saved;
  a stored verdict is one of the run that was read and reports truthfully whether a listed sample was
  answered in the name of another model, and with such an answer, or without a reference, it is never
  consistent.\<close>

theorem completed_runs_are_whole:
  "case execute_run L E run_id w [] of (out, w', t) \<Rightarrow> guarded (whole_run (vn_fold_eq E)) t"
  using execute_run_whole [of L E run_id]
  by (cases "execute_run L E run_id w []") (auto dest: safeD)

section \<open>How many probes a run can send\<close>

lemma execute_probe_bounded: "adds_at_most is_probe 1 (execute_probe L E run target secret p)"
  unfolding adds_at_most_def
proof
  fix t
  show "safe (execute_probe L E run target secret p) t (\<lambda>_ t'. \<exists>d. t' = d @ t \<and> length (filter is_probe d) \<le> 1)"
    by (rule safe_mono [OF execute_probe_trace], elim conjE exE)
      (rule_tac x = "[VProbe (ta_base_url target) (request_of_probe target p) r]" in exI, simp)
qed

lemma adds_before: "only (\<lambda>e. \<not> p e) m \<Longrightarrow> (\<And>a. adds_at_most p n (f a)) \<Longrightarrow> adds_at_most p n (bindP m f)"
  by (rule adds_bind [where k = 0 and n = n and j = n, OF adds_other]) (assumption, assumption, simp)

lemma adds_if: "(b \<Longrightarrow> adds_at_most p n x) \<Longrightarrow> (\<not> b \<Longrightarrow> adds_at_most p n y) \<Longrightarrow> adds_at_most p n (if b then x else y)"
  by simp

lemma run_probes_bounded: "adds_at_most is_probe (length plan) (run_probes L E run target secret existing plan)"
proof (induction plan)
  case (Cons p ps)
  have sent: "adds_at_most is_probe (length (p # ps)) (bindP (try_value (execute_probe L E run target secret p) (fail_run E run ''sample_invalid'')) (\<lambda>(sample, request, attempt).
          bindP (try_call (observed (VCompleteSample sample request attempt) (vn_complete_sample E sample request attempt))
              (fail_run E run ''sample_commit_failed'')) (\<lambda>_. run_probes L E run target secret existing ps)))"
    unfolding bindP_try_value
  proof (rule adds_bind [where k = 1 and n = "length ps", OF execute_probe_bounded])
    show "adds_at_most is_probe (length ps) (case r of
        Inr (sample, request, attempt) \<Rightarrow>
          bindP (try_call (observed (VCompleteSample sample request attempt) (vn_complete_sample E sample request attempt))
            (fail_run E run ''sample_commit_failed'')) (\<lambda>_. run_probes L E run target secret existing ps)
      | Inl e \<Rightarrow> bindP (fail_run E run ''sample_invalid'' e) exit)" for r
    proof (cases r)
      case (Inl e)
      then show ?thesis by (auto intro!: adds_other only_rules only_fail_run)
    next
      case (Inr x)
      then show ?thesis
        by (cases x) (auto intro!: adds_before Cons.IH only_rules only_fail_run)
    qed
  qed simp
  show ?case
    unfolding run_probes.simps
    by (intro adds_if adds_mono [OF Cons.IH] adds_before sent) (auto intro!: only_rules only_fail_run)
qed (simp add: adds_ret)

definition probe_limit :: nat where "probe_limit = 96"

lemma plan_bounded: "evaluation_plan R run = Inr plan \<Longrightarrow> length plan \<le> probe_limit"
  using plan_shape [where R = R and run = run]
  by (cases "er_purpose run") (auto simp: probe_limit_def protocol_v1_cells_def authenticity_samples_per_cell_def)

lemma conclude_bounded: "adds_at_most is_probe n (conclude_run L E run)"
  by (rule adds_other, rule only_mono [OF only_conclude]) simp

lemma execute_run_bounded: "adds_at_most is_probe probe_limit (execute_run L E run_id)"
  unfolding execute_run_def execute_run_body_def
proof (rule adds_invoke, rule adds_before, (intro only_rules; simp), goal_cases)
  case (1 run)
  have probes: "adds_at_most is_probe probe_limit (bindP (case evaluation_plan (vn_random E) run of
           Inl e \<Rightarrow> bindP (fail_run E run ''invalid_evaluation_plan'' (ErrPlain e)) exit
         | Inr plan \<Rightarrow> ret plan) (\<lambda>plan.
       bindP (run_probes L E run target secret existing plan) (\<lambda>_. conclude_run L E run)))" for target secret existing
  proof (cases "evaluation_plan (vn_random E) run")
    case (Inl e)
    then show ?thesis by (auto simp: bindP_assoc bindP_exit intro!: adds_other only_rules only_fail_run)
  next
    case (Inr plan)
    then show ?thesis
      by (simp add: bindP_ret)
        (rule adds_bind [OF run_probes_bounded conclude_bounded [where n = 0]], simp add: plan_bounded)
  qed
  show ?case
    by (intro adds_if adds_ret adds_before probes)
      (auto intro!: only_rules only_fail_run only_mono [OF only_start_run])
qed

text \<open>C9: Executing a run sends at most 96 prompts to a supplier, whatever the run, the store and
  the supplier say.\<close>

theorem probes_are_bounded:
  "case execute_run L E run_id w [] of (out, w', t) \<Rightarrow> length (filter is_probe t) \<le> probe_limit"
  using spec [OF execute_run_bounded [of L E run_id, unfolded adds_at_most_def], of "[]"]
  by (cases "execute_run L E run_id w []") (auto dest: safeD)

end
