(* ===== verification/EvaluationService.thy ===== *)
theory EvaluationService imports EvaluationRuns LogParser begin

text \<open>
  \<open>internal/application/evaluation/service.go\<close>: requesting evaluation runs, scheduling the
  periodic ones, and promoting the fingerprint of a run to a trusted reference.

  The answer to a request is a run and an error; the zero \<open>Run\<close> is \<open>None\<close>.
  \<open>GetRun\<close> and \<open>ListRuns\<close> only pass a query on and are not modelled.  Here every reading
  of the clock leaves an event, so that the properties can say at which reading a run was due.
\<close>

section \<open>Commands\<close>


record reference_command =
  rk_run_id :: uuid
  rk_trust :: reference_trust
  rk_reason :: string
  rk_actor :: string
  rk_valid_days :: int
  rk_request_key :: string
  rk_request_hash :: string



text \<open>The patterns of the request key and of its hash.\<close>

definition key_char :: "char \<Rightarrow> bool" where
  "key_char c \<longleftrightarrow> code_alnum c \<or> CHR ''A'' \<le> c \<and> c \<le> CHR ''Z'' \<or> c \<in> set ''._:-''"

definition request_key_pattern :: "string \<Rightarrow> bool" where
  "request_key_pattern s \<longleftrightarrow>
     8 \<le> length s \<and> length s \<le> 128 \<and> key_char (hd s) \<and> hd s \<notin> set ''._:-'' \<and> list_all key_char (tl s)"

definition valid_request_identity :: "string \<Rightarrow> string \<Rightarrow> bool" where
  "valid_request_identity key hash \<longleftrightarrow> key = [] \<and> hash = [] \<or> request_key_pattern key \<and> hash_pattern hash"



type_synonym run_reply = "eval_run option \<times> go_error option"

text \<open>\<open>s.now().UTC()\<close>.\<close>

definition read_clock :: "('g, 'w) eval_env \<Rightarrow> ('w, 'r, instant) evaluating" where
  "read_clock E = bindP (observed VNow (vn_now E)) (\<lambda>x. ret (to_utc x))"

definition refuse :: "go_error \<Rightarrow> ('w, 'r, run_reply) evaluating" where
  "refuse e = ret (None, Some e)"

definition invalid_evaluation :: "string \<Rightarrow> go_error" where
  "invalid_evaluation m = ErrWrap m (ErrPlain ''invalid evaluation request'')"

section \<open>Dispatching\<close>



section \<open>Requesting a run\<close>








section \<open>Periodic runs\<close>







section \<open>Promoting a reference\<close>

definition stable_fingerprint :: "fingerprint \<Rightarrow> bool" where
  "stable_fingerprint f \<longleftrightarrow>
     \<not> (\<not> sb_measured (fp_stability f) \<or> sb_distance (fp_stability f) = NaN \<or> sb_distance (fp_stability f) = PInf
       \<or> sb_distance (fp_stability f) = NInf \<or> f_lt (sb_distance (fp_stability f)) (Fin 0)
       \<or> f_lt (ap_maximum_self_distance default_authenticity_policy) (sb_distance (fp_stability f)))"

definition promotion_error :: "reference_command \<Rightarrow> go_error option" where
  "promotion_error c =
     (if rk_run_id c = uuid_nil \<or> rk_trust c \<noteq> ReferenceOfficial \<and> rk_trust c \<noteq> ReferenceOperatorTrusted
        \<and> rk_trust c \<noteq> ReferenceCommunity then Some (invalid_evaluation ''reference'')
      else if trim_space (rk_reason c) = [] \<or> trim_space (rk_actor c) = [] \<or> 500 < length (trim_space (rk_reason c))
      then Some (invalid_evaluation ''reason'')
      else if rk_valid_days c < 1 \<or> 90 < rk_valid_days c then Some (invalid_evaluation ''valid days'')
      else if \<not> valid_request_identity (rk_request_key c) (rk_request_hash c) then Some (invalid_evaluation ''request key'')
      else None)"

definition one_day_ns :: int where "one_day_ns = 24 * 60 * nanos_per_minute"

definition promote_reference ::
  "('g, 'w) eval_env \<Rightarrow> reference_command \<Rightarrow> ('w, 'r, go_error + model_reference) evaluating" where
  "promote_reference E c =
     (case promotion_error c of
        Some e \<Rightarrow> ret (Inl e)
      | None \<Rightarrow>
          invoke
           (bindP (try_value (observed (VGetRun (rk_run_id c)) (vn_get_run E (rk_run_id c))) (\<lambda>e. ret (Inl e))) (\<lambda>run.
            if er_status run \<noteq> RunSucceeded \<or> er_purpose run \<noteq> PurposeAuthenticity \<or> er_target_kind run \<noteq> TargetSupplierDirect
            then ret (Inl (invalid_evaluation ''run''))
            else bindP (try_value (observed (VGetFingerprint (er_id run)) (vn_get_fingerprint E (er_id run))) (\<lambda>e. ret (Inl e))) (\<lambda>fingerprint.
              if \<not> stable_fingerprint fingerprint then ret (Inl (invalid_evaluation ''unstable''))
              else bindP (read_clock E) (\<lambda>now.
                bindP (silent (vn_new_id E)) (\<lambda>new_id.
                let expires = time_add now (rk_valid_days c * one_day_ns); reason = trim_space (rk_reason c); actor = trim_space (rk_actor c) in
                observed (VCreateReference new_id run (rk_trust c) reason actor now expires (rk_request_key c) (rk_request_hash c))
                  (vn_create_reference E new_id run (rk_trust c) reason actor now expires (rk_request_key c) (rk_request_hash c))))))))"

section \<open>Runs are created and dispatched with a reason\<close>











lemma only_refuse [only_rules]: "only p (refuse e)"
  unfolding refuse_def by (rule only_rules)


lemma only_read_clock [only_rules]: "(\<And>x. p (VNow x)) \<Longrightarrow> only p (read_clock E)"
  unfolding read_clock_def by (intro only_rules)

















section \<open>What becomes a reference\<close>

definition now_to_expiry :: "instant \<Rightarrow> instant \<Rightarrow> bool" where
  "now_to_expiry now expires \<longleftrightarrow>
     time_sub expires now \<in> {one_day_ns..90 * one_day_ns}"

text \<open>A reference is created of a run that was read as succeeded, of authenticity, on the supplier
  itself, with its stable fingerprint, and expires one to ninety days later.\<close>

definition earned_reference :: "evaluation_event \<Rightarrow> evaluation_event list \<Rightarrow> bool" where
  "earned_reference e t \<longleftrightarrow>
     (case e of
        VCreateReference i run trust reason actor now expires key hash r \<Rightarrow>
          read_run run t \<and> er_status run = RunSucceeded \<and> er_purpose run = PurposeAuthenticity
          \<and> er_target_kind run = TargetSupplierDirect
          \<and> list_ex (\<lambda>e. case e of VGetFingerprint j (Inr f) \<Rightarrow> j = er_id run \<and> stable_fingerprint f | _ \<Rightarrow> False) t
          \<and> now_to_expiry now expires \<and> reason \<noteq> [] \<and> actor \<noteq> []
      | _ \<Rightarrow> True)"

lemma not_reference_earned: "(case e of VCreateReference i run tr re a n ex k h r \<Rightarrow> False | _ \<Rightarrow> True) \<Longrightarrow> earned_reference e t"
  by (cases e) (auto simp: earned_reference_def)

abbreviation no_reference :: "evaluation_event \<Rightarrow> bool" where
  "no_reference e \<equiv> (case e of VCreateReference i run tr re a n ex k h r \<Rightarrow> False | _ \<Rightarrow> True)"

text \<open>C6: In every environment, only a succeeded authenticity run of the supplier itself, with a
  fingerprint that was read and measured as stable, becomes a reference, with a reason and an actor,
  and it expires between one and ninety days after the promotion.\<close>

theorem references_are_earned:
  "case promote_reference E c w [] of (out, w', t) \<Rightarrow> guarded earned_reference t"
proof -
  have run: "gives (try_value (observed (VGetRun i) f) (\<lambda>e. ret (Inl e))) [] (\<lambda>run t. read_run run t)" for i f
    by (intro gives_rules) (simp add: read_run_def split: sum.split)
  have fingerprint: "gives (try_value (observed (VGetFingerprint i) f) (\<lambda>e. ret (Inl e))) t
      (\<lambda>fp t'. VGetFingerprint i (Inr fp) \<in> set t')" for i f t
    by (intro gives_rules) (simp split: sum.split)
  have "safe (promote_reference E c) [] (\<lambda>_. guarded earned_reference)"
  proof (cases "promotion_error c")
    case (Some e)
    then show ?thesis by (simp add: promote_reference_def)
  next
    case None
    then have days: "1 \<le> rk_valid_days c" "rk_valid_days c \<le> 90" "trim_space (rk_reason c) \<noteq> []" "trim_space (rk_actor c) \<noteq> []"
      by (auto simp: promotion_error_def split: if_splits)
    have expiry: "now_to_expiry now (time_add now (rk_valid_days c * one_day_ns))" for now
      using days by (simp add: now_to_expiry_def time_sub_def time_add_def one_day_ns_def nanos_per_minute_def nanos_per_second_def
          max_int64_def min_int64_def)
    show ?thesis
      unfolding promote_reference_def None option.case Let_def
    proof (rule kept_invoke, rule kept_phase [where p = no_reference, OF _ run], (intro only_rules; simp), erule not_reference_earned,
        simp, goal_cases)
      case (1 run t)
      note one = 1
      show ?case
      proof (cases "er_status run \<noteq> RunSucceeded \<or> er_purpose run \<noteq> PurposeAuthenticity \<or> er_target_kind run \<noteq> TargetSupplierDirect")
        case True
        then show ?thesis using one by simp
      next
        case False
        show ?thesis
          unfolding if_not_P [OF False]
        proof (rule kept_phase [where p = no_reference, OF _ fingerprint], (intro only_rules; simp), erule not_reference_earned,
            rule one(1), goal_cases)
          case (1 fp t1)
          have evidence: "read_run run t1" "VGetFingerprint (er_id run) (Inr fp) \<in> set t1"
            using one 1 read_mono by blast+
          show ?case
          proof (cases "stable_fingerprint fp")
            case unstable: False
            then show ?thesis using 1 by simp
          next
            case True
            have earned: "earned_reference (VCreateReference i run (rk_trust c) (trim_space (rk_reason c)) (trim_space (rk_actor c)) now
                (time_add now (rk_valid_days c * one_day_ns)) (rk_request_key c) (rk_request_hash c) r) t2"
              if "set t1 \<subseteq> set t2" for i now r t2
              unfolding earned_reference_def evaluation_event.case list_ex_iff
              using read_mono [OF evidence(1) that] subsetD [OF that evidence(2)] False expiry days(3,4)
              by (auto intro!: bexI [of _ "VGetFingerprint (er_id run) (Inr fp)"] simp: True)
            have clock: "only no_reference (read_clock E)" by (intro only_rules) simp
            have stable: "\<not> \<not> stable_fingerprint fp" using True by simp
            show ?thesis
              unfolding if_not_P [OF stable]
              by (rule kept_before [where p = no_reference, OF clock], erule not_reference_earned, rule 1(1))
                (auto intro!: safe_bind safe_silent safe_observed earned)
          qed
        qed
      qed
    qed
  qed
  then show ?thesis by (cases "promote_reference E c w []") (auto dest: safeD)
qed

end
