(* ===== verification/Spec2Isabelle.thy ===== *)
theory Spec2Isabelle imports Histogram Automation Sync Collection ScoreRuns EvaluationService begin

text \<open>
  Verification library of ManyRouter, a control service for New API gateways: it collects what the
  gateways measured, probes the suppliers, scores every supplier and model, advises which supplier
  should serve which group, and brings each gateway into the planned state.  The library models the
  Go code under \<open>internal/domain\<close> and \<open>internal/application\<close> that decides;
  databases, HTTP, encryption and the console stay outside.

  Parts and how they interact.
    \<^item> Plans (\<open>domain/value\<close>, \<open>site\<close>, \<open>credential\<close>, \<open>supplier\<close>, \<open>routing\<close>): theories Values, Sites,
      Suppliers, Relations, Snapshots.  A relation of a site and a supplier gives a snapshot, the
      desired state of one group and channel (schema 1) or of a whole site (schema 2).
    \<^item> Synchronisation (\<open>application/reconciliation\<close>): Gateway has the data, Diff the comparison of
      desired and actual state, Effects the calls of the service, Steps the recording of steps and
      failures, SiteSync the synchronisation of a site call by call, ManagedSync by one atomic call,
      Sync the request of a synchronisation and \<open>Run\<close>, which loads the plan, takes the lock of
      the site, loads again and synchronises a site or one relation.
    \<^item> Measurement (\<open>domain/measurement\<close>, \<open>application/collection\<close>): Facts has the facts and their
      validation, ErrorFacts the classification of errors, Conversion turns logs and probes into
      facts, LogParser reads a remote log, Collection is the service that splits the time into
      windows, reads and converts them, and moves the stored cursor.
    \<^item> Scoring (\<open>domain/scoring\<close>, \<open>application/scoring\<close>): Histogram, Scoring (scores and dimensions),
      Evidence, Windows (the combination of the scored windows) and Recommendation; ScoreInputs builds scores and gates from what the
      repository stores, ScoreRuns is \<open>Refresh\<close>, one run over all targets.
    \<^item> Decisions (\<open>domain/automation\<close>): Automation decides on membership and holds of a site's
      suppliers from the advices.
    \<^item> Evaluation (\<open>domain/evaluation\<close>, \<open>application/evaluation\<close>): Authenticity compares the fingerprint
      of a model with a reference, Answers normalises the answers of the probes, Probes has the plan of
      a run, EvaluationRuns executes a run, EvaluationService requests, schedules and retries runs
      and promotes references.
    \<^item> Below them: Prelude (errors as sums, instants, identifiers, loops that stop at an error), Texts
      (Go strings as bytes and as runes), F64 (\<open>float64\<close> as IEEE binary64, round to nearest even),
      Externals (the libraries that are parameters), Programs (operations with effects).

  How code is read.
  A struct is a record, an enumeration a datatype, an error the left side of a sum or a value of
  \<open>go_error\<close>; machine integers are words or bounded integers where the code depends on the bound;
  a map with an order that matters is an association list.  A method with effects is a function of
  an abstract world and of the trace of its calls (Programs): a value, an early return or a panic, the
  new world, and one event per call with its arguments and its reply.  The trace is a ghost: no
  program reads it.  Every external call is a field of the environment record of its service
  (\<open>env\<close>, \<open>collection_env\<close>, \<open>scoring_env\<close>, \<open>eval_env\<close>), so a theorem about all environments
  and worlds covers every reply, every error and every change made by others in between.  A body that
  is too long for one definition is cut into phases, which the definition of the method composes.

  What the lemmas show.
    \<^item> \<open>safe\<close>, \<open>gives\<close>, \<open>only\<close>, \<open>keeps\<close> and \<open>guarded\<close> (Programs) are one rule set each: what holds
      of outcome and trace, of a value that is passed on, which events can be added, which condition
      of an event on the events before it is kept.  Theorems about traces rest on them.
    \<^item> Locales: \<open>group_merge\<close> (Diff) states once that merging a plan into a map of the gateway
      establishes the plan and keeps the rest, and is interpreted for prices and for visibility;
      \<open>window_visitor\<close> (Collection) states what a visitor of windows keeps over the whole scan, and is
      interpreted for the visitor of the service; \<open>nearest_rounding\<close> (F64) has the facts of rounding
      and is interpreted for binary64.
    \<^item> Synchronisation: locking, order of writes, tests before enabling, what a completion has verified,
      what a failure records (Sync, SiteGuards, ManagedSync, Diff, Steps).
    \<^item> Collection: no second is left out, the reads are bounded, failures are recorded once; batches
      account for every log (Collection, Conversion, Facts).
    \<^item> Scoring: exact histograms and percentiles, evidence, gates, advices, and what a refresh stores and
      reports (Histogram, Evidence, Scoring, Recommendation, Automation, ScoreRuns).
    \<^item> Evaluation: plans, reservations before probes, completion, dispatch only when due, references
      that were earned (Probes, Answers, Authenticity, EvaluationRuns, EvaluationService).

  Termination and bounds.
  No definition uses fuel: loops are structural recursions over their lists, and the splitting of time
  windows, the reading of pages and the loops over texts have measures (Collection, Prelude, Texts,
  ErrorFacts).  A run sends at most 96
  probes, the length of the longest plan.

  Not modelled, or left to parameters.
    \<^item> Parameters (\<open>libs\<close> and fields of the environments): \<open>encoding/json\<close>, \<open>net/url\<close>,
      \<open>shopspring/decimal\<close>, \<open>google/uuid\<close>, sha256, Unicode case, normalisation and punctuation,
      the layout of times, \<open>math.Log2\<close>, \<open>math/rand\<close>, the order in which a map is ranged over.
    \<^item> F64 has no signed zeros and no fused multiply-add; a conversion of a float to an integer out of
      range gives what amd64 gives.
    \<^item> Texts and causes of messages, payloads of the step log, clearing of secrets in memory, and
      cancellation by a context are dropped.  Readings of the clock leave an event only in the
      request and scheduling of evaluation runs, where a property speaks about them.
    \<^item> Operations, the automation and catalog services, compatibility checks, onboarding, idempotency,
      runtime health, accounts, adapters, storage, jobs, platform, transport and the console.
\<close>

end
